(* ===== verification/Prelude.thy ===== *)
theory Prelude
  imports Complex_Main "HOL-Library.AList"
begin

text \<open>
  The vocabulary every component theory shares.

  \<^item> \<open>exn\<close>: the exceptions the Python code raises or lets escape, one constructor per class;
    a fallible function returns \<open>exn + 'a\<close>, with \<open>Inl\<close> for a raise.
  \<^item> \<open>andthen\<close>: sequencing of fallible steps, i.e. what a Python statement list does when
    one of its statements raises; \<open>each\<close> and \<open>each_st\<close> are the loops that stop at
    the first raise.
  \<^item> \<open>dict\<close>: a Python dict, an association list in insertion order; \<open>dict_set\<close> keeps
    the position of a key that is already there, as CPython does.

  The collection \<open>result_simps\<close> holds the rewriting and inversion rules for \<open>andthen\<close>.
\<close>

named_theorems result_simps

section \<open>Exceptions as values\<close>

datatype exn =
    SpecValidationError string
  | ScoringError string
  | InvalidOperation
  | DivisionByZero
  | DecimalOverflow
  | ValueError string
  | TypeError string
  | AttributeError string
  | KeyError string
  | IndexError
  | RuntimeError string
  | AnalyzerError string
  | ToolDigestMismatchError string
  | NetworkIsolationError
  | GitSafetyError string
  | GitTimeoutError string
  | OSError string
  | JSONDecodeError
  | CircuitBreakerOpenError string
  | RetryExhaustedError string
  | DispatchError string
  | OverflowError
  | TimeoutExpired
  | IntegrityError
  | AuthError string
  | Unauthorized string
  | Forbidden string
  | NotFound string
  | RateLimited string
  | BadRequest string
  | HTTPException int string
  | ImportError string

type_synonym 'a result = "exn + 'a"

definition andthen :: "('e + 'a) \<Rightarrow> ('a \<Rightarrow> 'e + 'b) \<Rightarrow> 'e + 'b" where
  "andthen m f = (case m of Inl e \<Rightarrow> Inl e | Inr x \<Rightarrow> f x)"

lemma andthen_Inl [simp, result_simps]: "andthen (Inl e) f = Inl e"
  by (simp add: andthen_def)

lemma andthen_Inr [simp, result_simps]: "andthen (Inr x) f = f x"
  by (simp add: andthen_def)

lemma andthen_eq_Inr [result_simps]:
  "andthen m f = Inr y \<longleftrightarrow> (\<exists>x. m = Inr x \<and> f x = Inr y)"
  by (cases m) auto

lemma andthen_eq_Inl [result_simps]:
  "andthen m f = Inl e \<longleftrightarrow> m = Inl e \<or> (\<exists>x. m = Inr x \<and> f x = Inl e)"
  by (cases m) auto

lemma andthen_assoc: "andthen (andthen m f) g = andthen m (\<lambda>x. andthen (f x) g)"
  by (cases m) auto

lemma andthen_cong [fundef_cong]:
  "m = m' \<Longrightarrow> (\<And>x. m' = Inr x \<Longrightarrow> f x = g x) \<Longrightarrow> andthen m f = andthen m' g"
  by (cases m') auto

definition require :: "bool \<Rightarrow> 'e \<Rightarrow> 'e + unit" where
  "require b e = (if b then Inr () else Inl e)"

lemma require_eq_Inr [simp]: "require b e = Inr u \<longleftrightarrow> b"
  by (simp add: require_def)

lemma require_eq_Inl [simp]: "require b e = Inl e' \<longleftrightarrow> \<not> b \<and> e' = e"
  by (auto simp: require_def)

lemma require_True [simp]: "require True e = Inr ()"
  and require_False [simp]: "require False e = Inl e"
  by (simp_all add: require_def)

text \<open>A \<open>for\<close> loop that collects one value per item and stops at the first raise.\<close>

fun each :: "('a \<Rightarrow> 'e + 'b) \<Rightarrow> 'a list \<Rightarrow> 'e + 'b list" where
  "each f [] = Inr []"
| "each f (x # xs) = andthen (f x) (\<lambda>y. andthen (each f xs) (\<lambda>ys. Inr (y # ys)))"

text \<open>A \<open>for\<close> loop over a loop-carried state.\<close>

fun each_st :: "('s \<Rightarrow> 'a \<Rightarrow> 'e + 's) \<Rightarrow> 's \<Rightarrow> 'a list \<Rightarrow> 'e + 's" where
  "each_st f s [] = Inr s"
| "each_st f s (x # xs) = andthen (f s x) (\<lambda>s'. each_st f s' xs)"

lemma each_cong [fundef_cong]:
  "xs = ys \<Longrightarrow> (\<And>x. x \<in> set ys \<Longrightarrow> f x = g x) \<Longrightarrow> each f xs = each g ys"
proof (induction ys arbitrary: xs)
  case Nil
  then show ?case by simp
next
  case (Cons y ys)
  from Cons.IH [OF refl Cons.prems(2)] have "each f ys = each g ys" by simp
  with Cons.prems show ?case by simp
qed

lemma each_length: "each f xs = Inr ys \<Longrightarrow> length ys = length xs"
  by (induction xs arbitrary: ys) (auto simp: result_simps)

lemma each_nth: "each f xs = Inr ys \<Longrightarrow> i < length xs \<Longrightarrow> f (xs ! i) = Inr (ys ! i)"
proof (induction xs arbitrary: ys i)
  case Nil
  then show ?case by simp
next
  case (Cons x xs)
  from Cons.prems(1) obtain y ys' where "f x = Inr y" "each f xs = Inr ys'" "ys = y # ys'"
    by (auto simp: result_simps)
  with Cons.IH Cons.prems(2) show ?case by (cases i) auto
qed

lemma each_total: "(\<And>x. x \<in> set xs \<Longrightarrow> f x = Inr (g x)) \<Longrightarrow> each f xs = Inr (map g xs)"
  by (induction xs) auto

lemma each_st_append:
  "each_st f s (xs @ ys) = andthen (each_st f s xs) (\<lambda>s'. each_st f s' ys)"
  by (induction xs arbitrary: s) (auto simp: andthen_assoc)

section \<open>Python sequences\<close>

definition py_index :: "'a list \<Rightarrow> nat \<Rightarrow> 'a result" where
  "py_index xs i = (if i < length xs then Inr (xs ! i) else Inl IndexError)"

lemma py_index_ok [simp]: "i < length xs \<Longrightarrow> py_index xs i = Inr (xs ! i)"
  by (simp add: py_index_def)

definition py_last :: "'a list \<Rightarrow> 'a result" where
  "py_last xs = (if xs = [] then Inl IndexError else Inr (last xs))"

lemma py_last_ok [simp]: "xs \<noteq> [] \<Longrightarrow> py_last xs = Inr (last xs)"
  by (simp add: py_last_def)

text \<open>\<open>max(xs, default=0)\<close> over non-negative integers.\<close>

definition max_default :: "nat list \<Rightarrow> nat" where
  "max_default xs = foldl max 0 xs"

lemma foldl_max_le: "foldl max a xs \<le> (b::nat) \<longleftrightarrow> a \<le> b \<and> (\<forall>x\<in>set xs. x \<le> b)"
  by (induction xs arbitrary: a) auto

lemma foldl_max_ge: "a \<le> foldl max a xs" "x \<in> set xs \<Longrightarrow> (x::nat) \<le> foldl max a xs"
  using foldl_max_le [of a xs "foldl max a xs"] by auto

lemma foldl_max_in: "foldl max a xs \<in> insert (a::nat) (set xs)"
  by (induction xs arbitrary: a) (auto simp: max_def split: if_splits)

lemma max_default_Nil [simp]: "max_default [] = 0"
  by (simp add: max_default_def)

lemma max_default_le: "max_default xs \<le> b \<longleftrightarrow> (\<forall>x\<in>set xs. x \<le> b)"
  by (simp add: max_default_def foldl_max_le)

lemma max_default_ge: "x \<in> set xs \<Longrightarrow> x \<le> max_default xs"
  by (simp add: max_default_def foldl_max_ge)

lemma max_default_in: "xs \<noteq> [] \<Longrightarrow> max_default xs \<in> set xs"
  using foldl_max_in [of 0 xs] foldl_max_ge [where a = 0 and xs = xs]
  by (cases xs) (auto simp: max_default_def)

section \<open>Dictionaries in insertion order\<close>

type_synonym ('k, 'v) dict = "('k \<times> 'v) list"

abbreviation dict_get :: "('k, 'v) dict \<Rightarrow> 'k \<Rightarrow> 'v option" where
  "dict_get d k \<equiv> map_of d k"

abbreviation dict_set :: "'k \<Rightarrow> 'v \<Rightarrow> ('k, 'v) dict \<Rightarrow> ('k, 'v) dict" where
  "dict_set k v d \<equiv> AList.update k v d"

abbreviation dict_pop :: "'k \<Rightarrow> ('k, 'v) dict \<Rightarrow> ('k, 'v) dict" where
  "dict_pop k d \<equiv> AList.delete k d"

abbreviation dict_keys :: "('k, 'v) dict \<Rightarrow> 'k list" where
  "dict_keys d \<equiv> map fst d"

lemma dict_get_set [simp]:
  "dict_get (dict_set k v d) k' = (if k = k' then Some v else dict_get d k')"
  by (simp add: update_conv')

lemma dict_get_pop [simp]: "dict_get (dict_pop k d) k' = (if k = k' then None else dict_get d k')"
  by (simp add: delete_conv')

lemma dict_set_distinct [intro]: "distinct (dict_keys d) \<Longrightarrow> distinct (dict_keys (dict_set k v d))"
  by (rule distinct_update)

lemma dict_set_keys: "set (dict_keys (dict_set k v d)) = insert k (set (dict_keys d))"
  using dom_update [of k v d] by (simp add: dom_map_of_conv_image_fst image_set [symmetric])

end
