(* ===== verification/PyText.thy ===== *)
theory PyText
  imports Prelude
begin

text \<open>
  The string operations of Python the program uses, on \<open>string\<close> (a list of
  characters, i.e. of the code points below 256): \<open>str.strip\<close>, \<open>str.split\<close> with and
  without a separator, \<open>str.startswith\<close>, \<open>str.splitlines\<close>, decimal rendering and
  reading of natural numbers, and the regular expressions the validators use.

  A pattern \<open>^R$\<close> used with \<open>re.match\<close> is \<open>re_dollar\<close>: the anchor \<open>$\<close> of Python also
  matches just before a final newline, so \<open>re_dollar R s\<close> holds of \<open>s\<close> itself and of
  \<open>s\<close> with one newline appended.
\<close>

section \<open>Scanning\<close>

definition starts_with :: "string \<Rightarrow> string \<Rightarrow> bool" where
  "starts_with p s \<longleftrightarrow> take (length p) s = p"

lemma starts_with_append [simp]: "starts_with p (p @ s)"
  by (simp add: starts_with_def)

lemma starts_with_iff: "starts_with p s \<longleftrightarrow> (\<exists>r. s = p @ r)"
  by (metis append_take_drop_id starts_with_append starts_with_def)

definition py_space :: "char \<Rightarrow> bool" where
  "py_space c \<longleftrightarrow> (of_char c :: nat) \<in> set ([9..<14] @ [28..<33] @ [133, 160])"

definition py_lstrip :: "string \<Rightarrow> string" where
  "py_lstrip s = dropWhile py_space s"

definition py_strip :: "string \<Rightarrow> string" where
  "py_strip s = rev (dropWhile py_space (rev (py_lstrip s)))"

lemma dropWhile_hd: "xs \<noteq> [] \<Longrightarrow> \<not> P (hd xs) \<Longrightarrow> dropWhile P xs = xs"
  by (cases xs) auto

lemma py_strip_id:
  "s \<noteq> [] \<Longrightarrow> \<not> py_space (hd s) \<Longrightarrow> \<not> py_space (last s) \<Longrightarrow> py_strip s = s"
  by (simp add: py_strip_def py_lstrip_def dropWhile_hd hd_rev)

lemma py_strip_snoc_space:
  assumes "s \<noteq> []" "\<not> py_space (hd s)" "\<not> py_space (last s)" "py_space c"
  shows "py_strip (s @ [c]) = s"
proof -
  from assms(1,2) have "dropWhile py_space (s @ [c]) = s @ [c]" by (simp add: dropWhile_hd)
  with assms show ?thesis by (simp add: py_strip_def py_lstrip_def dropWhile_hd hd_rev)
qed

text \<open>\<open>s.split(c)\<close> with a one-character separator: always at least one field.\<close>

fun split_char :: "char \<Rightarrow> string \<Rightarrow> string list" where
  "split_char c [] = [[]]"
| "split_char c (x # xs) =
     (if x = c then [] # split_char c xs
      else (case split_char c xs of [] \<Rightarrow> [[x]] | f # fs \<Rightarrow> (x # f) # fs))"

lemma split_char_nonempty [simp]: "split_char c s \<noteq> []"
  by (induction s) (auto split: list.splits)

lemma split_char_no_sep: "c \<notin> set s \<Longrightarrow> split_char c s = [s]"
  by (induction s) auto

lemma split_char_append:
  "c \<notin> set s \<Longrightarrow> split_char c (s @ c # t) = s # split_char c t"
  by (induction s) auto

text \<open>
  \<open>s.split(None, 1)\<close>: runs of whitespace separate, at most one split is made, and the
  remainder keeps its inner and trailing whitespace.
\<close>

definition split_ws1 :: "string \<Rightarrow> string list" where
  "split_ws1 s =
     (let t = py_lstrip s;
          w = takeWhile (\<lambda>c. \<not> py_space c) t;
          r = py_lstrip (dropWhile (\<lambda>c. \<not> py_space c) t)
      in if t = [] then [] else if r = [] then [w] else [w, r])"

text \<open>\<open>str.splitlines\<close>: the line boundaries are those of the \<open>str\<close> type.\<close>

definition line_break :: "char \<Rightarrow> bool" where
  "line_break c \<longleftrightarrow> (of_char c :: nat) \<in> {10, 11, 12, 13, 28, 29, 30, 133}"

fun splitlines_acc :: "string \<Rightarrow> string \<Rightarrow> string list" where
  "splitlines_acc acc [] = (if acc = [] then [] else [rev acc])"
| "splitlines_acc acc (c # cs) =
     (if c = CHR 0x0D then
        (case cs of d # ds \<Rightarrow> if d = CHR 0x0A then rev acc # splitlines_acc [] ds
                              else rev acc # splitlines_acc [] cs
                  | [] \<Rightarrow> rev acc # splitlines_acc [] cs)
      else if line_break c then rev acc # splitlines_acc [] cs
      else splitlines_acc (c # acc) cs)"

definition splitlines :: "string \<Rightarrow> string list" where
  "splitlines s = splitlines_acc [] s"

section \<open>Numerals\<close>

definition is_digit :: "char \<Rightarrow> bool" where
  "is_digit c \<longleftrightarrow> c \<in> set ''0123456789''"

definition digit_val :: "char \<Rightarrow> nat" where
  "digit_val c = of_char c - 48"

definition digit_char :: "nat \<Rightarrow> char" where
  "digit_char n = ''0123456789'' ! (n mod 10)"

definition nat_of_digits :: "string \<Rightarrow> nat" where
  "nat_of_digits s = foldl (\<lambda>n c. 10 * n + digit_val c) 0 s"

fun string_of_nat :: "nat \<Rightarrow> string" where
  "string_of_nat n = (if n < 10 then [digit_char n] else string_of_nat (n div 10) @ [digit_char n])"

declare string_of_nat.simps [simp del]

definition string_of_int :: "int \<Rightarrow> string" where
  "string_of_int i = (if i < 0 then CHR ''-'' # string_of_nat (nat (- i)) else string_of_nat (nat i))"

lemma digit_val_nth: "k < 10 \<Longrightarrow> digit_val (''0123456789'' ! k) = k"
  by (auto simp: eval_nat_numeral less_Suc_eq digit_val_def)

lemma digit_char_cases:
  "digit_char n \<in> set ''0123456789'' \<and> digit_val (digit_char n) = n mod 10"
proof -
  have "digit_char n \<in> set ''0123456789''"
    unfolding digit_char_def by (rule nth_mem) simp
  then show ?thesis by (simp add: digit_char_def digit_val_nth)
qed

lemma is_digit_digit_char [simp]: "is_digit (digit_char n)"
  using digit_char_cases [of n] by (simp only: is_digit_def)

lemma digit_val_digit_char [simp]: "digit_val (digit_char n) = n mod 10"
  using digit_char_cases by simp

lemma nat_of_digits_snoc [simp]: "nat_of_digits (s @ [c]) = 10 * nat_of_digits s + digit_val c"
  by (simp add: nat_of_digits_def)

lemma nat_of_digits_Nil [simp]: "nat_of_digits [] = 0"
  by (simp add: nat_of_digits_def)

lemma string_of_nat_digits: "\<forall>c\<in>set (string_of_nat n). is_digit c"
proof (induction n rule: string_of_nat.induct)
  case (1 n)
  then show ?case by (subst string_of_nat.simps) auto
qed

lemma string_of_nat_nonempty [simp]: "string_of_nat n \<noteq> []"
  by (subst string_of_nat.simps) simp

lemma nat_of_string_of_nat [simp]: "nat_of_digits (string_of_nat n) = n"
proof (induction n rule: string_of_nat.induct)
  case (1 n)
  show ?case
  proof (cases "n < 10")
    case True
    then show ?thesis
      by (subst string_of_nat.simps) (simp add: nat_of_digits_def)
  next
    case False
    with 1 have "nat_of_digits (string_of_nat (n div 10)) = n div 10" by simp
    with False show ?thesis by (subst string_of_nat.simps) simp
  qed
qed

lemma is_digit_not_space: "is_digit c \<Longrightarrow> \<not> py_space c"
  by (auto simp: is_digit_def py_space_def)

section \<open>Validating patterns\<close>

definition is_hex_lower :: "char \<Rightarrow> bool" where
  "is_hex_lower c \<longleftrightarrow> c \<in> set ''0123456789abcdef''"

definition hex_run :: "nat \<Rightarrow> string \<Rightarrow> bool" where
  "hex_run n s \<longleftrightarrow> length s = n \<and> list_all is_hex_lower s"

definition sha256_text :: "string \<Rightarrow> bool" where
  "sha256_text s \<longleftrightarrow> starts_with ''sha256:'' s \<and> hex_run 64 (drop 7 s)"

abbreviation newline :: char where
  "newline \<equiv> CHR 0x0A"

definition re_dollar :: "(string \<Rightarrow> bool) \<Rightarrow> string \<Rightarrow> bool" where
  "re_dollar R s \<longleftrightarrow> R s \<or> (s \<noteq> [] \<and> last s = newline \<and> R (butlast s))"

lemma re_dollar_self: "R s \<Longrightarrow> re_dollar R s"
  by (simp add: re_dollar_def)

lemma re_dollar_newline: "R s \<Longrightarrow> re_dollar R (s @ [newline])"
  by (simp add: re_dollar_def)

lemma re_dollar_iff: "re_dollar R s \<longleftrightarrow> R s \<or> (\<exists>t. s = t @ [newline] \<and> R t)"
  by (metis append_butlast_last_id butlast_snoc re_dollar_def snoc_eq_iff_butlast)

lemma is_hex_lower_not_space: "is_hex_lower c \<Longrightarrow> \<not> py_space c"
  by (auto simp: is_hex_lower_def py_space_def)

end
