(* ===== verification/Rounding.thy ===== *)
theory Rounding
  imports Prelude
begin

text \<open>
  Correct rounding to a fixed number of significant digits, for any radix. The program
  computes with two such formats: \<open>decimal.Decimal\<close> under precision 28 (radix 10) in the
  scoring core, and IEEE doubles (radix 2, 53 digits) in the rate limiter.

  \<^item> \<open>ndigits\<close>, \<open>half_even\<close> and \<open>round_coeff\<close> are the executable side: they round a
    coefficient and an exponent.
  \<^item> \<open>rnd\<close> is the abstract side: the real number that round-half-even to \<open>p\<close> digits of
    radix \<open>b\<close> and least exponent \<open>et\<close> gives for a real number.
  \<^item> The locale \<open>radix_format\<close> holds the laws both formats share: \<open>round_coeff\<close> computes
    \<open>rnd\<close>, \<open>rnd\<close> is monotone, and it keeps every number that fits.
\<close>

section \<open>Rounding to an integer, ties to even\<close>

definition half_even :: "nat \<Rightarrow> nat \<Rightarrow> nat" where
  "half_even n d =
     (let q = n div d; r = n mod d
      in if 2 * r < d \<or> (2 * r = d \<and> even q) then q else q + 1)"

definition rhe :: "real \<Rightarrow> int" where
  "rhe x = (let q = \<lfloor>x\<rfloor>; r = x - of_int q
            in if r < 1/2 \<or> (r = 1/2 \<and> even q) then q else q + 1)"

lemma rhe_of_int [simp]: "rhe (of_int k) = k"
  by (simp add: rhe_def)

lemma rhe_of_nat [simp]: "rhe (real n) = int n"
  using rhe_of_int [of "int n"] by simp

lemma rhe_0 [simp]: "rhe 0 = 0"
  using rhe_of_int [of 0] by simp

lemma rhe_cases: "rhe x = \<lfloor>x\<rfloor> \<or> rhe x = \<lfloor>x\<rfloor> + 1"
  by (simp add: rhe_def Let_def)

lemma rhe_error: "\<bar>of_int (rhe x) - x\<bar> \<le> 1/2"
  unfolding rhe_def Let_def
  by (auto simp: abs_le_iff split: if_splits)

lemma rhe_mono: "x \<le> y \<Longrightarrow> rhe x \<le> rhe y"
proof -
  assume xy: "x \<le> y"
  then have fl: "\<lfloor>x\<rfloor> \<le> \<lfloor>y\<rfloor>" by (rule floor_mono)
  show ?thesis
  proof (cases "\<lfloor>x\<rfloor> = \<lfloor>y\<rfloor>")
    case True
    with xy show ?thesis by (auto simp: rhe_def Let_def)
  next
    case False
    with fl have "\<lfloor>x\<rfloor> + 1 \<le> \<lfloor>y\<rfloor>" by simp
    with rhe_cases [of x] rhe_cases [of y] show ?thesis by auto
  qed
qed

lemma rhe_minus [simp]: "rhe (- x) = - rhe x"
proof (cases "x = of_int \<lfloor>x\<rfloor>")
  case True
  then show ?thesis using rhe_of_int [of "\<lfloor>x\<rfloor>"] rhe_of_int [of "- \<lfloor>x\<rfloor>"] by simp
next
  case False
  then have "\<lfloor>- x\<rfloor> = - \<lfloor>x\<rfloor> - 1" by linarith
  then show ?thesis by (auto simp: rhe_def Let_def)
qed

lemma half_even_rhe:
  assumes "0 < d"
  shows "int (half_even n d) = rhe (real n / real d)"
proof -
  let ?q = "n div d" and ?r = "n mod d"
  obtain t where t: "t = real ?r / real d" by simp
  have "real n = real d * real ?q + real ?r"
    by (metis mult_div_mod_eq of_nat_add of_nat_mult)
  with assms have x: "real n / real d = real ?q + t"
    by (simp add: field_simps t)
  have "0 \<le> t" "t < 1"
    using assms by (simp_all add: t)
  then have fl: "\<lfloor>real n / real d\<rfloor> = int ?q"
    unfolding x by linarith
  have "t < 1/2 \<longleftrightarrow> real (2 * ?r) < real d" and "t = 1/2 \<longleftrightarrow> real (2 * ?r) = real d"
    using assms by (auto simp: field_simps t)
  then have half: "t < 1/2 \<longleftrightarrow> 2 * ?r < d" "t = 1/2 \<longleftrightarrow> 2 * ?r = d"
    by (simp_all only: of_nat_less_iff of_nat_eq_iff)
  have "rhe (real n / real d) = (if t < 1/2 \<or> (t = 1/2 \<and> even ?q) then int ?q else int ?q + 1)"
    unfolding rhe_def Let_def fl by (simp add: x)
  then show ?thesis
    unfolding half_even_def Let_def half by simp
qed

section \<open>Counting digits\<close>

fun ndigits :: "nat \<Rightarrow> nat \<Rightarrow> nat" where
  "ndigits b n = (if n < b \<or> b < 2 then 1 else Suc (ndigits b (n div b)))"

declare ndigits.simps [simp del]

lemma ndigits_pos [simp]: "0 < ndigits b n"
  by (subst ndigits.simps) simp

lemma ndigits_bounds:
  "2 \<le> b \<Longrightarrow> 0 < n \<Longrightarrow> b ^ (ndigits b n - 1) \<le> n \<and> n < b ^ ndigits b n"
proof (induction b n rule: ndigits.induct)
  case (1 b n)
  show ?case
  proof (cases "n < b")
    case True
    with 1 show ?thesis by (simp add: ndigits.simps [of b n])
  next
    case False
    with "1.prems" have "\<not> (n < b \<or> b < 2)" and dpos: "0 < n div b"
      by (auto simp: div_greater_zero_iff)
    with 1 have IH: "b ^ (ndigits b (n div b) - 1) \<le> n div b" "n div b < b ^ ndigits b (n div b)"
      by auto
    let ?k = "ndigits b (n div b)"
    have k: "b ^ ?k = b * b ^ (?k - 1)"
      using ndigits_pos [of b "n div b"] by (simp only: power_eq_if [of b ?k] if_not_P [OF gr_implies_not0])
    have "b * b ^ (?k - 1) \<le> n"
      by (rule order.trans [OF mult_le_mono2 [OF IH(1)] times_div_less_eq_dividend])
    with k have lo: "b ^ ?k \<le> n" by simp
    have hi: "n < b * b ^ ?k"
      using IH(2) "1.prems" by (simp add: div_less_iff_less_mult mult.commute)
    from lo hi False "1.prems" show ?thesis by (simp add: ndigits.simps [of b n])
  qed
qed

lemma ndigits_le_iff:
  assumes "2 \<le> b" "0 < n" "0 < k"
  shows "ndigits b n \<le> k \<longleftrightarrow> n < b ^ k"
proof
  assume "ndigits b n \<le> k"
  then have "b ^ ndigits b n \<le> b ^ k" using assms by (intro power_increasing) auto
  with conjunct2 [OF ndigits_bounds [OF assms(1,2)]] show "n < b ^ k" by (rule less_le_trans)
next
  assume less: "n < b ^ k"
  show "ndigits b n \<le> k"
  proof (rule ccontr)
    assume "\<not> ndigits b n \<le> k"
    then have "b ^ k \<le> b ^ (ndigits b n - 1)" using assms by (intro power_increasing) auto
    also have "\<dots> \<le> n" by (rule conjunct1 [OF ndigits_bounds [OF assms(1,2)]])
    finally show False using less by simp
  qed
qed

section \<open>Rounding a coefficient\<close>

text \<open>The value of a coefficient \<open>c\<close> at exponent \<open>e\<close>.\<close>

definition fval :: "nat \<Rightarrow> nat \<Rightarrow> int \<Rightarrow> real" where
  "fval b c e = real c * real b powi e"

definition round_exp :: "nat \<Rightarrow> nat \<Rightarrow> int \<Rightarrow> nat \<Rightarrow> int \<Rightarrow> int" where
  "round_exp b p et c e = max (int (ndigits b c) + e - int p) et"

text \<open>The quotient \<open>n / d\<close> at exponent \<open>e\<close>, rounded once.\<close>

definition round_quot :: "nat \<Rightarrow> nat \<Rightarrow> int \<Rightarrow> nat \<Rightarrow> nat \<Rightarrow> int \<Rightarrow> nat \<times> int" where
  "round_quot b p et n d e =
     (let m = round_exp b p et (n div d) e;
          c = half_even n (d * b ^ nat (m - e))
      in if p < ndigits b c then (c div b, m + 1) else (c, m))"

definition round_coeff :: "nat \<Rightarrow> nat \<Rightarrow> int \<Rightarrow> nat \<Rightarrow> int \<Rightarrow> nat \<times> int" where
  "round_coeff b p et c e =
     (if e < round_exp b p et c e then round_quot b p et c 1 e else (c, e))"

definition rnd_unit :: "nat \<Rightarrow> nat \<Rightarrow> int \<Rightarrow> real \<Rightarrow> int" where
  "rnd_unit b p et x = max (\<lfloor>log (real b) \<bar>x\<bar>\<rfloor> + 1 - int p) et"

definition rnd :: "nat \<Rightarrow> nat \<Rightarrow> int \<Rightarrow> real \<Rightarrow> real" where
  "rnd b p et x =
     (if x = 0 then 0
      else let u = real b powi rnd_unit b p et x in of_int (rhe (x / u)) * u)"

locale radix_format =
  fixes b :: nat and p :: nat and et :: int
  assumes radix: "2 \<le> b" and digits: "1 \<le> p"
begin

lemma b_pos [simp]: "0 < b" and b_gt1 [simp]: "Suc 0 < b"
  using radix by simp_all

lemma unit_pos: "0 < real b powi k"
  by simp

lemma unit_shift: "real b powi (k + int n) = real b ^ n * real b powi k"
  by (simp add: power_int_add)

lemma floor_log_iff:
  "0 < x \<Longrightarrow> \<lfloor>log (real b) x\<rfloor> = k \<longleftrightarrow> real b powi k \<le> x \<and> x < real b powi (k + 1)"
proof -
  assume x: "0 < x"
  have "real b powr real_of_int j = real b powi j" for j
    by (rule powr_real_of_int') simp_all
  from this [of k] this [of "k + 1"] floor_log_eq_powr_iff [OF x, of "real b" k]
  show ?thesis by simp
qed

lemma fval_pos [simp]: "0 < fval b c e \<longleftrightarrow> 0 < c"
  by (simp add: fval_def zero_less_mult_iff)

lemma fval_eq_0 [simp]: "fval b c e = 0 \<longleftrightarrow> c = 0"
  using radix by (simp add: fval_def)

lemma fval_shift: "fval b (c * b ^ n) e = fval b c (e + int n)"
  by (simp add: fval_def unit_shift)

text \<open>The magnitude of a quotient is that of its integer part.\<close>

lemma floor_log_quot:
  assumes "0 < n div d"
  shows "\<lfloor>log (real b) (real n / real d * real b powi e)\<rfloor> = int (ndigits b (n div d)) - 1 + e"
proof -
  let ?q = "n div d" and ?x = "real n / real d"
  let ?k = "ndigits b ?q"
  have d: "0 < d" using assms by (cases "d = 0") auto
  have "?q * d \<le> n" "n < (?q + 1) * d"
    using d by (simp_all add: div_times_less_eq_dividend dividend_less_div_times)
  then have "real (?q * d) \<le> real n" "real n < real ((?q + 1) * d)"
    by (simp_all only: of_nat_le_iff of_nat_less_iff)
  then have x: "real ?q \<le> ?x" "?x < real (?q + 1)"
    using d by (simp_all only: of_nat_mult pos_le_divide_eq pos_divide_less_eq of_nat_0_less_iff)
  have "b ^ (?k - 1) \<le> ?q" "?q + 1 \<le> b ^ ?k"
    using ndigits_bounds [OF radix assms] by auto
  then have "real (b ^ (?k - 1)) \<le> real ?q" "real (?q + 1) \<le> real (b ^ ?k)"
    by (simp_all only: of_nat_le_iff)
  with x have "real b ^ (?k - 1) \<le> ?x" "?x < real b ^ ?k"
    by (auto simp only: of_nat_power intro: order.trans less_le_trans)
  then have lo: "real b ^ (?k - 1) * real b powi e \<le> ?x * real b powi e"
    and hi: "?x * real b powi e < real b ^ ?k * real b powi e"
    using unit_pos [of e] by (simp_all only: mult_le_cancel_right_pos mult_less_cancel_right_pos)
  have "int ?k - 1 + e = e + int (?k - 1)" "int ?k - 1 + e + 1 = e + int ?k"
    using ndigits_pos [of b ?q] by linarith+
  with lo hi have "real b powi (int ?k - 1 + e) \<le> ?x * real b powi e"
    "?x * real b powi e < real b powi (int ?k - 1 + e + 1)"
    by (simp_all only: unit_shift)
  moreover have "0 < ?x * real b powi e"
    using x(1) assms by (intro mult_pos_pos) simp_all
  ultimately show ?thesis by (simp add: floor_log_iff)
qed

lemma rnd_unit_quot:
  assumes "0 < n div d"
  shows "rnd_unit b p et (real n / real d * real b powi e) = round_exp b p et (n div d) e"
  using floor_log_quot [OF assms, of e] by (simp add: rnd_unit_def round_exp_def abs_mult power_int_abs)

lemma floor_log_fval: "0 < c \<Longrightarrow> \<lfloor>log (real b) (fval b c e)\<rfloor> = int (ndigits b c) - 1 + e"
  using floor_log_quot [of c 1 e] by (simp add: fval_def)

lemma rnd_0 [simp]: "rnd b p et 0 = 0"
  by (simp add: rnd_def)

lemma rnd_minus: "rnd b p et (- x) = - rnd b p et x"
  by (simp add: rnd_def rnd_unit_def Let_def)

text \<open>The executable roundings compute the abstract one.\<close>

lemma half_even_le_power:
  assumes q: "0 < n div d" and m: "round_exp b p et (n div d) e \<le> m" and "e \<le> m"
  shows "half_even n (d * b ^ nat (m - e)) \<le> b ^ p"
proof -
  let ?k = "nat (m - e)" and ?q = "n div d"
  have d: "0 < d" using q by (cases "d = 0") auto
  have dpos: "0 < d * b ^ ?k" using d by simp
  have "int (ndigits b ?q) + e - int p \<le> m"
    using m by (simp add: round_exp_def)
  then have "ndigits b ?q \<le> ?k + p" using \<open>e \<le> m\<close> by linarith
  then have "b ^ ndigits b ?q \<le> b ^ (p + ?k)" using radix by (intro power_increasing) auto
  with ndigits_bounds [OF radix q] have "?q < b ^ (p + ?k)"
    by (blast intro: less_le_trans)
  then have "n < b ^ (p + ?k) * d"
    using d by (simp add: div_less_iff_less_mult)
  then have "real n \<le> real (b ^ p) * real (d * b ^ ?k)"
    by (metis less_imp_le mult.commute mult.left_commute of_nat_le_iff of_nat_mult power_add)
  then have "real n / real (d * b ^ ?k) \<le> real (b ^ p)"
    using dpos by (simp only: pos_divide_le_eq of_nat_0_less_iff)
  then have "rhe (real n / real (d * b ^ ?k)) \<le> int (b ^ p)"
    using rhe_mono rhe_of_nat by metis
  then show ?thesis
    using half_even_rhe [OF dpos, of n] by (metis of_nat_le_iff)
qed

lemma carry_value:
  assumes "c \<le> b ^ p"
  shows "(case (if p < ndigits b c then (c div b, m + 1) else (c, m)) of (c', e') \<Rightarrow> fval b c' e')
    = fval b c m"
proof (cases "p < ndigits b c")
  case True
  then have "c \<noteq> 0" using digits by (intro notI) (simp add: ndigits.simps [of b 0])
  with True have "b ^ p \<le> c"
    using ndigits_le_iff [OF radix, of c p] digits by fastforce
  with assms have "c = b ^ p" by simp
  then have "c = (c div b) * b ^ 1"
    using digits radix by (cases p) auto
  then have "fval b (c div b) (m + 1) = fval b c m"
    using fval_shift [of "c div b" 1 m] by simp
  with True show ?thesis by simp
qed simp

lemma round_quot_value:
  assumes q: "0 < n div d" and em: "e \<le> round_exp b p et (n div d) e"
  shows "(case round_quot b p et n d e of (c', e') \<Rightarrow> fval b c' e')
    = rnd b p et (real n / real d * real b powi e)"
proof -
  define m where "m = round_exp b p et (n div d) e"
  let ?k = "nat (m - e)" and ?x = "real n / real d * real b powi e"
  let ?c = "half_even n (d * b ^ ?k)"
  have d: "0 < d" using q by (cases "d = 0") auto
  have n: "0 < n" using q by (cases "n = 0") auto
  have "rnd_unit b p et ?x = m"
    unfolding m_def by (rule rnd_unit_quot [OF q])
  moreover have "?x \<noteq> 0" using n d by simp
  ultimately have rnd: "rnd b p et ?x = of_int (rhe (?x / real b powi m)) * real b powi m"
    by (simp add: rnd_def Let_def)
  have "real b powi m = real b ^ ?k * real b powi e"
    using em unit_shift [of e ?k] by (simp add: m_def)
  then have quot: "?x / real b powi m = real n / real (d * b ^ ?k)"
    using radix by simp
  have dpos: "0 < d * b ^ ?k" using d by simp
  have "real ?c = of_int (rhe (real n / real (d * b ^ ?k)))"
    using half_even_rhe [OF dpos] by (metis of_int_of_nat_eq)
  then have "fval b ?c m = rnd b p et ?x"
    unfolding rnd quot by (simp only: fval_def)
  moreover have "?c \<le> b ^ p"
    using half_even_le_power [OF q, of e m] em by (simp add: m_def)
  ultimately show ?thesis
    using carry_value [of ?c m] by (simp add: round_quot_def Let_def m_def [symmetric])
qed

text \<open>A rounded quotient fits: rounding it once more changes nothing.\<close>

lemma round_quot_fits:
  assumes q: "0 < n div d" and em: "e \<le> round_exp b p et (n div d) e"
    and r: "round_quot b p et n d e = (c', e')"
  shows "c' < b ^ p \<and> et \<le> e'"
proof -
  define m where "m = round_exp b p et (n div d) e"
  let ?c = "half_even n (d * b ^ nat (m - e))"
  have m: "et \<le> m" by (simp add: m_def round_exp_def)
  have le: "?c \<le> b ^ p"
    using half_even_le_power [OF q, of e m] em by (simp add: m_def)
  show ?thesis
  proof (cases "p < ndigits b ?c")
    case True
    with r have "c' = ?c div b" "e' = m + 1"
      by (simp_all add: round_quot_def Let_def m_def)
    moreover have "b ^ p div b < b ^ p" using radix by (intro div_less_dividend) auto
    with div_le_mono [OF le, of b] have "?c div b < b ^ p" by (rule order.strict_trans1)
    ultimately show ?thesis using m by simp
  next
    case False
    then have "?c < b ^ p"
      using ndigits_le_iff [OF radix, of ?c p] digits radix by (cases "?c = 0") auto
    with False r m show ?thesis by (auto simp: round_quot_def Let_def m_def)
  qed
qed

lemma round_coeff_value:
  assumes "0 < c"
  shows "(case round_coeff b p et c e of (c', e') \<Rightarrow> fval b c' e') = rnd b p et (fval b c e)"
proof (cases "e < round_exp b p et c e")
  case True
  then show ?thesis
    using round_quot_value [of c 1 e] assms by (simp add: round_coeff_def fval_def)
next
  case False
  define m where "m = round_exp b p et c e"
  have unit: "rnd_unit b p et (fval b c e) = m"
    using assms rnd_unit_quot [of c 1 e] by (simp add: m_def fval_def)
  have shift: "fval b c e = real (c * b ^ nat (e - m)) * real b powi m"
    using False fval_shift [of c "nat (e - m)" m] by (simp add: m_def fval_def [of b _ "round_exp b p et c e"])
  then have quot: "fval b c e / real b powi m = real (c * b ^ nat (e - m))"
    by simp
  have "rnd b p et (fval b c e) = of_int (rhe (fval b c e / real b powi m)) * real b powi m"
    using assms by (simp add: rnd_def unit Let_def)
  also have "\<dots> = fval b c e"
    unfolding quot rhe_of_nat of_int_of_nat_eq by (simp only: shift)
  finally show ?thesis using False by (simp add: round_coeff_def)
qed

text \<open>A number that is a multiple of the unit of \<open>x\<close> bounds the rounding of \<open>x\<close>.\<close>

lemma rnd_le_multiple:
  assumes "0 < x" and "x \<le> of_int j * real b powi rnd_unit b p et x"
  shows "rnd b p et x \<le> of_int j * real b powi rnd_unit b p et x"
proof -
  let ?u = "real b powi rnd_unit b p et x"
  have u: "0 < ?u" by (rule unit_pos)
  with assms(2) have "x / ?u \<le> of_int j" by (simp add: pos_divide_le_eq)
  then have "rhe (x / ?u) \<le> j" using rhe_mono rhe_of_int by metis
  then have "of_int (rhe (x / ?u)) * ?u \<le> of_int j * ?u"
    using u by (intro mult_right_mono) simp_all
  with assms(1) show ?thesis by (simp add: rnd_def Let_def)
qed

lemma rnd_ge_multiple:
  assumes "0 < x" and "of_int j * real b powi rnd_unit b p et x \<le> x"
  shows "of_int j * real b powi rnd_unit b p et x \<le> rnd b p et x"
proof -
  let ?u = "real b powi rnd_unit b p et x"
  have u: "0 < ?u" by (rule unit_pos)
  with assms(2) have "of_int j \<le> x / ?u" by (simp add: pos_le_divide_eq)
  then have "j \<le> rhe (x / ?u)" using rhe_mono rhe_of_int by metis
  then have "of_int j * ?u \<le> of_int (rhe (x / ?u)) * ?u"
    using u by (intro mult_right_mono) simp_all
  with assms(1) show ?thesis by (simp add: rnd_def Let_def)
qed

lemma power_multiple_of_unit: "k \<le> l \<Longrightarrow> real b powi l = of_int (int (b ^ nat (l - k))) * real b powi k"
  using unit_shift [of k "nat (l - k)"] by simp

lemma rnd_mono_pos:
  assumes "0 < x" "x \<le> y"
  shows "rnd b p et x \<le> rnd b p et y"
proof -
  let ?lx = "\<lfloor>log (real b) x\<rfloor>" and ?ly = "\<lfloor>log (real b) y\<rfloor>"
  let ?mx = "rnd_unit b p et x" and ?my = "rnd_unit b p et y"
  have y: "0 < y" using assms by simp
  have ll: "?lx \<le> ?ly" using assms radix by (intro floor_mono) simp
  have mx: "?mx = max (?lx + 1 - int p) et" and my: "?my = max (?ly + 1 - int p) et"
    using assms y by (simp_all add: rnd_unit_def)
  show ?thesis
  proof (cases "?mx = ?my")
    case True
    let ?u = "real b powi ?my"
    have u: "0 < ?u" by (rule unit_pos)
    with assms(2) have "x / ?u \<le> y / ?u" by (simp add: divide_right_mono)
    then have "of_int (rhe (x / ?u)) * ?u \<le> of_int (rhe (y / ?u)) * ?u"
      using u rhe_mono by (intro mult_right_mono) simp_all
    with True assms y show ?thesis by (simp add: rnd_def Let_def)
  next
    case False
    have less: "?lx < ?ly" and mxly: "?mx \<le> ?ly" and myly: "?my \<le> ?ly"
      using False ll mx my digits by auto
    let ?T = "real b powi ?ly"
    have "x < real b powi (?lx + 1)" and Ty: "?T \<le> y"
      using floor_log_iff assms(1) y by blast+
    moreover have "real b powi (?lx + 1) \<le> ?T"
      using less radix by (intro power_int_increasing) auto
    ultimately have xT: "x \<le> ?T" by linarith
    have "rnd b p et x \<le> ?T"
      using rnd_le_multiple [OF assms(1), of "int (b ^ nat (?ly - ?mx))"] xT
        power_multiple_of_unit [OF mxly] by simp
    also have "?T \<le> rnd b p et y"
      using rnd_ge_multiple [OF y, of "int (b ^ nat (?ly - ?my))"] Ty
        power_multiple_of_unit [OF myly] by simp
    finally show ?thesis .
  qed
qed

lemma rnd_nonneg: "0 \<le> x \<Longrightarrow> 0 \<le> rnd b p et x"
  using rnd_ge_multiple [of x 0] by (cases "x = 0") auto

lemma rnd_mono: "x \<le> y \<Longrightarrow> rnd b p et x \<le> rnd b p et y"
proof -
  assume xy: "x \<le> y"
  consider "0 < x" | "x \<le> 0" "0 \<le> y" | "y < 0" by linarith
  then show ?thesis
  proof cases
    case 1
    then show ?thesis using xy by (rule rnd_mono_pos)
  next
    case 2
    then have "0 \<le> rnd b p et (- x)" "0 \<le> rnd b p et y" by (simp_all add: rnd_nonneg)
    then show ?thesis by (simp add: rnd_minus)
  next
    case 3
    with xy have "rnd b p et (- y) \<le> rnd b p et (- x)" by (intro rnd_mono_pos) simp_all
    then show ?thesis by (simp add: rnd_minus)
  qed
qed

text \<open>A number of at most \<open>p\<close> digits and exponent at least \<open>et\<close> is kept.\<close>

lemma rnd_exact:
  assumes "c < b ^ p" and "et \<le> e"
  shows "rnd b p et (fval b c e) = fval b c e"
proof (cases "c = 0")
  case True
  then show ?thesis by (simp add: fval_def)
next
  case False
  then have c: "0 < c" by simp
  have "ndigits b c \<le> p"
    using ndigits_le_iff [OF radix c] digits assms(1) by simp
  with assms(2) have "\<not> e < round_exp b p et c e" by (simp add: round_exp_def)
  then have "round_coeff b p et c e = (c, e)" by (simp add: round_coeff_def)
  with round_coeff_value [OF c, of e] show ?thesis by simp
qed

lemma rnd_error:
  assumes "x \<noteq> 0"
  shows "\<bar>rnd b p et x - x\<bar> \<le> real b powi rnd_unit b p et x / 2"
proof -
  let ?u = "real b powi rnd_unit b p et x"
  have u: "0 < ?u" by (rule unit_pos)
  let ?d = "of_int (rhe (x / ?u)) - x / ?u"
  have "rnd b p et x - x = ?d * ?u"
    using assms u by (simp add: rnd_def Let_def left_diff_distrib)
  then have "\<bar>rnd b p et x - x\<bar> = \<bar>?d\<bar> * ?u"
    using u by (simp only: abs_mult abs_of_pos)
  also have "\<dots> \<le> 1/2 * ?u"
    using u by (intro mult_right_mono rhe_error) simp
  finally show ?thesis by simp
qed

end

end
