(* ===== verification/PyValue.thy ===== *)
theory PyValue
  imports PyDecimal "HOL-Library.List_Lexorder" "HOL-Library.Char_ord"
begin

text \<open>
  The dynamically typed values the program takes from YAML and JSON, Python's \<open>str()\<close> of
  them, and the two third-party or native operations the core relies on, gathered in the
  record \<open>libs\<close>:

  \<^item> \<open>canonical_json_bytes\<close> is \<open>cce.canonical.canonical_json_bytes\<close>, which is
    \<open>rfc8785.dumps\<close>, a package outside the repository; it raises on values RFC 8785
    cannot express;
  \<^item> \<open>sha256_hex\<close> is \<open>hashlib.sha256(\<dots>).hexdigest()\<close> over bytes;
  \<^item> \<open>json_loads\<close> is \<open>json.loads\<close> over bytes, \<open>None\<close> for \<open>JSONDecodeError\<close>;
  \<^item> \<open>yaml_safe_load\<close> is \<open>yaml.safe_load\<close>, \<open>None\<close> for \<open>YAMLError\<close>.

  A byte string is a \<open>string\<close>: a HOL character is a byte. A float is kept as its
  \<open>repr\<close> text, since the program only asks whether a value is one.
\<close>

datatype pyval =
    VNone
  | VBool bool
  | VInt int
  | VFloat string
  | VStr string
  | VList "pyval list"
  | VDict "(pyval \<times> pyval) list"
  | VOther string

type_synonym mapping_value = "(pyval \<times> pyval) list"

record libs =
  canonical_json_bytes :: "pyval \<Rightarrow> string result"
  sha256_hex :: "string \<Rightarrow> string"
  json_loads :: "string \<Rightarrow> pyval option"
  yaml_safe_load :: "string \<Rightarrow> pyval option"

text \<open>\<open>d.get(k)\<close> for a string key: \<open>None\<close> when the key is absent.\<close>

definition get_key :: "mapping_value \<Rightarrow> string \<Rightarrow> pyval" where
  "get_key d k = (case map_of d (VStr k) of None \<Rightarrow> VNone | Some v \<Rightarrow> v)"

definition has_key :: "mapping_value \<Rightarrow> string \<Rightarrow> bool" where
  "has_key d k \<longleftrightarrow> map_of d (VStr k) \<noteq> None"

definition str_dict :: "(string \<times> pyval) list \<Rightarrow> pyval" where
  "str_dict kvs = VDict (map (\<lambda>(k, v). (VStr k, v)) kvs)"

lemma map_of_VStr [simp]:
  "map_of (map (\<lambda>(k, v). (VStr k, f v)) kvs) (VStr k') = map_option f (map_of kvs k')"
  by (induction kvs) auto

lemma map_of_VStr_id [simp]:
  "map_of (map (\<lambda>(k, v). (VStr k, v)) kvs) (VStr k') = map_of kvs k'"
  by (induction kvs) auto

text \<open>A successful \<open>isinstance\<close> test, as a rewrite rule.\<close>

lemma case_VDict_eq_Inr [result_simps]:
  "(case v of VDict d \<Rightarrow> f d | _ \<Rightarrow> Inl e) = Inr y \<longleftrightarrow> (\<exists>d. v = VDict d \<and> f d = Inr y)"
  by (cases v) auto

lemma case_VStr_eq_Inr [result_simps]:
  "(case v of VStr t \<Rightarrow> g t | _ \<Rightarrow> Inl e) = Inr y \<longleftrightarrow> (\<exists>t. v = VStr t \<and> g t = Inr y)"
  by (cases v) auto

section \<open>\<open>str()\<close> and \<open>repr()\<close>\<close>

definition hex_digit :: "nat \<Rightarrow> char" where
  "hex_digit n = ''0123456789abcdef'' ! (n mod 16)"

definition repr_char :: "char \<Rightarrow> char \<Rightarrow> string" where
  "repr_char q c =
     (let n = (of_char c :: nat)
      in if c = q \<or> n = 92 then [CHR 0x5C, c]
         else if n = 10 then [CHR 0x5C, CHR ''n'']
         else if n = 13 then [CHR 0x5C, CHR ''r'']
         else if n = 9 then [CHR 0x5C, CHR ''t'']
         else if n < 32 \<or> (127 \<le> n \<and> n \<le> 160) \<or> n = 173
         then [CHR 0x5C, CHR ''x'', hex_digit (n div 16), hex_digit n]
         else [c])"

definition repr_string :: "string \<Rightarrow> string" where
  "repr_string s =
     (let q = (if CHR 0x27 \<in> set s \<and> CHR 0x22 \<notin> set s then CHR 0x22 else CHR 0x27)
      in q # concat (map (repr_char q) s) @ [q])"

definition quoted :: "string \<Rightarrow> string" where
  "quoted s = CHR 0x27 # s @ [CHR 0x27]"

fun join :: "string \<Rightarrow> string list \<Rightarrow> string" where
  "join sep [] = []"
| "join sep [x] = x"
| "join sep (x # xs) = x @ sep @ join sep xs"

fun py_repr :: "pyval \<Rightarrow> string" where
  "py_repr VNone = ''None''"
| "py_repr (VBool b) = (if b then ''True'' else ''False'')"
| "py_repr (VInt i) = string_of_int i"
| "py_repr (VFloat t) = t"
| "py_repr (VStr s) = repr_string s"
| "py_repr (VList xs) = ''['' @ join '', '' (map py_repr xs) @ '']''"
| "py_repr (VDict kvs) = ''{'' @ join '', '' (map (\<lambda>(k, v). py_repr k @ '': '' @ py_repr v) kvs) @ ''}''"
| "py_repr (VOther t) = t"

fun py_str :: "pyval \<Rightarrow> string" where
  "py_str (VStr s) = s"
| "py_str v = py_repr v"

section \<open>\<open>int()\<close>\<close>

text \<open>\<open>int(s)\<close>: surrounding whitespace, a sign, single underscores between digits.\<close>

fun int10_digits :: "bool \<Rightarrow> nat \<Rightarrow> string \<Rightarrow> nat option" where
  "int10_digits prev acc [] = (if prev then Some acc else None)"
| "int10_digits prev acc (c # cs) =
     (if c = CHR ''_'' then (if prev then int10_digits False acc cs else None)
      else if is_digit c then int10_digits True (10 * acc + digit_val c) cs else None)"

definition int_of_text :: "string \<Rightarrow> int result" where
  "int_of_text s =
     (let t = py_strip s;
          r = (if starts_with ''-'' t then map_option (\<lambda>n. - int n) (int10_digits False 0 (drop 1 t))
               else if starts_with ''+'' t then map_option int (int10_digits False 0 (drop 1 t))
               else map_option int (int10_digits False 0 t))
      in case r of None \<Rightarrow> Inl (ValueError (''invalid literal for int() with base 10: '' @ repr_string s)) | Some i \<Rightarrow> Inr i)"

text \<open>\<open>int(x)\<close> of a float, from its \<open>repr\<close>: truncation, after rounding to 53 digits where the
  text is an integer beyond them.\<close>

definition int_of_float :: "string \<Rightarrow> int result" where
  "int_of_float t =
     (case decimal_of_string t of
        Inr (Fin s c e) \<Rightarrow>
          (let n = (if e < 0 then c div 10 ^ nat (- e)
                    else (case round_coeff 2 53 (- 1074) (c * 10 ^ nat e) 0 of (c', e') \<Rightarrow> c' * 2 ^ nat e'))
           in Inr (if s then - int n else int n))
      | Inr (Inf s) \<Rightarrow> Inl OverflowError
      | _ \<Rightarrow> Inl (ValueError ''cannot convert float NaN to integer''))"

definition py_int :: "pyval \<Rightarrow> int result" where
  "py_int v =
     (case v of
        VInt i \<Rightarrow> Inr i
      | VBool b \<Rightarrow> Inr (if b then 1 else 0)
      | VStr s \<Rightarrow> int_of_text s
      | VFloat t \<Rightarrow> int_of_float t
      | _ \<Rightarrow> Inl (TypeError ''int() argument''))"

definition get_default :: "mapping_value \<Rightarrow> string \<Rightarrow> pyval \<Rightarrow> pyval" where
  "get_default d k dflt = (case map_of d (VStr k) of None \<Rightarrow> dflt | Some v \<Rightarrow> v)"

text \<open>\<open>x.get\<close> on a parsed JSON value: an \<open>AttributeError\<close> unless it is an object.\<close>

definition as_object :: "pyval \<Rightarrow> mapping_value result" where
  "as_object v = (case v of VDict d \<Rightarrow> Inr d | _ \<Rightarrow> Inl (AttributeError ''get''))"

section \<open>UTF-8\<close>

definition utf8_char :: "char \<Rightarrow> string" where
  "utf8_char c =
     (let n = (of_char c :: nat)
      in if n < 128 then [c] else [char_of (192 + n div 64), char_of (128 + n mod 64)])"

definition utf8_encode :: "string \<Rightarrow> string" where
  "utf8_encode s = concat (map utf8_char s)"

definition ascii :: "string \<Rightarrow> bool" where
  "ascii s \<longleftrightarrow> list_all (\<lambda>c. (of_char c :: nat) < 128) s"

lemma utf8_ascii [simp]: "ascii s \<Longrightarrow> utf8_encode s = s"
  by (induction s) (auto simp: utf8_encode_def utf8_char_def ascii_def)

lemma hex_lower_ascii: "is_hex_lower c \<Longrightarrow> (of_char c :: nat) < 128"
  by (auto simp: is_hex_lower_def)

lemma hex_run_ascii: "hex_run n s \<Longrightarrow> ascii s"
  by (auto simp: hex_run_def ascii_def list_all_iff hex_lower_ascii)

section \<open>A concrete instance\<close>

text \<open>The instance of \<open>libs\<close> the witnesses evaluate with: \<open>repr\<close> for the encoder, the
  length for the digest.\<close>

definition sample_libs :: libs where
  "sample_libs = \<lparr>canonical_json_bytes = (\<lambda>v. Inr (py_repr v)),
     sha256_hex = (\<lambda>b. replicate 64 (hex_digit (length b))), json_loads = (\<lambda>b. None), yaml_safe_load = (\<lambda>b. None)\<rparr>"

lemma sample_json: "canonical_json_bytes sample_libs v = Inr (py_repr v)"
  by (simp add: sample_libs_def)

end
