(* ===== verification/TsAnalyzer.thy ===== *)
theory TsAnalyzer
  imports PyValue
begin

text \<open>
  \<open>src/cce/analyzers/builtin.py\<close>, the TypeScript half: the two depth-first walks over a
  tree-sitter syntax tree, each with an explicit stack.

  A \<open>ts_node\<close> carries what the code reads of a \<open>tree_sitter.Node\<close>; the parser is a
  parameter. The locale \<open>stack_loop\<close> is the interface both walks share: a loop that pops a
  frame, folds it into an accumulator and pushes the frames it expands to; its lemma is that such a
  loop is a recursion over the tree. Both walks are interpreted in it, and proved equal to the
  recursive definitions \<open>ts_cost\<close> and \<open>ts_functions\<close> (the comments of the source claim
  the stack is only there to avoid \<open>RecursionError\<close>).
\<close>

section \<open>Nodes\<close>

datatype ts_node =
  Node (ts_type: string) (is_named: bool) (start_byte: nat) (end_byte: nat)
       (start_line: nat) (end_line: nat) (children: "ts_node list")

definition MAX_NESTING_DEPTH :: nat where
  "MAX_NESTING_DEPTH = 256"

definition TS_BRANCH_TYPES :: "string list" where
  "TS_BRANCH_TYPES =
     [''if_statement'', ''else_clause'', ''for_statement'', ''for_in_statement'', ''while_statement'',
      ''do_statement'', ''switch_case'', ''switch_default'', ''ternary_expression'', ''catch_clause'',
      ''binary_expression'']"

definition TS_LOGICAL_OPERATORS :: "string list" where
  "TS_LOGICAL_OPERATORS = [''&&'', ''||'', ''??'']"

definition TS_FUNCTION_TYPES :: "string list" where
  "TS_FUNCTION_TYPES =
     [''function_declaration'', ''function_expression'', ''arrow_function'', ''method_definition'',
      ''generator_function_declaration'', ''generator_function'']"

fun node_count :: "ts_node \<Rightarrow> nat" where
  "node_count (Node t nm sb eb sl el cs) = Suc (sum_list (map node_count cs))"

lemma node_count_children: "sum_list (map node_count (children n)) < node_count n"
  by (cases n) simp

lemma node_count_pos [simp]: "0 < node_count n"
  by (cases n) simp

section \<open>Counting one function\<close>

text \<open>\<open>source[i:j]\<close> for non-negative bounds.\<close>

definition slice :: "string \<Rightarrow> nat \<Rightarrow> nat \<Rightarrow> string" where
  "slice s i j = take (j - i) (drop i s)"

text \<open>The \<open>for c in n.children\<close> loop that looks for a logical operator.\<close>

fun op_text :: "string \<Rightarrow> ts_node list \<Rightarrow> string" where
  "op_text source [] = ''''"
| "op_text source (c # cs) =
     (if \<not> is_named c \<or> ts_type c \<in> {''&&'', ''||'', ''??''} then
        (let candidate = slice source (start_byte c) (end_byte c)
         in if candidate \<in> set TS_LOGICAL_OPERATORS then candidate else op_text source cs)
      else op_text source cs)"

type_synonym ts_frame = "ts_node \<times> nat \<times> bool"

text \<open>\<open>for child in reversed(cs): stack.append((child, depth, False))\<close>, top of the stack first.\<close>

definition push_frames :: "ts_node list \<Rightarrow> nat \<Rightarrow> ts_frame list \<Rightarrow> ts_frame list" where
  "push_frames cs depth stack = foldl (\<lambda>st c. (c, depth, False) # st) stack (rev cs)"

lemma push_frames_eq: "push_frames cs d st = map (\<lambda>c. (c, d, False)) cs @ st"
  by (induction cs arbitrary: st) (simp_all add: push_frames_def)

abbreviation frame_size :: "ts_frame \<Rightarrow> nat" where
  "frame_size f \<equiv> node_count (fst f)"

lemma push_frames_size:
  "sum_list (map frame_size (push_frames (children n) d st)) < node_count n + sum_list (map frame_size st)"
  using node_count_children [of n] by (simp add: push_frames_eq comp_def)

type_synonym ts_counts = "nat \<times> nat \<times> nat"

function count_loop :: "string \<Rightarrow> ts_frame list \<Rightarrow> ts_counts \<Rightarrow> ts_counts" where
  "count_loop source [] counts = counts"
| "count_loop source ((n, depth, skip_branch) # stack) (cyclomatic, cognitive, max_depth) =
     (if ts_type n \<in> set TS_FUNCTION_TYPES
      then count_loop source stack (cyclomatic, cognitive, max_depth)
      else if MAX_NESTING_DEPTH \<le> depth
      then count_loop source stack (cyclomatic, cognitive, max_depth)
      else if ts_type n \<in> set TS_BRANCH_TYPES then
        (if ts_type n = ''binary_expression''
            \<and> op_text source (children n) \<notin> set TS_LOGICAL_OPERATORS
         then count_loop source (push_frames (children n) depth stack) (cyclomatic, cognitive, max_depth)
         else if ts_type n = ''else_clause'' \<and> ''if_statement'' \<in> set (map ts_type (children n))
         then count_loop source (push_frames (children n) depth stack) (cyclomatic, cognitive, max_depth)
         else if \<not> skip_branch
         then count_loop source (push_frames (children n) (depth + 1) stack)
                (cyclomatic + 1, cognitive + (1 + depth),
                 if max_depth < depth + 1 then depth + 1 else max_depth)
         else count_loop source (push_frames (children n) depth stack) (cyclomatic, cognitive, max_depth))
      else count_loop source (push_frames (children n) depth stack) (cyclomatic, cognitive, max_depth))"
  by pat_completeness auto
termination
proof (relation "measure (\<lambda>(s, st, c). sum_list (map frame_size st))")
qed (use push_frames_size in \<open>auto simp: add.commute node_count.simps\<close>)

definition count_ts_function :: "ts_node \<Rightarrow> string \<Rightarrow> ts_counts" where
  "count_ts_function node source = count_loop source (push_frames (children node) 0 []) (1, 0, 0)"

section \<open>Collecting the functions of a file\<close>

record ts_result =
  ts_cyclomatic :: nat
  ts_cognitive :: nat
  ts_nesting_depth :: nat
  ts_function_length :: nat

definition ts_function_result :: "ts_node \<Rightarrow> string \<Rightarrow> ts_result" where
  "ts_function_result current source =
     (case count_ts_function current source of (cyclomatic, cognitive, max_depth) \<Rightarrow>
        \<lparr>ts_cyclomatic = cyclomatic, ts_cognitive = cognitive, ts_nesting_depth = max_depth,
          ts_function_length = (end_line current + 1) - (start_line current + 1) + 1\<rparr>)"

definition push_walk :: "ts_node list \<Rightarrow> nat \<Rightarrow> (ts_node \<times> nat) list \<Rightarrow> (ts_node \<times> nat) list" where
  "push_walk cs depth stack = foldl (\<lambda>st c. (c, depth) # st) stack (rev cs)"

lemma push_walk_eq: "push_walk cs d st = map (\<lambda>c. (c, d)) cs @ st"
  by (induction cs arbitrary: st) (simp_all add: push_walk_def)

lemma push_walk_size:
  "sum_list (map (node_count \<circ> fst) (push_walk (children n) d st))
     < node_count n + sum_list (map (node_count \<circ> fst) st)"
  using node_count_children [of n] by (simp add: push_walk_eq comp_def)

function walk_loop :: "string \<Rightarrow> (ts_node \<times> nat) list \<Rightarrow> ts_result list \<Rightarrow> ts_result list" where
  "walk_loop source [] results = results"
| "walk_loop source ((current, depth) # stack) results =
     (let results' = (if ts_type current \<in> set TS_FUNCTION_TYPES
                      then results @ [ts_function_result current source] else results)
      in if MAX_NESTING_DEPTH \<le> depth then walk_loop source stack results'
         else walk_loop source (push_walk (children current) (depth + 1) stack) results')"
  by pat_completeness auto
termination
proof (relation "measure (\<lambda>(s, st, c). sum_list (map (node_count \<circ> fst) st))")
qed (use push_walk_size in \<open>auto simp: add.commute\<close>)

definition walk_ts_functions :: "ts_node \<Rightarrow> ts_result list \<Rightarrow> string \<Rightarrow> ts_result list" where
  "walk_ts_functions node results source = walk_loop source [(node, 0)] results"

record file_metrics =
  cyclomatic :: int
  cognitive :: int
  nesting_depth :: int
  function_length :: int
  file_length :: int

definition max_of :: "(ts_result \<Rightarrow> nat) \<Rightarrow> ts_result list \<Rightarrow> int" where
  "max_of f rs = int (max_default (map f rs))"

text \<open>\<open>ts_parse\<close> stands for \<open>tree_sitter.Parser.parse\<close> on the UTF-8 bytes.\<close>

definition analyse_typescript :: "(string \<Rightarrow> ts_node) \<Rightarrow> string \<Rightarrow> file_metrics" where
  "analyse_typescript ts_parse txt =
     (let empty = \<lparr>cyclomatic = 1, cognitive = 0, nesting_depth = 0, function_length = 0,
        file_length = 0\<rparr>
      in if py_strip txt = [] then empty
         else let results = walk_ts_functions (ts_parse (utf8_encode txt)) [] txt
           in if results = [] then empty
              else \<lparr>cyclomatic = max_of ts_cyclomatic results, cognitive = max_of ts_cognitive results,
                nesting_depth = max_of ts_nesting_depth results,
                function_length = max_of ts_function_length results, file_length = 0\<rparr>)"

section \<open>A loop with a stack is a recursion\<close>

locale stack_loop =
  fixes loop :: "'f list \<Rightarrow> 'a \<Rightarrow> 'a"
    and size_of :: "'f \<Rightarrow> nat"
    and kids :: "'f \<Rightarrow> 'f list"
    and visit :: "'f \<Rightarrow> 'a \<Rightarrow> 'a"
  assumes loop_Nil: "loop [] a = a"
    and loop_Cons: "loop (f # st) a = loop (kids f @ st) (visit f a)"
    and smaller: "sum_list (map size_of (kids f)) < size_of f"
begin

lemma loop_append: "loop (fs @ st) a = loop st (loop fs a)"
proof (induction "sum_list (map size_of fs)" arbitrary: fs a rule: less_induct)
  case less
  show ?case
  proof (cases fs)
    case Nil
    then show ?thesis by (simp add: loop_Nil)
  next
    case (Cons f fs')
    have "sum_list (map size_of (kids f @ fs')) < sum_list (map size_of fs)"
      using smaller [of f] Cons by simp
    from less [OF this] Cons show ?thesis by (simp add: loop_Cons)
  qed
qed

lemma loop_one: "loop (f # st) a = loop st (loop (kids f) (visit f a))"
  by (simp add: loop_Cons loop_append)

end

text \<open>When every visit adds to the accumulator, the loop adds up a recursive total.\<close>

locale stack_sum = stack_loop loop size_of kids visit
  for loop :: "'f list \<Rightarrow> 'a \<Rightarrow> 'a" and size_of :: "'f \<Rightarrow> nat" and kids :: "'f \<Rightarrow> 'f list"
    and visit :: "'f \<Rightarrow> 'a \<Rightarrow> 'a" +
  fixes plus :: "'a \<Rightarrow> 'a \<Rightarrow> 'a" and none :: 'a and gain :: "'f \<Rightarrow> 'a" and total :: "'f \<Rightarrow> 'a"
  assumes plus_assoc: "plus (plus a b) c = plus a (plus b c)"
    and plus_none: "plus a none = a"
    and visit_gain: "visit f a = plus a (gain f)"
    and total_rec: "total f = plus (gain f) (foldr plus (map total (kids f)) none)"
begin

lemma loop_total: "loop fs a = plus a (foldr plus (map total fs) none)"
proof (induction "sum_list (map size_of fs)" arbitrary: fs a rule: less_induct)
  case less
  show ?case
  proof (cases fs)
    case Nil
    then show ?thesis by (simp add: loop_Nil plus_none)
  next
    case (Cons f fs')
    have kids: "loop (kids f) b = plus b (foldr plus (map total (kids f)) none)" for b
      using smaller [of f] Cons by (intro less) simp
    have "0 < size_of f" using smaller [of f] by simp
    then have rest: "loop fs' b = plus b (foldr plus (map total fs') none)" for b
      using Cons by (intro less) simp
    show ?thesis
      by (simp add: Cons loop_one kids rest visit_gain total_rec plus_assoc)
  qed
qed

end

section \<open>The recursive reference\<close>

definition counts_plus :: "ts_counts \<Rightarrow> ts_counts \<Rightarrow> ts_counts" where
  "counts_plus a b = (case (a, b) of ((c1, g1, m1), (c2, g2, m2)) \<Rightarrow> (c1 + c2, g1 + g2, max m1 m2))"

abbreviation counts_sum :: "ts_counts list \<Rightarrow> ts_counts" where
  "counts_sum cs \<equiv> foldr counts_plus cs (0, 0, 0)"

text \<open>Is the node a decision point, once its type has been inspected?\<close>

definition decision :: "string \<Rightarrow> ts_node \<Rightarrow> bool" where
  "decision source n \<longleftrightarrow> ts_type n \<in> set TS_BRANCH_TYPES
     \<and> \<not> (ts_type n = ''binary_expression'' \<and> op_text source (children n) \<notin> set TS_LOGICAL_OPERATORS)
     \<and> \<not> (ts_type n = ''else_clause'' \<and> ''if_statement'' \<in> set (map ts_type (children n)))"

definition skipped :: "nat \<Rightarrow> ts_node \<Rightarrow> bool" where
  "skipped d n \<longleftrightarrow> ts_type n \<in> set TS_FUNCTION_TYPES \<or> MAX_NESTING_DEPTH \<le> d"

function ts_cost :: "string \<Rightarrow> nat \<Rightarrow> ts_node \<Rightarrow> ts_counts" where
  "ts_cost source d n =
     (if skipped d n then (0, 0, 0)
      else if decision source n
      then counts_plus (1, 1 + d, d + 1) (counts_sum (map (ts_cost source (d + 1)) (children n)))
      else counts_sum (map (ts_cost source d) (children n)))"
  by pat_completeness auto

lemma child_smaller: "c \<in> set (children n) \<Longrightarrow> node_count c < node_count n"
proof -
  assume "c \<in> set (children n)"
  then have "node_count c \<le> sum_list (map node_count (children n))"
    by (intro member_le_sum_list) auto
  with node_count_children [of n] show ?thesis by simp
qed

termination ts_cost
  by (relation "measure (\<lambda>(s, d, n). node_count n)") (auto simp: child_smaller)

declare ts_cost.simps [simp del]

function ts_functions :: "nat \<Rightarrow> ts_node \<Rightarrow> ts_node list" where
  "ts_functions d n =
     (if ts_type n \<in> set TS_FUNCTION_TYPES then [n] else []) @
     (if MAX_NESTING_DEPTH \<le> d then [] else concat (map (ts_functions (d + 1)) (children n)))"
  by pat_completeness auto
termination
  by (relation "measure (\<lambda>(d, n). node_count n)") (auto simp: child_smaller)

declare ts_functions.simps [simp del]

section \<open>Both walks are the recursion\<close>

fun frame_kids :: "string \<Rightarrow> ts_frame \<Rightarrow> ts_frame list" where
  "frame_kids source (n, d, skip) =
     (if skipped d n then []
      else map (\<lambda>c. (c, if decision source n \<and> \<not> skip then d + 1 else d, False)) (children n))"

fun frame_gain :: "string \<Rightarrow> ts_frame \<Rightarrow> ts_counts" where
  "frame_gain source (n, d, skip) =
     (if \<not> skipped d n \<and> decision source n \<and> \<not> skip then (1, 1 + d, d + 1) else (0, 0, 0))"

fun frame_total :: "string \<Rightarrow> ts_frame \<Rightarrow> ts_counts" where
  "frame_total source (n, d, skip) =
     (if skip \<and> \<not> skipped d n then counts_sum (map (ts_cost source d) (children n)) else ts_cost source d n)"

lemma count_loop_step:
  "count_loop source (f # st) a = count_loop source (frame_kids source f @ st) (counts_plus a (frame_gain source f))"
proof (cases f, cases a)
  fix n d skip c g m assume "f = (n, d, skip)" "a = (c, g, m)"
  then show ?thesis
    by (auto simp: skipped_def decision_def push_frames_eq counts_plus_def max_def)
qed

interpretation count: stack_sum "count_loop source" frame_size "frame_kids source"
  "\<lambda>f a. counts_plus a (frame_gain source f)" counts_plus "(0, 0, 0)" "frame_gain source" "frame_total source"
  for source
proof
  show "sum_list (map frame_size (frame_kids source f)) < frame_size f" for source f
    using node_count_children by (cases f) (auto simp: comp_def)
  show "frame_total source f = counts_plus (frame_gain source f)
      (counts_sum (map (frame_total source) (frame_kids source f)))" for source f
  proof (cases f)
    case (fields n d skip)
    have "counts_plus (0, 0, 0) x = x" for x by (cases x) (simp add: counts_plus_def)
    with fields show ?thesis
      by (auto simp: comp_def ts_cost.simps [of source d n])
  qed
qed (auto simp: count_loop_step counts_plus_def split: prod.splits)

lemma count_ts_function_rec:
  "count_ts_function node source =
     counts_plus (1, 0, 0) (counts_sum (map (ts_cost source 0) (children node)))"
  by (simp add: count_ts_function_def push_frames_eq count.loop_total comp_def)

fun walk_kids :: "ts_node \<times> nat \<Rightarrow> (ts_node \<times> nat) list" where
  "walk_kids (n, d) = (if MAX_NESTING_DEPTH \<le> d then [] else map (\<lambda>c. (c, d + 1)) (children n))"

fun walk_gain :: "string \<Rightarrow> ts_node \<times> nat \<Rightarrow> ts_result list" where
  "walk_gain source (n, d) =
     (if ts_type n \<in> set TS_FUNCTION_TYPES then [ts_function_result n source] else [])"

fun walk_total :: "string \<Rightarrow> ts_node \<times> nat \<Rightarrow> ts_result list" where
  "walk_total source (n, d) = map (\<lambda>f. ts_function_result f source) (ts_functions d n)"

interpretation walk: stack_sum "walk_loop source" "node_count \<circ> fst" walk_kids
  "\<lambda>f a. a @ walk_gain source f" append "[]" "walk_gain source" "walk_total source"
  for source
proof
  show "walk_loop source (f # st) a = walk_loop source (walk_kids f @ st) (a @ walk_gain source f)"
    for source f st a by (cases f) (auto simp: push_walk_eq Let_def)
  show "sum_list (map (node_count \<circ> fst) (walk_kids f)) < (node_count \<circ> fst) f" for f
    using node_count_children by (cases f) (auto simp: comp_def)
  have fa: "foldr (@) xss [] = concat xss" for xss :: "'x list list" by (induction xss) auto
  show "walk_total source f = walk_gain source f @ foldr (@) (map (walk_total source) (walk_kids f)) []"
    for source f by (cases f) (auto simp: fa ts_functions.simps map_concat comp_def)
qed auto

lemma walk_ts_functions_rec:
  "walk_ts_functions node results source =
     results @ map (\<lambda>f. ts_function_result f source) (ts_functions 0 node)"
  by (simp add: walk_ts_functions_def walk.loop_total)

section \<open>Bounds\<close>

text \<open>What holds of the cost of a subtree visited at depth \<open>d\<close>.\<close>

definition counts_ok :: "nat \<Rightarrow> nat \<Rightarrow> ts_counts \<Rightarrow> bool" where
  "counts_ok d k x \<longleftrightarrow>
     (case x of (c, g, m) \<Rightarrow> c \<le> k \<and> m \<le> MAX_NESTING_DEPTH \<and> m \<le> d + c \<and> c \<le> g \<and> g \<le> c * m)"

lemma counts_ok_none: "counts_ok d k (0, 0, 0)"
  by (simp add: counts_ok_def)

lemma counts_ok_plus:
  assumes "counts_ok d k x" "counts_ok d l y"
  shows "counts_ok d (k + l) (counts_plus x y)"
proof (cases x, cases y)
  fix c g m c' g' m' assume xy: "x = (c, g, m)" "y = (c', g', m')"
  have "g + g' \<le> c * m + c' * m'" using assms by (auto simp: counts_ok_def xy)
  also have "\<dots> \<le> c * max m m' + c' * max m m'" by (intro add_mono mult_le_mono) auto
  finally have "g + g' \<le> (c + c') * max m m'" by (simp add: distrib_right)
  with assms show ?thesis by (auto simp: counts_ok_def counts_plus_def xy)
qed

lemma counts_ok_sum:
  "(\<And>n. n \<in> set ns \<Longrightarrow> counts_ok d (node_count n) (f n)) \<Longrightarrow>
   counts_ok d (sum_list (map node_count ns)) (counts_sum (map f ns))"
  by (induction ns) (auto simp: counts_ok_none intro: counts_ok_plus)

lemma counts_ok_mono: "counts_ok d k x \<Longrightarrow> k \<le> l \<Longrightarrow> counts_ok d l x"
  by (auto simp: counts_ok_def)

lemma counts_ok_decision:
  assumes "d < MAX_NESTING_DEPTH" "counts_ok (d + 1) k x"
  shows "counts_ok d (Suc k) (counts_plus (1, 1 + d, d + 1) x)"
proof (cases x)
  case (fields c g m)
  have "1 + d + g \<le> 1 * max (d + 1) m + c * max (d + 1) m"
    using assms(2) by (intro add_mono) (auto simp: counts_ok_def fields intro: le_trans mult_le_mono)
  then have "1 + d + g \<le> (1 + c) * max (d + 1) m" by (simp add: distrib_right)
  with assms show ?thesis by (auto simp: counts_ok_def counts_plus_def fields)
qed

lemma ts_cost_ok: "counts_ok d (node_count n) (ts_cost source d n)"
proof (induction source d n rule: ts_cost.induct)
  case (1 source d n)
  have size: "Suc (sum_list (map node_count (children n))) \<le> node_count n"
    using node_count_children [of n] by simp
  consider "skipped d n" | "\<not> skipped d n" "decision source n" | "\<not> skipped d n" "\<not> decision source n"
    by blast
  then show ?case
  proof cases
    case 1
    then show ?thesis by (simp add: ts_cost.simps [of source d n] counts_ok_none)
  next
    case 2
    from 1(1) [OF 2] have "counts_ok (d + 1) (sum_list (map node_count (children n)))
        (counts_sum (map (ts_cost source (d + 1)) (children n)))" by (intro counts_ok_sum)
    then have "counts_ok d (Suc (sum_list (map node_count (children n)))) (ts_cost source d n)"
      using 2 counts_ok_decision [of d] by (simp add: ts_cost.simps [of source d n] skipped_def)
    then show ?thesis using size by (rule counts_ok_mono)
  next
    case 3
    from 1(2) [OF 3] have "counts_ok d (sum_list (map node_count (children n)))
        (counts_sum (map (ts_cost source d) (children n)))" by (intro counts_ok_sum)
    then have "counts_ok d (sum_list (map node_count (children n))) (ts_cost source d n)"
      using 3 by (simp add: ts_cost.simps [of source d n])
    then show ?thesis using Suc_leD [OF size] by (rule counts_ok_mono)
  qed
qed

lemma count_ts_function_ok:
  "case count_ts_function node source of (c, g, m) \<Rightarrow>
     1 \<le> c \<and> c \<le> node_count node \<and> m \<le> MAX_NESTING_DEPTH \<and> m + 1 \<le> c \<and> c \<le> g + 1 \<and> g \<le> (c - 1) * m"
proof -
  obtain c g m where x: "counts_sum (map (ts_cost source 0) (children node)) = (c, g, m)"
    by (cases "counts_sum (map (ts_cost source 0) (children node))") auto
  have "counts_ok 0 (sum_list (map node_count (children node))) (c, g, m)"
    unfolding x [symmetric] by (rule counts_ok_sum) (rule ts_cost_ok)
  then show ?thesis
    using node_count_children [of node]
    by (auto simp: count_ts_function_rec x counts_plus_def counts_ok_def)
qed

text \<open>On ASCII sources the byte offsets of the parser are the character offsets the slices use.\<close>

lemma slice_ascii: "ascii source \<Longrightarrow> slice (utf8_encode source) i j = slice source i j"
  by simp

section \<open>Properties\<close>

text \<open>C12: The explicit stack of \<open>_count_ts_function\<close> computes exactly the recursive count over
  the body: one for the function, plus for every decision point outside nested functions one
  cyclomatic point and one plus its nesting depth cognitive points, and the deepest nesting.\<close>

theorem count_ts_function_is_recursion:
  "count_ts_function node source =
     counts_plus (1, 0, 0) (counts_sum (map (ts_cost source 0) (children node)))"
  by (rule count_ts_function_rec)

text \<open>\<open>_walk_ts_functions\<close> appends one result per function node that lies at most 256 levels
  deep, nested functions included, in source order.\<close>

theorem walk_ts_functions_is_preorder:
  "walk_ts_functions node results source =
     results @ map (\<lambda>f. ts_function_result f source) (ts_functions 0 node)"
  by (rule walk_ts_functions_rec)

text \<open>The counts are consistent for every tree: the cyclomatic count is at least 1 and at most
  the number of nodes, the nesting depth is at most 256 and below the cyclomatic count, and the
  cognitive count lies between the number of decision points and that number times the depth.\<close>

theorem ts_counts_bounds:
  "case count_ts_function node source of (c, g, m) \<Rightarrow>
     1 \<le> c \<and> c \<le> node_count node \<and> m \<le> MAX_NESTING_DEPTH \<and> m + 1 \<le> c \<and> c \<le> g + 1 \<and> g \<le> (c - 1) * m"
  by (rule count_ts_function_ok)

definition leaf :: "string \<Rightarrow> bool \<Rightarrow> nat \<Rightarrow> nat \<Rightarrow> ts_node" where
  "leaf t nm i j = Node t nm i j 0 0 []"

text \<open>The arrow function \<open>() => x && b\<close> whose body starts at byte 6 with a name of \<open>w\<close> bytes.\<close>

definition logical_arrow :: "nat \<Rightarrow> ts_node" where
  "logical_arrow w = Node ''arrow_function'' True 0 (11 + w) 0 0
     [leaf ''formal_parameters'' True 0 2,
      Node ''binary_expression'' True 6 (11 + w) 0 0
        [leaf ''identifier'' True 6 (6 + w), leaf ''&&'' False (7 + w) (9 + w),
         leaf ''identifier'' True (10 + w) (11 + w)]]"

text \<open>The parser's byte offsets index the decoded text, so a logical operator after a
  non-ASCII character is missed: renaming a variable from \<open>e\<close> to an accented letter (one byte
  longer in UTF-8) lowers the counts of the same function.\<close>

theorem non_ascii_hides_operator:
  "count_ts_function (logical_arrow 1) (''() => '' @ ''e'' @ '' && b'') = (2, 1, 1)
   \<and> slice (utf8_encode (''() => '' @ [CHR 0xE9] @ '' && b'')) 9 11 = ''&&''
   \<and> count_ts_function (logical_arrow 2) (''() => '' @ [CHR 0xE9] @ '' && b'') = (1, 0, 0)"
  by (simp add: count_ts_function_def push_frames_eq logical_arrow_def leaf_def slice_def
      utf8_encode_def utf8_char_def Let_def
      TS_FUNCTION_TYPES_def TS_BRANCH_TYPES_def TS_LOGICAL_OPERATORS_def MAX_NESTING_DEPTH_def)

end
