(* ===== verification/PyAnalyzer.thy ===== *)
theory PyAnalyzer
  imports TsAnalyzer
begin

text \<open>
  \<open>src/cce/analyzers/builtin.py\<close>, the Python half: the two \<open>ast.NodeVisitor\<close>s.

  A \<open>py_ast\<close> is a node as \<open>ast.iter_fields\<close> shows it: the class name, the line range and
  the child nodes under their field names, in field order, a list field giving one entry per element.
  \<open>ast.parse\<close> is a parameter, \<open>None\<close> for a \<open>SyntaxError\<close>. The counter keeps a current depth
  it must restore; \<open>py_cost\<close> is the state-free reference it is proved equal to.
\<close>

datatype py_ast =
  PyNode (node_class: string) (lineno: nat) (end_lineno: "nat option") (node_fields: "(string \<times> py_ast) list")

definition BRANCH_NODES :: "string list" where
  "BRANCH_NODES =
     [''If'', ''For'', ''AsyncFor'', ''While'', ''Try'', ''ExceptHandler'', ''IfExp'', ''Match'']"

text \<open>\<open>len(node.values)\<close> of a \<open>BoolOp\<close>.\<close>

definition values_len :: "(string \<times> py_ast) list \<Rightarrow> nat" where
  "values_len fs = length (filter (\<lambda>(f, _). f = ''values'') fs)"

record py_counter =
  c_cyclomatic :: nat
  c_cognitive :: nat
  c_depth :: nat
  c_max_depth :: nat

definition new_counter :: py_counter where
  "new_counter = \<lparr>c_cyclomatic = 1, c_cognitive = 0, c_depth = 0, c_max_depth = 0\<rparr>"

definition enter_branch :: "py_counter \<Rightarrow> py_counter" where
  "enter_branch c =
     \<lparr>c_cyclomatic = c_cyclomatic c + 1, c_cognitive = c_cognitive c + (1 + c_depth c),
       c_depth = c_depth c + 1, c_max_depth = max (c_max_depth c) (c_depth c + 1)\<rparr>"

definition count_bool_op :: "(string \<times> py_ast) list \<Rightarrow> py_counter \<Rightarrow> py_counter" where
  "count_bool_op fs c =
     (let increment = values_len fs - 1
      in c\<lparr>c_cyclomatic := c_cyclomatic c + increment, c_cognitive := c_cognitive c + increment\<rparr>)"

text \<open>\<open>_PythonFunctionCounter.generic_visit\<close>; the fold is the one of \<open>ast.NodeVisitor\<close>.\<close>

fun counter_visit :: "py_ast \<Rightarrow> py_counter \<Rightarrow> py_counter" where
  "counter_visit (PyNode cls l e fs) c =
     (if cls \<in> set BRANCH_NODES then
        (let c' = fold (\<lambda>(_, n). counter_visit n) fs (enter_branch c)
         in c'\<lparr>c_depth := c_depth c' - 1\<rparr>)
      else fold (\<lambda>(_, n). counter_visit n) fs (if cls = ''BoolOp'' then count_bool_op fs c else c))"

record py_visitor =
  cyclomatic_values :: "nat list"
  cognitive_values :: "nat list"
  function_lengths :: "int list"
  max_nesting_depth :: nat

definition new_visitor :: py_visitor where
  "new_visitor = \<lparr>cyclomatic_values = [], cognitive_values = [], function_lengths = [],
     max_nesting_depth = 0\<rparr>"

definition node_length :: "py_ast \<Rightarrow> int" where
  "node_length n =
     int (case end_lineno n of None \<Rightarrow> lineno n | Some e \<Rightarrow> e) - int (lineno n) + 1"

definition record_function :: "py_ast \<Rightarrow> py_visitor \<Rightarrow> py_visitor" where
  "record_function n v =
     (let counter = counter_visit n new_counter
      in v\<lparr>function_lengths := function_lengths v @ [node_length n],
           cyclomatic_values := cyclomatic_values v @ [c_cyclomatic counter],
           cognitive_values := cognitive_values v @ [c_cognitive counter],
           max_nesting_depth := max (max_nesting_depth v) (c_max_depth counter)\<rparr>)"

fun metric_visit :: "py_ast \<Rightarrow> py_visitor \<Rightarrow> py_visitor" where
  "metric_visit (PyNode cls l e fs) v =
     (if cls = ''FunctionDef'' \<or> cls = ''AsyncFunctionDef'' then record_function (PyNode cls l e fs) v
      else fold (\<lambda>(_, n). metric_visit n) fs v)"

definition max_int_default :: "int list \<Rightarrow> int" where
  "max_int_default xs = (case xs of [] \<Rightarrow> 0 | x # rest \<Rightarrow> foldl max x rest)"

definition analyse_python :: "(string \<Rightarrow> py_ast option) \<Rightarrow> string \<Rightarrow> string \<Rightarrow> file_metrics result" where
  "analyse_python ast_parse source_path txt =
     (case ast_parse txt of
        None \<Rightarrow> Inl (AnalyzerError (''failed to parse Python source '' @ source_path))
      | Some tree \<Rightarrow>
          (let v = metric_visit tree new_visitor
           in Inr \<lparr>cyclomatic = int (max_default (cyclomatic_values v)),
                   cognitive = int (max_default (cognitive_values v)),
                   nesting_depth = int (max_nesting_depth v),
                   function_length = max_int_default (function_lengths v), file_length = 0\<rparr>))"

section \<open>The state-free reference\<close>

definition is_branch :: "py_ast \<Rightarrow> bool" where
  "is_branch n \<longleftrightarrow> node_class n \<in> set BRANCH_NODES"

definition bool_gain :: "py_ast \<Rightarrow> nat" where
  "bool_gain n = (if node_class n = ''BoolOp'' then values_len (node_fields n) - 1 else 0)"

text \<open>Cyclomatic and cognitive cost and greatest depth of a subtree visited at depth \<open>d\<close>.\<close>

fun py_cost :: "nat \<Rightarrow> py_ast \<Rightarrow> ts_counts" where
  "py_cost d (PyNode cls l e fs) =
     (if cls \<in> set BRANCH_NODES
      then counts_plus (1, 1 + d, d + 1) (counts_sum (map (\<lambda>(_, n). py_cost (d + 1) n) fs))
      else let b = bool_gain (PyNode cls l e fs)
           in counts_plus (b, b, 0) (counts_sum (map (\<lambda>(_, n). py_cost d n) fs)))"

definition add_cost :: "ts_counts \<Rightarrow> py_counter \<Rightarrow> py_counter" where
  "add_cost x c = (case x of (cy, cg, m) \<Rightarrow>
     c\<lparr>c_cyclomatic := c_cyclomatic c + cy, c_cognitive := c_cognitive c + cg,
       c_max_depth := max (c_max_depth c) m\<rparr>)"

lemma add_cost_depth [simp]: "c_depth (add_cost x c) = c_depth c"
  by (simp add: add_cost_def split: prod.splits)

lemma add_cost_plus: "add_cost y (add_cost x c) = add_cost (counts_plus x y) c"
  by (cases x, cases y) (simp add: add_cost_def counts_plus_def)

lemma add_cost_none [simp]: "add_cost (0, 0, 0) c = c"
  by (simp add: add_cost_def)

lemma add_cost_bool: "count_bool_op fs c = add_cost (values_len fs - 1, values_len fs - 1, 0) c"
  by (simp add: count_bool_op_def add_cost_def Let_def)

lemma add_cost_enter:
  "(add_cost x (enter_branch c))\<lparr>c_depth := c_depth c\<rparr>
     = add_cost (counts_plus (1, 1 + c_depth c, c_depth c + 1) x) c"
  by (cases x) (simp add: add_cost_def enter_branch_def counts_plus_def)

lemma enter_branch_depth [simp]: "c_depth (enter_branch c) = c_depth c + 1"
  by (simp add: enter_branch_def)

lemma fold_cost:
  assumes "\<And>f n c. (f, n) \<in> set fs \<Longrightarrow> c_depth c = d \<Longrightarrow> counter_visit n c = add_cost (py_cost d n) c"
  shows "c_depth c = d \<Longrightarrow>
    fold (\<lambda>(_, n). counter_visit n) fs c = add_cost (counts_sum (map (\<lambda>(_, n). py_cost d n) fs)) c"
  using assms
proof (induction fs arbitrary: c)
  case (Cons p fs)
  obtain f n where p: "p = (f, n)" by (cases p)
  have "counter_visit n c = add_cost (py_cost d n) c" using Cons.prems p by auto
  moreover have "fold (\<lambda>(_, n). counter_visit n) fs (add_cost (py_cost d n) c)
      = add_cost (counts_sum (map (\<lambda>(_, n). py_cost d n) fs)) (add_cost (py_cost d n) c)"
    by (rule Cons.IH) (use Cons.prems in auto)
  ultimately show ?case by (simp add: p add_cost_plus)
qed simp

lemma counter_visit_cost: "counter_visit n c = add_cost (py_cost (c_depth c) n) c"
proof (induction n arbitrary: c)
  case (PyNode cls l e fs)
  have IH: "counter_visit n c = add_cost (py_cost d n) c" if "(f, n) \<in> set fs" "c_depth c = d" for f n c d
    using PyNode [OF that(1), of n c] that(2) by simp
  show ?case
  proof (cases "cls \<in> set BRANCH_NODES")
    case True
    have "fold (\<lambda>(_, n). counter_visit n) fs (enter_branch c)
      = add_cost (counts_sum (map (\<lambda>(_, n). py_cost (c_depth c + 1) n) fs)) (enter_branch c)"
      by (rule fold_cost) (use IH in auto)
    with True show ?thesis by (simp add: Let_def add_cost_enter)
  next
    case False
    let ?c = "if cls = ''BoolOp'' then count_bool_op fs c else c"
    have "?c = add_cost (bool_gain (PyNode cls l e fs), bool_gain (PyNode cls l e fs), 0) c"
      by (simp add: bool_gain_def add_cost_bool)
    moreover from this have "c_depth ?c = c_depth c" by simp
    ultimately show ?thesis
      using False fold_cost [where fs = fs and d = "c_depth c" and c = ?c, OF IH] by (simp add: Let_def add_cost_plus)
  qed
qed

section \<open>The functions a file has\<close>

text \<open>The outermost function definitions, in field order.\<close>

fun outer_functions :: "py_ast \<Rightarrow> py_ast list" where
  "outer_functions (PyNode cls l e fs) =
     (if cls = ''FunctionDef'' \<or> cls = ''AsyncFunctionDef'' then [PyNode cls l e fs]
      else concat (map (\<lambda>(_, n). outer_functions n) fs))"

lemma metric_visit_fold: "metric_visit n v = fold record_function (outer_functions n) v"
proof (induction n arbitrary: v)
  case (PyNode cls l e fs)
  have "fold (\<lambda>(_, n). metric_visit n) gs v = fold record_function (concat (map (\<lambda>(_, n). outer_functions n) gs)) v"
    if "set gs \<subseteq> set fs" for gs v
    using that
  proof (induction gs arbitrary: v)
    case (Cons p gs)
    obtain f n where p: "p = (f, n)" by (cases p)
    from Cons.prems p PyNode [of p n] have "metric_visit n v = fold record_function (outer_functions n) v"
      by auto
    with Cons p show ?case by simp
  qed simp
  then show ?case by simp
qed

definition function_cost :: "py_ast \<Rightarrow> ts_counts" where
  "function_cost n = counts_plus (1, 0, 0) (py_cost 0 n)"

lemma record_function_cost:
  "record_function n v =
     (case function_cost n of (cy, cg, m) \<Rightarrow>
        v\<lparr>function_lengths := function_lengths v @ [node_length n],
          cyclomatic_values := cyclomatic_values v @ [cy],
          cognitive_values := cognitive_values v @ [cg],
          max_nesting_depth := max (max_nesting_depth v) m\<rparr>)"
  by (cases "py_cost 0 n")
    (simp add: record_function_def function_cost_def counter_visit_cost new_counter_def add_cost_def
      counts_plus_def Let_def)

lemma visitor_lists:
  "fold record_function ns v =
     \<lparr>cyclomatic_values = cyclomatic_values v @ map (fst \<circ> function_cost) ns,
      cognitive_values = cognitive_values v @ map (fst \<circ> snd \<circ> function_cost) ns,
      function_lengths = function_lengths v @ map node_length ns,
      max_nesting_depth = foldl max (max_nesting_depth v) (map (snd \<circ> snd \<circ> function_cost) ns)\<rparr>"
proof (induction ns arbitrary: v)
  case (Cons n ns)
  then show ?case by (cases "function_cost n") (simp add: record_function_cost)
qed simp

section \<open>Bounds\<close>

fun py_size :: "py_ast \<Rightarrow> nat" where
  "py_size (PyNode cls l e fs) = Suc (sum_list (map (\<lambda>(_, n). py_size n) fs))"

definition py_ok :: "nat \<Rightarrow> ts_counts \<Rightarrow> bool" where
  "py_ok d x \<longleftrightarrow> (case x of (c, g, m) \<Rightarrow> c \<le> g \<and> m \<le> d + c \<and> g \<le> c * max 1 m)"

lemma py_ok_plus:
  assumes "py_ok d x" "py_ok d y"
  shows "py_ok d (counts_plus x y)"
proof (cases x, cases y)
  fix c g m c' g' m' assume xy: "x = (c, g, m)" "y = (c', g', m')"
  have "g + g' \<le> c * max 1 m + c' * max 1 m'" using assms by (auto simp: py_ok_def xy)
  also have "\<dots> \<le> c * max 1 (max m m') + c' * max 1 (max m m')"
    by (intro add_mono mult_le_mono) auto
  finally have "g + g' \<le> (c + c') * max 1 (max m m')" by (simp add: distrib_right)
  with assms show ?thesis by (auto simp: py_ok_def counts_plus_def xy)
qed

lemma py_ok_sum:
  "(\<And>f n. (f, n) \<in> set fs \<Longrightarrow> py_ok d (g n)) \<Longrightarrow> py_ok d (counts_sum (map (\<lambda>(_, n). g n) fs))"
  by (induction fs) (auto simp: py_ok_def [of d "(0, 0, 0)"] intro!: py_ok_plus)

lemma py_ok_branch:
  assumes "py_ok (d + 1) x"
  shows "py_ok d (counts_plus (1, 1 + d, d + 1) x)"
proof (cases x)
  case (fields c g m)
  have "g \<le> c * max 1 m" using assms by (simp add: py_ok_def fields)
  also have "\<dots> \<le> c * max (d + 1) m" by (intro mult_le_mono) auto
  finally have "g \<le> c * max (d + 1) m" .
  then have "1 + d + g \<le> 1 * max (d + 1) m + c * max (d + 1) m" by (intro add_mono) auto
  then have "1 + d + g \<le> (1 + c) * max (d + 1) m" by (simp add: distrib_right)
  with assms show ?thesis by (auto simp: py_ok_def counts_plus_def fields)
qed

lemma py_cost_ok: "py_ok d (py_cost d n)"
proof (induction n arbitrary: d)
  case (PyNode cls l e fs)
  have IH: "py_ok d (counts_sum (map (\<lambda>(_, n). py_cost d n) fs))" for d
    by (rule py_ok_sum) (use PyNode in auto)
  have "py_ok d (b, b, 0)" for b by (simp add: py_ok_def)
  then show ?case using IH py_ok_branch by (simp add: Let_def py_ok_plus)
qed

section \<open>Properties\<close>

text \<open>C13: Visiting a node adds its cost at the current depth to the counter and leaves the depth
  as it was: the increments and decrements of \<open>generic_visit\<close> balance on every tree.\<close>

theorem counter_visit_adds_cost:
  "counter_visit n c = add_cost (py_cost (c_depth c) n) c \<and> c_depth (counter_visit n c) = c_depth c"
  by (simp add: counter_visit_cost)

text \<open>\<open>analyse_python\<close> fails exactly on a syntax error, and otherwise takes each maximum over
  the outermost functions of the file; nested ones count within the function around them.\<close>

theorem analyse_python_functional:
  "analyse_python ast_parse path txt =
     (case ast_parse txt of
        None \<Rightarrow> Inl (AnalyzerError (''failed to parse Python source '' @ path))
      | Some tree \<Rightarrow>
          (let fs = outer_functions tree
           in Inr \<lparr>cyclomatic = int (max_default (map (fst \<circ> function_cost) fs)),
                cognitive = int (max_default (map (fst \<circ> snd \<circ> function_cost) fs)),
                nesting_depth = int (max_default (map (snd \<circ> snd \<circ> function_cost) fs)),
                function_length = max_int_default (map node_length fs), file_length = 0\<rparr>))"
  by (simp add: analyse_python_def metric_visit_fold visitor_lists new_visitor_def max_default_def Let_def
      split: option.split)

text \<open>The nesting depth of a function is below its cyclomatic count, which exceeds its cognitive
  count by at most one; the cognitive count is at most the decision points times the depth (or 1).\<close>

theorem py_function_bounds:
  "case function_cost n of (c, g, m) \<Rightarrow> 1 \<le> c \<and> m + 1 \<le> c \<and> c \<le> g + 1 \<and> g \<le> (c - 1) * max 1 m"
  using py_cost_ok [of 0 n] by (cases "py_cost 0 n") (simp add: function_cost_def counts_plus_def py_ok_def)

end
