(* ===== verification/Registry.thy ===== *)
theory Registry
  imports PyAnalyzer
begin

text \<open>
  \<open>src/cce/analyzers/registry.py\<close>, \<open>src/cce/runtime.py\<close> and the two production backends
  \<open>lizard_runner.py\<close> and \<open>scc_runner.py\<close>: the table of analyzer backends, the check of
  pinned binaries against the digests of the spec, and the network self-check.

  The file system is a function from paths to file contents (\<open>None\<close>: not a file); what a socket,
  an environment variable, \<open>lizard\<close> or the \<open>scc\<close> process answers is an argument. A backend
  returns the dict of its metrics.
\<close>

section \<open>Pinned binaries\<close>

type_synonym file_system = "string \<Rightarrow> string option"

text \<open>\<open>iter(lambda: handle.read(n), b"")\<close>.\<close>

function file_chunks :: "nat \<Rightarrow> string \<Rightarrow> string list" where
  "file_chunks n bytes =
     (if n = 0 \<or> bytes = [] then [] else take n bytes # file_chunks n (drop n bytes))"
  by pat_completeness auto
termination
  by (relation "measure (\<lambda>(n, bytes). length bytes)") auto

declare file_chunks.simps [simp del]

lemma concat_file_chunks [simp]: "0 < n \<Longrightarrow> concat (file_chunks n bytes) = bytes"
proof (induction n bytes rule: file_chunks.induct)
  case (1 n bytes)
  then show ?case by (simp add: file_chunks.simps [of n bytes])
qed

definition compute_file_sha256 :: "libs \<Rightarrow> string \<Rightarrow> string" where
  "compute_file_sha256 L bytes =
     ''sha256:'' @ sha256_hex L (concat (file_chunks 1048576 bytes))"

lemma compute_file_sha256_eq: "compute_file_sha256 L bytes = ''sha256:'' @ sha256_hex L bytes"
  by (simp add: compute_file_sha256_def)

definition assert_tool_digest ::
    "libs \<Rightarrow> file_system \<Rightarrow> string \<Rightarrow> string \<Rightarrow> string \<Rightarrow> unit result" where
  "assert_tool_digest L fs name expected_digest binary_path =
     (if \<not> re_dollar sha256_text expected_digest
      then Inl (ToolDigestMismatchError
             (name @ '': expected digest must match '' @ quoted ''sha256:<64 lowercase hex>''))
      else case fs binary_path of
             None \<Rightarrow> Inl (ToolDigestMismatchError (name @ '': pinned binary not found at '' @ binary_path))
           | Some bytes \<Rightarrow>
               if compute_file_sha256 L bytes \<noteq> expected_digest
               then Inl (ToolDigestMismatchError (name @ '': digest mismatch at '' @ binary_path @ ''; expected '' @ expected_digest
                      @ '', got '' @ compute_file_sha256 L bytes))
               else Inr ())"

lemma assert_tool_digest_ok:
  "assert_tool_digest L fs name d p = Inr () \<longleftrightarrow>
   re_dollar sha256_text d \<and> (\<exists>bytes. fs p = Some bytes \<and> d = ''sha256:'' @ sha256_hex L bytes)"
  by (auto simp: assert_tool_digest_def compute_file_sha256_eq split: option.splits)

section \<open>Network isolation\<close>

definition is_network_isolated :: "bool \<Rightarrow> bool" where
  "is_network_isolated connects \<longleftrightarrow> \<not> connects"

definition assert_network_isolated :: "bool \<Rightarrow> unit result" where
  "assert_network_isolated connects = require (is_network_isolated connects) NetworkIsolationError"

definition assert_network_isolated_if_required :: "string option \<Rightarrow> bool \<Rightarrow> unit result" where
  "assert_network_isolated_if_required env connects =
     (if env = Some ''1'' then assert_network_isolated connects else Inr ())"

section \<open>The registry\<close>

type_synonym metrics_dict = "(string, int) dict"
type_synonym backend_fun = "string \<Rightarrow> string \<Rightarrow> metrics_dict result"

record BackendEntry =
  entry_name :: string
  backend :: backend_fun
  tool_digest_key :: "string option"
  binary_resolver :: "string option"

record AnalyzerRegistry =
  entries :: "(string \<times> string, BackendEntry) dict"
  defaults :: "(string, string) dict"

definition empty_registry :: AnalyzerRegistry where
  "empty_registry = \<lparr>entries = [], defaults = []\<rparr>"

definition register :: "AnalyzerRegistry \<Rightarrow> string \<Rightarrow> BackendEntry \<Rightarrow> bool \<Rightarrow> AnalyzerRegistry" where
  "register reg language entry make_default =
     (let reg' = reg\<lparr>entries := dict_set (language, entry_name entry) entry (entries reg)\<rparr>
      in if make_default \<or> dict_get (defaults reg) language = None
         then reg'\<lparr>defaults := dict_set language (entry_name entry) (defaults reg)\<rparr>
         else reg')"

text \<open>\<open>backend_name or self._defaults.get(language)\<close>: an empty name counts as absent.\<close>

definition resolve :: "AnalyzerRegistry \<Rightarrow> string \<Rightarrow> string option \<Rightarrow> BackendEntry result" where
  "resolve reg language backend_name =
     (case (case backend_name of
              Some n \<Rightarrow> if n = [] then dict_get (defaults reg) language else Some n
            | None \<Rightarrow> dict_get (defaults reg) language) of
        None \<Rightarrow> Inl (KeyError (''no analyzer backend registered for language='' @ repr_string language))
      | Some name \<Rightarrow>
          (case dict_get (entries reg) (language, name) of
             None \<Rightarrow> Inl (KeyError (''no analyzer backend named '' @ repr_string name @ '' for language='' @ repr_string language))
           | Some e \<Rightarrow> Inr e))"

definition supported_languages :: "AnalyzerRegistry \<Rightarrow> string list" where
  "supported_languages reg = sort_key id (dict_keys (defaults reg))"

definition check_entry ::
    "libs \<Rightarrow> file_system \<Rightarrow> (string, string) dict \<Rightarrow> string list \<Rightarrow> BackendEntry \<Rightarrow> string list result" where
  "check_entry L fs tool_digests seen entry =
     (case (tool_digest_key entry, binary_resolver entry) of
        (Some key, Some binary_path) \<Rightarrow>
          if key \<in> set seen then Inr seen
          else (case dict_get tool_digests key of
                  None \<Rightarrow> Inl (RuntimeError (''tool_digests is missing entry '' @ repr_string key))
                | Some expected \<Rightarrow>
                    andthen (assert_tool_digest L fs key expected binary_path) (\<lambda>_. Inr (key # seen)))
      | _ \<Rightarrow> Inr seen)"

definition assert_digests :: "libs \<Rightarrow> file_system \<Rightarrow> AnalyzerRegistry \<Rightarrow> (string, string) dict \<Rightarrow> unit result" where
  "assert_digests L fs reg tool_digests =
     andthen (each_st (check_entry L fs tool_digests) [] (map snd (entries reg))) (\<lambda>_. Inr ())"

section \<open>Production backends\<close>

text \<open>\<open>lizard_functions\<close> is \<open>analyze_source_code(\<dots>).function_list\<close> of the \<open>lizard\<close>
  package, each function as its complexity, length and (on newer releases) nesting level;
  \<open>None\<close> when the package is not installed.\<close>

definition lizard_analyse ::
    "(string \<Rightarrow> string \<Rightarrow> (int \<times> int \<times> int option) list) option \<Rightarrow> backend_fun" where
  "lizard_analyse lizard_functions source_path txt =
     (case lizard_functions of
        None \<Rightarrow> Inl (RuntimeError (''lizard backend selected but the '' @ quoted ''lizard'' @ '' package is not installed; ''
            @ ''rebuild the production image''))
      | Some f \<Rightarrow>
          (let fns = f source_path txt;
               (cy, cg, nest) = foldl (\<lambda>(cy, cg, nest) (ccn, len, top).
                   (max cy ccn, max cg (max (ccn - 1) 0),
                    max nest (case top of None \<Rightarrow> 0 | Some d \<Rightarrow> d))) (0, 0, 0) fns
           in Inr [(''cyclomatic'', cy), (''cognitive'', cg), (''nesting_depth'', nest),
                   (''function_length'', max_int_default (map (\<lambda>(ccn, len, top). len) fns)),
                   (''file_length'', 0)]))"

definition scc_missing :: exn where
  "scc_missing =
     RuntimeError (''scc backend selected but the '' @ quoted ''scc'' @ '' binary is not on PATH; ''
       @ ''set CCE_SCC_BIN or rebuild the production image'')"

definition truthy :: "string option \<Rightarrow> string option" where
  "truthy v = (case v of None \<Rightarrow> None | Some t \<Rightarrow> if t = [] then None else Some t)"

definition scc_binary :: "string option \<Rightarrow> string option \<Rightarrow> string result" where
  "scc_binary env_bin which_scc =
     (case truthy env_bin of
        Some b \<Rightarrow> Inr b
      | None \<Rightarrow> (case truthy which_scc of Some found \<Rightarrow> Inr found | None \<Rightarrow> Inl scc_missing))"

definition scc_step :: "int \<times> int \<Rightarrow> pyval \<Rightarrow> (int \<times> int) result" where
  "scc_step st lang =
     (case (st, lang) of
        ((code_lines, complexity), VDict d) \<Rightarrow>
          andthen (py_int (get_default d ''Code'' (VInt 0))) (\<lambda>code.
          andthen (py_int (get_default d ''Complexity'' (VInt 0))) (\<lambda>cx.
            Inr (max code_lines code, max complexity cx)))
      | _ \<Rightarrow> Inr st)"

text \<open>\<open>run\<close> is the \<open>scc\<close> process on the file in its own directory: exit code, standard output and standard
  error. The message about output that is not JSON leaves out what the JSON reader says.\<close>

definition scc_analyse ::
    "libs \<Rightarrow> string option \<Rightarrow> string option \<Rightarrow> (string \<Rightarrow> string \<Rightarrow> string \<Rightarrow> int \<times> string \<times> string) \<Rightarrow> backend_fun" where
  "scc_analyse L env_bin which_scc run source_path txt =
     andthen (scc_binary env_bin which_scc) (\<lambda>binary.
       case run binary source_path txt of (code, out, err) \<Rightarrow>
         if code \<noteq> 0 then Inl (RuntimeError (''scc exited with code '' @ string_of_int code @ '': '' @ take 200 (py_strip err)))
         else (case json_loads L (if out = [] then ''[]'' else out) of
                 None \<Rightarrow> Inl (RuntimeError ''scc produced non-JSON output'')
               | Some payload \<Rightarrow>
                   andthen (case payload of VList langs \<Rightarrow> each_st scc_step (0, 0) langs
                            | _ \<Rightarrow> Inr (0, 0)) (\<lambda>(code_lines, complexity).
                     Inr [(''cyclomatic'', complexity), (''cognitive'', complexity),
                          (''nesting_depth'', 0), (''function_length'', 0),
                          (''file_length'', code_lines)])))"

section \<open>The registries the program builds\<close>

definition metrics_dict :: "file_metrics \<Rightarrow> metrics_dict" where
  "metrics_dict m =
     [(''cyclomatic'', cyclomatic m), (''cognitive'', cognitive m), (''nesting_depth'', nesting_depth m),
      (''function_length'', function_length m), (''file_length'', file_length m)]"

record parsers =
  ast_parse :: "string \<Rightarrow> py_ast option"
  ts_parse :: "string \<Rightarrow> ts_node"

definition default_registry :: "parsers \<Rightarrow> AnalyzerRegistry" where
  "default_registry P =
     register
       (register empty_registry ''python''
          \<lparr>entry_name = ''builtin_ast'',
            backend = \<lambda>path txt. andthen (analyse_python (ast_parse P) path txt) (\<lambda>m. Inr (metrics_dict m)),
            tool_digest_key = None, binary_resolver = None\<rparr> True)
       ''typescript''
       \<lparr>entry_name = ''builtin_tree_sitter'',
         backend = \<lambda>path txt. Inr (metrics_dict (analyse_typescript (ts_parse P) txt)),
         tool_digest_key = None, binary_resolver = None\<rparr> True"

definition get_registry :: "parsers \<Rightarrow> AnalyzerRegistry option \<Rightarrow> AnalyzerRegistry \<times> AnalyzerRegistry option" where
  "get_registry P glob =
     (case glob of
        Some r \<Rightarrow> (r, glob)
      | None \<Rightarrow> (default_registry P, Some (default_registry P)))"

definition register_production_backends ::
    "backend_fun \<Rightarrow> backend_fun \<Rightarrow> AnalyzerRegistry \<Rightarrow> string option \<Rightarrow> string option \<Rightarrow> AnalyzerRegistry" where
  "register_production_backends lizard scc reg lizard_binary scc_bin =
     (let reg1 = (case lizard_binary of None \<Rightarrow> reg
                  | Some p \<Rightarrow> register reg ''python''
                      \<lparr>entry_name = ''lizard'', backend = lizard, tool_digest_key = Some ''lizard'',
                        binary_resolver = Some p\<rparr> False)
      in case scc_bin of None \<Rightarrow> reg1
         | Some p \<Rightarrow> register reg1 ''typescript''
             \<lparr>entry_name = ''scc'', backend = scc, tool_digest_key = Some ''scc'',
               binary_resolver = Some p\<rparr> False)"

section \<open>Laws of the table\<close>

definition registry_wf :: "AnalyzerRegistry \<Rightarrow> bool" where
  "registry_wf reg \<longleftrightarrow>
     (\<forall>l n. dict_get (defaults reg) l = Some n \<longrightarrow> dict_get (entries reg) (l, n) \<noteq> None)"

lemma registry_wf_empty: "registry_wf empty_registry"
  by (simp add: registry_wf_def empty_registry_def)

lemma registry_wf_register: "registry_wf reg \<Longrightarrow> registry_wf (register reg l e d)"
  by (auto simp: registry_wf_def register_def Let_def split: if_splits)

lemma resolve_registered:
  "entry_name e \<noteq> [] \<Longrightarrow> resolve (register reg l e d) l (Some (entry_name e)) = Inr e"
  by (simp add: resolve_def register_def Let_def)

lemma resolve_default:
  "d \<or> dict_get (defaults reg) l = None \<Longrightarrow> resolve (register reg l e d) l None = Inr e"
  by (simp add: resolve_def register_def Let_def)

lemma resolve_keeps_default:
  "\<not> d \<Longrightarrow> dict_get (defaults reg) l = Some n \<Longrightarrow> n \<noteq> entry_name e \<Longrightarrow>
   resolve (register reg l e d) l None = resolve reg l None"
  by (simp add: resolve_def register_def Let_def)

lemma resolve_other:
  "l \<noteq> l' \<Longrightarrow> resolve (register reg l e d) l' n = resolve reg l' n"
  by (auto simp: resolve_def register_def Let_def split: option.splits)

lemma resolve_total:
  assumes "registry_wf reg" "dict_get (defaults reg) l \<noteq> None"
  shows "\<exists>e. resolve reg l None = Inr e"
proof -
  from assms(2) obtain n where n: "dict_get (defaults reg) l = Some n" by blast
  with assms(1) obtain e where "dict_get (entries reg) (l, n) = Some e" by (auto simp: registry_wf_def)
  with n show ?thesis by (simp add: resolve_def)
qed

lemma supported_iff: "l \<in> set (supported_languages reg) \<longleftrightarrow> dict_get (defaults reg) l \<noteq> None"
  by (simp add: supported_languages_def map_of_eq_None_iff)

lemma resolve_supported:
  assumes "registry_wf reg"
  shows "(\<exists>e. resolve reg l None = Inr e) \<longleftrightarrow> l \<in> set (supported_languages reg)"
proof (cases "dict_get (defaults reg) l")
  case None
  then show ?thesis unfolding supported_iff by (simp add: resolve_def)
next
  case (Some n)
  then show ?thesis unfolding supported_iff using resolve_total [OF assms, of l] by simp
qed

section \<open>The digest check\<close>

definition digest_ok :: "libs \<Rightarrow> file_system \<Rightarrow> (string, string) dict \<Rightarrow> string \<times> string \<Rightarrow> bool" where
  "digest_ok L fs digests kp \<longleftrightarrow>
     (\<exists>bytes. fs (snd kp) = Some bytes \<and> dict_get digests (fst kp) = Some (''sha256:'' @ sha256_hex L bytes)
        \<and> re_dollar sha256_text (''sha256:'' @ sha256_hex L bytes))"

text \<open>The pinned entries, and what the loop checks of them: the first of every key.\<close>

definition pinned_of :: "BackendEntry \<Rightarrow> (string \<times> string) list" where
  "pinned_of e = (case (tool_digest_key e, binary_resolver e) of (Some k, Some p) \<Rightarrow> [(k, p)] | _ \<Rightarrow> [])"

definition pinned :: "AnalyzerRegistry \<Rightarrow> (string \<times> string) list" where
  "pinned reg = concat (map pinned_of (map snd (entries reg)))"

fun first_pinned :: "string list \<Rightarrow> (string \<times> string) list \<Rightarrow> (string \<times> string) list" where
  "first_pinned seen [] = []"
| "first_pinned seen ((k, p) # ps) =
     (if k \<in> set seen then first_pinned seen ps else (k, p) # first_pinned (k # seen) ps)"

lemma check_entry_pinned:
  "check_entry L fs digests seen e =
     (case pinned_of e of
        [] \<Rightarrow> Inr seen
      | (k, p) # _ \<Rightarrow>
          if k \<in> set seen then Inr seen
          else (case dict_get digests k of
                  None \<Rightarrow> Inl (RuntimeError (''tool_digests is missing entry '' @ repr_string k))
                | Some d \<Rightarrow> andthen (assert_tool_digest L fs k d p) (\<lambda>_. Inr (k # seen))))"
  by (auto simp: check_entry_def pinned_of_def split: option.splits)

lemma check_one:
  assumes "k \<notin> set seen" "pinned_of e = [(k, p)]"
  shows "check_entry L fs digests seen e = Inr seen' \<longleftrightarrow> digest_ok L fs digests (k, p) \<and> seen' = k # seen"
  using assms
  by (auto simp: check_entry_pinned digest_ok_def result_simps assert_tool_digest_ok split: option.splits)

lemma check_entries_iff:
  "(\<exists>seen'. each_st (check_entry L fs digests) seen es = Inr seen') \<longleftrightarrow>
   list_all (digest_ok L fs digests) (first_pinned seen (concat (map pinned_of es)))"
proof (induction es arbitrary: seen)
  case (Cons e es)
  consider "pinned_of e = []" | k p where "pinned_of e = [(k, p)]"
    by (cases "tool_digest_key e"; cases "binary_resolver e") (simp_all add: pinned_of_def)
  then show ?case
  proof cases
    case 1
    with Cons show ?thesis by (simp add: check_entry_pinned)
  next
    case 2
    show ?thesis
    proof (cases "k \<in> set seen")
      case True
      with 2 Cons show ?thesis by (simp add: check_entry_pinned)
    next
      case False
      with Cons [of "k # seen"] show ?thesis
        by (auto simp: 2 result_simps check_one [OF False 2])
    qed
  qed
qed simp

lemma assert_digests_iff:
  "assert_digests L fs reg digests = Inr () \<longleftrightarrow>
   list_all (digest_ok L fs digests) (first_pinned [] (pinned reg))"
  using check_entries_iff [of L fs digests "[]" "map snd (entries reg)"]
  by (simp add: assert_digests_def pinned_def result_simps)

lemma first_pinned_distinct:
  "distinct (map fst ps) \<Longrightarrow> set seen \<inter> fst ` set ps = {} \<Longrightarrow> first_pinned seen ps = ps"
  by (induction ps arbitrary: seen) auto

text \<open>Entries whose key was seen add nothing.\<close>

lemma first_pinned_seen:
  "fst ` set qs \<subseteq> {k} \<Longrightarrow> k \<in> set seen \<union> fst ` set ps \<Longrightarrow>
   first_pinned seen (ps @ qs) = first_pinned seen ps"
proof (induction ps arbitrary: seen)
  case Nil
  then show ?case by (induction qs) auto
next
  case (Cons a ps)
  then show ?case by (cases a) auto
qed

lemma new_key_appends: "dict_get d k = None \<Longrightarrow> dict_set k v d = d @ [(k, v)]"
  by (induction d) (auto split: if_splits)

definition sample_backend :: backend_fun where
  "sample_backend path txt = Inr [(''cyclomatic'', int (length txt))]"

section \<open>Properties\<close>

text \<open>Every registry built by \<open>register\<close> keeps the table consistent: each language's default
  names a registered backend, so resolving a supported language never fails, and only those.\<close>

theorem registry_invariant:
  assumes "registry_wf reg"
  shows "registry_wf (register reg l e d)
    \<and> ((\<exists>b. resolve reg l' None = Inr b) \<longleftrightarrow> l' \<in> set (supported_languages reg))"
  using registry_wf_register [OF assms] resolve_supported [OF assms] by blast

lemma registry_invariant_witness:
  "registry_wf (register empty_registry ''python'' \<lparr>entry_name = ''ast'', backend = sample_backend,
      tool_digest_key = None, binary_resolver = None\<rparr> True)
    \<and> ((\<exists>b. resolve empty_registry ''go'' None = Inr b) \<longleftrightarrow> ''go'' \<in> set (supported_languages empty_registry))"
  by (rule registry_invariant) (rule registry_wf_empty)

text \<open>C15: The digest check accepts exactly when the first pinned backend of every digest key has an
  on-disk binary whose SHA-256 is the spec's; when no two backends share a key, that is every one.\<close>

theorem assert_digests_exact:
  "(assert_digests L fs reg digests = Inr () \<longleftrightarrow>
      list_all (digest_ok L fs digests) (first_pinned [] (pinned reg)))
   \<and> (distinct (map fst (pinned reg)) \<longrightarrow> first_pinned [] (pinned reg) = pinned reg)"
  using first_pinned_distinct [of "pinned reg" "[]"] by (simp add: assert_digests_iff)

lemma sample_pinned_distinct:
  "pinned (register_production_backends b b empty_registry (Some ''/l'') (Some ''/s'')) = [(''lizard'', ''/l''), (''scc'', ''/s'')]"
  by (simp add: register_production_backends_def register_def empty_registry_def pinned_def pinned_of_def Let_def)

lemma assert_digests_exact_witness:
  "first_pinned [] (pinned (register_production_backends sample_backend sample_backend empty_registry (Some ''/l'') (Some ''/s'')))
    = [(''lizard'', ''/l''), (''scc'', ''/s'')]
   \<and> assert_digests sample_libs (\<lambda>p. None)
       (register_production_backends sample_backend sample_backend empty_registry (Some ''/l'') (Some ''/s'')) [] \<noteq> Inr ()"
  using assert_digests_exact [of sample_libs "\<lambda>p. None"
      "register_production_backends sample_backend sample_backend empty_registry (Some ''/l'') (Some ''/s'')" "[]"]
  by (simp add: sample_pinned_distinct digest_ok_def)

text \<open>A second backend under the same digest key is never checked: whatever its binary is, the
  check still succeeds.\<close>

theorem second_binary_unchecked:
  assumes "assert_digests L fs reg digests = Inr ()" "k \<in> fst ` set (pinned reg)"
    and "dict_get (entries reg) (l, entry_name e) = None" "tool_digest_key e = Some k"
  shows "assert_digests L fs (register reg l e d) digests = Inr ()"
proof -
  have "pinned (register reg l e d) = pinned reg @ pinned_of e"
    by (simp add: pinned_def register_def Let_def new_key_appends [OF assms(3)])
  moreover have "fst ` set (pinned_of e) \<subseteq> {k}"
    using assms(4) by (auto simp: pinned_of_def split: option.splits)
  ultimately have "first_pinned [] (pinned (register reg l e d)) = first_pinned [] (pinned reg)"
    using assms(2) by (simp add: first_pinned_seen)
  with assms(1) show ?thesis by (simp add: assert_digests_iff)
qed

lemma second_binary_unchecked_witness:
  "assert_digests sample_libs [''/l'' \<mapsto> ''x'', ''/evil'' \<mapsto> ''evil'']
     (register (register empty_registry ''python''
         \<lparr>entry_name = ''lizard'', backend = sample_backend, tool_digest_key = Some ''lizard'', binary_resolver = Some ''/l''\<rparr> False)
       ''python''
       \<lparr>entry_name = ''lizard2'', backend = sample_backend, tool_digest_key = Some ''lizard'', binary_resolver = Some ''/evil''\<rparr> False)
     [(''lizard'', ''sha256:'' @ sha256_hex sample_libs ''x'')] = Inr ()"
proof (rule second_binary_unchecked)
  let ?r = "register empty_registry ''python''
         \<lparr>entry_name = ''lizard'', backend = sample_backend, tool_digest_key = Some ''lizard'', binary_resolver = Some ''/l''\<rparr> False"
  have p: "pinned ?r = [(''lizard'', ''/l'')]"
    by (simp add: pinned_def register_def empty_registry_def pinned_of_def Let_def)
  then show "''lizard'' \<in> fst ` set (pinned ?r)" by simp
  have "is_hex_lower (hex_digit 1)" by (simp add: is_hex_lower_def hex_digit_def)
  then have "re_dollar sha256_text (''sha256:'' @ sha256_hex sample_libs ''x'')"
    by (intro re_dollar_self)
      (simp add: sample_libs_def sha256_text_def starts_with_def hex_run_def list_all_iff)
  then show "assert_digests sample_libs [''/l'' \<mapsto> ''x'', ''/evil'' \<mapsto> ''evil''] ?r
     [(''lizard'', ''sha256:'' @ sha256_hex sample_libs ''x'')] = Inr ()"
    by (simp add: assert_digests_iff p digest_ok_def)
qed (simp_all add: register_def empty_registry_def Let_def)

end
