(* ===== verification/DecimalLaws.thy ===== *)
theory DecimalLaws
  imports PyDecimal
begin

text \<open>
  What the decimal operations compute. \<open>dval\<close> reads a finite decimal as a real number; the
  \<open>_fin\<close> lemmas state that an operation on finite operands whose result is not
  astronomically large succeeds and equals the real operation, correctly rounded. They are
  collected in \<open>dec_laws\<close>. \<open>grid k x\<close> says that \<open>x\<close> has at most \<open>k\<close>
  decimal places; such a number below \<open>10 ^ (28 - k)\<close> is never rounded.
\<close>

interpretation d28: radix_format 10 prec etiny
  by unfold_locales simp_all

section \<open>Values\<close>

fun is_fin :: "decimal \<Rightarrow> bool" where
  "is_fin (Fin s c e) \<longleftrightarrow> True"
| "is_fin _ \<longleftrightarrow> False"

fun dval :: "decimal \<Rightarrow> real" where
  "dval (Fin s c e) = (if s then - 1 else 1) * fval 10 c e"
| "dval _ = 0"

lemma is_fin_cases: "is_fin d \<Longrightarrow> (\<And>s c e. d = Fin s c e \<Longrightarrow> P) \<Longrightarrow> P"
  by (cases d) auto

lemma dval_neg [simp]: "dval (dec_neg d) = - dval d"
  by (cases d) auto

lemma is_fin_neg [simp]: "is_fin (dec_neg d) = is_fin d"
  by (cases d) auto

lemma dval_of_int [simp]: "dval (decimal_of_int i) = of_int i"
  and is_fin_of_int [simp]: "is_fin (decimal_of_int i)"
  by (auto simp: decimal_of_int_def fval_def)

lemma dval_zero_iff: "dval (Fin s c e) = 0 \<longleftrightarrow> c = 0"
  by (simp add: fval_def)

lemma scaled_int_value:
  assumes "m \<le> e"
  shows "real_of_int (scaled_int s c e m) * 10 powi m = dval (Fin s c e)"
  using d28.fval_shift [of c "nat (e - m)" m] assms
  by (auto simp: scaled_int_def fval_def)

section \<open>Rounding an exact result\<close>

lemma dec_fix_value:
  assumes "dec_fix s c e = Inr d"
  shows "is_fin d \<and> dval d = rnd28 (dval (Fin s c e))"
proof (cases "c = 0")
  case True
  with assms show ?thesis by (auto simp: dec_fix_def fval_def)
next
  case False
  obtain c' e' where r: "round_coeff 10 prec etiny c e = (c', e')" by fastforce
  with False assms have d: "d = Fin s c' e'"
    by (auto simp: dec_fix_def split: if_splits)
  have "fval 10 c' e' = rnd28 (fval 10 c e)"
    using d28.round_coeff_value [of c e] False r by simp
  with d show ?thesis by (simp add: d28.rnd_minus)
qed

lemma adjusted_le:
  assumes "0 < c" and "fval 10 c e \<le> 10 powi k"
  shows "int (ndigits 10 c) + e - 1 \<le> k"
proof -
  have "int (ndigits 10 c) - 1 + e = \<lfloor>log 10 (fval 10 c e)\<rfloor>"
    using d28.floor_log_fval [OF assms(1), of e] by simp
  also have "\<dots> \<le> \<lfloor>log 10 (10 powi k)\<rfloor>"
    using assms by (intro floor_mono) simp
  also have "\<dots> = k"
    using d28.floor_log_iff [of "10 powi k" k] by (simp add: power_int_add)
  finally show ?thesis by simp
qed

definition moderate :: "real \<Rightarrow> bool" where
  "moderate x \<longleftrightarrow> \<bar>x\<bar> \<le> 10 powi 60"

lemma rounded_moderate: "moderate x \<Longrightarrow> moderate (rnd28 x)"
proof -
  assume "moderate x"
  then have "- (10 powi 60) \<le> x" "x \<le> 10 powi 60" by (auto simp: moderate_def)
  then have "rnd28 (- (10 powi 60)) \<le> rnd28 x" "rnd28 x \<le> rnd28 (10 powi 60)"
    by (auto intro: d28.rnd_mono)
  moreover have "rnd28 (10 powi 60) = 10 powi 60"
    using d28.rnd_exact [of 1 60] by (simp add: fval_def)
  ultimately show "moderate (rnd28 x)"
    by (simp add: moderate_def d28.rnd_minus abs_le_iff)
qed

lemma round_coeff_exp_le:
  assumes "0 < c" "moderate (fval 10 c e)" and r: "round_coeff 10 prec etiny c e = (0, e')"
  shows "e' \<le> 60"
proof -
  have "int (ndigits 10 c) + e - 1 \<le> 60"
    using assms by (intro adjusted_le) (simp_all add: moderate_def)
  with r assms(1) show ?thesis
    by (auto simp: round_coeff_def round_quot_def Let_def ndigits.simps [of 10 0] round_exp_def
        split: if_splits)
qed

lemma dec_fix_ok:
  assumes "moderate (dval (Fin s c e))"
  shows "\<exists>d. dec_fix s c e = Inr d"
proof (cases "c = 0")
  case True
  then show ?thesis by (simp add: dec_fix_def)
next
  case False
  obtain c' e' where r: "round_coeff 10 prec etiny c e = (c', e')" by fastforce
  have mod: "moderate (fval 10 c e)"
    using assms by (auto simp: moderate_def split: if_splits)
  have val: "fval 10 c' e' = rnd28 (fval 10 c e)"
    using d28.round_coeff_value [of c e] False r by simp
  have "int (ndigits 10 c') + e' - 1 \<le> emax"
  proof (cases "c' = 0")
    case True
    with round_coeff_exp_le [OF _ mod] r False show ?thesis
      by (fastforce simp: ndigits.simps)
  next
    case False
    have "fval 10 c' e' \<le> 10 powi 60"
      using rounded_moderate [OF mod] val by (simp add: moderate_def abs_le_iff)
    with False have "int (ndigits 10 c') + e' - 1 \<le> 60"
      by (intro adjusted_le) simp_all
    then show ?thesis by simp
  qed
  with r False show ?thesis by (simp add: dec_fix_def)
qed

lemma dec_fix_fin:
  "moderate (dval (Fin s c e)) \<Longrightarrow>
   \<exists>d. dec_fix s c e = Inr d \<and> is_fin d \<and> dval d = rnd28 (dval (Fin s c e))"
  using dec_fix_ok dec_fix_value by blast

section \<open>The operations\<close>

named_theorems dec_laws

lemma dec_add_fin [dec_laws]:
  assumes "is_fin x" "is_fin y" "moderate (dval x + dval y)"
  shows "\<exists>z. dec_add x y = Inr z \<and> is_fin z \<and> dval z = rnd28 (dval x + dval y)"
proof -
  from assms obtain s1 c1 e1 s2 c2 e2 where xy: "x = Fin s1 c1 e1" "y = Fin s2 c2 e2"
    by (auto elim!: is_fin_cases)
  let ?m = "min e1 e2"
  let ?r = "scaled_int s1 c1 e1 ?m + scaled_int s2 c2 e2 ?m"
  let ?s = "if ?r = 0 then s1 \<and> s2 else ?r < 0"
  have "dval (Fin ?s (nat \<bar>?r\<bar>) ?m) = real_of_int ?r * 10 powi ?m"
    by (auto simp: fval_def)
  also have "\<dots> = dval x + dval y"
    using scaled_int_value [of ?m e1 s1 c1] scaled_int_value [of ?m e2 s2 c2] xy
    by (simp add: distrib_right)
  finally have "dval (Fin ?s (nat \<bar>?r\<bar>) ?m) = dval x + dval y" .
  with dec_fix_fin [of ?s "nat \<bar>?r\<bar>" ?m] assms(3)
  have "\<exists>z. dec_fix ?s (nat \<bar>?r\<bar>) ?m = Inr z \<and> is_fin z \<and> dval z = rnd28 (dval x + dval y)"
    by metis
  moreover have "dec_add x y = dec_fix ?s (nat \<bar>?r\<bar>) ?m"
    by (simp only: dec_add_def nan_or_def xy Let_def prod.case decimal.case) simp
  ultimately show ?thesis by metis
qed

lemma dec_sub_fin [dec_laws]:
  "is_fin x \<Longrightarrow> is_fin y \<Longrightarrow> moderate (dval x - dval y) \<Longrightarrow>
   \<exists>z. dec_sub x y = Inr z \<and> is_fin z \<and> dval z = rnd28 (dval x - dval y)"
  using dec_add_fin [of x "dec_neg y"] by (simp add: dec_sub_def)

lemma dec_mul_fin [dec_laws]:
  assumes "is_fin x" "is_fin y" "moderate (dval x * dval y)"
  shows "\<exists>z. dec_mul x y = Inr z \<and> is_fin z \<and> dval z = rnd28 (dval x * dval y)"
proof -
  from assms obtain s1 c1 e1 s2 c2 e2 where xy: "x = Fin s1 c1 e1" "y = Fin s2 c2 e2"
    by (auto elim!: is_fin_cases)
  have "dval (Fin (s1 \<noteq> s2) (c1 * c2) (e1 + e2)) = dval x * dval y"
    by (auto simp: xy fval_def power_int_add)
  moreover have "dec_mul x y = dec_fix (s1 \<noteq> s2) (c1 * c2) (e1 + e2)"
    by (simp add: dec_mul_def nan_or_def xy)
  ultimately show ?thesis
    using dec_fix_fin [of "s1 \<noteq> s2" "c1 * c2" "e1 + e2"] assms(3) by metis
qed

lemma strip_zeros_value: "case strip_zeros c e i of (c', e') \<Rightarrow> fval 10 c' e' = fval 10 c e"
proof (induction c e i rule: strip_zeros.induct)
  case (1 c e i)
  show ?case
  proof (cases "e < i \<and> c mod 10 = 0")
    case True
    then have "c = (c div 10) * 10 ^ 1" by auto
    then have "fval 10 (c div 10) (e + 1) = fval 10 c e"
      using d28.fval_shift [of "c div 10" 1 e] by simp
    with 1 True show ?thesis by (simp add: strip_zeros.simps [of c e i])
  next
    case False
    then show ?thesis by (subst strip_zeros.simps) auto
  qed
qed

lemma fin_div_value:
  assumes "0 < c1" "0 < c2" and mod: "moderate (dval (Fin s c1 e1) / fval 10 c2 e2)"
  shows "\<exists>z. fin_div s c1 e1 c2 e2 = Inr z \<and> is_fin z
    \<and> dval z = rnd28 (dval (Fin s c1 e1) / fval 10 c2 e2)"
proof -
  define sh where "sh = nat (int (ndigits 10 c2) + 29 - int (ndigits 10 c1))"
  define n where "n = c1 * 10 ^ sh"
  define e where "e = e1 - e2 - int sh"
  let ?sgn = "(if s then - 1 else 1) :: real"
  have "10 powi e1 = (10 :: real) ^ sh * 10 powi e * 10 powi e2"
    by (simp add: e_def flip: power_int_add)
      (simp add: power_int_diff)
  then have quot: "fval 10 c1 e1 / fval 10 c2 e2 = real n / real c2 * 10 powi e"
    by (simp add: fval_def n_def)
  show ?thesis
  proof (cases "n mod c2 = 0")
    case True
    obtain c e' where st: "strip_zeros (n div c2) e (e1 - e2) = (c, e')" by fastforce
    have "real n / real c2 = real (n div c2)"
      using True by (simp add: real_of_nat_div mod_eq_0_iff_dvd)
    with quot have "fval 10 (n div c2) e = fval 10 c1 e1 / fval 10 c2 e2"
      by (simp only: fval_def [of 10 "n div c2"] of_nat_numeral)
    with strip_zeros_value [of "n div c2" e "e1 - e2"] st
    have "dval (Fin s c e') = dval (Fin s c1 e1) / fval 10 c2 e2" by simp
    with dec_fix_fin [of s c e'] mod True st show ?thesis
      by (simp add: fin_div_def Let_def flip: sh_def n_def e_def)
  next
    case False
    have lo: "10 ^ (ndigits 10 c1 - 1) \<le> c1" and hi: "c2 < 10 ^ ndigits 10 c2"
      using ndigits_bounds [of 10] assms by auto
    have len: "ndigits 10 c2 + 28 \<le> ndigits 10 c1 - 1 + sh"
      using ndigits_pos [of 10 c1] by (simp add: sh_def)
    have "c2 * 10 ^ 28 \<le> 10 ^ (ndigits 10 c2 + 28)"
      using hi by (simp add: power_add)
    also have "(10::nat) ^ (ndigits 10 c2 + 28) \<le> 10 ^ (ndigits 10 c1 - 1 + sh)"
      using len by (rule power_increasing) simp
    also have "(10::nat) ^ (ndigits 10 c1 - 1 + sh) \<le> n"
      using lo by (simp add: n_def power_add)
    finally have "10 ^ 28 \<le> n div c2"
      using assms(2) by (simp add: less_eq_div_iff_mult_less_eq mult.commute)
    then have q: "0 < n div c2" and "\<not> n div c2 < 10 ^ 28" by auto
    then have "\<not> ndigits 10 (n div c2) \<le> 28"
      using ndigits_le_iff [of 10 "n div c2" 28] by simp
    then have em: "e \<le> round_exp 10 prec etiny (n div c2) e" by (simp add: round_exp_def)
    obtain c e' where r: "round_quot 10 prec etiny n c2 e = (c, e')" by fastforce
    have val: "fval 10 c e' = rnd28 (fval 10 c1 e1 / fval 10 c2 e2)"
      using d28.round_quot_value [OF q em] r quot by simp
    have "rnd28 (fval 10 c e') = fval 10 c e'"
      using d28.round_quot_fits [OF q em r] by (intro d28.rnd_exact) auto
    with val have sgn: "dval (Fin s c e') = rnd28 (dval (Fin s c1 e1) / fval 10 c2 e2)"
      and again: "rnd28 (dval (Fin s c e')) = dval (Fin s c e')"
      by (auto simp: d28.rnd_minus simp flip: minus_divide_left)
    have "moderate (dval (Fin s c e'))"
      unfolding sgn using mod by (rule rounded_moderate)
    from dec_fix_fin [OF this] again sgn False r show ?thesis
      by (simp add: fin_div_def Let_def flip: sh_def n_def e_def)
  qed
qed

lemma dec_div_fin [dec_laws]:
  assumes "is_fin x" "is_fin y" "dval y \<noteq> 0" "moderate (dval x / dval y)"
  shows "\<exists>z. dec_div x y = Inr z \<and> is_fin z \<and> dval z = rnd28 (dval x / dval y)"
proof -
  from assms obtain s1 c1 e1 s2 c2 e2 where xy: "x = Fin s1 c1 e1" "y = Fin s2 c2 e2"
    by (auto elim!: is_fin_cases)
  with assms have c2: "0 < c2" by (cases c2) (auto simp: fval_def)
  have val: "dval (Fin (s1 \<noteq> s2) c1 e1) / fval 10 c2 e2 = dval x / dval y"
    by (auto simp: xy)
  show ?thesis
  proof (cases "c1 = 0")
    case True
    have "dec_div x y = dec_fix (s1 \<noteq> s2) 0 (e1 - e2)"
      using c2 True by (simp add: dec_div_def nan_or_def xy)
    with True xy show ?thesis by (simp add: dec_fix_def fval_def)
  next
    case False
    then have "dec_div x y = fin_div (s1 \<noteq> s2) c1 e1 c2 e2"
      using c2 by (simp add: dec_div_def nan_or_def xy)
    with fin_div_value [of c1 c2 "s1 \<noteq> s2" e1 e2] False c2 assms(4) val show ?thesis
      by simp
  qed
qed

lemma dec_le_fin [dec_laws]: "is_fin x \<Longrightarrow> is_fin y \<Longrightarrow> dec_le x y = Inr (dval x \<le> dval y)"
proof -
  assume "is_fin x" "is_fin y"
  then obtain s1 c1 e1 s2 c2 e2 where xy: "x = Fin s1 c1 e1" "y = Fin s2 c2 e2"
    by (auto elim!: is_fin_cases)
  let ?m = "min e1 e2"
  have "scaled_int s1 c1 e1 ?m \<le> scaled_int s2 c2 e2 ?m
    \<longleftrightarrow> real_of_int (scaled_int s1 c1 e1 ?m) * 10 powi ?m \<le> real_of_int (scaled_int s2 c2 e2 ?m) * 10 powi ?m"
    by (simp only: mult_le_cancel_right_pos zero_less_power_int of_int_le_iff zero_less_numeral)
  also have "\<dots> \<longleftrightarrow> dval x \<le> dval y"
    using scaled_int_value [of ?m e1 s1 c1] scaled_int_value [of ?m e2 s2 c2] xy by simp
  finally show ?thesis by (simp add: xy fin_le_def Let_def)
qed

lemma dec_eq_fin [dec_laws]: "is_fin x \<Longrightarrow> is_fin y \<Longrightarrow> dec_eq x y = Inr (dval x = dval y)"
proof -
  assume xy: "is_fin x" "is_fin y"
  then obtain s1 c1 e1 s2 c2 e2 where "x = Fin s1 c1 e1" "y = Fin s2 c2 e2"
    by (auto elim!: is_fin_cases)
  with dec_le_fin [OF xy] dec_le_fin [OF xy(2,1)] show ?thesis by auto
qed

section \<open>Quantizing\<close>

text \<open>Rounding to \<open>k\<close> decimal places.\<close>

definition quant :: "nat \<Rightarrow> real \<Rightarrow> real" where
  "quant k x = of_int (rhe (x * 10 ^ k)) / 10 ^ k"

lemma quant_mono: "x \<le> y \<Longrightarrow> quant k x \<le> quant k y"
  by (simp add: quant_def divide_right_mono rhe_mono mult_right_mono)

lemma quant_error: "\<bar>quant k x - x\<bar> \<le> 1 / (2 * 10 ^ k)"
proof -
  have "(quant k x - x) * 10 ^ k = of_int (rhe (x * 10 ^ k)) - x * 10 ^ k"
    by (simp add: quant_def left_diff_distrib)
  then have "\<bar>(quant k x - x) * 10 ^ k\<bar> \<le> 1/2"
    using rhe_error [of "x * 10 ^ k"] by simp
  then have "\<bar>quant k x - x\<bar> * 10 ^ k \<le> 1/2"
    by (simp only: abs_mult power_abs abs_numeral)
  then show ?thesis by (simp add: field_simps)
qed

definition grid :: "nat \<Rightarrow> real \<Rightarrow> bool" where
  "grid k x \<longleftrightarrow> (\<exists>j::int. x = of_int j / 10 ^ k)"

lemma quant_grid: "grid k x \<Longrightarrow> quant k x = x"
  by (auto simp: grid_def quant_def)

lemma grid_quant: "grid k (quant k x)"
  by (auto simp: grid_def quant_def)

lemma rescale_value:
  "real (rescale_coeff c e (- int k)) = of_int (rhe (fval 10 c e * 10 ^ k))"
proof (cases "- int k \<le> e")
  case True
  have "fval 10 c e * 10 ^ k = real (c * 10 ^ nat (e + int k))"
    using True d28.fval_shift [of c "nat (e + int k)" "- int k"]
    by (auto simp: fval_def power_int_minus field_simps)
  then have "rhe (fval 10 c e * 10 ^ k) = int (c * 10 ^ nat (e + int k))"
    by (simp only: rhe_of_nat)
  with True show ?thesis by (simp add: rescale_coeff_def)
next
  case False
  let ?n = "nat (- int k - e)"
  have "fval 10 c e * 10 ^ k = real c / real (10 ^ ?n)"
    using False d28.unit_shift [of e ?n] by (simp add: fval_def power_int_minus field_simps)
  then have "int (half_even c (10 ^ ?n)) = rhe (fval 10 c e * 10 ^ k)"
    using half_even_rhe [of "10 ^ ?n" c] by simp
  with False have "int (rescale_coeff c e (- int k)) = rhe (fval 10 c e * 10 ^ k)"
    by (simp add: rescale_coeff_def)
  then show ?thesis by (metis of_int_of_nat_eq)
qed

lemma dec_quantize_fin:
  assumes x: "is_fin x" and k: "k \<le> 27" and small: "\<bar>dval x\<bar> \<le> 10 ^ (27 - k)"
  shows "\<exists>s c. dec_quantize x (Fin t 1 (- int k)) = Inr (Fin s c (- int k))
    \<and> dval (Fin s c (- int k)) = quant k (dval x)"
proof -
  from x obtain s c e where xf: "x = Fin s c e" by (auto elim!: is_fin_cases)
  let ?q = "- int k" and ?c = "rescale_coeff c e (- int k)"
  have val: "dval (Fin s ?c ?q) = quant k (dval x)"
    using rescale_value [of c e k]
    by (simp add: xf quant_def fval_def power_int_minus divide_inverse)
  show ?thesis
  proof (cases "c = 0")
    case True
    with k xf show ?thesis by (simp add: quant_def fval_def)
  next
    case False
    have "fval 10 c e \<le> 10 powi int (27 - k)"
      using small by (auto simp: xf split: if_splits)
    with False have adj: "int (ndigits 10 c) + e - 1 \<le> int (27 - k)"
      by (intro adjusted_le) simp_all
    have "fval 10 c e * 10 ^ k \<le> 10 ^ (27 - k) * 10 ^ k"
      using small by (intro mult_right_mono) (auto simp: xf split: if_splits)
    also have "\<dots> = real_of_int (10 ^ 27)"
      using k by (simp flip: power_add)
    finally have "rhe (fval 10 c e * 10 ^ k) \<le> 10 ^ 27"
      using rhe_mono rhe_of_int by metis
    then have "real ?c \<le> real (10 ^ 27)"
      unfolding rescale_value by simp
    then have c27: "?c \<le> 10 ^ 27" by (simp only: of_nat_le_iff)
    then have "ndigits 10 ?c \<le> 28"
      using ndigits_le_iff [of 10 ?c 28] by (cases "?c = 0") (auto simp: ndigits.simps [of 10 0])
    with False adj k xf have "dec_quantize x (Fin t 1 ?q) = Inr (Fin s ?c ?q)"
      by (simp add: Let_def)
    with val show ?thesis by blast
  qed
qed

section \<open>Numbers that are never rounded\<close>

lemma grid_int: "grid k (of_int i)"
  unfolding grid_def by (rule exI [where x = "i * 10 ^ k"]) simp

lemma grid_0 [simp]: "grid k 0"
  using grid_int [of k 0] by simp

lemma grid_add: "grid k x \<Longrightarrow> grid k y \<Longrightarrow> grid k (x + y)"
  by (auto simp: grid_def simp flip: add_divide_distrib of_int_add)

lemma grid_diff: "grid k x \<Longrightarrow> grid k y \<Longrightarrow> grid k (x - y)"
  by (auto simp: grid_def simp flip: diff_divide_distrib of_int_diff)

lemma grid_mult: "grid k x \<Longrightarrow> grid l y \<Longrightarrow> grid (k + l) (x * y)"
  by (auto simp: grid_def power_add simp flip: of_int_mult)

lemma grid_weaken: "grid k x \<Longrightarrow> k \<le> l \<Longrightarrow> grid l x"
proof -
  assume "grid k x" and kl: "k \<le> l"
  then obtain j where j: "x = of_int j / 10 ^ k" by (auto simp: grid_def)
  have "(10::real) ^ l = 10 ^ k * 10 ^ (l - k)" using kl by (simp flip: power_add)
  with j have "x = of_int (j * 10 ^ (l - k)) / 10 ^ l" by simp
  then show ?thesis unfolding grid_def by blast
qed

lemma rnd28_grid:
  assumes "grid k x" and "\<bar>x\<bar> * 10 ^ k < 10 ^ 28" and "k \<le> 1000"
  shows "rnd28 x = x"
proof -
  from assms(1) obtain j where x: "x = of_int j / 10 ^ k" by (auto simp: grid_def)
  let ?c = "nat \<bar>j\<bar>"
  have fv: "fval 10 ?c (- int k) = \<bar>x\<bar>"
    by (simp add: x fval_def power_int_minus divide_inverse abs_mult)
  have "real_of_int \<bar>j\<bar> < real_of_int (10 ^ 28)"
    using assms(2) by (simp add: x)
  then have "\<bar>j\<bar> < 10 ^ 28" by (simp only: of_int_less_iff)
  then have "?c < 10 ^ 28" by simp
  then have "rnd28 \<bar>x\<bar> = \<bar>x\<bar>"
    using d28.rnd_exact [of ?c "- int k"] assms(3) by (simp add: fv)
  then show ?thesis by (cases "0 \<le> x") (auto simp: d28.rnd_minus)
qed

fun plain :: "decimal \<Rightarrow> bool" where
  "plain (Fin s c e) \<longleftrightarrow> c < 10 ^ 9 \<and> - 9 \<le> e \<and> e \<le> 0"
| "plain _ \<longleftrightarrow> False"

lemma plain_fin: "plain d \<Longrightarrow> is_fin d"
  by (cases d) auto

lemma plain_grid: "plain d \<Longrightarrow> grid 9 (dval d)"
proof (cases d)
  case (Fin s c e)
  assume "plain d"
  with Fin have e: "- 9 \<le> e" by simp
  have "dval d = of_int (scaled_int s c e (- 9)) * 10 powi - 9"
    unfolding Fin by (rule scaled_int_value [OF e, symmetric])
  then have "dval d = of_int (scaled_int s c e (- 9)) / 10 ^ 9"
    by (simp only: power_int_minus power_int_numeral divide_inverse)
  then show ?thesis unfolding grid_def by blast
qed auto

lemma plain_bound: "plain d \<Longrightarrow> \<bar>dval d\<bar> < 10 ^ 9"
proof (cases d)
  case (Fin s c e)
  assume "plain d"
  with Fin have c: "c < 10 ^ 9" and e: "e \<le> 0" by simp_all
  have "(10::real) powi e \<le> 10 powi 0" using e by (intro power_int_increasing) auto
  then have "real c * 10 powi e \<le> real c * 1" by (intro mult_left_mono) simp_all
  also have "\<dots> < 10 ^ 9" using c by simp
  finally show ?thesis by (auto simp: Fin fval_def abs_mult)
qed auto

lemma moderate_small: "\<bar>x\<bar> \<le> 10 ^ 50 \<Longrightarrow> moderate x"
  by (simp add: moderate_def)

end
