(* ===== verification/Spec.thy ===== *)
theory Spec
  imports PyValue DecimalLaws
begin

text \<open>
  \<open>src/cce/spec.py\<close>: validation of \<open>scoring-spec.yaml\<close> into a \<open>ScoringSpec\<close>, and
  the spec hash. A raise of the code is an \<open>Inl\<close>; in particular a malformed decimal string
  raises \<open>decimal.InvalidOperation\<close>, which is not a \<open>SpecValidationError\<close>.

  The lemmas show what an accepted spec satisfies (\<open>spec_wf\<close>), that floats are refused at
  any depth, and what the spec hash covers.
\<close>

section \<open>Data\<close>

definition METRIC_NAMES :: "string list" where
  "METRIC_NAMES =
     [''cyclomatic'', ''cognitive'', ''nesting_depth'', ''function_length'', ''file_length'']"

record NormalisationRule =
  cuts :: "decimal list"
  normalised :: "decimal list"

record ScoringSpec =
  spec_version :: string
  spec_hash :: string
  weights :: "(string, decimal) dict"
  normalisation :: "(string, NormalisationRule) dict"
  decimal_places :: pyval
  rounding_mode :: string
  tool_digests :: "(string, string) dict"
  raw :: mapping_value

section \<open>Floats\<close>

function (sequential) reject_floats :: "pyval \<Rightarrow> string \<Rightarrow> unit result"
  and reject_floats_pairs :: "mapping_value \<Rightarrow> string \<Rightarrow> unit result"
  and reject_floats_items :: "pyval list \<Rightarrow> nat \<Rightarrow> string \<Rightarrow> unit result" where
  "reject_floats (VFloat t) path =
     Inl (SpecValidationError (path @ '' must not contain floats; quote decimal values''))"
| "reject_floats (VDict kvs) path = reject_floats_pairs kvs path"
| "reject_floats (VList xs) path = reject_floats_items xs 0 path"
| "reject_floats v path = Inr ()"
| "reject_floats_pairs [] path = Inr ()"
| "reject_floats_pairs ((k, v) # kvs) path =
     andthen (reject_floats v (path @ ''.'' @ py_str k)) (\<lambda>_. reject_floats_pairs kvs path)"
| "reject_floats_items [] i path = Inr ()"
| "reject_floats_items (v # vs) i path =
     andthen (reject_floats v (path @ ''['' @ string_of_nat i @ '']''))
       (\<lambda>_. reject_floats_items vs (Suc i) path)"
  by pat_completeness auto
termination
  by (relation "measure (case_sum (\<lambda>(v, p). size v)
       (case_sum (\<lambda>(kvs, p). size_list (size_prod size size) kvs) (\<lambda>(vs, i, p). size_list size vs)))")
    auto

fun has_float :: "pyval \<Rightarrow> bool" where
  "has_float (VFloat t) \<longleftrightarrow> True"
| "has_float (VDict kvs) \<longleftrightarrow> list_ex has_float (map snd kvs)"
| "has_float (VList xs) \<longleftrightarrow> list_ex has_float xs"
| "has_float v \<longleftrightarrow> False"

lemma reject_floats_iff:
  "reject_floats v path = Inr () \<longleftrightarrow> \<not> has_float v"
  "reject_floats_pairs kvs path = Inr () \<longleftrightarrow> \<not> list_ex has_float (map snd kvs)"
  "reject_floats_items vs i path = Inr () \<longleftrightarrow> \<not> list_ex has_float vs"
  by (induction v path and kvs path and vs i path
      rule: reject_floats_reject_floats_pairs_reject_floats_items.induct)
    (auto simp: result_simps)

lemma reject_floats_error:
  "reject_floats v path = Inl e \<Longrightarrow> \<exists>m. e = SpecValidationError m"
  "reject_floats_pairs kvs path = Inl e \<Longrightarrow> \<exists>m. e = SpecValidationError m"
  "reject_floats_items vs i path = Inl e \<Longrightarrow> \<exists>m. e = SpecValidationError m"
  by (induction v path and kvs path and vs i path
      rule: reject_floats_reject_floats_pairs_reject_floats_items.induct)
    (auto simp: result_simps)

section \<open>The parts of a spec\<close>

definition parse_weight :: "mapping_value \<Rightarrow> string \<Rightarrow> decimal result" where
  "parse_weight value metric =
     (case get_key value metric of
        VStr s \<Rightarrow> decimal_of_string s
      | _ \<Rightarrow> Inl (SpecValidationError (''weights.'' @ metric @ '' must be a quoted decimal string'')))"

definition parse_weights :: "pyval \<Rightarrow> (string, decimal) dict result" where
  "parse_weights v =
     (case v of
        VDict value \<Rightarrow>
          andthen (each (parse_weight value) METRIC_NAMES) (\<lambda>ws.
          andthen (each_st dec_add (Fin False 0 0) ws) (\<lambda>total.
          andthen (dec_eq total (Fin False 100 (- 2))) (\<lambda>same.
            if same then Inr (zip METRIC_NAMES ws)
            else Inl (SpecValidationError ''weights must sum to 1.00''))))
      | _ \<Rightarrow> Inl (SpecValidationError ''weights must be a mapping''))"

definition parse_decimal_tuple :: "pyval \<Rightarrow> string \<Rightarrow> decimal list result" where
  "parse_decimal_tuple v path =
     (case v of
        VList (x # xs) \<Rightarrow>
          each (\<lambda>item. case item of
                  VStr s \<Rightarrow> decimal_of_string s
                | _ \<Rightarrow> Inl (SpecValidationError (path @ '' values must be quoted decimal strings'')))
            (x # xs)
      | _ \<Rightarrow> Inl (SpecValidationError (path @ '' must be a non-empty list'')))"

text \<open>
  \<open>tuple(sorted(cuts)) == cuts\<close>: sorting two or more decimals compares every one of them
  with a neighbour, which raises when it is a NaN.
\<close>

fun ascending :: "decimal list \<Rightarrow> bool result" where
  "ascending (x # y # zs) =
     andthen (dec_le x y) (\<lambda>le. andthen (ascending (y # zs)) (\<lambda>rest. Inr (le \<and> rest)))"
| "ascending _ = Inr True"

definition parse_rule :: "mapping_value \<Rightarrow> string \<Rightarrow> NormalisationRule result" where
  "parse_rule value metric =
     (case get_key value metric of
        VDict raw_rule \<Rightarrow>
          andthen (parse_decimal_tuple (get_key raw_rule ''cuts'')
            (''normalisation.'' @ metric @ ''.cuts'')) (\<lambda>cs.
          andthen (parse_decimal_tuple (get_key raw_rule ''normalised'')
            (''normalisation.'' @ metric @ ''.normalised'')) (\<lambda>ns.
          if length cs + 1 \<noteq> length ns
          then Inl (SpecValidationError
                 (''normalisation.'' @ metric @ '' must have one more value than cut''))
          else andthen (ascending cs) (\<lambda>ok.
            if \<not> ok
            then Inl (SpecValidationError
                   (''normalisation.'' @ metric @ ''.cuts must be sorted ascending''))
            else Inr \<lparr>cuts = cs, normalised = ns\<rparr>)))
      | _ \<Rightarrow> Inl (SpecValidationError (''normalisation.'' @ metric @ '' must be a mapping'')))"

definition parse_normalisation :: "pyval \<Rightarrow> (string, NormalisationRule) dict result" where
  "parse_normalisation v =
     (case v of
        VDict value \<Rightarrow>
          if get_key value ''method'' \<noteq> VStr ''piecewise_linear_frozen_cuts''
          then Inl (SpecValidationError
                 ''normalisation.method must be piecewise_linear_frozen_cuts'')
          else andthen (each (parse_rule value) METRIC_NAMES) (\<lambda>rs. Inr (zip METRIC_NAMES rs))
      | _ \<Rightarrow> Inl (SpecValidationError ''normalisation must be a mapping''))"

definition validate_digest_shapes :: "(string, string) dict \<Rightarrow> unit result" where
  "validate_digest_shapes digests =
     each_st (\<lambda>_ (name, digest).
         require (re_dollar sha256_text digest)
           (SpecValidationError (name @ '' must be a sha256:<64 lowercase hex> digest'')))
       () (sort_key fst digests)"

definition require_digest :: "mapping_value \<Rightarrow> string \<Rightarrow> string result" where
  "require_digest mapping key =
     (case get_key mapping key of
        VStr s \<Rightarrow> Inr s
      | _ \<Rightarrow> Inl (SpecValidationError (key @ '' must be a digest string'')))"

definition flatten_tool_digests :: "pyval \<Rightarrow> (string, string) dict result" where
  "flatten_tool_digests v =
     (case v of
        VDict value \<Rightarrow>
          (case get_key value ''grammars'' of
             VDict grammars \<Rightarrow>
               andthen (require_digest value ''tree_sitter_core'') (\<lambda>core.
               andthen (require_digest grammars ''python'') (\<lambda>py.
               andthen (require_digest grammars ''typescript'') (\<lambda>ts.
               andthen (require_digest value ''lizard'') (\<lambda>lizard.
               andthen (require_digest value ''scc'') (\<lambda>scc.
                 let digests = [(''tree_sitter_core'', core), (''tree_sitter_python'', py),
                   (''tree_sitter_typescript'', ts), (''lizard'', lizard), (''scc'', scc)]
                 in andthen (validate_digest_shapes digests) (\<lambda>_. Inr digests))))))
           | _ \<Rightarrow> Inl (SpecValidationError ''pinned_tools.grammars must be a mapping''))
      | _ \<Rightarrow> Inl (SpecValidationError ''pinned_tools must be a mapping''))"

definition compute_spec_hash :: "libs \<Rightarrow> mapping_value \<Rightarrow> string result" where
  "compute_spec_hash L mapping =
     andthen (canonical_json_bytes L (VDict (dict_pop (VStr ''spec_hash'') mapping)))
       (\<lambda>material. Inr (''sha256:'' @ sha256_hex L material))"

section \<open>The whole spec\<close>

definition is_int :: "pyval \<Rightarrow> bool" where
  "is_int v = (case v of VInt _ \<Rightarrow> True | VBool _ \<Rightarrow> True | _ \<Rightarrow> False)"

definition spec_from_mapping :: "libs \<Rightarrow> mapping_value \<Rightarrow> ScoringSpec result" where
  "spec_from_mapping L mapping =
     andthen (reject_floats (VDict mapping) ''scoring-spec.yaml'') (\<lambda>_.
     andthen (parse_weights (get_key mapping ''weights'')) (\<lambda>ws.
     andthen (parse_normalisation (get_key mapping ''normalisation'')) (\<lambda>nrm.
     (case get_key mapping ''rounding'' of
        VDict rounding \<Rightarrow>
          if \<not> is_int (get_key rounding ''decimal_places'')
          then Inl (SpecValidationError ''rounding.decimal_places must be an integer'')
          else if get_key rounding ''mode'' \<noteq> VStr ''ROUND_HALF_EVEN''
          then Inl (SpecValidationError ''rounding.mode must be ROUND_HALF_EVEN'')
          else andthen (compute_spec_hash L mapping) (\<lambda>h.
               andthen (flatten_tool_digests (get_key mapping ''pinned_tools'')) (\<lambda>digests.
                 Inr \<lparr>spec_version = py_str (get_key mapping ''spec_version''), spec_hash = h,
                   weights = ws, normalisation = nrm,
                   decimal_places = get_key rounding ''decimal_places'',
                   rounding_mode = ''ROUND_HALF_EVEN'', tool_digests = digests, raw = mapping\<rparr>))
      | _ \<Rightarrow> Inl (SpecValidationError ''rounding must be a mapping'')))))"

text \<open>\<open>load_spec\<close>: the argument is what opening and reading the file gives.\<close>

definition load_spec :: "libs \<Rightarrow> string result \<Rightarrow> ScoringSpec result" where
  "load_spec L file =
     andthen file (\<lambda>text.
       case yaml_safe_load L text of
         None \<Rightarrow> Inl (SpecValidationError ''invalid YAML in scoring spec'')
       | Some (VDict mapping) \<Rightarrow> spec_from_mapping L mapping
       | Some _ \<Rightarrow> Inl (SpecValidationError ''scoring spec must be a YAML mapping''))"

section \<open>What an accepted spec satisfies\<close>

definition rule_wf :: "NormalisationRule \<Rightarrow> bool" where
  "rule_wf r \<longleftrightarrow> cuts r \<noteq> [] \<and> length (normalised r) = length (cuts r) + 1
     \<and> ascending (cuts r) = Inr True"

definition spec_wf :: "ScoringSpec \<Rightarrow> bool" where
  "spec_wf s \<longleftrightarrow>
     dict_keys (weights s) = METRIC_NAMES
   \<and> (\<exists>total. each_st dec_add (Fin False 0 0) (map snd (weights s)) = Inr total
        \<and> dec_eq total (Fin False 100 (- 2)) = Inr True)
   \<and> dict_keys (normalisation s) = METRIC_NAMES
   \<and> list_all (rule_wf \<circ> snd) (normalisation s)
   \<and> is_int (decimal_places s)
   \<and> rounding_mode s = ''ROUND_HALF_EVEN''
   \<and> dict_keys (tool_digests s) =
       [''tree_sitter_core'', ''tree_sitter_python'', ''tree_sitter_typescript'', ''lizard'', ''scc'']
   \<and> list_all (re_dollar sha256_text \<circ> snd) (tool_digests s)
   \<and> \<not> has_float (VDict (raw s))"

lemma METRIC_NAMES_distinct: "distinct METRIC_NAMES"
  by (simp add: METRIC_NAMES_def)

lemma parse_weights_wf:
  assumes "parse_weights v = Inr ws"
  shows "dict_keys ws = METRIC_NAMES
    \<and> (\<exists>total. each_st dec_add (Fin False 0 0) (map snd ws) = Inr total
         \<and> dec_eq total (Fin False 100 (- 2)) = Inr True)"
proof -
  from assms obtain d ds total where
    ds: "each (parse_weight d) METRIC_NAMES = Inr ds" and
    total: "each_st dec_add (Fin False 0 0) ds = Inr total"
      "dec_eq total (Fin False 100 (- 2)) = Inr True" and ws: "ws = zip METRIC_NAMES ds"
    by (auto simp: parse_weights_def result_simps split: if_splits)
  from each_length [OF ds] have "length ds = length METRIC_NAMES" .
  with total ws show ?thesis by simp
qed

lemma parse_decimal_tuple_nonempty: "parse_decimal_tuple v path = Inr ds \<Longrightarrow> ds \<noteq> []"
  by (auto simp: parse_decimal_tuple_def result_simps split: pyval.splits list.splits)

lemma parse_rule_wf: "parse_rule value metric = Inr r \<Longrightarrow> rule_wf r"
  by (auto simp: parse_rule_def rule_wf_def result_simps split: if_splits
      dest: parse_decimal_tuple_nonempty)

lemma parse_normalisation_wf:
  assumes "parse_normalisation v = Inr nrm"
  shows "dict_keys nrm = METRIC_NAMES \<and> list_all (rule_wf \<circ> snd) nrm"
proof -
  from assms obtain d rs where
    rs: "each (parse_rule d) METRIC_NAMES = Inr rs" and nrm: "nrm = zip METRIC_NAMES rs"
    by (auto simp: parse_normalisation_def result_simps split: if_splits)
  have len: "length rs = length METRIC_NAMES" by (rule each_length [OF rs])
  have "rule_wf (rs ! i)" if "i < length rs" for i
    using each_nth [OF rs, of i] that len by (auto intro: parse_rule_wf)
  then have "list_all rule_wf rs" by (simp add: list_all_length)
  with nrm len show ?thesis
    by (auto simp: list_all_iff dest: set_zip_rightD)
qed

lemma validate_digest_shapes_iff:
  "validate_digest_shapes ds = Inr () \<longleftrightarrow> list_all (re_dollar sha256_text \<circ> snd) ds"
proof -
  let ?f = "\<lambda>_ (name, digest). require (re_dollar sha256_text digest)
    (SpecValidationError (name @ '' must be a sha256:<64 lowercase hex> digest''))"
  have "each_st ?f () xs = Inr () \<longleftrightarrow> list_all (re_dollar sha256_text \<circ> snd) xs"
    for xs :: "(string, string) dict"
    by (induction xs) (auto simp: result_simps)
  then show ?thesis by (simp add: validate_digest_shapes_def list_all_iff)
qed

lemma flatten_tool_digests_wf:
  assumes "flatten_tool_digests v = Inr ds"
  shows "dict_keys ds =
      [''tree_sitter_core'', ''tree_sitter_python'', ''tree_sitter_typescript'', ''lizard'', ''scc'']
    \<and> list_all (re_dollar sha256_text \<circ> snd) ds"
  using assms
  by (auto simp: flatten_tool_digests_def result_simps Let_def validate_digest_shapes_iff)

lemma spec_from_mapping_wf: "spec_from_mapping L m = Inr s \<Longrightarrow> spec_wf s \<and> raw s = m"
proof -
  assume "spec_from_mapping L m = Inr s"
  then obtain ws nrm rounding h ds where
    "reject_floats (VDict m) ''scoring-spec.yaml'' = Inr ()"
    "parse_weights (get_key m ''weights'') = Inr ws"
    "parse_normalisation (get_key m ''normalisation'') = Inr nrm"
    "is_int (get_key rounding ''decimal_places'')"
    "flatten_tool_digests (get_key m ''pinned_tools'') = Inr ds"
    and s: "s = \<lparr>spec_version = py_str (get_key m ''spec_version''), spec_hash = h,
        weights = ws, normalisation = nrm, decimal_places = get_key rounding ''decimal_places'',
        rounding_mode = ''ROUND_HALF_EVEN'', tool_digests = ds, raw = m\<rparr>"
    by (auto simp: spec_from_mapping_def result_simps split: if_splits)
  then show ?thesis
    by (simp add: spec_wf_def parse_weights_wf parse_normalisation_wf flatten_tool_digests_wf
        reject_floats_iff)
qed

lemma spec_from_mapping_hash:
  "spec_from_mapping L m = Inr s \<Longrightarrow> compute_spec_hash L m = Inr (spec_hash s)"
  by (auto simp: spec_from_mapping_def result_simps split: if_splits)

text \<open>The declared hash is popped before hashing, and no other check reads it.\<close>

lemma reject_floats_set_str:
  "reject_floats_pairs m path = Inr () \<Longrightarrow>
   reject_floats_pairs (dict_set k (VStr t) m) path = Inr ()"
  unfolding reject_floats_iff
  by (induction m) auto

lemma spec_hash_field_ignored:
  assumes "spec_from_mapping L m = Inr s"
  shows "\<exists>s'. spec_from_mapping L (dict_set (VStr ''spec_hash'') (VStr t) m) = Inr s'
    \<and> s' = s\<lparr>raw := dict_set (VStr ''spec_hash'') (VStr t) m\<rparr>"
proof -
  let ?m = "dict_set (VStr ''spec_hash'') (VStr t) m"
  have keys: "get_key ?m ''weights'' = get_key m ''weights''"
    "get_key ?m ''normalisation'' = get_key m ''normalisation''"
    "get_key ?m ''rounding'' = get_key m ''rounding''"
    "get_key ?m ''pinned_tools'' = get_key m ''pinned_tools''"
    "get_key ?m ''spec_version'' = get_key m ''spec_version''"
    by (simp_all add: get_key_def)
  have hash: "compute_spec_hash L ?m = compute_spec_hash L m"
    by (simp add: compute_spec_hash_def delete_update_same)
  have fl: "reject_floats (VDict m) ''scoring-spec.yaml'' = Inr ()"
    using assms by (auto simp: spec_from_mapping_def andthen_eq_Inr)
  then have "reject_floats (VDict ?m) ''scoring-spec.yaml'' = Inr ()"
    by (simp add: reject_floats_set_str)
  with assms fl show ?thesis
    unfolding spec_from_mapping_def keys hash by (auto simp: result_simps split: if_splits)
qed

end
