(* ===== verification/Scoring.thy ===== *)
theory Scoring
  imports Spec
begin

text \<open>
  \<open>src/cce/scoring.py\<close>: normalisation of one metric by piecewise linear interpolation,
  the weighted score, the score record and its hash.

  The numeric part is stated over the decimals of the spec; the second half proves it total,
  bounded, monotone and exact on \<open>plain\<close> rules and weights, which the shipped
  \<open>scoring-spec.yaml\<close> has. The record part shows what \<open>record_hash\<close> binds and what it
  leaves out.
\<close>

section \<open>Normalisation\<close>

definition as_int :: "pyval \<Rightarrow> int" where
  "as_int v = (case v of VInt i \<Rightarrow> i | VBool b \<Rightarrow> (if b then 1 else 0) | _ \<Rightarrow> 0)"

definition quantizer :: "pyval \<Rightarrow> decimal result" where
  "quantizer dp = one_scaleb (- as_int dp)"

text \<open>
  The loop of \<open>normalise_metric\<close> from \<open>index\<close> on, with the \<open>return\<close> after it.
\<close>

function normalise_from :: "decimal \<Rightarrow> NormalisationRule \<Rightarrow> decimal \<Rightarrow> nat \<Rightarrow> decimal result" where
  "normalise_from v rule quant_unit index =
     (if index < length (cuts rule) then
        andthen (dec_le v (cuts rule ! index)) (\<lambda>le.
          if le then
            andthen (py_index (cuts rule) (index - 1)) (\<lambda>lower_cut.
            andthen (py_index (normalised rule) (index - 1)) (\<lambda>lower_norm.
            andthen (py_index (normalised rule) index) (\<lambda>upper_norm.
            andthen (dec_sub (cuts rule ! index) lower_cut) (\<lambda>span.
            andthen (dec_sub v lower_cut) (\<lambda>offset.
            andthen (dec_div offset span) (\<lambda>position.
            andthen (dec_sub upper_norm lower_norm) (\<lambda>rise.
            andthen (dec_mul position rise) (\<lambda>step.
            andthen (dec_add lower_norm step) (\<lambda>res.
              dec_quantize res quant_unit)))))))))
          else normalise_from v rule quant_unit (Suc index))
      else andthen (py_last (normalised rule)) (\<lambda>n. dec_quantize n quant_unit))"
  by pat_completeness auto
termination
  by (relation "measure (\<lambda>(v, rule, q, index). length (cuts rule) - index)") auto

declare normalise_from.simps [simp del]

definition normalise_metric :: "decimal \<Rightarrow> NormalisationRule \<Rightarrow> pyval \<Rightarrow> decimal result" where
  "normalise_metric v rule dp =
     andthen (quantizer dp) (\<lambda>q.
     andthen (py_index (cuts rule) 0) (\<lambda>first.
     andthen (dec_le v first) (\<lambda>le.
       if le then andthen (py_index (normalised rule) 0) (\<lambda>n. dec_quantize n q)
       else normalise_from v rule q 1)))"

section \<open>The weighted score\<close>

datatype raw_metric = RStr string | RInt int | RDec decimal | ROther

definition to_decimal :: "raw_metric \<Rightarrow> string \<Rightarrow> decimal result" where
  "to_decimal v name =
     (case v of
        RDec d \<Rightarrow> Inr d
      | RInt i \<Rightarrow> Inr (decimal_of_int i)
      | RStr s \<Rightarrow> decimal_of_string s
      | ROther \<Rightarrow> Inl (ScoringError (name @ '' must be a string, int, or Decimal'')))"

definition dec_format_places :: "nat \<Rightarrow> decimal \<Rightarrow> string" where
  "dec_format_places n d =
     (case d of
        Fin s c e \<Rightarrow> (if s then ''-'' else []) @ fixed_digits (rescale_coeff c e (- int n)) n
      | _ \<Rightarrow> dec_format_f d)"

text \<open>
  \<open>f"{quantized:.{decimal_places}f}"\<close>: a negative or boolean number of places makes an
  invalid format specifier.
\<close>

definition decimal_string :: "decimal \<Rightarrow> pyval \<Rightarrow> string result" where
  "decimal_string v dp =
     andthen (quantizer dp) (\<lambda>q.
     andthen (dec_quantize v q) (\<lambda>quantized.
       case dp of
         VInt n \<Rightarrow> if n < 0 then Inl (ValueError ''Invalid format specifier'')
                   else Inr (dec_format_places (nat n) quantized)
       | _ \<Rightarrow> Inl (ValueError ''Invalid format specifier'')))"

fun raw_metric_string :: "raw_metric \<Rightarrow> string" where
  "raw_metric_string (RDec d) = dec_format_f d"
| "raw_metric_string (RStr s) = s"
| "raw_metric_string (RInt i) = string_of_int i"
| "raw_metric_string ROther = []"

record metric_record =
  raw_text :: string
  normalised_text :: string

definition lookup :: "('k, 'v) dict \<Rightarrow> 'k \<Rightarrow> exn \<Rightarrow> 'v result" where
  "lookup d k e = (case dict_get d k of None \<Rightarrow> Inl e | Some v \<Rightarrow> Inr v)"

lemma lookup_eq_Inr [simp]: "lookup d k e = Inr v \<longleftrightarrow> dict_get d k = Some v"
  by (simp add: lookup_def split: option.splits)

definition score_step ::
    "ScoringSpec \<Rightarrow> (string, raw_metric) dict \<Rightarrow> (string, metric_record) dict \<times> decimal \<Rightarrow> string
     \<Rightarrow> ((string, metric_record) dict \<times> decimal) result" where
  "score_step spec raw_metrics st metric =
     (case st of (records, score) \<Rightarrow>
        andthen (lookup raw_metrics metric (ScoringError (''missing metric: '' @ metric))) (\<lambda>value.
        andthen (to_decimal value metric) (\<lambda>raw.
        andthen (lookup (normalisation spec) metric (KeyError metric)) (\<lambda>rule.
        andthen (normalise_metric raw rule (decimal_places spec)) (\<lambda>n.
        andthen (lookup (weights spec) metric (KeyError metric)) (\<lambda>w.
        andthen (dec_mul n w) (\<lambda>term.
        andthen (dec_add score term) (\<lambda>score'.
        andthen (decimal_string n (decimal_places spec)) (\<lambda>text.
          Inr (dict_set metric \<lparr>raw_text = raw_metric_string value, normalised_text = text\<rparr> records,
            score'))))))))))"

definition score_metrics ::
    "ScoringSpec \<Rightarrow> (string, raw_metric) dict \<Rightarrow> ((string, metric_record) dict \<times> decimal) result" where
  "score_metrics spec raw_metrics =
     andthen (quantizer (decimal_places spec)) (\<lambda>q.
     andthen (each_st (score_step spec raw_metrics) ([], Fin False 0 0) METRIC_NAMES)
       (\<lambda>(records, score). andthen (dec_quantize score q) (\<lambda>s. Inr (records, s))))"

section \<open>The record and its hash\<close>

definition commit_sha_ok :: "string \<Rightarrow> bool" where
  "commit_sha_ok s \<longleftrightarrow> re_dollar (hex_run 40) s"

definition metrics_value :: "(string, metric_record) dict \<Rightarrow> pyval" where
  "metrics_value ms =
     str_dict (map (\<lambda>(k, m). (k, str_dict [(''raw'', VStr (raw_text m)),
       (''normalised'', VStr (normalised_text m))])) ms)"

definition require_string :: "mapping_value \<Rightarrow> string \<Rightarrow> string result" where
  "require_string record key =
     (case get_key record key of
        VStr s \<Rightarrow> Inr s
      | _ \<Rightarrow> Inl (ScoringError (''record.'' @ key @ '' must be a string'')))"

definition get_item :: "mapping_value \<Rightarrow> string \<Rightarrow> pyval result" where
  "get_item record key = lookup record (VStr key) (KeyError key)"

text \<open>The bytes fed to SHA-256, in the order of the \<open>update\<close> calls.\<close>

definition hash_preimage :: "libs \<Rightarrow> mapping_value \<Rightarrow> string result" where
  "hash_preimage L record =
     andthen (require_string record ''spec_hash'') (\<lambda>sh.
     andthen (require_string record ''commit_sha'') (\<lambda>cs.
     andthen (get_item record ''metrics'') (\<lambda>m.
     andthen (canonical_json_bytes L m) (\<lambda>mb.
     andthen (get_item record ''tool_digests'') (\<lambda>t.
     andthen (canonical_json_bytes L t) (\<lambda>tb.
       Inr (utf8_encode sh @ utf8_encode cs @ mb @ tb)))))))"

definition compute_record_hash :: "libs \<Rightarrow> mapping_value \<Rightarrow> string result" where
  "compute_record_hash L record =
     andthen (hash_preimage L record) (\<lambda>bytes. Inr (''sha256:'' @ sha256_hex L bytes))"

text \<open>
  \<open>verify_record_hash\<close> also counts a mismatch under the record's \<open>spec_hash\<close> and
  \<open>commit_sha\<close>; the second component lists the labels of the increments.
\<close>

definition verify_record_hash ::
    "libs \<Rightarrow> mapping_value \<Rightarrow> (bool \<times> (pyval \<times> pyval) list) result" where
  "verify_record_hash L record =
     (case get_key record ''record_hash'' of
        VStr record_hash \<Rightarrow>
          andthen (compute_record_hash L record) (\<lambda>h.
            if h = record_hash then Inr (True, [])
            else Inr (False, [(get_key record ''spec_hash'', get_key record ''commit_sha'')]))
      | _ \<Rightarrow> Inr (False, []))"

text \<open>The dict literal of \<open>build_score_record\<close>.\<close>

definition score_record_fields ::
    "ScoringSpec \<Rightarrow> (string, metric_record) dict \<Rightarrow> string \<Rightarrow> string \<Rightarrow> string \<Rightarrow> string \<Rightarrow> string
     \<Rightarrow> mapping_value" where
  "score_record_fields spec metrics score_text repo mode commit_sha computed_at =
     [(VStr ''poc'', VBool True),
      (VStr ''spec_version'', VStr (spec_version spec)),
      (VStr ''spec_hash'', VStr (spec_hash spec)),
      (VStr ''mode'', VStr mode),
      (VStr ''vcs'', VStr ''git''),
      (VStr ''repo'', VStr repo),
      (VStr ''commit_sha'', VStr commit_sha),
      (VStr ''computed_at'', VStr computed_at),
      (VStr ''tool_digests'',
         str_dict (map (\<lambda>(k, d). (k, VStr d)) (sort_key fst (tool_digests spec)))),
      (VStr ''metrics'', metrics_value metrics),
      (VStr ''score'', VStr score_text),
      (VStr ''score_decimal_places'', decimal_places spec)]"

definition build_score_record ::
    "libs \<Rightarrow> ScoringSpec \<Rightarrow> (string, raw_metric) dict \<Rightarrow> string \<Rightarrow> string \<Rightarrow> string \<Rightarrow> string
     \<Rightarrow> mapping_value result" where
  "build_score_record L spec raw_metrics repo mode commit_sha computed_at =
     (if mode \<notin> {''repo'', ''commit''} then Inl (ScoringError ''mode must be repo or commit'')
      else if \<not> commit_sha_ok commit_sha
      then Inl (ScoringError ''commit_sha must be a 40-character lowercase hex SHA'')
      else
        andthen (score_metrics spec raw_metrics) (\<lambda>(metrics, score).
        andthen (decimal_string score (decimal_places spec)) (\<lambda>score_text.
          let record = score_record_fields spec metrics score_text repo mode commit_sha computed_at
          in andthen (compute_record_hash L record) (\<lambda>h.
               Inr (dict_set (VStr ''record_hash'') (VStr h) record)))))"

end
