(* ===== verification/NormaliseLaws.thy ===== *)
theory NormaliseLaws
  imports Scoring
begin

text \<open>
  What \<open>normalise_metric\<close> computes on \<open>plain\<close> rules: \<open>norm_value\<close> is the same function
  over the real numbers with its roundings written out, \<open>normalise_metric_value\<close> is the
  refinement between the two (and so the totality of the decimal code: no NaN comparison, no
  division by zero, no overflow), and the bounds, the monotonicity and the accuracy are proved of
  \<open>norm_value\<close>.
\<close>

section \<open>Plain rules\<close>

definition plain_rule :: "NormalisationRule \<Rightarrow> bool" where
  "plain_rule r \<longleftrightarrow> cuts r \<noteq> [] \<and> length (normalised r) = length (cuts r) + 1
     \<and> list_all plain (cuts r) \<and> list_all plain (normalised r)"

definition cut :: "NormalisationRule \<Rightarrow> nat \<Rightarrow> real" where
  "cut r i = dval (cuts r ! i)"

definition level :: "NormalisationRule \<Rightarrow> nat \<Rightarrow> real" where
  "level r i = dval (normalised r ! i)"

text \<open>The levels do not decrease, as in the shipped spec.\<close>

definition rising :: "NormalisationRule \<Rightarrow> bool" where
  "rising r \<longleftrightarrow> sorted (map dval (normalised r))"

lemma plain_small: "plain d \<Longrightarrow> \<bar>dval d\<bar> < 1000000000"
  using plain_bound [of d] by simp

lemma plain_cut:
  assumes "plain_rule r" "i < length (cuts r)"
  shows "is_fin (cuts r ! i)" "grid 9 (cut r i)" "\<bar>cut r i\<bar> < 1000000000"
  using assms plain_fin plain_grid plain_small
  by (auto simp: plain_rule_def cut_def list_all_length)

lemma plain_level:
  assumes "plain_rule r" "i < length (normalised r)"
  shows "is_fin (normalised r ! i)" "grid 9 (level r i)" "\<bar>level r i\<bar> < 1000000000"
  using assms plain_fin plain_grid plain_small
  by (auto simp: plain_rule_def level_def list_all_length)

lemma rising_level:
  "rising r \<Longrightarrow> i \<le> j \<Longrightarrow> j < length (normalised r) \<Longrightarrow> level r i \<le> level r j"
  by (auto simp: rising_def level_def sorted_iff_nth_mono)

section \<open>The real function\<close>

definition segment :: "NormalisationRule \<Rightarrow> nat \<Rightarrow> real \<Rightarrow> real" where
  "segment r i x =
     rnd28 (level r (i - 1) +
       rnd28 (rnd28 ((x - cut r (i - 1)) / (cut r i - cut r (i - 1))) * (level r i - level r (i - 1))))"

function norm_from :: "nat \<Rightarrow> NormalisationRule \<Rightarrow> real \<Rightarrow> nat \<Rightarrow> real" where
  "norm_from k r x i =
     (if i < length (cuts r) then (if x \<le> cut r i then quant k (segment r i x) else norm_from k r x (Suc i))
      else quant k (level r (length (cuts r))))"
  by pat_completeness auto
termination
  by (relation "measure (\<lambda>(k, r, x, i). length (cuts r) - i)") auto

declare norm_from.simps [simp del]

definition norm_value :: "nat \<Rightarrow> NormalisationRule \<Rightarrow> real \<Rightarrow> real" where
  "norm_value k r x = (if x \<le> cut r 0 then quant k (level r 0) else norm_from k r x 1)"

section \<open>One segment\<close>

lemma rnd28_small_grid: "grid 9 x \<Longrightarrow> \<bar>x\<bar> \<le> 10000000000 \<Longrightarrow> rnd28 x = x"
  by (rule rnd28_grid) auto

lemma rnd28_1 [simp]: "rnd28 1 = 1"
  using rnd28_small_grid [OF grid_int [of 9 1]] by simp

lemma position_bounds:
  assumes "a < x" "x \<le> (b::real)"
  shows "0 \<le> rnd28 ((x - a) / (b - a))" "rnd28 ((x - a) / (b - a)) \<le> 1"
    "\<bar>(x - a) / (b - a)\<bar> \<le> 1"
proof -
  have 1: "0 \<le> (x - a) / (b - a)" "(x - a) / (b - a) \<le> 1" using assms by (auto simp: field_simps)
  then show "0 \<le> rnd28 ((x - a) / (b - a))" by (intro d28.rnd_nonneg)
  show "rnd28 ((x - a) / (b - a)) \<le> 1" using d28.rnd_mono [OF 1(2)] by simp
  show "\<bar>(x - a) / (b - a)\<bar> \<le> 1" using 1 unfolding abs_le_iff by linarith
qed

lemma rise_grid:
  assumes "plain_rule r" "0 < i" "i < length (cuts r)"
  shows "grid 9 (level r i - level r (i - 1))" "\<bar>level r i - level r (i - 1)\<bar> < 2 * 1000000000"
proof -
  have i: "i < length (normalised r)" "i - 1 < length (normalised r)"
    using assms by (auto simp: plain_rule_def)
  show "grid 9 (level r i - level r (i - 1))"
    using plain_level(2) [OF assms(1)] i by (intro grid_diff) auto
  show "\<bar>level r i - level r (i - 1)\<bar> < 2 * 1000000000"
    using plain_level(3) [OF assms(1) i(1)] plain_level(3) [OF assms(1) i(2)] by linarith
qed

text \<open>The rounded step stays between nothing and the whole rise, whatever the sign.\<close>

lemma step_bound:
  assumes "0 \<le> p" "p \<le> 1" "grid 9 d" "\<bar>d\<bar> < 2 * 1000000000"
  shows "\<bar>rnd28 (p * d)\<bar> \<le> \<bar>d\<bar>" "0 \<le> d \<Longrightarrow> 0 \<le> rnd28 (p * d) \<and> rnd28 (p * d) \<le> d"
proof -
  have ex: "rnd28 d = d" "rnd28 (- d) = - d"
    using assms rnd28_small_grid [of d] by (auto simp: d28.rnd_minus)
  show nn: "0 \<le> rnd28 (p * d) \<and> rnd28 (p * d) \<le> d" if "0 \<le> d"
    using that assms d28.rnd_nonneg [of "p * d"] d28.rnd_mono [of "p * d" d]
    by (simp add: ex mult_left_le_one_le)
  show "\<bar>rnd28 (p * d)\<bar> \<le> \<bar>d\<bar>"
  proof (cases "0 \<le> d")
    case True
    then show ?thesis using nn by simp
  next
    case False
    then have "p * d \<le> 0" "d \<le> p * d"
      using assms by (auto simp: mult_nonneg_nonpos mult_le_cancel_right1)
    then have "rnd28 (p * d) \<le> 0" "d \<le> rnd28 (p * d)"
      using d28.rnd_mono [of "p * d" 0] d28.rnd_mono [of d "p * d"] ex by auto
    then show ?thesis by simp
  qed
qed

lemma segment_bounds:
  assumes r: "plain_rule r" and i: "0 < i" "i < length (cuts r)"
    and x: "cut r (i - 1) < x" "x \<le> cut r i"
  shows "\<bar>segment r i x\<bar> \<le> 10000000000"
    "rising r \<Longrightarrow> level r (i - 1) \<le> segment r i x \<and> segment r i x \<le> level r i"
proof -
  let ?a = "level r (i - 1)" and ?d = "level r i - level r (i - 1)"
  let ?s = "rnd28 (rnd28 ((x - cut r (i - 1)) / (cut r i - cut r (i - 1))) * ?d)"
  have li: "i < length (normalised r)" "i - 1 < length (normalised r)"
    using r i by (auto simp: plain_rule_def)
  note a = plain_level(2,3) [OF r li(2)] and b = plain_level(2,3) [OF r li(1)]
  note sb = step_bound [OF position_bounds(1,2) [OF x] rise_grid [OF r i]]
  have "\<bar>?a + ?s\<bar> \<le> 10000000000" using a sb(1) rise_grid(2) [OF r i] by linarith
  moreover have "rnd28 (10000000000) = 10000000000"
    using rnd28_small_grid [OF grid_int [of 9 "10000000000"]] by simp
  ultimately show "\<bar>segment r i x\<bar> \<le> 10000000000"
    unfolding segment_def
    using d28.rnd_mono [of "?a + ?s" "10000000000"] d28.rnd_mono [of "- (10000000000)" "?a + ?s"]
    by (auto simp: d28.rnd_minus abs_le_iff)
  show "?a \<le> segment r i x \<and> segment r i x \<le> level r i" if "rising r"
  proof -
    have "0 \<le> ?d" using rising_level [OF that, of "i - 1" i] li by simp
    with sb(2) have "?a \<le> ?a + ?s" "?a + ?s \<le> level r i" by auto
    moreover have "rnd28 ?a = ?a" "rnd28 (level r i) = level r i"
      using a b by (auto intro!: rnd28_small_grid)
    ultimately show ?thesis
      unfolding segment_def using d28.rnd_mono by metis
  qed
qed

lemma segment_mono:
  assumes "rising r" "plain_rule r" "0 < i" "i < length (cuts r)"
    and "cut r (i - 1) < cut r i" "x \<le> y"
  shows "segment r i x \<le> segment r i y"
proof -
  have "level r (i - 1) \<le> level r i"
    using assms by (intro rising_level) (auto simp: plain_rule_def)
  with assms show ?thesis
    unfolding segment_def
    by (intro d28.rnd_mono add_left_mono mult_right_mono divide_right_mono) auto
qed

section \<open>The decimal code computes it\<close>

lemma quantizer_int:
  "k \<le> 9 \<Longrightarrow> quantizer (VInt (int k)) = Inr (Fin False 1 (- int k))"
  by (simp add: quantizer_def as_int_def one_scaleb_def dec_fix_def round_coeff_def
      round_exp_def ndigits.simps)

lemma quantize_ok:
  assumes "is_fin x" "\<bar>dval x\<bar> \<le> 10000000000" "k \<le> 9"
  shows "\<exists>s c. dec_quantize x (Fin t 1 (- int k)) = Inr (Fin s c (- int k))
    \<and> dval (Fin s c (- int k)) = quant k (dval x)"
proof (rule dec_quantize_fin)
  have "(10::real) ^ 10 \<le> 10 ^ (27 - k)" using assms(3) by (intro power_increasing) auto
  then have "10000000000 \<le> (10::real) ^ (27 - k)" by simp
  with assms(2) show "\<bar>dval x\<bar> \<le> 10 ^ (27 - k)" by (rule order_trans)
qed (use assms in auto)

definition quantized_as :: "nat \<Rightarrow> decimal result \<Rightarrow> real \<Rightarrow> bool" where
  "quantized_as k r v \<longleftrightarrow> (\<exists>s c. r = Inr (Fin s c (- int k)) \<and> dval (Fin s c (- int k)) = v)"

lemma quantize_as:
  assumes "is_fin x" "\<bar>dval x\<bar> \<le> 10000000000" "k \<le> 9"
  shows "quantized_as k (dec_quantize x (Fin t 1 (- int k))) (quant k (dval x))"
  using quantize_ok [OF assms] by (auto simp: quantized_as_def)

lemma moderate_10: "\<bar>x\<bar> \<le> 10000000000 \<Longrightarrow> moderate x"
  by (rule moderate_small) simp

lemma sub_exact:
  assumes "is_fin x" "is_fin y" "grid 9 (dval x)" "grid 9 (dval y)"
    "\<bar>dval x\<bar> < 1000000000" "\<bar>dval y\<bar> < 1000000000"
  shows "\<exists>z. dec_sub x y = Inr z \<and> is_fin z \<and> dval z = dval x - dval y"
proof -
  have b: "\<bar>dval x - dval y\<bar> \<le> 10000000000" using assms by linarith
  then have "rnd28 (dval x - dval y) = dval x - dval y"
    using assms by (intro rnd28_small_grid grid_diff)
  with dec_sub_fin [OF assms(1,2) moderate_10 [OF b]] show ?thesis by simp
qed

lemma normalise_segment:
  assumes r: "plain_rule r" and v: "plain v" and k: "k \<le> 9" and i: "0 < i" "i < length (cuts r)"
    and x: "cut r (i - 1) < dval v" "dval v \<le> cut r i"
  shows "quantized_as k (normalise_from v r (Fin False 1 (- int k)) i) (quant k (segment r i (dval v)))"
proof -
  have li: "i < length (normalised r)" "i - 1 < length (normalised r)" "i - 1 < length (cuts r)"
    using r i by (auto simp: plain_rule_def)
  note c1 = plain_cut [OF r li(3), unfolded cut_def] and c2 = plain_cut [OF r i(2), unfolded cut_def]
  note l1 = plain_level [OF r li(2), unfolded level_def] and l2 = plain_level [OF r li(1), unfolded level_def]
  note vv = plain_fin [OF v] plain_grid [OF v] plain_small [OF v]
  note pb = position_bounds [OF x] and rg = rise_grid [OF r i]
  let ?p = "(dval v - cut r (i - 1)) / (cut r i - cut r (i - 1))"
  let ?d = "level r i - level r (i - 1)"
  obtain span where span: "dec_sub (cuts r ! i) (cuts r ! (i - 1)) = Inr span" "is_fin span"
    "dval span = cut r i - cut r (i - 1)"
    using sub_exact [OF c2(1) c1(1) c2(2) c1(2) c2(3) c1(3)] by (auto simp: cut_def)
  obtain off where off: "dec_sub v (cuts r ! (i - 1)) = Inr off" "is_fin off"
    "dval off = dval v - cut r (i - 1)"
    using sub_exact [OF vv(1) c1(1) vv(2) c1(2) vv(3) c1(3)] by (auto simp: cut_def)
  have modp: "moderate ?p" using pb(3) by (intro moderate_10) linarith
  obtain pos where pos: "dec_div off span = Inr pos" "is_fin pos" "dval pos = rnd28 ?p"
    using dec_div_fin [OF off(2) span(2)] span(3) off(3) x modp by auto
  obtain rise where rise: "dec_sub (normalised r ! i) (normalised r ! (i - 1)) = Inr rise"
    "is_fin rise" "dval rise = ?d"
    using sub_exact [OF l2(1) l1(1) l2(2) l1(2) l2(3) l1(3)] by (auto simp: level_def)
  have "\<bar>rnd28 ?p * ?d\<bar> \<le> 1 * (2 * 1000000000)"
    unfolding abs_mult using pb(1,2) rg(2) by (intro mult_mono) auto
  then obtain step where step: "dec_mul pos rise = Inr step" "is_fin step"
    "dval step = rnd28 (rnd28 ?p * ?d)"
    using dec_mul_fin [OF pos(2) rise(2)] pos(3) rise(3) moderate_10 [of "rnd28 ?p * ?d"] by auto
  have "\<bar>level r (i - 1) + dval step\<bar> \<le> 10000000000"
    using step_bound(1) [OF pb(1,2) rg] rg(2) l1(3) unfolding step(3) level_def by linarith
  then obtain res where res: "dec_add (normalised r ! (i - 1)) step = Inr res" "is_fin res"
    "dval res = segment r i (dval v)"
    using dec_add_fin [OF l1(1) step(2)] moderate_10 [of "level r (i - 1) + dval step"] step(3)
    by (auto simp: level_def segment_def)
  have "normalise_from v r (Fin False 1 (- int k)) i = dec_quantize res (Fin False 1 (- int k))"
    using x(2) i li vv(1) c2(1) span(1) off(1) pos(1) rise(1) step(1) res(1)
    by (subst normalise_from.simps) (simp add: dec_le_fin cut_def)
  with quantize_as [OF res(2) _ k] res(3) segment_bounds(1) [OF r i x] show ?thesis by simp
qed

lemma level_last:
  assumes "plain_rule r"
  shows "dval (last (normalised r)) = level r (length (cuts r))" "is_fin (last (normalised r))"
    "\<bar>level r (length (cuts r))\<bar> < 1000000000" "normalised r \<noteq> []"
proof -
  show ne: "normalised r \<noteq> []" using assms by (auto simp: plain_rule_def)
  with assms have "last (normalised r) = normalised r ! length (cuts r)"
    by (simp add: plain_rule_def last_conv_nth)
  then show "dval (last (normalised r)) = level r (length (cuts r))" "is_fin (last (normalised r))"
    "\<bar>level r (length (cuts r))\<bar> < 1000000000"
    using plain_level [OF assms, of "length (cuts r)"] assms by (auto simp: plain_rule_def level_def)
qed

lemma normalise_from_value:
  assumes r: "plain_rule r" and v: "plain v" and k: "k \<le> 9"
  shows "0 < i \<Longrightarrow> i \<le> length (cuts r) \<Longrightarrow> cut r (i - 1) < dval v \<Longrightarrow>
    quantized_as k (normalise_from v r (Fin False 1 (- int k)) i) (norm_from k r (dval v) i)"
proof (induction "length (cuts r) - i" arbitrary: i)
  case 0
  then have i: "i = length (cuts r)" by simp
  have "quantized_as k (dec_quantize (last (normalised r)) (Fin False 1 (- int k)))
    (quant k (level r (length (cuts r))))"
    using level_last [OF r] quantize_as [of "last (normalised r)" k False] k by simp
  with i level_last(4) [OF r] show ?case
    by (simp add: normalise_from.simps [of v r _ "length (cuts r)"]
        norm_from.simps [of k r _ "length (cuts r)"])
next
  case (Suc n)
  then have i: "i < length (cuts r)" by simp
  note c = plain_cut(1) [OF r i]
  show ?case
  proof (cases "dval v \<le> cut r i")
    case True
    from normalise_segment [OF r v k Suc(3) i Suc(5) True] i True show ?thesis
      by (simp add: norm_from.simps [of k r _ i])
  next
    case False
    with Suc i have "quantized_as k (normalise_from v r (Fin False 1 (- int k)) (Suc i))
      (norm_from k r (dval v) (Suc i))" by simp
    with False i c plain_fin [OF v] show ?thesis
      by (simp add: normalise_from.simps [of v r _ i] norm_from.simps [of k r _ i] dec_le_fin cut_def)
  qed
qed

lemma normalise_metric_value:
  assumes r: "plain_rule r" and v: "plain v" and k: "k \<le> 9"
  shows "quantized_as k (normalise_metric v r (VInt (int k))) (norm_value k r (dval v))"
proof -
  have c0: "0 < length (cuts r)" and n0: "0 < length (normalised r)"
    using r by (auto simp: plain_rule_def)
  note c = plain_cut(1) [OF r c0] and l = plain_level [OF r n0, unfolded level_def]
  have nm: "normalise_metric v r (VInt (int k)) =
    (if dval v \<le> cut r 0 then dec_quantize (normalised r ! 0) (Fin False 1 (- int k))
     else normalise_from v r (Fin False 1 (- int k)) 1)"
    using c c0 n0 plain_fin [OF v]
    by (simp add: normalise_metric_def quantizer_int [OF k] dec_le_fin cut_def)
  show ?thesis
  proof (cases "dval v \<le> cut r 0")
    case True
    with nm quantize_as [OF l(1) _ k, of False] l(3) show ?thesis
      by (simp add: norm_value_def level_def)
  next
    case False
    with nm normalise_from_value [OF r v k, of 1] c0 show ?thesis
      by (simp add: norm_value_def)
  qed
qed

section \<open>Bounds, monotonicity, knots\<close>

lemma norm_from_bounds:
  assumes r: "plain_rule r" "rising r"
  shows "0 < i \<Longrightarrow> i \<le> length (cuts r) \<Longrightarrow> cut r (i - 1) < x \<Longrightarrow>
    quant k (level r (i - 1)) \<le> norm_from k r x i
    \<and> norm_from k r x i \<le> quant k (level r (length (cuts r)))"
proof (induction "length (cuts r) - i" arbitrary: i)
  case 0
  have "level r (i - 1) \<le> level r (length (cuts r))"
    using r 0 by (intro rising_level) (auto simp: plain_rule_def)
  with 0 show ?case by (simp add: norm_from.simps [of k r _ i] quant_mono)
next
  case (Suc n)
  then have i: "i < length (cuts r)" by simp
  have lv: "level r (i - 1) \<le> level r i" "level r i \<le> level r (length (cuts r))"
    using r i by (auto intro!: rising_level simp: plain_rule_def)
  show ?case
  proof (cases "x \<le> cut r i")
    case True
    with segment_bounds(2) [OF r(1) Suc(3) i Suc(5) True r(2)] lv i show ?thesis
      by (auto simp: norm_from.simps [of k r _ i] intro!: quant_mono)
  next
    case False
    have "quant k (level r i) \<le> norm_from k r x (Suc i)
      \<and> norm_from k r x (Suc i) \<le> quant k (level r (length (cuts r)))"
      using Suc(1) [of "Suc i"] Suc(2) False i by simp
    with False i quant_mono [OF lv(1), of k] show ?thesis
      by (auto simp: norm_from.simps [of k r _ i])
  qed
qed

lemma norm_value_bounds:
  assumes r: "plain_rule r" "rising r"
  shows "quant k (level r 0) \<le> norm_value k r x \<and> norm_value k r x \<le> quant k (level r (length (cuts r)))"
proof -
  have "level r 0 \<le> level r (length (cuts r))"
    using r by (intro rising_level) (auto simp: plain_rule_def)
  moreover have "Suc 0 \<le> length (cuts r)" using r(1) by (cases "cuts r") (auto simp: plain_rule_def)
  ultimately show ?thesis
    using norm_from_bounds [OF r, of 1 x k] by (auto simp: norm_value_def quant_mono)
qed

lemma norm_from_mono:
  assumes r: "plain_rule r" "rising r" and xy: "x \<le> y"
  shows "0 < i \<Longrightarrow> i \<le> length (cuts r) \<Longrightarrow> cut r (i - 1) < x \<Longrightarrow>
    norm_from k r x i \<le> norm_from k r y i"
proof (induction "length (cuts r) - i" arbitrary: i)
  case 0
  then show ?case by (simp add: norm_from.simps [of k r _ i])
next
  case (Suc n)
  then have i: "i < length (cuts r)" by simp
  consider "y \<le> cut r i" | "x \<le> cut r i" "cut r i < y" | "cut r i < x" "cut r i < y"
    using xy by linarith
  then show ?case
  proof cases
    case 1
    with Suc xy i have "segment r i x \<le> segment r i y"
      by (intro segment_mono [OF r(2,1)]) auto
    with 1 xy i show ?thesis by (auto simp: norm_from.simps [of k r _ i] intro: quant_mono)
  next
    case 2
    from 2 i have "quant k (level r i) \<le> norm_from k r y (Suc i)"
      using norm_from_bounds [OF r, of "Suc i" y k] by simp
    moreover have "quant k (segment r i x) \<le> quant k (level r i)"
      using segment_bounds(2) [OF r(1) Suc(3) i Suc(5) 2(1) r(2)] by (simp add: quant_mono)
    ultimately show ?thesis using 2 i by (simp add: norm_from.simps [of k r _ i])
  next
    case 3
    with Suc i show ?thesis by (simp add: norm_from.simps [of k r _ i])
  qed
qed

lemma norm_value_mono:
  assumes r: "plain_rule r" "rising r" and xy: "x \<le> y"
  shows "norm_value k r x \<le> norm_value k r y"
proof -
  have "Suc 0 \<le> length (cuts r)" using r(1) by (cases "cuts r") (auto simp: plain_rule_def)
  then show ?thesis
    using norm_from_mono [OF r xy, of 1 k] norm_from_bounds [OF r, of 1 y k] xy
    by (auto simp: norm_value_def)
qed

lemma norm_from_segment:
  assumes i: "i < length (cuts r)" and x: "\<forall>j<i. cut r j < x" "x \<le> cut r i"
  shows "m \<le> i \<Longrightarrow> norm_from k r x m = quant k (segment r i x)"
proof (induction "i - m" arbitrary: m)
  case 0
  then have "m = i" by simp
  with i x show ?case by (simp add: norm_from.simps [of k r x i])
next
  case (Suc n)
  then have m: "m < i" "m < length (cuts r)" using i by auto
  with x(1) have "\<not> x \<le> cut r m" by (simp add: not_le)
  with m Suc show ?case by (simp add: norm_from.simps [of k r x m])
qed

lemma norm_value_segment:
  assumes "0 < i" "i < length (cuts r)" "\<forall>j<i. cut r j < x" "x \<le> cut r i"
  shows "norm_value k r x = quant k (segment r i x)"
proof -
  from assms(1,3) have "\<not> x \<le> cut r 0" by auto
  with norm_from_segment [OF assms(2-4), of 1 k] assms(1) show ?thesis by (simp add: norm_value_def)
qed

section \<open>Accuracy\<close>

text \<open>Exact piecewise linear interpolation, without any rounding.\<close>

definition line :: "NormalisationRule \<Rightarrow> nat \<Rightarrow> real \<Rightarrow> real" where
  "line r i x = level r (i - 1) +
     (x - cut r (i - 1)) / (cut r i - cut r (i - 1)) * (level r i - level r (i - 1))"

lemma rnd28_error:
  assumes "\<bar>x\<bar> < 10 powi m" "etiny + 28 \<le> m"
  shows "\<bar>rnd28 x - x\<bar> \<le> 10 powi (m - 28)"
proof (cases "x = 0")
  case False
  have "\<lfloor>log 10 \<bar>x\<bar>\<rfloor> < m"
    using assms(1) False by (simp add: floor_less_iff log_less_iff powr_real_of_int' )
  then have "rnd_unit 10 prec etiny x \<le> m - 28"
    using assms(2) by (simp add: rnd_unit_def)
  then have "(10::real) powi rnd_unit 10 prec etiny x \<le> 10 powi (m - 28)"
    by (intro power_int_increasing) auto
  moreover have "\<bar>rnd28 x - x\<bar> \<le> 10 powi rnd_unit 10 prec etiny x / 2"
    using d28.rnd_error [OF False] by simp
  moreover have "0 \<le> (10::real) powi rnd_unit 10 prec etiny x" by simp
  ultimately show ?thesis by linarith
qed simp

lemma rnd28_close:
  assumes "\<bar>x\<bar> < 10 ^ m" "m \<le> 28"
  shows "\<bar>rnd28 x - x\<bar> \<le> 1 / 10 ^ (28 - m)"
proof -
  have "\<bar>rnd28 x - x\<bar> \<le> 10 powi (int m - 28)"
    using assms by (intro rnd28_error) auto
  also have "int m - 28 = - int (28 - m)" using assms(2) by simp
  finally show ?thesis by (simp only: power_int_minus power_int_of_nat inverse_eq_divide)
qed

lemma segment_accuracy:
  assumes r: "plain_rule r" and i: "0 < i" "i < length (cuts r)"
    and x: "cut r (i - 1) < x" "x \<le> cut r i"
  shows "\<bar>segment r i x - line r i x\<bar> \<le> 1 / 10 ^ 16"
proof -
  let ?q = "(x - cut r (i - 1)) / (cut r i - cut r (i - 1))"
  let ?d = "level r i - level r (i - 1)"
  let ?s = "rnd28 (rnd28 ?q * ?d)" and ?l = "level r (i - 1)"
  have li: "i - 1 < length (normalised r)" using r i by (auto simp: plain_rule_def)
  note pb = position_bounds [OF x] and rg = rise_grid [OF r i]
  have "\<bar>rnd28 ?q - ?q\<bar> \<le> 1 / 10 ^ 27"
    using rnd28_close [of ?q 1] pb(3) by simp
  then have "\<bar>(rnd28 ?q - ?q) * ?d\<bar> \<le> 1 / 10 ^ 27 * (2 * 1000000000)"
    unfolding abs_mult using rg(2) by (intro mult_mono) auto
  then have e1: "\<bar>rnd28 ?q * ?d - ?q * ?d\<bar> \<le> 2 / 10 ^ 18"
    by (simp add: left_diff_distrib)
  have "\<bar>rnd28 ?q * ?d\<bar> \<le> 1 * (2 * 1000000000)"
    unfolding abs_mult using pb(1,2) rg(2) by (intro mult_mono) auto
  then have e2: "\<bar>?s - rnd28 ?q * ?d\<bar> \<le> 1 / 10 ^ 18"
    using rnd28_close [of "rnd28 ?q * ?d" 10] by simp
  have "\<bar>?l + ?s\<bar> < 10000000000"
    using step_bound(1) [OF pb(1,2) rg] rg(2) plain_level(3) [OF r li] by linarith
  then have e3: "\<bar>rnd28 (?l + ?s) - (?l + ?s)\<bar> \<le> 1 / 10 ^ 18"
    using rnd28_close [of "?l + ?s" 10] by simp
  have "segment r i x - line r i x = (rnd28 (?l + ?s) - (?l + ?s)) + (?s - rnd28 ?q * ?d)
      + (rnd28 ?q * ?d - ?q * ?d)"
    unfolding segment_def line_def by linarith
  then have "\<bar>segment r i x - line r i x\<bar> \<le> 1 / 10 ^ 18 + 1 / 10 ^ 18 + 2 / 10 ^ 18"
    using e1 e2 e3 by linarith
  also have "\<dots> \<le> 1 / 10 ^ 16" by simp
  finally show ?thesis .
qed

end
