(* ===== verification/DecimalText.thy ===== *)
theory DecimalText
  imports PyDecimal
begin

text \<open>
  Printing a quantized decimal and reading it back: \<open>decimal_of_string\<close> inverts
  \<open>fixed_digits\<close>, so the texts of a score record determine the decimals they show.
\<close>

lemma nat_of_digits_zeros [simp]: "nat_of_digits (zeros n @ s) = nat_of_digits s"
proof (induction n)
  case (Suc n)
  then show ?case by (simp add: zeros_def nat_of_digits_def digit_val_def)
qed (simp add: zeros_def)

lemma is_digit_zeros: "\<forall>c\<in>set (zeros n). is_digit c"
  by (simp add: zeros_def is_digit_def)

lemma takeWhile_digits:
  "\<forall>c\<in>set ds. is_digit c \<Longrightarrow> (rest = [] \<or> \<not> is_digit (hd rest)) \<Longrightarrow>
   takeWhile is_digit (ds @ rest) = ds \<and> dropWhile is_digit (ds @ rest) = rest"
  by (cases rest) (auto simp: takeWhile_append2 dropWhile_append2 takeWhile_tail)

lemma digit_facts:
  assumes "is_digit c"
  shows "c \<noteq> CHR ''_''" "c \<noteq> CHR ''-''" "c \<noteq> CHR ''+''" "c \<noteq> CHR ''.''" "\<not> py_space c"
    "to_lower_char c = c" "c \<noteq> CHR ''i''" "c \<noteq> CHR ''n''" "c \<noteq> CHR ''s''"
  using assms by (auto simp: is_digit_def py_space_def to_lower_char_def)

text \<open>A sign, at least one digit, and a fraction of \<open>k\<close> digits.\<close>

definition number_text :: "bool \<Rightarrow> string \<Rightarrow> string \<Rightarrow> string" where
  "number_text s ip fp =
     (if s then ''-'' else []) @ ip @ (if fp = [] then [] else CHR ''.'' # fp)"

lemma parse_finite_number:
  assumes "ip \<noteq> []" "\<forall>c\<in>set ip. is_digit c" "\<forall>c\<in>set fp. is_digit c"
    and "int (ndigits 10 (nat_of_digits (ip @ fp))) - int (length fp) - 1 \<le> 999999999999999999"
    and "int (length fp) \<le> 1999999999999999997"
  shows "parse_finite s (ip @ (if fp = [] then [] else CHR ''.'' # fp))
    = Inr (Fin s (nat_of_digits (ip @ fp)) (- int (length fp)))"
proof -
  let ?rest = "if fp = [] then [] else CHR ''.'' # fp"
  have dot: "\<not> is_digit (CHR ''.'')" by (simp add: is_digit_def)
  have tw: "takeWhile is_digit (ip @ ?rest) = ip" "dropWhile is_digit (ip @ ?rest) = ?rest"
    using takeWhile_digits [of ip ?rest] assms(2) dot by auto
  have "take_fraction ?rest = (fp, [])"
    using takeWhile_digits [of fp "[]"] assms(3) by (simp add: take_fraction_def)
  with assms tw show ?thesis
    by (auto simp: parse_finite_def parse_exponent_def)
qed

lemma decimal_of_number_text:
  assumes ip: "ip \<noteq> []" "\<forall>c\<in>set ip. is_digit c" and fp: "\<forall>c\<in>set fp. is_digit c"
    and lim: "int (ndigits 10 (nat_of_digits (ip @ fp))) - int (length fp) - 1 \<le> 999999999999999999"
      "int (length fp) \<le> 1999999999999999997"
  shows "decimal_of_string (number_text s ip fp) = Inr (Fin s (nat_of_digits (ip @ fp)) (- int (length fp)))"
proof -
  let ?body = "ip @ (if fp = [] then [] else CHR ''.'' # fp)"
  let ?t = "number_text s ip fp"
  obtain d ds where d: "ip = d # ds" "is_digit d" using ip by (cases ip) auto
  have last: "is_digit (last ?t)"
    using ip fp d by (auto simp: number_text_def)
  have hd: "\<not> py_space (hd ?t)" using d digit_facts(5) [OF d(2)]
    by (auto simp: number_text_def py_space_def)
  have ne: "?t \<noteq> []" using ip(1) by (simp add: number_text_def)
  have strip: "py_strip ?t = ?t"
    by (rule py_strip_id [OF ne hd digit_facts(5) [OF last]])
  have filt: "filter (\<lambda>c. c \<noteq> CHR ''_'') ?t = ?t"
    using ip(2) fp digit_facts(1) by (auto simp: number_text_def filter_id_conv)
  have sign: "take_sign ?t = (s, ?body)"
    using digit_facts [OF d(2)] by (auto simp: number_text_def take_sign_def d(1))
  have low: "map to_lower_char ?body = d # map to_lower_char (tl ?body)"
    using digit_facts(6) [OF d(2)] by (simp add: d(1))
  show ?thesis
    using parse_finite_number [OF ip fp lim, of s] digit_facts(7-9) [OF d(2)]
    unfolding decimal_of_string_def strip filt sign prod.case Let_def low by simp
qed

lemma fixed_digits_text:
  "\<exists>ip fp. (if s then ''-'' else []) @ fixed_digits c k = number_text s ip fp \<and> ip \<noteq> []
     \<and> (\<forall>x\<in>set ip. is_digit x) \<and> (\<forall>x\<in>set fp. is_digit x) \<and> length fp = k
     \<and> nat_of_digits (ip @ fp) = c"
proof -
  let ?ds = "string_of_nat c"
  define pad where "pad = zeros (Suc k - length ?ds) @ ?ds"
  let ?ip = "take (length pad - k) pad" and ?fp = "drop (length pad - k) pad"
  have len: "Suc k \<le> length pad" by (simp add: pad_def zeros_def)
  have dig: "\<forall>x\<in>set pad. is_digit x"
    using is_digit_zeros string_of_nat_digits by (auto simp: pad_def)
  have "?ip \<noteq> []" "length ?fp = k" using len by auto
  moreover have "\<forall>x\<in>set ?ip. is_digit x" "\<forall>x\<in>set ?fp. is_digit x"
    using dig by (auto dest: in_set_takeD in_set_dropD)
  moreover have "nat_of_digits (?ip @ ?fp) = c"
    unfolding append_take_drop_id by (simp add: pad_def)
  moreover have "(if s then ''-'' else []) @ fixed_digits c k = number_text s ?ip ?fp"
    using calculation(2) unfolding fixed_digits_def Let_def number_text_def pad_def [symmetric]
    by (cases "k = 0") auto
  ultimately show ?thesis by blast
qed

lemma decimal_of_fixed_digits:
  assumes "c < 10 ^ 28" "k \<le> 1000"
  shows "decimal_of_string ((if s then ''-'' else []) @ fixed_digits c k) = Inr (Fin s c (- int k))"
proof -
  from fixed_digits_text [of s c k] obtain ip fp where
    t: "(if s then ''-'' else []) @ fixed_digits c k = number_text s ip fp" "ip \<noteq> []"
      "\<forall>x\<in>set ip. is_digit x" "\<forall>x\<in>set fp. is_digit x" "length fp = k"
      "nat_of_digits (ip @ fp) = c"
    by blast
  have "ndigits 10 c \<le> 28"
    using assms(1) ndigits_le_iff [of 10 c 28] by (cases "c = 0") (auto simp: ndigits.simps [of 10 0])
  with decimal_of_number_text [OF t(2-4), of s] t assms(2) show ?thesis by simp
qed

end
