(* ===== verification/ScoreLaws.thy ===== *)
theory ScoreLaws
  imports NormaliseLaws DecimalText
begin

text \<open>
  The weighted score of a \<open>plain_spec\<close> (the shipped \<open>scoring-spec.yaml\<close> is one): it always
  exists, is the exact weighted sum of the normalised metrics rounded once, lies between 0 and 1,
  and does not decrease when a raw metric grows. The printed texts read back as the decimals they
  show.
\<close>

section \<open>Plain specs and metrics\<close>

definition weight_of :: "ScoringSpec \<Rightarrow> string \<Rightarrow> decimal" where
  "weight_of spec m = the (dict_get (weights spec) m)"

definition rule_of :: "ScoringSpec \<Rightarrow> string \<Rightarrow> NormalisationRule" where
  "rule_of spec m = the (dict_get (normalisation spec) m)"

definition unit_rule :: "NormalisationRule \<Rightarrow> bool" where
  "unit_rule r \<longleftrightarrow> plain_rule r \<and> rising r \<and> 0 \<le> level r 0 \<and> level r (length (cuts r)) \<le> 1"

definition unit_weight :: "decimal \<Rightarrow> bool" where
  "unit_weight w \<longleftrightarrow> plain w \<and> 0 \<le> dval w \<and> dval w \<le> 1"

definition plain_spec :: "nat \<Rightarrow> ScoringSpec \<Rightarrow> bool" where
  "plain_spec k spec \<longleftrightarrow>
     k \<le> 9 \<and> decimal_places spec = VInt (int k)
   \<and> (\<forall>m\<in>set METRIC_NAMES. dict_get (weights spec) m \<noteq> None \<and> unit_weight (weight_of spec m)
        \<and> dict_get (normalisation spec) m \<noteq> None \<and> unit_rule (rule_of spec m))
   \<and> (\<Sum>m\<leftarrow>METRIC_NAMES. dval (weight_of spec m)) = 1"

definition metric_dec :: "(string, raw_metric) dict \<Rightarrow> string \<Rightarrow> decimal" where
  "metric_dec raws m = (case to_decimal (the (dict_get raws m)) m of Inr d \<Rightarrow> d | _ \<Rightarrow> QNaN)"

definition plain_metrics :: "(string, raw_metric) dict \<Rightarrow> bool" where
  "plain_metrics raws \<longleftrightarrow>
     (\<forall>m\<in>set METRIC_NAMES. dict_get raws m \<noteq> None
        \<and> to_decimal (the (dict_get raws m)) m = Inr (metric_dec raws m) \<and> plain (metric_dec raws m))"

definition metric_norm :: "nat \<Rightarrow> ScoringSpec \<Rightarrow> (string, raw_metric) dict \<Rightarrow> string \<Rightarrow> real" where
  "metric_norm k spec raws m = norm_value k (rule_of spec m) (dval (metric_dec raws m))"

definition exact_score :: "nat \<Rightarrow> ScoringSpec \<Rightarrow> (string, raw_metric) dict \<Rightarrow> real" where
  "exact_score k spec raws =
     (\<Sum>m\<leftarrow>METRIC_NAMES. metric_norm k spec raws m * dval (weight_of spec m))"

lemma plain_specD:
  assumes "plain_spec k spec" "m \<in> set METRIC_NAMES"
  shows "k \<le> 9" "decimal_places spec = VInt (int k)"
    "dict_get (weights spec) m = Some (weight_of spec m)" "unit_weight (weight_of spec m)"
    "dict_get (normalisation spec) m = Some (rule_of spec m)" "unit_rule (rule_of spec m)"
  using assms by (auto simp: plain_spec_def weight_of_def rule_of_def)

lemma quant_unit: "0 \<le> x \<Longrightarrow> x \<le> 1 \<Longrightarrow> 0 \<le> quant k x \<and> quant k x \<le> 1"
  using quant_mono [of 0 x k] quant_mono [of x 1 k] quant_grid [of k 0]
    quant_grid [OF grid_int [of k 1]] by simp

lemma unit_rule_norm:
  assumes "unit_rule r"
  shows "0 \<le> norm_value k r x \<and> norm_value k r x \<le> 1"
proof -
  have r: "plain_rule r" "rising r" "0 \<le> level r 0" "level r (length (cuts r)) \<le> 1"
    using assms by (auto simp: unit_rule_def)
  have "level r 0 \<le> level r (length (cuts r))"
    using r by (intro rising_level) (auto simp: plain_rule_def)
  then have "0 \<le> quant k (level r 0)" "quant k (level r (length (cuts r))) \<le> 1"
    using r quant_unit [of "level r 0" k] quant_unit [of "level r (length (cuts r))" k] by auto
  with norm_value_bounds [OF r(1,2), of k x] show ?thesis by linarith
qed

lemma norm_from_grid: "grid k (norm_from k r x i)"
proof (induction k r x i rule: norm_from.induct)
  case (1 k r x i)
  then show ?case by (subst norm_from.simps) (auto simp: grid_quant)
qed

lemma norm_value_grid: "grid k (norm_value k r x)"
  by (simp add: norm_value_def grid_quant norm_from_grid)

section \<open>Text of a quantized unit value\<close>

lemma fval_unit_coeff:
  assumes "\<bar>dval (Fin s c (- int k))\<bar> \<le> 1" "k \<le> 9"
  shows "c < 10 ^ 10"
proof -
  have "real c * inverse (10 ^ k) \<le> 1"
    using assms(1) by (auto simp: fval_def power_int_minus split: if_splits)
  then have "real c \<le> 10 ^ k" by (simp add: field_simps)
  also have "\<dots> < 10 ^ 10" using assms(2) by (intro power_strict_increasing) auto
  finally have "real c < real (10 ^ 10)" by simp
  then show ?thesis by (simp only: of_nat_less_iff)
qed

lemma decimal_string_unit:
  assumes "\<bar>dval (Fin s c (- int k))\<bar> \<le> 1" "k \<le> 9"
  shows "decimal_string (Fin s c (- int k)) (VInt (int k))
      = Inr ((if s then ''-'' else []) @ fixed_digits c k)"
    and "decimal_of_string ((if s then ''-'' else []) @ fixed_digits c k) = Inr (Fin s c (- int k))"
proof -
  have c: "c < 10 ^ 10" by (rule fval_unit_coeff [OF assms])
  then have nd: "ndigits 10 c \<le> 10"
    using ndigits_le_iff [of 10 c 10] by (cases "c = 0") (auto simp: ndigits.simps [of 10 0])
  have "dec_quantize (Fin s c (- int k)) (Fin False 1 (- int k)) = Inr (Fin s c (- int k))"
    using nd assms(2) by (auto simp: rescale_coeff_def Let_def)
  then show "decimal_string (Fin s c (- int k)) (VInt (int k))
      = Inr ((if s then ''-'' else []) @ fixed_digits c k)"
    using quantizer_int [OF assms(2)]
    by (simp add: decimal_string_def dec_format_places_def rescale_coeff_def)
  show "decimal_of_string ((if s then ''-'' else []) @ fixed_digits c k) = Inr (Fin s c (- int k))"
    using c assms(2) by (intro decimal_of_fixed_digits) auto
qed

section \<open>The loop\<close>

text \<open>What one pass adds to the records and to the score.\<close>

definition shows_norm :: "nat \<Rightarrow> string \<Rightarrow> real \<Rightarrow> bool" where
  "shows_norm k t v \<longleftrightarrow> (\<exists>s c. decimal_of_string t = Inr (Fin s c (- int k)) \<and> dval (Fin s c (- int k)) = v)"

lemma score_step_ok:
  assumes spec: "plain_spec k spec" and raws: "plain_metrics raws" and m: "m \<in> set METRIC_NAMES"
    and acc: "is_fin score" "grid 18 (dval score)" "0 \<le> dval score" "dval score \<le> 4"
  shows "\<exists>t score'. score_step spec raws (recs, score) m
      = Inr (dict_set m \<lparr>raw_text = raw_metric_string (the (dict_get raws m)), normalised_text = t\<rparr> recs, score')
    \<and> shows_norm k t (metric_norm k spec raws m)
    \<and> is_fin score' \<and> grid 18 (dval score')
    \<and> dval score' = dval score + metric_norm k spec raws m * dval (weight_of spec m)"
proof -
  let ?w = "weight_of spec m" and ?n = "metric_norm k spec raws m"
  note sp = plain_specD [OF spec m]
  have raw: "dict_get raws m = Some (the (dict_get raws m))"
    "to_decimal (the (dict_get raws m)) m = Inr (metric_dec raws m)" "plain (metric_dec raws m)"
    using raws m by (auto simp: plain_metrics_def)
  have w: "plain ?w" "0 \<le> dval ?w" "dval ?w \<le> 1" using sp(4) by (auto simp: unit_weight_def)
  have n01: "0 \<le> ?n" "?n \<le> 1"
    using unit_rule_norm [OF sp(6)] by (auto simp: metric_norm_def)
  obtain s c where n: "normalise_metric (metric_dec raws m) (rule_of spec m) (VInt (int k))
      = Inr (Fin s c (- int k))" "dval (Fin s c (- int k)) = ?n"
    using normalise_metric_value [of "rule_of spec m" "metric_dec raws m" k] sp(1,6) raw(3)
    by (auto simp: quantized_as_def unit_rule_def metric_norm_def)
  have prod: "0 \<le> ?n * dval ?w" "?n * dval ?w \<le> 1"
    using n01 w by (auto intro: mult_le_one)
  have g: "grid 9 ?n" unfolding metric_norm_def using norm_value_grid sp(1) by (rule grid_weaken)
  have gp: "grid 18 (?n * dval ?w)" using grid_mult [OF g plain_grid [OF w(1)]] by simp
  have "rnd28 (?n * dval ?w) = ?n * dval ?w"
  proof (rule rnd28_grid [OF gp])
    have "\<bar>?n * dval ?w\<bar> * 10 ^ 18 \<le> 1 * 10 ^ 18"
      using prod by (intro mult_right_mono) (simp only: abs_of_nonneg, simp)
    also have "\<dots> < (10::real) ^ 28" by simp
    finally show "\<bar>?n * dval ?w\<bar> * 10 ^ 18 < 10 ^ 28" .
  qed simp
  then obtain prd where prd: "dec_mul (Fin s c (- int k)) ?w = Inr prd" "is_fin prd"
    "dval prd = ?n * dval ?w"
    using dec_mul_fin [of "Fin s c (- int k)" ?w] plain_fin [OF w(1)] n(2) prod
      moderate_10 [of "?n * dval ?w"] by auto
  have sum: "0 \<le> dval score + dval prd" "dval score + dval prd \<le> 5"
    "grid 18 (dval score + dval prd)"
    using acc prod prd gp by (auto intro: grid_add)
  have "rnd28 (dval score + dval prd) = dval score + dval prd"
    using sum(3) by (rule rnd28_grid) (use sum in auto)
  then obtain score' where sc: "dec_add score prd = Inr score'" "is_fin score'"
    "dval score' = dval score + ?n * dval ?w"
    using dec_add_fin [OF acc(1) prd(2)] sum moderate_10 [of "dval score + dval prd"] prd(3) by auto
  have le1: "\<bar>dval (Fin s c (- int k))\<bar> \<le> 1" using n01 n(2) by simp
  from decimal_string_unit [OF le1 sp(1)] n(2) obtain t where
    t: "decimal_string (Fin s c (- int k)) (VInt (int k)) = Inr t" "shows_norm k t ?n"
    unfolding shows_norm_def by blast
  have "score_step spec raws (recs, score) m
    = Inr (dict_set m \<lparr>raw_text = raw_metric_string (the (dict_get raws m)), normalised_text = t\<rparr> recs, score')"
    by (subst score_step_def)
      (simp add: raw(1) [THEN iffD2 [OF lookup_eq_Inr]] raw(2) sp(2) sp(3,5) [THEN iffD2 [OF lookup_eq_Inr]]
        n(1) prd(1) sc(1) t(1))
  with t(2) sc sum(3) prd(3) show ?thesis by auto
qed

lemma score_loop:
  assumes spec: "plain_spec k spec" and raws: "plain_metrics raws"
  shows "set ms \<subseteq> set METRIC_NAMES \<Longrightarrow> distinct ms \<Longrightarrow> is_fin score \<Longrightarrow> grid 18 (dval score) \<Longrightarrow>
    0 \<le> dval score \<Longrightarrow> dval score + real (length ms) \<le> 5 \<Longrightarrow>
    \<exists>recs' score'. each_st (score_step spec raws) (recs, score) ms = Inr (recs', score')
      \<and> is_fin score'
      \<and> dval score' = dval score + (\<Sum>m\<leftarrow>ms. metric_norm k spec raws m * dval (weight_of spec m))
      \<and> (\<forall>m. if m \<in> set ms then \<exists>e. dict_get recs' m = Some e
               \<and> raw_text e = raw_metric_string (the (dict_get raws m))
               \<and> shows_norm k (normalised_text e) (metric_norm k spec raws m)
             else dict_get recs' m = dict_get recs m)"
proof (induction ms arbitrary: recs score)
  case Nil
  then show ?case by simp
next
  case (Cons m ms)
  have m: "m \<in> set METRIC_NAMES" using Cons.prems by simp
  obtain t score1 where st: "score_step spec raws (recs, score) m
      = Inr (dict_set m \<lparr>raw_text = raw_metric_string (the (dict_get raws m)), normalised_text = t\<rparr> recs, score1)"
    "shows_norm k t (metric_norm k spec raws m)" "is_fin score1" "grid 18 (dval score1)"
    "dval score1 = dval score + metric_norm k spec raws m * dval (weight_of spec m)"
    using score_step_ok [OF spec raws m, of score recs] Cons.prems by auto
  have "0 \<le> metric_norm k spec raws m" "metric_norm k spec raws m \<le> 1"
    "0 \<le> dval (weight_of spec m)" "dval (weight_of spec m) \<le> 1"
    using plain_specD(4,6) [OF spec m] unit_rule_norm by (auto simp: metric_norm_def unit_weight_def)
  then have "0 \<le> metric_norm k spec raws m * dval (weight_of spec m)"
    "metric_norm k spec raws m * dval (weight_of spec m) \<le> 1" by (auto intro: mult_le_one)
  with Cons.prems st have pre: "0 \<le> dval score1" "dval score1 + real (length ms) \<le> 5"
    "set ms \<subseteq> set METRIC_NAMES" "distinct ms" "m \<notin> set ms" by auto
  from Cons.IH [OF pre(3,4) st(3,4) pre(1,2)] obtain recs' score' where
    ih: "each_st (score_step spec raws) (dict_set m \<lparr>raw_text = raw_metric_string (the (dict_get raws m)), normalised_text = t\<rparr> recs, score1) ms
      = Inr (recs', score')" "is_fin score'"
      "dval score' = dval score1 + (\<Sum>m\<leftarrow>ms. metric_norm k spec raws m * dval (weight_of spec m))"
      "\<And>n. if n \<in> set ms then \<exists>e. dict_get recs' n = Some e
               \<and> raw_text e = raw_metric_string (the (dict_get raws n))
               \<and> shows_norm k (normalised_text e) (metric_norm k spec raws n)
             else dict_get recs' n = dict_get (dict_set m \<lparr>raw_text = raw_metric_string (the (dict_get raws m)), normalised_text = t\<rparr> recs) n"
    by blast
  have "if n \<in> set (m # ms) then \<exists>e. dict_get recs' n = Some e
               \<and> raw_text e = raw_metric_string (the (dict_get raws n))
               \<and> shows_norm k (normalised_text e) (metric_norm k spec raws n)
             else dict_get recs' n = dict_get recs n" for n
    using ih(4) [of n] pre(5) st(2) by (auto split: if_splits)
  with ih(1-3) st(1,5) show ?case by auto
qed

lemma score_loop_all:
  assumes spec: "plain_spec k spec" and raws: "plain_metrics raws"
  shows "\<exists>recs score. each_st (score_step spec raws) ([], Fin False 0 0) METRIC_NAMES = Inr (recs, score)
    \<and> is_fin score \<and> dval score = exact_score k spec raws
    \<and> (\<forall>m\<in>set METRIC_NAMES. \<exists>e. dict_get recs m = Some e
         \<and> raw_text e = raw_metric_string (the (dict_get raws m))
         \<and> shows_norm k (normalised_text e) (metric_norm k spec raws m))"
proof -
  have z: "dval (Fin False 0 0) = 0" by (simp add: fval_def)
  have "length METRIC_NAMES = 5" by (simp add: METRIC_NAMES_def)
  with score_loop [OF spec raws order_refl METRIC_NAMES_distinct, of "Fin False 0 0" "[]"]
  obtain recs score where
    "each_st (score_step spec raws) ([], Fin False 0 0) METRIC_NAMES = Inr (recs, score)"
    "is_fin score" "dval score = exact_score k spec raws"
    and f: "\<And>m. if m \<in> set METRIC_NAMES then \<exists>e. dict_get recs m = Some e
         \<and> raw_text e = raw_metric_string (the (dict_get raws m))
         \<and> shows_norm k (normalised_text e) (metric_norm k spec raws m)
      else dict_get recs m = dict_get [] m"
    unfolding z exact_score_def by auto
  moreover have "\<forall>m\<in>set METRIC_NAMES. \<exists>e. dict_get recs m = Some e
         \<and> raw_text e = raw_metric_string (the (dict_get raws m))
         \<and> shows_norm k (normalised_text e) (metric_norm k spec raws m)"
    using f by (meson)
  ultimately show ?thesis by blast
qed

lemma exact_score_unit:
  assumes spec: "plain_spec k spec"
  shows "0 \<le> exact_score k spec raws \<and> exact_score k spec raws \<le> 1"
proof -
  have b: "0 \<le> metric_norm k spec raws m * dval (weight_of spec m)"
    "metric_norm k spec raws m * dval (weight_of spec m) \<le> dval (weight_of spec m)"
    if "m \<in> set METRIC_NAMES" for m
    using plain_specD(4,6) [OF spec that] unit_rule_norm [of "rule_of spec m" k]
    by (auto simp: metric_norm_def unit_weight_def mult_left_le_one_le)
  have "exact_score k spec raws \<le> (\<Sum>m\<leftarrow>METRIC_NAMES. dval (weight_of spec m))"
    unfolding exact_score_def by (rule sum_list_mono) (rule b(2))
  moreover have "0 \<le> exact_score k spec raws"
    unfolding exact_score_def by (rule sum_list_nonneg) (use b(1) in auto)
  ultimately show ?thesis using spec by (simp add: plain_spec_def)
qed

lemma score_metrics_ok:
  assumes spec: "plain_spec k spec" and raws: "plain_metrics raws"
  shows "\<exists>recs s c. score_metrics spec raws = Inr (recs, Fin s c (- int k))
    \<and> dval (Fin s c (- int k)) = quant k (exact_score k spec raws)
    \<and> (\<forall>m\<in>set METRIC_NAMES. \<exists>e. dict_get recs m = Some e
         \<and> raw_text e = raw_metric_string (the (dict_get raws m))
         \<and> shows_norm k (normalised_text e) (metric_norm k spec raws m))"
proof -
  have k: "k \<le> 9" "decimal_places spec = VInt (int k)" using spec by (auto simp: plain_spec_def)
  obtain recs score where loop:
    "each_st (score_step spec raws) ([], Fin False 0 0) METRIC_NAMES = Inr (recs, score)" "is_fin score"
    "dval score = exact_score k spec raws"
    "\<And>m. m \<in> set METRIC_NAMES \<Longrightarrow> \<exists>e. dict_get recs m = Some e
         \<and> raw_text e = raw_metric_string (the (dict_get raws m))
         \<and> shows_norm k (normalised_text e) (metric_norm k spec raws m)"
    using score_loop_all [OF spec raws] by blast
  have ex: "\<bar>dval score\<bar> \<le> 10000000000"
    using exact_score_unit [OF spec, of raws] loop(3) by simp
  obtain s c where q: "dec_quantize score (Fin False 1 (- int k)) = Inr (Fin s c (- int k))"
    "dval (Fin s c (- int k)) = quant k (exact_score k spec raws)"
    using quantize_ok [OF loop(2) ex k(1), of False] loop(3) by auto
  have "score_metrics spec raws = Inr (recs, Fin s c (- int k))"
    unfolding score_metrics_def k(2) quantizer_int [OF k(1)] by (simp only: andthen_Inr loop(1) q(1) prod.case)
  with q(2) loop(4) show ?thesis by blast
qed

text \<open>A larger raw metric never lowers the score.\<close>

lemma exact_score_mono:
  assumes spec: "plain_spec k spec"
    and le: "\<And>m. m \<in> set METRIC_NAMES \<Longrightarrow> dval (metric_dec raws m) \<le> dval (metric_dec raws' m)"
  shows "exact_score k spec raws \<le> exact_score k spec raws'"
  unfolding exact_score_def
proof (rule sum_list_mono)
  fix m assume m: "m \<in> set METRIC_NAMES"
  note sp = plain_specD(4,6) [OF spec m]
  show "metric_norm k spec raws m * dval (weight_of spec m)
    \<le> metric_norm k spec raws' m * dval (weight_of spec m)"
    unfolding metric_norm_def using sp le [OF m]
    by (intro mult_right_mono norm_value_mono) (auto simp: unit_rule_def unit_weight_def)
qed

end
