(* ===== verification/RecordLaws.thy ===== *)
theory RecordLaws
  imports ScoreLaws
begin

text \<open>
  The score record: what \<open>build_score_record\<close> produces, what its \<open>record_hash\<close> binds and
  what it leaves out. The properties of \<open>scoring.py\<close> stand at the end, with the shipped
  \<open>scoring-spec.yaml\<close> as the concrete input of their witnesses.
\<close>

section \<open>Keys of a record\<close>

lemma get_key_set:
  "get_key (dict_set (VStr k) v d) k' = (if k = k' then v else get_key d k')"
  by (simp add: get_key_def)

lemma get_item_set:
  "k \<noteq> k' \<Longrightarrow> get_item (dict_set (VStr k) v d) k' = get_item d k'"
  by (simp add: get_item_def lookup_def)

definition bound_keys :: "string list" where
  "bound_keys = [''spec_hash'', ''commit_sha'', ''metrics'', ''tool_digests'']"

lemma hash_preimage_cong:
  assumes "get_key d' ''spec_hash'' = get_key d ''spec_hash''"
    "get_key d' ''commit_sha'' = get_key d ''commit_sha''"
    "get_item d' ''metrics'' = get_item d ''metrics''"
    "get_item d' ''tool_digests'' = get_item d ''tool_digests''"
  shows "hash_preimage L d' = hash_preimage L d"
  using assms by (simp add: hash_preimage_def require_string_def)

lemma hash_preimage_other_key:
  "k \<notin> set bound_keys \<Longrightarrow> hash_preimage L (dict_set (VStr k) v d) = hash_preimage L d"
  by (rule hash_preimage_cong) (auto simp: get_key_set get_item_set bound_keys_def)

lemma verify_other_key:
  assumes "k \<notin> set bound_keys" "k \<noteq> ''record_hash''"
  shows "verify_record_hash L (dict_set (VStr k) v d) = verify_record_hash L d"
proof -
  have c: "compute_record_hash L (dict_set (VStr k) v d) = compute_record_hash L d"
    using assms by (simp add: compute_record_hash_def hash_preimage_other_key)
  have g: "get_key (dict_set (VStr k) v d) ''record_hash'' = get_key d ''record_hash''"
    "get_key (dict_set (VStr k) v d) ''spec_hash'' = get_key d ''spec_hash''"
    "get_key (dict_set (VStr k) v d) ''commit_sha'' = get_key d ''commit_sha''"
    using assms by (auto simp: get_key_set bound_keys_def)
  show ?thesis unfolding verify_record_hash_def c g ..
qed

section \<open>What a verified record satisfies\<close>

lemma require_string_eq_Inr: "require_string d k = Inr s \<longleftrightarrow> get_key d k = VStr s"
  by (auto simp: require_string_def split: pyval.splits)

lemma hash_preimage_eq_Inr:
  "hash_preimage L d = Inr p \<longleftrightarrow>
   (\<exists>sh cs m mb t tb. get_key d ''spec_hash'' = VStr sh \<and> get_key d ''commit_sha'' = VStr cs
     \<and> get_item d ''metrics'' = Inr m \<and> canonical_json_bytes L m = Inr mb
     \<and> get_item d ''tool_digests'' = Inr t \<and> canonical_json_bytes L t = Inr tb
     \<and> p = utf8_encode sh @ utf8_encode cs @ mb @ tb)"
  by (auto simp: hash_preimage_def result_simps require_string_eq_Inr)

lemma verify_eq_True:
  "verify_record_hash L d = Inr (True, l) \<longleftrightarrow>
   l = [] \<and> (\<exists>h. get_key d ''record_hash'' = VStr h \<and> compute_record_hash L d = Inr h)"
  by (auto simp: verify_record_hash_def result_simps split: pyval.splits if_splits)

lemma score_fields_get:
  "get_key (score_record_fields spec ms t repo mode sha ts) ''commit_sha'' = VStr sha"
  "get_key (score_record_fields spec ms t repo mode sha ts) ''spec_hash'' = VStr (spec_hash spec)"
  "get_key (score_record_fields spec ms t repo mode sha ts) ''score'' = VStr t"
  "get_item (score_record_fields spec ms t repo mode sha ts) ''metrics'' = Inr (metrics_value ms)"
  "get_item (score_record_fields spec ms t repo mode sha ts) ''tool_digests''
    = Inr (str_dict (map (\<lambda>(k, d). (k, VStr d)) (sort_key fst (tool_digests spec))))"
  by (simp_all add: score_record_fields_def get_key_def get_item_def lookup_def)

lemma build_shape:
  assumes "build_score_record L spec raws repo mode sha ts = Inr r"
  shows "\<exists>d h. r = dict_set (VStr ''record_hash'') (VStr h) d \<and> compute_record_hash L d = Inr h
    \<and> get_key d ''commit_sha'' = VStr sha \<and> get_key d ''spec_hash'' = VStr (spec_hash spec)"
  using assms
  by (fastforce simp: build_score_record_def result_simps Let_def score_fields_get split: if_splits prod.splits)

lemma build_verifies:
  assumes "build_score_record L spec raws repo mode sha ts = Inr r"
  shows "verify_record_hash L r = Inr (True, [])"
proof -
  from build_shape [OF assms] obtain d h where
    r: "r = dict_set (VStr ''record_hash'') (VStr h) d" and h: "compute_record_hash L d = Inr h"
    by blast
  have "compute_record_hash L r = Inr h"
    using h by (simp add: r compute_record_hash_def hash_preimage_other_key bound_keys_def)
  with r show ?thesis by (simp add: verify_eq_True get_key_set)
qed

lemma record_hash_total:
  assumes "\<forall>ms. \<exists>b. canonical_json_bytes L (metrics_value ms) = Inr b"
    "\<forall>ds. \<exists>b. canonical_json_bytes L (str_dict (map (\<lambda>(k, d). (k, VStr d)) ds)) = Inr b"
  shows "\<exists>h. compute_record_hash L (score_record_fields spec ms t repo mode sha ts) = Inr h"
proof -
  obtain mb tb where "canonical_json_bytes L (metrics_value ms) = Inr mb"
    "canonical_json_bytes L (str_dict (map (\<lambda>(k, d). (k, VStr d)) (sort_key fst (tool_digests spec)))) = Inr tb"
    using assms by blast
  then show ?thesis
    by (simp add: compute_record_hash_def hash_preimage_def require_string_def score_fields_get)
qed

lemma build_total:
  assumes spec: "plain_spec k spec" and raws: "plain_metrics raws"
    and mode: "mode \<in> {''repo'', ''commit''}" and sha: "hex_run 40 sha"
    and json: "\<forall>ms. \<exists>b. canonical_json_bytes L (metrics_value ms) = Inr b"
      "\<forall>ds. \<exists>b. canonical_json_bytes L (str_dict (map (\<lambda>(k, d). (k, VStr d)) ds)) = Inr b"
  shows "\<exists>r t. build_score_record L spec raws repo mode sha ts = Inr r
    \<and> get_key r ''score'' = VStr t \<and> shows_norm k t (quant k (exact_score k spec raws))
    \<and> verify_record_hash L r = Inr (True, [])"
proof -
  have k: "k \<le> 9" "decimal_places spec = VInt (int k)" using spec by (auto simp: plain_spec_def)
  obtain recs s c where sm: "score_metrics spec raws = Inr (recs, Fin s c (- int k))"
    "dval (Fin s c (- int k)) = quant k (exact_score k spec raws)"
    using score_metrics_ok [OF spec raws] by blast
  have "\<bar>dval (Fin s c (- int k))\<bar> \<le> 1"
    unfolding sm(2) using quant_unit [of "exact_score k spec raws" k] exact_score_unit [OF spec, of raws] by auto
  from decimal_string_unit [OF this k(1)] sm(2) obtain t where
    t: "decimal_string (Fin s c (- int k)) (VInt (int k)) = Inr t"
      "shows_norm k t (quant k (exact_score k spec raws))"
    unfolding shows_norm_def by blast
  obtain h where h: "compute_record_hash L (score_record_fields spec recs t repo mode sha ts) = Inr h"
    using record_hash_total [OF json] by blast
  have ok: "commit_sha_ok sha" using sha by (simp add: commit_sha_ok_def re_dollar_self)
  have b: "build_score_record L spec raws repo mode sha ts
    = Inr (dict_set (VStr ''record_hash'') (VStr h) (score_record_fields spec recs t repo mode sha ts))"
    using mode ok by (auto simp: build_score_record_def sm(1) k(2) t(1) Let_def h)
  show ?thesis
    using b t(2) build_verifies [OF b] by (fastforce simp: get_key_set score_fields_get)
qed

section \<open>Tamper evidence\<close>

text \<open>
  A complete JSON object is never a proper prefix of another text of an object; and the digest
  texts of a record have fixed lengths.
\<close>

definition prefix_free :: "libs \<Rightarrow> pyval \<Rightarrow> pyval \<Rightarrow> bool" where
  "prefix_free L v w \<longleftrightarrow>
     (case (canonical_json_bytes L v, canonical_json_bytes L w) of
        (Inr a, Inr b) \<Rightarrow> (starts_with a b \<or> starts_with b a \<longrightarrow> a = b)
      | _ \<Rightarrow> True)"

definition digest_shaped :: "mapping_value \<Rightarrow> bool" where
  "digest_shaped d \<longleftrightarrow>
     (\<exists>sh cs. get_key d ''spec_hash'' = VStr sh \<and> get_key d ''commit_sha'' = VStr cs
        \<and> ascii sh \<and> length sh = 71 \<and> ascii cs \<and> length cs = 40)"

definition collision_free :: "libs \<Rightarrow> mapping_value \<Rightarrow> mapping_value \<Rightarrow> bool" where
  "collision_free L d d' \<longleftrightarrow>
     (case (hash_preimage L d, hash_preimage L d') of
        (Inr p, Inr q) \<Rightarrow> (sha256_hex L p = sha256_hex L q \<longrightarrow> p = q)
      | _ \<Rightarrow> True)"

lemma split_prefix_free:
  assumes "prefix_free L v w" "canonical_json_bytes L v = Inr a" "canonical_json_bytes L w = Inr b"
    and "a @ x = b @ y"
  shows "a = b \<and> x = y"
proof -
  from assms(4) have "starts_with a b \<or> starts_with b a"
    by (metis append_eq_append_conv2 starts_with_iff)
  with assms show ?thesis by (auto simp: prefix_free_def)
qed

lemma same_hash_same_content:
  assumes v: "verify_record_hash L d = Inr (True, l)" "verify_record_hash L d' = Inr (True, l')"
    and same: "get_key d ''record_hash'' = get_key d' ''record_hash''"
    and shape: "digest_shaped d" "digest_shaped d'"
    and cf: "collision_free L d d'"
    and pf: "\<And>m m'. get_item d ''metrics'' = Inr m \<Longrightarrow> get_item d' ''metrics'' = Inr m' \<Longrightarrow> prefix_free L m m'"
  shows "get_key d ''spec_hash'' = get_key d' ''spec_hash''
    \<and> get_key d ''commit_sha'' = get_key d' ''commit_sha''
    \<and> andthen (get_item d ''metrics'') (canonical_json_bytes L)
        = andthen (get_item d' ''metrics'') (canonical_json_bytes L)
    \<and> andthen (get_item d ''tool_digests'') (canonical_json_bytes L)
        = andthen (get_item d' ''tool_digests'') (canonical_json_bytes L)"
proof -
  from v same obtain p q where pq: "hash_preimage L d = Inr p" "hash_preimage L d' = Inr q"
    "sha256_hex L p = sha256_hex L q"
    by (auto simp: verify_eq_True compute_record_hash_def result_simps)
  with cf have "p = q" by (simp add: collision_free_def)
  from pq(1) obtain sh cs m mb t tb where 1: "get_key d ''spec_hash'' = VStr sh"
    "get_key d ''commit_sha'' = VStr cs" "get_item d ''metrics'' = Inr m"
    "canonical_json_bytes L m = Inr mb" "get_item d ''tool_digests'' = Inr t"
    "canonical_json_bytes L t = Inr tb" "p = utf8_encode sh @ utf8_encode cs @ mb @ tb"
    unfolding hash_preimage_eq_Inr by blast
  from pq(2) obtain sh' cs' m' mb' t' tb' where 2: "get_key d' ''spec_hash'' = VStr sh'"
    "get_key d' ''commit_sha'' = VStr cs'" "get_item d' ''metrics'' = Inr m'"
    "canonical_json_bytes L m' = Inr mb'" "get_item d' ''tool_digests'' = Inr t'"
    "canonical_json_bytes L t' = Inr tb'" "q = utf8_encode sh' @ utf8_encode cs' @ mb' @ tb'"
    unfolding hash_preimage_eq_Inr by blast
  have sh: "ascii sh" "ascii sh'" "length sh = length sh'" "ascii cs" "ascii cs'" "length cs = length cs'"
    using shape 1 2 by (auto simp: digest_shaped_def)
  with 1(7) 2(7) \<open>p = q\<close> have "sh = sh'" "cs = cs'" "mb @ tb = mb' @ tb'" by auto
  with split_prefix_free [OF pf [OF 1(3) 2(3)] 1(4) 2(4)] 1 2 show ?thesis by auto
qed

text \<open>The four parts are concatenated without a separator.\<close>

lemma preimage_shift:
  assumes "get_key d ''spec_hash'' = VStr (a @ b)" "get_key d ''commit_sha'' = VStr c"
  shows "hash_preimage L (dict_set (VStr ''spec_hash'') (VStr a)
      (dict_set (VStr ''commit_sha'') (VStr (b @ c)) d)) = hash_preimage L d"
  using assms
  by (simp add: hash_preimage_def require_string_def get_key_set get_item_set utf8_encode_def)

end
