(* ===== verification/CoreProps.thy ===== *)
theory CoreProps
  imports RecordLaws
begin

text \<open>
  The properties of \<open>spec.py\<close> and \<open>scoring.py\<close>, each with a witness at the shipped
  \<open>scoring-spec.yaml\<close> (\<open>shipped_mapping\<close>, \<open>shipped_spec\<close>).
\<close>

section \<open>The shipped spec\<close>

definition shipped_levels :: "decimal list" where
  "shipped_levels =
     [Fin False 0 (- 2), Fin False 25 (- 2), Fin False 50 (- 2), Fin False 75 (- 2), Fin False 100 (- 2)]"

definition shipped_rule :: "nat list \<Rightarrow> NormalisationRule" where
  "shipped_rule cs = \<lparr>cuts = map (\<lambda>c. Fin False c 0) cs, normalised = shipped_levels\<rparr>"

definition shipped_rules :: "(string, NormalisationRule) dict" where
  "shipped_rules =
     [(''cyclomatic'', shipped_rule [5, 10, 20, 50]), (''cognitive'', shipped_rule [5, 15, 30, 60]),
      (''nesting_depth'', shipped_rule [2, 4, 6, 8]), (''function_length'', shipped_rule [20, 50, 100, 200]),
      (''file_length'', shipped_rule [100, 300, 600, 1000])]"

definition shipped_weights :: "(string, decimal) dict" where
  "shipped_weights =
     [(''cyclomatic'', Fin False 30 (- 2)), (''cognitive'', Fin False 30 (- 2)),
      (''nesting_depth'', Fin False 15 (- 2)), (''function_length'', Fin False 15 (- 2)),
      (''file_length'', Fin False 10 (- 2))]"

definition sample_digest :: "char \<Rightarrow> string" where
  "sample_digest c = ''sha256:'' @ replicate 64 c"

definition shipped_spec :: ScoringSpec where
  "shipped_spec =
     \<lparr>spec_version = ''0.1.0'', spec_hash = sample_digest (CHR ''6''), weights = shipped_weights,
      normalisation = shipped_rules, decimal_places = VInt 4, rounding_mode = ''ROUND_HALF_EVEN'',
      tool_digests = [(''scc'', sample_digest (CHR ''a''))], raw = []\<rparr>"

definition sample_metrics :: "nat \<Rightarrow> (string, raw_metric) dict" where
  "sample_metrics n = map (\<lambda>m. (m, RInt (int n))) METRIC_NAMES"

lemma shipped_dvals:
  "fval 10 n (- 2) = real n / 100" "fval 10 n 0 = real n"
proof -
  have "(10::real) powi - 2 = 1 / 100"
    by (simp only: power_int_minus power_int_numeral) simp
  then show "fval 10 n (- 2) = real n / 100" by (simp add: fval_def)
qed (simp add: fval_def)

lemma shipped_rule_unit:
  "cs \<noteq> [] \<Longrightarrow> length cs = 4 \<Longrightarrow> list_all (\<lambda>c. c < 10 ^ 9) cs \<Longrightarrow> unit_rule (shipped_rule cs)"
  by (auto simp: unit_rule_def plain_rule_def rising_def level_def shipped_rule_def shipped_levels_def
      shipped_dvals list_all_iff)

lemma METRIC_cases: "m \<in> set METRIC_NAMES \<longleftrightarrow>
  m = ''cyclomatic'' \<or> m = ''cognitive'' \<or> m = ''nesting_depth'' \<or> m = ''function_length'' \<or> m = ''file_length''"
  by (auto simp: METRIC_NAMES_def)

lemma shipped_plain: "plain_spec 4 shipped_spec"
proof -
  have "(\<Sum>m\<leftarrow>METRIC_NAMES. dval (weight_of shipped_spec m)) = 1"
    by (simp add: METRIC_NAMES_def weight_of_def shipped_spec_def shipped_weights_def shipped_dvals)
  then show ?thesis
    by (auto simp: plain_spec_def shipped_spec_def METRIC_cases weight_of_def rule_of_def
        shipped_weights_def shipped_rules_def shipped_rule_unit unit_weight_def shipped_dvals)
qed

lemma sample_plain: "n < 10 ^ 9 \<Longrightarrow> plain_metrics (sample_metrics n)"
  "m \<in> set METRIC_NAMES \<Longrightarrow> metric_dec (sample_metrics n) m = Fin False n 0"
  by (auto simp: plain_metrics_def sample_metrics_def METRIC_NAMES_def metric_dec_def to_decimal_def
      decimal_of_int_def)

section \<open>Normalisation\<close>

text \<open>C3: On a rule and a value of moderate size, \<open>normalise_metric\<close> always returns: no
  comparison, subtraction, division or quantization of it raises, and the decimal it returns has
  exactly \<open>k\<close> places and the value of the real function \<open>norm_value\<close>.\<close>

theorem normalise_metric_refines:
  assumes "plain_rule r" "plain v" "k \<le> 9"
  shows "\<exists>s c. normalise_metric v r (VInt (int k)) = Inr (Fin s c (- int k))
    \<and> dval (Fin s c (- int k)) = norm_value k r (dval v)"
  using normalise_metric_value [OF assms] by (simp add: quantized_as_def)

lemma normalise_metric_refines_witness:
  "\<exists>s c. normalise_metric (Fin False 7 0) (shipped_rule [5, 10, 20, 50]) (VInt (int 4)) = Inr (Fin s c (- int 4))
    \<and> dval (Fin s c (- int 4)) = norm_value 4 (shipped_rule [5, 10, 20, 50]) (dval (Fin False 7 0))"
  by (rule normalise_metric_refines)
    (simp_all add: plain_rule_def shipped_rule_def shipped_levels_def)



text \<open>Between two cuts the result is the straight line between their levels, up to the last
  rounding to \<open>k\<close> places and an error of at most \<open>10 ^ -16\<close> from the four intermediate ones.\<close>

theorem normalise_metric_accuracy:
  assumes r: "plain_rule r" and v: "plain v" and k: "k \<le> 9" and i: "0 < i" "i < length (cuts r)"
    and x: "\<forall>j<i. cut r j < dval v" "dval v \<le> cut r i"
  shows "\<exists>d. normalise_metric v r (VInt (int k)) = Inr d
    \<and> \<bar>dval d - line r i (dval v)\<bar> \<le> 1 / (2 * 10 ^ k) + 1 / 10 ^ 16"
proof -
  obtain d where d: "normalise_metric v r (VInt (int k)) = Inr d" "dval d = norm_value k r (dval v)"
    using normalise_metric_value [OF r v k] by (auto simp: quantized_as_def)
  have "norm_value k r (dval v) = quant k (segment r i (dval v))"
    by (rule norm_value_segment [OF i x])
  then have "\<bar>dval d - segment r i (dval v)\<bar> \<le> 1 / (2 * 10 ^ k)"
    unfolding d(2) by (simp only: quant_error)
  moreover have "\<bar>segment r i (dval v) - line r i (dval v)\<bar> \<le> 1 / 10 ^ 16"
    using i x by (intro segment_accuracy [OF r]) auto
  ultimately have "\<bar>dval d - line r i (dval v)\<bar> \<le> 1 / (2 * 10 ^ k) + 1 / 10 ^ 16"
    by linarith
  with d(1) show ?thesis by blast
qed

lemma normalise_metric_accuracy_witness:
  "\<exists>d. normalise_metric (Fin False 17 0) (shipped_rule [5, 10, 20, 50]) (VInt (int 4)) = Inr d
    \<and> \<bar>dval d - line (shipped_rule [5, 10, 20, 50]) 2 (dval (Fin False 17 0))\<bar>
        \<le> 1 / (2 * 10 ^ 4) + 1 / 10 ^ 16"
proof (rule normalise_metric_accuracy)
  show "\<forall>j<2. cut (shipped_rule [5, 10, 20, 50]) j < dval (Fin False 17 0)"
    by (simp add: less_2_cases_iff cut_def shipped_rule_def shipped_dvals)
qed (simp_all add: plain_rule_def shipped_rule_def shipped_levels_def cut_def shipped_dvals)

section \<open>The score\<close>

text \<open>C1: On a plain spec (as the shipped one is) and plain metrics, scoring never raises; the
  score is the exact weighted sum of the normalised metrics rounded once to \<open>k\<close> places, it lies
  in the unit interval, and each metric's text parses back to its normalised value.\<close>

theorem score_metrics_exact:
  assumes "plain_spec k spec" "plain_metrics raws"
  shows "\<exists>recs s c. score_metrics spec raws = Inr (recs, Fin s c (- int k))
    \<and> dval (Fin s c (- int k)) = quant k (exact_score k spec raws)
    \<and> 0 \<le> dval (Fin s c (- int k)) \<and> dval (Fin s c (- int k)) \<le> 1
    \<and> (\<forall>m\<in>set METRIC_NAMES. \<exists>e. dict_get recs m = Some e
         \<and> raw_text e = raw_metric_string (the (dict_get raws m))
         \<and> shows_norm k (normalised_text e) (metric_norm k spec raws m))"
proof -
  obtain recs s c where "score_metrics spec raws = Inr (recs, Fin s c (- int k))"
    "dval (Fin s c (- int k)) = quant k (exact_score k spec raws)"
    "\<forall>m\<in>set METRIC_NAMES. \<exists>e. dict_get recs m = Some e
         \<and> raw_text e = raw_metric_string (the (dict_get raws m))
         \<and> shows_norm k (normalised_text e) (metric_norm k spec raws m)"
    using score_metrics_ok [OF assms] by blast
  moreover from exact_score_unit [OF assms(1), of raws]
  have "0 \<le> quant k (exact_score k spec raws) \<and> quant k (exact_score k spec raws) \<le> 1"
    by (intro quant_unit) auto
  ultimately show ?thesis by metis
qed

lemma score_metrics_exact_witness:
  "\<exists>recs s c. score_metrics shipped_spec (sample_metrics 12) = Inr (recs, Fin s c (- int 4))
    \<and> dval (Fin s c (- int 4)) = quant 4 (exact_score 4 shipped_spec (sample_metrics 12))
    \<and> 0 \<le> dval (Fin s c (- int 4)) \<and> dval (Fin s c (- int 4)) \<le> 1
    \<and> (\<forall>m\<in>set METRIC_NAMES. \<exists>e. dict_get recs m = Some e
         \<and> raw_text e = raw_metric_string (the (dict_get (sample_metrics 12) m))
         \<and> shows_norm 4 (normalised_text e) (metric_norm 4 shipped_spec (sample_metrics 12) m))"
  by (rule score_metrics_exact [OF shipped_plain sample_plain(1)]) simp

text \<open>Raising raw metrics never lowers the score.\<close>

theorem score_metrics_monotone:
  assumes "plain_spec k spec" "plain_metrics raws" "plain_metrics raws'"
    and "\<forall>m\<in>set METRIC_NAMES. dval (metric_dec raws m) \<le> dval (metric_dec raws' m)"
  shows "\<exists>recs score recs' score'. score_metrics spec raws = Inr (recs, score)
    \<and> score_metrics spec raws' = Inr (recs', score') \<and> dval score \<le> dval score'"
proof -
  obtain recs score where 1: "score_metrics spec raws = Inr (recs, score)"
    "dval score = quant k (exact_score k spec raws)"
    using score_metrics_ok [OF assms(1,2)] by blast
  obtain recs' score' where 2: "score_metrics spec raws' = Inr (recs', score')"
    "dval score' = quant k (exact_score k spec raws')"
    using score_metrics_ok [OF assms(1,3)] by blast
  have "dval score \<le> dval score'"
    unfolding 1(2) 2(2) using assms(4) by (intro quant_mono exact_score_mono [OF assms(1)]) auto
  with 1(1) 2(1) show ?thesis by blast
qed

lemma score_metrics_monotone_witness:
  "\<exists>recs score recs' score'. score_metrics shipped_spec (sample_metrics 3) = Inr (recs, score)
    \<and> score_metrics shipped_spec (sample_metrics 12) = Inr (recs', score') \<and> dval score \<le> dval score'"
  by (rule score_metrics_monotone [OF shipped_plain sample_plain(1) sample_plain(1)])
    (simp_all add: sample_plain(2) fval_def)

section \<open>The record and its hash\<close>

text \<open>C5: For a plain spec and plain metrics, a known mode and a 40-digit commit, and a JSON
  encoder that accepts dicts of strings, the record is built; its \<open>score\<close> text parses back to the
  exact weighted sum rounded to \<open>k\<close> places, and the record verifies.\<close>

theorem build_score_record_total:
  assumes spec: "plain_spec k spec" and raws: "plain_metrics raws"
    and mode: "mode \<in> {''repo'', ''commit''}" and sha: "hex_run 40 sha"
    and json: "\<forall>ms. \<exists>b. canonical_json_bytes L (metrics_value ms) = Inr b"
      "\<forall>ds. \<exists>b. canonical_json_bytes L (str_dict (map (\<lambda>(k, d). (k, VStr d)) ds)) = Inr b"
  shows "\<exists>r t. build_score_record L spec raws repo mode sha ts = Inr r
    \<and> get_key r ''score'' = VStr t \<and> shows_norm k t (quant k (exact_score k spec raws))
    \<and> verify_record_hash L r = Inr (True, [])"
  by (rule build_total [OF assms])

lemma build_score_record_total_witness:
  "\<exists>r t. build_score_record sample_libs shipped_spec (sample_metrics 12) ''/repo'' ''repo''
      (replicate 40 (CHR ''a'')) ''2026-01-01T00:00:00Z'' = Inr r
    \<and> get_key r ''score'' = VStr t
    \<and> shows_norm 4 t (quant 4 (exact_score 4 shipped_spec (sample_metrics 12)))
    \<and> verify_record_hash sample_libs r = Inr (True, [])"
  by (rule build_score_record_total [OF shipped_plain sample_plain(1)])
    (simp_all add: hex_run_def is_hex_lower_def list_all_iff sample_libs_def)

text \<open>Whatever \<open>build_score_record\<close> returns, \<open>verify_record_hash\<close> accepts, without
  counting a mismatch.\<close>

theorem built_record_verifies:
  assumes "build_score_record L spec raws repo mode sha ts = Inr r"
  shows "verify_record_hash L r = Inr (True, [])"
  by (rule build_verifies [OF assms])

lemma built_record_verifies_witness:
  "\<exists>r. build_score_record sample_libs shipped_spec (sample_metrics 3) ''/repo'' ''repo''
      (replicate 40 (CHR ''a'')) ''2026-01-01T00:00:00Z'' = Inr r
    \<and> verify_record_hash sample_libs r = Inr (True, [])"
proof -
  obtain r where "build_score_record sample_libs shipped_spec (sample_metrics 3) ''/repo'' ''repo''
      (replicate 40 (CHR ''a'')) ''2026-01-01T00:00:00Z'' = Inr r"
    using build_total [OF shipped_plain sample_plain(1), of 3 "''repo''" "replicate 40 (CHR ''a'')" sample_libs]
    by (fastforce simp: hex_run_def is_hex_lower_def list_all_iff sample_libs_def)
  with built_record_verifies [OF this] show ?thesis by blast
qed


definition sample_preimage :: string where
  "sample_preimage = sample_digest (CHR ''6'') @ replicate 40 (CHR ''a'') @ py_repr (VDict [(VStr ''m'', VStr ''3'')]) @ ''{}''"

definition sample_record :: "string \<Rightarrow> mapping_value" where
  "sample_record score =
     [(VStr ''score'', VStr score),
      (VStr ''spec_hash'', VStr (sample_digest (CHR ''6''))),
      (VStr ''commit_sha'', VStr (replicate 40 (CHR ''a''))),
      (VStr ''metrics'', VDict [(VStr ''m'', VStr ''3'')]),
      (VStr ''tool_digests'', VDict []),
      (VStr ''record_hash'', VStr (''sha256:'' @ sha256_hex sample_libs sample_preimage))]"

lemma sample_record_keys:
  "get_key (sample_record s) ''spec_hash'' = VStr (sample_digest (CHR ''6''))"
  "get_key (sample_record s) ''commit_sha'' = VStr (replicate 40 (CHR ''a''))"
  "get_item (sample_record s) ''metrics'' = Inr (VDict [(VStr ''m'', VStr ''3'')])"
  "get_item (sample_record s) ''tool_digests'' = Inr (VDict [])"
  "get_key (sample_record s) ''record_hash'' = VStr (''sha256:'' @ sha256_hex sample_libs sample_preimage)"
  by (simp_all add: sample_record_def get_key_def get_item_def lookup_def)

lemma sample_texts:
  "ascii (sample_digest (CHR ''6''))" "length (sample_digest (CHR ''6'')) = 71"
  "ascii (replicate 40 (CHR ''a''))"
  by (simp_all add: sample_digest_def ascii_def list_all_iff)

lemma sample_record_preimage: "hash_preimage sample_libs (sample_record s) = Inr sample_preimage"
  by (simp add: hash_preimage_def require_string_def sample_record_keys sample_texts sample_preimage_def sample_json)

lemma sample_record_verifies: "verify_record_hash sample_libs (sample_record s) = Inr (True, [])"
  by (simp add: verify_eq_True compute_record_hash_def sample_record_preimage sample_record_keys)


text \<open>The hash binds nothing else: a verified record still verifies after its \<open>score\<close>,
  \<open>repo\<close>, \<open>mode\<close>, \<open>computed_at\<close> or any other key outside the four bound ones and
  \<open>record_hash\<close> has been replaced by any value.\<close>

theorem unbound_keys_not_verified:
  assumes "k \<notin> {''spec_hash'', ''commit_sha'', ''metrics'', ''tool_digests'', ''record_hash''}"
  shows "verify_record_hash L (dict_set (VStr k) v d) = verify_record_hash L d"
  using assms by (intro verify_other_key) (auto simp: bound_keys_def)

lemma unbound_keys_not_verified_witness:
  "verify_record_hash sample_libs (dict_set (VStr ''score'') (VStr ''0.0000'') (sample_record ''0.9000''))
    = verify_record_hash sample_libs (sample_record ''0.9000'')"
  by (rule unbound_keys_not_verified) simp

text \<open>The parts of the preimage are not delimited: moving a suffix of the spec hash to the
  front of the commit gives another record that verifies under the same \<open>record_hash\<close>, since
  verification does not check the shape of either text.\<close>

theorem digest_boundary_not_bound:
  assumes "get_key d ''spec_hash'' = VStr (a @ b)" "get_key d ''commit_sha'' = VStr c"
    and "verify_record_hash L d = Inr (True, l)"
  shows "verify_record_hash L (dict_set (VStr ''spec_hash'') (VStr a)
    (dict_set (VStr ''commit_sha'') (VStr (b @ c)) d)) = Inr (True, [])"
proof -
  have "compute_record_hash L (dict_set (VStr ''spec_hash'') (VStr a)
    (dict_set (VStr ''commit_sha'') (VStr (b @ c)) d)) = compute_record_hash L d"
    using preimage_shift [OF assms(1,2)] by (simp add: compute_record_hash_def)
  with assms(3) show ?thesis by (auto simp: verify_eq_True get_key_set)
qed

lemma digest_boundary_not_bound_witness:
  "verify_record_hash sample_libs (dict_set (VStr ''spec_hash'') (VStr ''sha256:'')
    (dict_set (VStr ''commit_sha'') (VStr (replicate 64 (CHR ''6'') @ replicate 40 (CHR ''a'')))
      (sample_record ''1''))) = Inr (True, [])"
  by (rule digest_boundary_not_bound [OF _ sample_record_keys(2) sample_record_verifies])
    (simp add: sample_record_keys sample_digest_def)

section \<open>The spec\<close>

text \<open>C7: An accepted spec is well-formed: five weights that sum to 1.00, a rule per metric with
  ascending cuts and one more level than cuts, an integer number of places, half-even rounding, five
  digests of the right shape, no float at any depth; and its \<open>spec_hash\<close> is the hash of the mapping.\<close>

theorem accepted_spec_wf:
  assumes "spec_from_mapping L m = Inr s"
  shows "spec_wf s \<and> raw s = m \<and> compute_spec_hash L m = Inr (spec_hash s)"
  using assms by (simp add: spec_from_mapping_wf spec_from_mapping_hash)

definition shipped_rule_value :: "string list \<Rightarrow> pyval" where
  "shipped_rule_value cs = str_dict
     [(''cuts'', VList (map VStr cs)),
      (''normalised'', VList (map VStr [''0.00'', ''0.25'', ''0.50'', ''0.75'', ''1.00'']))]"

definition shipped_mapping :: "string \<Rightarrow> mapping_value" where
  "shipped_mapping w =
     [(VStr ''spec_version'', VStr ''0.1.0''),
      (VStr ''spec_hash'', VStr ''stale''),
      (VStr ''weights'', str_dict [(''cyclomatic'', VStr w), (''cognitive'', VStr ''0.30''),
         (''nesting_depth'', VStr ''0.15''), (''file_length'', VStr ''0.10''),
         (''function_length'', VStr ''0.15'')]),
      (VStr ''normalisation'', str_dict
         [(''method'', VStr ''piecewise_linear_frozen_cuts''),
          (''cyclomatic'', shipped_rule_value [''5'', ''10'', ''20'', ''50'']),
          (''cognitive'', shipped_rule_value [''5'', ''15'', ''30'', ''60'']),
          (''nesting_depth'', shipped_rule_value [''2'', ''4'', ''6'', ''8'']),
          (''function_length'', shipped_rule_value [''20'', ''50'', ''100'', ''200'']),
          (''file_length'', shipped_rule_value [''100'', ''300'', ''600'', ''1000''])]),
      (VStr ''rounding'', str_dict [(''decimal_places'', VInt 4), (''mode'', VStr ''ROUND_HALF_EVEN'')]),
      (VStr ''pinned_tools'', str_dict
         [(''tree_sitter_core'', VStr (sample_digest (CHR ''c''))),
          (''grammars'', str_dict [(''python'', VStr (sample_digest (CHR ''7''))),
             (''typescript'', VStr (sample_digest (CHR ''3'')))]),
          (''lizard'', VStr (sample_digest (CHR ''a''))), (''scc'', VStr (sample_digest (CHR ''6'')))])]"

lemma sample_digest_shape: "is_hex_lower c \<Longrightarrow> re_dollar sha256_text (sample_digest c)"
  by (rule re_dollar_self)
    (simp add: sha256_text_def sample_digest_def hex_run_def list_all_iff starts_with_def)

lemmas spec_eval =
  get_key_def str_dict_def METRIC_NAMES_def parse_weights_def parse_weight_def
  parse_normalisation_def parse_rule_def parse_decimal_tuple_def

lemma shipped_texts:
  "decimal_of_string ''0.30'' = Inr (Fin False 30 (- 2))"
  "decimal_of_string ''0.15'' = Inr (Fin False 15 (- 2))"
  "decimal_of_string ''0.10'' = Inr (Fin False 10 (- 2))"
  "decimal_of_string ''0.00'' = Inr (Fin False 0 (- 2))"
  "decimal_of_string ''0.25'' = Inr (Fin False 25 (- 2))"
  "decimal_of_string ''0.50'' = Inr (Fin False 50 (- 2))"
  "decimal_of_string ''0.75'' = Inr (Fin False 75 (- 2))"
  "decimal_of_string ''1.00'' = Inr (Fin False 100 (- 2))"
  by (simp_all add: text_eval)

lemma shipped_cut_texts:
  "decimal_of_string ''5'' = Inr (Fin False 5 0)" "decimal_of_string ''10'' = Inr (Fin False 10 0)"
  "decimal_of_string ''20'' = Inr (Fin False 20 0)" "decimal_of_string ''50'' = Inr (Fin False 50 0)"
  "decimal_of_string ''15'' = Inr (Fin False 15 0)" "decimal_of_string ''30'' = Inr (Fin False 30 0)"
  "decimal_of_string ''60'' = Inr (Fin False 60 0)" "decimal_of_string ''2'' = Inr (Fin False 2 0)"
  "decimal_of_string ''4'' = Inr (Fin False 4 0)" "decimal_of_string ''6'' = Inr (Fin False 6 0)"
  "decimal_of_string ''8'' = Inr (Fin False 8 0)" "decimal_of_string ''100'' = Inr (Fin False 100 0)"
  "decimal_of_string ''200'' = Inr (Fin False 200 0)" "decimal_of_string ''300'' = Inr (Fin False 300 0)"
  "decimal_of_string ''600'' = Inr (Fin False 600 0)" "decimal_of_string ''1000'' = Inr (Fin False 1000 0)"
  by (simp_all add: text_eval)

lemma dec_fix_small:
  assumes "c < 10 ^ 28" "- 1000 \<le> e" "e \<le> 0"
  shows "dec_fix s c e = Inr (Fin s c e)"
proof (cases "c = 0")
  case True
  with assms show ?thesis by (simp add: dec_fix_def)
next
  case False
  then have "ndigits 10 c \<le> 28" using assms(1) ndigits_le_iff [of 10 c 28] by simp
  with False assms show ?thesis
    by (simp add: dec_fix_def round_coeff_def round_exp_def del: ndigits.simps)
qed

lemma dec_add_cents:
  "a + b < 10 ^ 28 \<Longrightarrow> dec_add (Fin False a (- 2)) (Fin False b (- 2)) = Inr (Fin False (a + b) (- 2))"
  by (simp add: dec_add_def nan_or_def scaled_int_def Let_def dec_fix_small nat_add_distrib)

lemma dec_add_zero_cents:
  "b < 10 ^ 28 \<Longrightarrow> dec_add (Fin False 0 0) (Fin False b (- 2)) = Inr (Fin False b (- 2))"
  by (simp add: dec_add_def nan_or_def scaled_int_def Let_def dec_fix_small)

lemma shipped_total:
  "each_st dec_add (Fin False 0 0) [Fin False 30 (- 2), Fin False 30 (- 2), Fin False 15 (- 2),
     Fin False 15 (- 2), Fin False 10 (- 2)] = Inr (Fin False 100 (- 2))"
  by (simp add: dec_add_cents dec_add_zero_cents)

lemma shipped_weights_parse:
  "parse_weights (get_key (shipped_mapping ''0.30'') ''weights'') = Inr shipped_weights"
proof -
  let ?w = "str_dict [(''cyclomatic'', VStr ''0.30''), (''cognitive'', VStr ''0.30''),
         (''nesting_depth'', VStr ''0.15''), (''file_length'', VStr ''0.10''),
         (''function_length'', VStr ''0.15'')]"
  obtain kvs where kvs: "?w = VDict kvs" by (simp add: str_dict_def)
  have w: "get_key (shipped_mapping ''0.30'') ''weights'' = ?w"
    by (simp add: shipped_mapping_def get_key_def)
  have "each (parse_weight kvs) METRIC_NAMES = Inr [Fin False 30 (- 2), Fin False 30 (- 2),
      Fin False 15 (- 2), Fin False 15 (- 2), Fin False 10 (- 2)]"
    using kvs by (auto simp: str_dict_def METRIC_NAMES_def parse_weight_def get_key_def shipped_texts)
  moreover have "dec_eq (Fin False 100 (- 2)) (Fin False 100 (- 2)) = Inr True"
    by (simp add: fin_le_def Let_def)
  ultimately show ?thesis
    unfolding w kvs parse_weights_def
    by (simp only: pyval.case andthen_Inr shipped_total) (simp add: shipped_weights_def METRIC_NAMES_def)
qed

lemma ascending_ints:
  "a \<le> b \<Longrightarrow> b \<le> c \<Longrightarrow> c \<le> d \<Longrightarrow>
   ascending [Fin False a 0, Fin False b 0, Fin False c 0, Fin False d 0] = Inr True"
  by (simp add: fin_le_def scaled_int_def Let_def)

lemma shipped_rules_parse:
  "parse_normalisation (get_key (shipped_mapping w) ''normalisation'') = Inr shipped_rules"
  by (simp add: shipped_mapping_def shipped_rule_value_def spec_eval shipped_texts shipped_cut_texts
      ascending_ints shipped_rules_def shipped_rule_def shipped_levels_def del: ascending.simps)

lemma shipped_accepted: "\<exists>s. spec_from_mapping sample_libs (shipped_mapping ''0.30'') = Inr s
   \<and> weights s = shipped_weights \<and> normalisation s = shipped_rules \<and> decimal_places s = VInt 4"
proof -
  let ?m = "shipped_mapping ''0.30''"
  have "reject_floats (VDict ?m) ''scoring-spec.yaml'' = Inr ()"
    by (simp add: reject_floats_iff shipped_mapping_def shipped_rule_value_def str_dict_def)
  moreover have "parse_weights (get_key ?m ''weights'') = Inr shipped_weights"
    by (rule shipped_weights_parse)
  moreover have "parse_normalisation (get_key ?m ''normalisation'') = Inr shipped_rules"
    by (rule shipped_rules_parse)
  moreover have "\<exists>ds. flatten_tool_digests (get_key ?m ''pinned_tools'') = Inr ds"
    by (simp add: shipped_mapping_def get_key_def str_dict_def flatten_tool_digests_def require_digest_def Let_def
     validate_digest_shapes_iff [THEN iffD2] sample_digest_shape is_hex_lower_def)
  moreover have "get_key ?m ''rounding'' =
      str_dict [(''decimal_places'', VInt 4), (''mode'', VStr ''ROUND_HALF_EVEN'')]"
    by (simp add: shipped_mapping_def get_key_def)
  moreover have "\<exists>h. compute_spec_hash sample_libs ?m = Inr h"
    by (simp add: compute_spec_hash_def sample_json)
  ultimately show ?thesis
    by (auto simp: spec_from_mapping_def str_dict_def get_key_def [of "[(VStr ''decimal_places'', v), w]" for v w] is_int_def)
qed

lemma accepted_spec_wf_witness:
  "\<exists>s. spec_from_mapping sample_libs (shipped_mapping ''0.30'') = Inr s \<and> spec_wf s
    \<and> raw s = shipped_mapping ''0.30'' \<and> compute_spec_hash sample_libs (shipped_mapping ''0.30'') = Inr (spec_hash s)"
  using shipped_accepted accepted_spec_wf [of sample_libs "shipped_mapping ''0.30''"] by blast

text \<open>A float at any depth of the mapping makes the spec refused with a
  \<open>SpecValidationError\<close>, before anything else is looked at.\<close>

theorem floats_refused:
  assumes "has_float (VDict m)"
  shows "\<exists>msg. spec_from_mapping L m = Inl (SpecValidationError msg)"
proof (cases "reject_floats (VDict m) ''scoring-spec.yaml''")
  case (Inl e)
  with reject_floats_error(1) [OF Inl] show ?thesis by (auto simp: spec_from_mapping_def)
next
  case (Inr u)
  with assms reject_floats_iff(1) [of "VDict m" "''scoring-spec.yaml''"] show ?thesis by simp
qed

lemma floats_refused_witness:
  "\<exists>msg. spec_from_mapping sample_libs
     [(VStr ''normalisation'', str_dict [(''cuts'', VList [VStr ''5'', VFloat ''10.0''])])]
     = Inl (SpecValidationError msg)"
  by (rule floats_refused) (simp add: str_dict_def)

text \<open>The \<open>spec_hash\<close> a spec file declares is neither hashed nor compared: any string in its
  place gives the same accepted spec, with the hash recomputed.\<close>

theorem declared_spec_hash_ignored:
  assumes "spec_from_mapping L m = Inr s"
  shows "\<exists>s'. spec_from_mapping L (dict_set (VStr ''spec_hash'') (VStr t) m) = Inr s'
    \<and> s' = s\<lparr>raw := dict_set (VStr ''spec_hash'') (VStr t) m\<rparr>"
  using assms by (rule spec_hash_field_ignored)

lemma declared_spec_hash_ignored_witness:
  "\<exists>s s'. spec_from_mapping sample_libs (shipped_mapping ''0.30'') = Inr s
    \<and> spec_from_mapping sample_libs (dict_set (VStr ''spec_hash'') (VStr ''forged'') (shipped_mapping ''0.30'')) = Inr s'
    \<and> s' = s\<lparr>raw := dict_set (VStr ''spec_hash'') (VStr ''forged'') (shipped_mapping ''0.30'')\<rparr>"
  using shipped_accepted declared_spec_hash_ignored [of sample_libs "shipped_mapping ''0.30''"] by blast

text \<open>A weight that is not a number escapes validation as \<open>decimal.InvalidOperation\<close>, which
  is not the \<open>SpecValidationError\<close> every other malformed weight gives.\<close>

theorem malformed_weight_escapes:
  "spec_from_mapping L (shipped_mapping ''lots'') = Inl InvalidOperation"
proof -
  have "reject_floats (VDict (shipped_mapping ''lots'')) ''scoring-spec.yaml'' = Inr ()"
    by (simp add: reject_floats_iff shipped_mapping_def shipped_rule_value_def str_dict_def)
  moreover have "parse_weights (get_key (shipped_mapping ''lots'') ''weights'') = Inl InvalidOperation"
    by (simp add: shipped_mapping_def spec_eval text_eval)
  ultimately show ?thesis by (simp add: spec_from_mapping_def)
qed

end
