(* ===== verification/RepoAnalyzer.thy ===== *)
theory RepoAnalyzer
  imports Registry CoreProps "HOL-Library.Multiset"
begin

text \<open>
  \<open>src/cce/analyzer.py\<close>: the walk over a repository, the choice of a backend per file, and the
  aggregation of the per-file metrics into the five raw metrics of the score.

  A path is its list of parts. \<open>rglob("*")\<close> and \<open>is_file\<close> are the argument \<open>listing\<close>
  (every path below the repository with its kind, in whatever order the file system gives);
  \<open>read_text\<close> is an argument.
\<close>

section \<open>The walk\<close>

type_synonym path = "string list"

record listed =
  parts :: path
  is_file :: bool

definition SKIP_DIRS :: "string list" where
  "SKIP_DIRS =
     [''.git'', ''.hg'', ''.svn'', ''.venv'', ''node_modules'', ''__pycache__'', ''cce-out'']"

definition SOURCE_SUFFIXES :: "(string, string) dict" where
  "SOURCE_SUFFIXES =
     [(''.py'', ''python''), (''.ts'', ''typescript''), (''.tsx'', ''typescript'')]"

text \<open>\<open>PurePath.suffix\<close>: from the last dot on, unless the dot is the first or the last character.\<close>

definition path_suffix :: "path \<Rightarrow> string" where
  "path_suffix p =
     (if p = [] then ''''
      else let name = last p;
               tail = takeWhile (\<lambda>c. c \<noteq> CHR ''.'') (rev name);
               stem = length name - length tail - 1
           in if CHR ''.'' \<notin> set name \<or> tail = [] \<or> stem = 0 then '''' else CHR ''.'' # rev tail)"

text \<open>\<open>path.relative_to(repo).as_posix()\<close>.\<close>

definition relative_posix :: "path \<Rightarrow> path \<Rightarrow> string" where
  "relative_posix repo p = join ''/'' (drop (length repo) p)"

definition iter_source_files :: "path \<Rightarrow> listed list \<Rightarrow> path list" where
  "iter_source_files repo listing =
     sort_key (relative_posix repo)
       (map parts
         (filter (\<lambda>e. \<not> list_ex (\<lambda>part. part \<in> set SKIP_DIRS) (parts e)
            \<and> is_file e \<and> dict_get SOURCE_SUFFIXES (path_suffix (parts e)) \<noteq> None) listing))"

section \<open>Parsing\<close>

record SourceFile =
  rel :: string
  absolute_path :: path
  language :: string
  text_of :: string
  run_backend :: backend_fun

record ParseContext =
  repo_path :: path
  files :: "SourceFile list"

definition parse_file ::
    "AnalyzerRegistry \<Rightarrow> (path \<Rightarrow> string result) \<Rightarrow> path \<Rightarrow> path \<Rightarrow> SourceFile result" where
  "parse_file reg read_text repo p =
     andthen (lookup SOURCE_SUFFIXES (path_suffix p) (KeyError (path_suffix p))) (\<lambda>lang.
     andthen (resolve reg lang None) (\<lambda>entry.
     andthen (read_text p) (\<lambda>txt.
       Inr \<lparr>rel = relative_posix repo p, absolute_path = p, language = lang, text_of = txt,
             run_backend = backend entry\<rparr>)))"

text \<open>\<open>glob\<close> is the module's \<open>_REGISTRY\<close>, initialised on first use.\<close>

definition parse_repo ::
    "libs \<Rightarrow> parsers \<Rightarrow> file_system \<Rightarrow> AnalyzerRegistry option \<Rightarrow> path \<Rightarrow> listed list
     \<Rightarrow> (path \<Rightarrow> string result) \<Rightarrow> AnalyzerRegistry option \<Rightarrow> (string, string) dict option
     \<Rightarrow> ParseContext result \<times> AnalyzerRegistry option" where
  "parse_repo L P fs glob repo listing read_text registry digests =
     (case (case registry of Some r \<Rightarrow> (r, glob) | None \<Rightarrow> get_registry P glob) of (reg, glob') \<Rightarrow>
        (andthen (case digests of None \<Rightarrow> Inr () | Some ds \<Rightarrow> assert_digests L fs reg ds) (\<lambda>_.
         andthen (each (parse_file reg read_text repo) (iter_source_files repo listing)) (\<lambda>entries.
           Inr \<lparr>repo_path = repo, files = entries\<rparr>)), glob'))"

section \<open>Measuring\<close>

record FileMetrics =
  fm_path :: string
  fm_language :: string
  fm_metrics :: metrics_dict

definition path_text :: "path \<Rightarrow> string" where
  "path_text p = join ''/'' p"

definition measure_file :: "SourceFile \<Rightarrow> FileMetrics result" where
  "measure_file source =
     andthen (run_backend source (path_text (absolute_path source)) (text_of source)) (\<lambda>metrics.
       Inr \<lparr>fm_path = rel source, fm_language = language source,
         fm_metrics = dict_set ''file_length'' (int (length (splitlines (text_of source)))) metrics\<rparr>)"

definition summary_step :: "(string, int) dict \<Rightarrow> FileMetrics \<Rightarrow> (string, int) dict result" where
  "summary_step summary fm =
     each_st (\<lambda>summary metric.
         andthen (lookup summary metric (KeyError metric)) (\<lambda>old.
         andthen (lookup (fm_metrics fm) metric (KeyError metric)) (\<lambda>new.
           Inr (dict_set metric (max old new) summary)))) summary METRIC_NAMES"

record RawPayload =
  payload_files :: "FileMetrics list"
  payload_summary :: "(string, int) dict"

definition measure_metrics :: "ParseContext \<Rightarrow> ((string, string) dict \<times> RawPayload) result" where
  "measure_metrics ctx =
     andthen (each measure_file (files ctx)) (\<lambda>fms.
     andthen (each_st summary_step (map (\<lambda>m. (m, 0)) METRIC_NAMES) fms) (\<lambda>summary.
     andthen (each (\<lambda>m. andthen (lookup summary m (KeyError m)) (\<lambda>v. Inr (m, string_of_int v))) METRIC_NAMES)
       (\<lambda>raw_metrics. Inr (raw_metrics, \<lparr>payload_files = fms, payload_summary = summary\<rparr>))))"

definition analyse_repo ::
    "libs \<Rightarrow> parsers \<Rightarrow> file_system \<Rightarrow> AnalyzerRegistry option \<Rightarrow> path \<Rightarrow> listed list
     \<Rightarrow> (path \<Rightarrow> string result) \<Rightarrow> AnalyzerRegistry option \<Rightarrow> (string, string) dict option
     \<Rightarrow> ((string, string) dict \<times> RawPayload) result \<times> AnalyzerRegistry option" where
  "analyse_repo L P fs glob repo listing read_text registry digests =
     (case parse_repo L P fs glob repo listing read_text registry digests of
        (ctx, glob') \<Rightarrow> (andthen ctx measure_metrics, glob'))"

definition int_dict :: "(string, int) dict \<Rightarrow> pyval" where
  "int_dict d = str_dict (map (\<lambda>(k, v). (k, VInt v)) d)"

definition payload_value :: "RawPayload \<Rightarrow> pyval" where
  "payload_value r =
     str_dict
       [(''files'', VList (map (\<lambda>f. str_dict [(''path'', VStr (fm_path f)),
           (''language'', VStr (fm_language f)), (''metrics'', int_dict (fm_metrics f))]) (payload_files r))),
        (''summary'', int_dict (payload_summary r))]"

section \<open>Order independence of the walk\<close>

lemma split_join: "ps \<noteq> [] \<Longrightarrow> \<forall>p\<in>set ps. c \<notin> set p \<Longrightarrow> split_char c (join [c] ps) = ps"
  by (induction "[c]" ps rule: join.induct) (auto simp: split_char_no_sep split_char_append)

text \<open>What \<open>rglob\<close> yields: paths below the repository, no part of which holds a slash.\<close>

definition listing_ok :: "path \<Rightarrow> listed list \<Rightarrow> bool" where
  "listing_ok repo listing \<longleftrightarrow>
     list_all (\<lambda>e. take (length repo) (parts e) = repo \<and> length repo < length (parts e)
       \<and> list_all (\<lambda>p. CHR ''/'' \<notin> set p) (drop (length repo) (parts e))) listing"

lemma relative_posix_inj:
  assumes "take (length repo) p = repo" "take (length repo) q = repo"
    "length repo < length p" "length repo < length q"
    "list_all (\<lambda>p. CHR ''/'' \<notin> set p) (drop (length repo) p)"
    "list_all (\<lambda>p. CHR ''/'' \<notin> set p) (drop (length repo) q)"
    and eq: "relative_posix repo p = relative_posix repo q"
  shows "p = q"
proof -
  have split: "split_char (CHR ''/'') (relative_posix repo r) = drop (length repo) r"
    if "length repo < length r" "list_all (\<lambda>p. CHR ''/'' \<notin> set p) (drop (length repo) r)" for r
    unfolding relative_posix_def using that by (intro split_join) (simp_all add: list_all_iff)
  have "drop (length repo) p = drop (length repo) q"
    using split [OF assms(3,5)] split [OF assms(4,6)] eq by simp
  with assms(1,2) show ?thesis by (metis append_take_drop_id)
qed

lemma iter_source_files_perm:
  assumes "listing_ok repo listing" "mset listing = mset listing'"
  shows "iter_source_files repo listing = iter_source_files repo listing'"
proof -
  let ?P = "\<lambda>e. \<not> list_ex (\<lambda>part. part \<in> set SKIP_DIRS) (parts e)
            \<and> is_file e \<and> dict_get SOURCE_SUFFIXES (path_suffix (parts e)) \<noteq> None"
  have "inj_on (relative_posix repo) (set (map parts (filter ?P listing)))"
  proof (rule inj_onI)
    fix p q assume "p \<in> set (map parts (filter ?P listing))" "q \<in> set (map parts (filter ?P listing))"
      and eq: "relative_posix repo p = relative_posix repo q"
    then obtain e f where "e \<in> set listing" "p = parts e" "f \<in> set listing" "q = parts f"
      by (simp only: set_map set_filter) blast
    then have "take (length repo) p = repo \<and> length repo < length p \<and> list_all (\<lambda>p. CHR ''/'' \<notin> set p) (drop (length repo) p)"
      "take (length repo) q = repo \<and> length repo < length q \<and> list_all (\<lambda>p. CHR ''/'' \<notin> set p) (drop (length repo) q)"
      using assms(1) unfolding listing_ok_def list_all_iff [of _ listing] by blast+
    with eq show "p = q" by (blast intro: relative_posix_inj)
  qed
  moreover have "mset (map parts (filter ?P listing)) = mset (map parts (filter ?P listing'))"
    using assms(2) by (simp add: mset_map mset_filter)
  ultimately show ?thesis
    unfolding iter_source_files_def by (intro sort_key_inj_key_eq) simp_all
qed

lemma parse_repo_perm:
  "listing_ok repo listing \<Longrightarrow> mset listing = mset listing' \<Longrightarrow>
   parse_repo L P fs glob repo listing read_text reg ds = parse_repo L P fs glob repo listing' read_text reg ds"
  by (simp add: parse_repo_def iter_source_files_perm)

lemma iter_source_files_skipped:
  assumes "listing_ok repo listing" "part \<in> set repo" "part \<in> set SKIP_DIRS"
  shows "iter_source_files repo listing = []"
proof -
  have "list_ex (\<lambda>part. part \<in> set SKIP_DIRS) (parts e)" if "e \<in> set listing" for e
  proof -
    have "take (length repo) (parts e) = repo" using assms(1) that by (simp add: listing_ok_def list_all_iff)
    then have "part \<in> set (parts e)" using assms(2) by (metis in_set_takeD)
    with assms(3) show ?thesis by (auto simp: list_ex_iff)
  qed
  then have "filter (\<lambda>e. \<not> list_ex (\<lambda>part. part \<in> set SKIP_DIRS) (parts e)
            \<and> is_file e \<and> dict_get SOURCE_SUFFIXES (path_suffix (parts e)) \<noteq> None) listing = []"
    by (auto simp: filter_empty_conv)
  then show ?thesis by (simp add: iter_source_files_def)
qed

section \<open>The aggregation\<close>

lemma lookup_Some: "dict_get d k = Some v \<Longrightarrow> lookup d k e = Inr v"
  by simp

definition complete :: "metrics_dict \<Rightarrow> bool" where
  "complete d \<longleftrightarrow> (\<forall>m\<in>set METRIC_NAMES. dict_get d m \<noteq> None)"

definition file_value :: "FileMetrics \<Rightarrow> string \<Rightarrow> int" where
  "file_value fm m = the (dict_get (fm_metrics fm) m)"

lemma summary_step_ok:
  assumes "complete s" "complete (fm_metrics fm)"
  shows "\<exists>s'. summary_step s fm = Inr s' \<and> complete s'
    \<and> (\<forall>m\<in>set METRIC_NAMES. dict_get s' m = Some (max (the (dict_get s m)) (file_value fm m)))"
proof -
  let ?f = "\<lambda>summary metric.
         andthen (lookup summary metric (KeyError metric)) (\<lambda>old.
         andthen (lookup (fm_metrics fm) metric (KeyError metric)) (\<lambda>new.
           Inr (dict_set metric (max old new) summary)))"
  have gen: "\<exists>s'. each_st ?f s ms = Inr s' \<and> (\<forall>m. dict_get s' m =
      (if m \<in> set ms then Some (max (the (dict_get s m)) (file_value fm m)) else dict_get s m))"
    if "distinct ms" "\<forall>m\<in>set ms. dict_get s m \<noteq> None \<and> dict_get (fm_metrics fm) m \<noteq> None"
    for ms and s :: "(string, int) dict"
    using that
  proof (induction ms arbitrary: s)
    case (Cons m ms)
    then obtain a b where ab: "dict_get s m = Some a" "dict_get (fm_metrics fm) m = Some b" by auto
    have pre: "distinct ms" "\<forall>n\<in>set ms. dict_get (dict_set m (max a b) s) n \<noteq> None
        \<and> dict_get (fm_metrics fm) n \<noteq> None" using Cons.prems by auto
    from Cons.IH [OF pre] obtain s' where
      s': "each_st ?f (dict_set m (max a b) s) ms = Inr s'"
        "\<forall>n. dict_get s' n = (if n \<in> set ms then Some (max (the (dict_get (dict_set m (max a b) s) n)) (file_value fm n))
               else dict_get (dict_set m (max a b) s) n)" by blast
    have "each_st ?f s (m # ms) = Inr s'" using s'(1) by (simp add: lookup_Some ab)
    moreover have "dict_get s' n = (if n \<in> set (m # ms) then Some (max (the (dict_get s n)) (file_value fm n))
        else dict_get s n)" for n
      using s'(2) Cons.prems(1) ab by (auto simp: file_value_def)
    ultimately show ?case by blast
  qed simp
  from gen [OF METRIC_NAMES_distinct, of s] assms show ?thesis
    by (auto simp: summary_step_def complete_def)
qed

lemma summary_ok:
  "complete s \<Longrightarrow> \<forall>fm\<in>set fms. complete (fm_metrics fm) \<Longrightarrow>
   \<exists>s'. each_st summary_step s fms = Inr s' \<and> complete s'
    \<and> (\<forall>m\<in>set METRIC_NAMES. dict_get s' m = Some (foldl max (the (dict_get s m)) (map (\<lambda>fm. file_value fm m) fms)))"
proof (induction fms arbitrary: s)
  case (Cons fm fms)
  from summary_step_ok [of s fm] Cons.prems obtain s1 where
    s1: "summary_step s fm = Inr s1" "complete s1"
      "\<forall>m\<in>set METRIC_NAMES. dict_get s1 m = Some (max (the (dict_get s m)) (file_value fm m))" by auto
  from Cons.IH [OF s1(2)] Cons.prems s1 show ?case by auto
qed (auto simp: complete_def)

definition metric_max :: "FileMetrics list \<Rightarrow> string \<Rightarrow> int" where
  "metric_max fms m = foldl max 0 (map (\<lambda>fm. file_value fm m) fms)"

lemma measure_metrics_ok:
  assumes fms: "each measure_file (files ctx) = Inr fms" and ok: "\<forall>fm\<in>set fms. complete (fm_metrics fm)"
  shows "\<exists>summary. measure_metrics ctx
      = Inr (map (\<lambda>m. (m, string_of_int (metric_max fms m))) METRIC_NAMES,
             \<lparr>payload_files = fms, payload_summary = summary\<rparr>)
    \<and> (\<forall>m\<in>set METRIC_NAMES. dict_get summary m = Some (metric_max fms m))"
proof -
  let ?z = "map (\<lambda>m. (m, 0 :: int)) METRIC_NAMES"
  have z: "dict_get ?z m = Some 0" if "m \<in> set METRIC_NAMES" for m
    using that by (auto simp: map_of_map_restrict restrict_map_def)
  then have "complete ?z" by (auto simp: complete_def)
  from summary_ok [OF this ok] obtain s where
    s: "each_st summary_step ?z fms = Inr s"
      "\<forall>m\<in>set METRIC_NAMES. dict_get s m = Some (metric_max fms m)"
    using z by (auto simp: metric_max_def)
  have "each (\<lambda>m. andthen (lookup s m (KeyError m)) (\<lambda>v. Inr (m, string_of_int v))) METRIC_NAMES
    = Inr (map (\<lambda>m. (m, string_of_int (metric_max fms m))) METRIC_NAMES)"
  proof (rule each_total)
    fix m assume "m \<in> set METRIC_NAMES"
    with s(2) have "dict_get s m = Some (metric_max fms m)" by simp
    then show "andthen (lookup s m (KeyError m)) (\<lambda>v. Inr (m, string_of_int v))
      = Inr (m, string_of_int (metric_max fms m))" by (simp add: lookup_Some)
  qed
  with s fms show ?thesis by (simp add: measure_metrics_def)
qed

lemma foldl_max_int_le: "foldl max a xs \<le> (b::int) \<longleftrightarrow> a \<le> b \<and> (\<forall>x\<in>set xs. x \<le> b)"
  by (induction xs arbitrary: a) auto

lemma metric_max_nonneg: "0 \<le> metric_max fms m"
proof -
  let ?xs = "map (\<lambda>fm. file_value fm m) fms"
  show ?thesis using foldl_max_int_le [of 0 ?xs "foldl max 0 ?xs"] by (simp add: metric_max_def)
qed

lemma metric_max_le: "0 \<le> b \<Longrightarrow> metric_max fms m \<le> b \<longleftrightarrow> (\<forall>fm\<in>set fms. file_value fm m \<le> b)"
  by (simp add: metric_max_def foldl_max_int_le)

lemma metric_max_mono: "set fms \<subseteq> set fms' \<Longrightarrow> metric_max fms m \<le> metric_max fms' m"
  using metric_max_le [of "metric_max fms' m" fms m] metric_max_le [of "metric_max fms' m" fms' m]
    metric_max_nonneg [of fms' m] by auto

section \<open>From the analysis to the score\<close>

lemma decimal_of_nat_text:
  assumes "n < 10 ^ 9"
  shows "decimal_of_string (string_of_nat n) = Inr (Fin False n 0)"
proof -
  have "ndigits 10 n \<le> 9"
    using assms ndigits_le_iff [of 10 n 9] by (cases "n = 0") (auto simp: ndigits.simps [of 10 0])
  then show ?thesis
    using decimal_of_number_text [of "string_of_nat n" "[]" False] string_of_nat_digits [of n]
    by (simp add: number_text_def)
qed

text \<open>The texts \<open>measure_metrics\<close> returns, as \<open>score_metrics\<close> takes them.\<close>

definition as_raw :: "(string, string) dict \<Rightarrow> (string, raw_metric) dict" where
  "as_raw d = map (\<lambda>(k, v). (k, RStr v)) d"

lemma measured_plain:
  assumes "\<forall>m\<in>set METRIC_NAMES. metric_max fms m < 10 ^ 9"
  shows "plain_metrics (as_raw (map (\<lambda>m. (m, string_of_int (metric_max fms m))) METRIC_NAMES))"
    "m \<in> set METRIC_NAMES \<Longrightarrow>
     dval (metric_dec (as_raw (map (\<lambda>m. (m, string_of_int (metric_max fms m))) METRIC_NAMES)) m)
       = of_int (metric_max fms m)"
proof -
  let ?r = "as_raw (map (\<lambda>m. (m, string_of_int (metric_max fms m))) METRIC_NAMES)"
  have get: "dict_get ?r m = Some (RStr (string_of_int (metric_max fms m)))" if "m \<in> set METRIC_NAMES" for m
    using that by (simp add: as_raw_def comp_def map_of_map_restrict restrict_map_def)
  have val: "to_decimal (RStr (string_of_int (metric_max fms m))) m = Inr (Fin False (nat (metric_max fms m)) 0)"
    if "m \<in> set METRIC_NAMES" for m
    using assms that metric_max_nonneg [of fms m]
    by (simp add: to_decimal_def string_of_int_def decimal_of_nat_text nat_less_iff)
  show "plain_metrics ?r"
    using get val assms by (auto simp: plain_metrics_def metric_dec_def nat_less_iff metric_max_nonneg)
  show "dval (metric_dec ?r m) = of_int (metric_max fms m)" if "m \<in> set METRIC_NAMES"
    using get [OF that] val [OF that] metric_max_nonneg [of fms m] by (simp add: metric_dec_def fval_def)
qed

lemma complete_metrics_dict: "complete (dict_set ''file_length'' n (metrics_dict m))"
  by (simp add: complete_def metrics_dict_def METRIC_NAMES_def)

section \<open>The default registry\<close>

lemma default_registry_python:
  "resolve (default_registry P) ''python'' None =
     Inr \<lparr>entry_name = ''builtin_ast'',
            backend = \<lambda>path txt. andthen (analyse_python (ast_parse P) path txt) (\<lambda>m. Inr (metrics_dict m)),
            tool_digest_key = None, binary_resolver = None\<rparr>"
  by (simp add: default_registry_def register_def empty_registry_def resolve_def Let_def)

lemma default_registry_typescript:
  "resolve (default_registry P) ''typescript'' None =
     Inr \<lparr>entry_name = ''builtin_tree_sitter'',
         backend = \<lambda>path txt. Inr (metrics_dict (analyse_typescript (ts_parse P) txt)),
         tool_digest_key = None, binary_resolver = None\<rparr>"
  by (simp add: default_registry_def register_def empty_registry_def resolve_def Let_def)

lemma default_registry_resolves:
  assumes "lang \<in> {''python'', ''typescript''}"
  shows "\<exists>e. resolve (default_registry P) lang None = Inr e
     \<and> (\<forall>path txt d. backend e path txt = Inr d \<longrightarrow> (\<exists>m. d = metrics_dict m))"
proof -
  from assms consider "lang = ''python''" | "lang = ''typescript''" by blast
  then show ?thesis
  proof cases
    case 1
    show ?thesis unfolding 1 default_registry_python by (auto simp: andthen_eq_Inr)
  next
    case 2
    show ?thesis unfolding 2 default_registry_typescript by auto
  qed
qed

lemma source_suffix_language:
  "dict_get SOURCE_SUFFIXES x = Some lang \<Longrightarrow> lang \<in> {''python'', ''typescript''}"
  by (auto simp: SOURCE_SUFFIXES_def split: if_splits)

lemma iter_source_files_suffix:
  "p \<in> set (iter_source_files repo listing) \<Longrightarrow> \<exists>lang. dict_get SOURCE_SUFFIXES (path_suffix p) = Some lang"
  by (auto simp: iter_source_files_def)

lemma parse_file_total:
  assumes "p \<in> set (iter_source_files repo listing)" "read_text p = Inr t"
  shows "\<exists>f. parse_file (default_registry P) read_text repo p = Inr f
    \<and> rel f = relative_posix repo p \<and> text_of f = t
    \<and> (\<forall>path txt d. run_backend f path txt = Inr d \<longrightarrow> (\<exists>m. d = metrics_dict m))"
proof -
  obtain lang where l: "dict_get SOURCE_SUFFIXES (path_suffix p) = Some lang"
    using iter_source_files_suffix [OF assms(1)] by blast
  from default_registry_resolves [OF source_suffix_language [OF l], of P] obtain e where
    "resolve (default_registry P) lang None = Inr e"
    "\<forall>path txt d. backend e path txt = Inr d \<longrightarrow> (\<exists>m. d = metrics_dict m)" by blast
  with l assms(2) show ?thesis by (simp add: parse_file_def lookup_Some)
qed

lemma parse_repo_default:
  assumes "\<forall>p\<in>set (iter_source_files repo listing). \<exists>t. read_text p = Inr t"
  shows "\<exists>fs'. parse_repo L P fs None repo listing read_text None None
      = (Inr \<lparr>repo_path = repo, files = fs'\<rparr>, Some (default_registry P))
    \<and> map rel fs' = map (relative_posix repo) (iter_source_files repo listing)
    \<and> sorted (map rel fs')
    \<and> (\<forall>f\<in>set fs'. \<forall>fm. measure_file f = Inr fm \<longrightarrow> complete (fm_metrics fm))"
proof -
  let ?ps = "iter_source_files repo listing"
  let ?g = "\<lambda>p. case parse_file (default_registry P) read_text repo p of Inr f \<Rightarrow> f"
  have g: "parse_file (default_registry P) read_text repo p = Inr (?g p) \<and> rel (?g p) = relative_posix repo p
    \<and> (\<forall>path txt d. run_backend (?g p) path txt = Inr d \<longrightarrow> (\<exists>m. d = metrics_dict m))"
    if "p \<in> set ?ps" for p
  proof -
    from assms that obtain t where "read_text p = Inr t" by blast
    from parse_file_total [OF that, of read_text t P, OF this] show ?thesis by auto
  qed
  have "each (parse_file (default_registry P) read_text repo) ?ps = Inr (map ?g ?ps)"
    by (rule each_total) (use g in blast)
  then have "parse_repo L P fs None repo listing read_text None None
      = (Inr \<lparr>repo_path = repo, files = map ?g ?ps\<rparr>, Some (default_registry P))"
    by (simp add: parse_repo_def get_registry_def)
  moreover have rels: "map rel (map ?g ?ps) = map (relative_posix repo) ?ps"
    using g by simp
  moreover have "sorted (map (relative_posix repo) ?ps)"
    by (simp add: iter_source_files_def)
  moreover have "complete (fm_metrics fm)" if "f \<in> set (map ?g ?ps)" "measure_file f = Inr fm" for f fm
    using that g by (fastforce simp: measure_file_def result_simps complete_metrics_dict)
  ultimately show ?thesis by metis
qed

section \<open>Properties\<close>

text \<open>The analysis does not depend on the order in which the file system lists the repository:
  two listings of the same paths give the same metrics and the same raw payload.\<close>

theorem analysis_order_independent:
  assumes "listing_ok repo listing" "mset listing = mset listing'"
  shows "analyse_repo L P fs glob repo listing read_text reg ds = analyse_repo L P fs glob repo listing' read_text reg ds"
  by (simp add: analyse_repo_def parse_repo_perm [OF assms])

definition sample_parsers :: parsers where
  "sample_parsers = \<lparr>ast_parse = (\<lambda>t. Some (PyNode ''Module'' 0 None [])),
     ts_parse = (\<lambda>t. Node ''program'' True 0 0 0 0 [])\<rparr>"

definition sample_listing :: "listed list" where
  "sample_listing =
     [\<lparr>parts = [''r'', ''b.py''], is_file = True\<rparr>, \<lparr>parts = [''r'', ''a.ts''], is_file = True\<rparr>,
      \<lparr>parts = [''r'', ''.git'', ''x.py''], is_file = True\<rparr>]"

lemma analysis_order_independent_witness:
  "analyse_repo sample_libs sample_parsers (\<lambda>p. None) None [''r''] sample_listing (\<lambda>p. Inr ''x = 1'') None None
   = analyse_repo sample_libs sample_parsers (\<lambda>p. None) None [''r''] (rev sample_listing) (\<lambda>p. Inr ''x = 1'') None None"
  by (rule analysis_order_independent) (simp_all add: listing_ok_def sample_listing_def)

text \<open>With the default registry and readable files, parsing never fails (every accepted suffix has
  a backend): it yields exactly the source files outside the skipped directories, sorted by their
  relative path, and every backend returns all five metrics.\<close>

theorem default_parse_total:
  assumes "\<forall>p\<in>set (iter_source_files repo listing). \<exists>t. read_text p = Inr t"
  shows "\<exists>fs'. parse_repo L P fs None repo listing read_text None None
      = (Inr \<lparr>repo_path = repo, files = fs'\<rparr>, Some (default_registry P))
    \<and> map rel fs' = map (relative_posix repo) (iter_source_files repo listing)
    \<and> sorted (map rel fs')
    \<and> (\<forall>f\<in>set fs'. \<forall>fm. measure_file f = Inr fm \<longrightarrow> complete (fm_metrics fm))"
  by (rule parse_repo_default [OF assms])

lemma default_parse_total_witness:
  "\<exists>fs'. parse_repo sample_libs sample_parsers (\<lambda>p. None) None [''r''] sample_listing (\<lambda>p. Inr ''x = 1'') None None
      = (Inr \<lparr>repo_path = [''r''], files = fs'\<rparr>, Some (default_registry sample_parsers))
    \<and> map rel fs' = map (relative_posix [''r'']) (iter_source_files [''r''] sample_listing)
    \<and> sorted (map rel fs')
    \<and> (\<forall>f\<in>set fs'. \<forall>fm. measure_file f = Inr fm \<longrightarrow> complete (fm_metrics fm))"
  by (rule default_parse_total) simp

text \<open>\<open>measure_metrics\<close> reports for each metric the decimal text of the maximum over the
  files, 0 for none, and the same numbers in the payload's summary.\<close>

theorem measure_metrics_max:
  assumes "each measure_file (files ctx) = Inr fms" "\<forall>fm\<in>set fms. complete (fm_metrics fm)"
  shows "\<exists>summary. measure_metrics ctx
      = Inr (map (\<lambda>m. (m, string_of_int (metric_max fms m))) METRIC_NAMES,
             \<lparr>payload_files = fms, payload_summary = summary\<rparr>)
    \<and> (\<forall>m\<in>set METRIC_NAMES. dict_get summary m = Some (metric_max fms m))"
  by (rule measure_metrics_ok [OF assms])

definition sample_metrics_of :: "int \<Rightarrow> metrics_dict" where
  "sample_metrics_of n = map (\<lambda>m. (m, n)) METRIC_NAMES"

definition sample_source :: "int \<Rightarrow> SourceFile" where
  "sample_source n = \<lparr>rel = ''a.py'', absolute_path = [''r'', ''a.py''], language = ''python'',
     text_of = ''x'', run_backend = (\<lambda>p t. Inr (sample_metrics_of n))\<rparr>"

definition sample_measured :: "int \<Rightarrow> FileMetrics" where
  "sample_measured n = \<lparr>fm_path = ''a.py'', fm_language = ''python'',
     fm_metrics = dict_set ''file_length'' 1 (sample_metrics_of n)\<rparr>"

lemma sample_measure: "measure_file (sample_source n) = Inr (sample_measured n)"
  by (simp add: measure_file_def sample_source_def sample_measured_def splitlines_def line_break_def)

lemma sample_measured_complete: "complete (fm_metrics (sample_measured n))"
  "m \<in> set METRIC_NAMES \<Longrightarrow> file_value (sample_measured n) m \<in> {1, n}"
  by (auto simp: complete_def sample_measured_def sample_metrics_of_def METRIC_NAMES_def file_value_def)

lemma sample_measured_small: "n < 10 ^ 9 \<Longrightarrow> \<forall>m\<in>set METRIC_NAMES. file_value (sample_measured n) m < 10 ^ 9"
  using sample_measured_complete(2) [of _ n] by fastforce

lemma measure_metrics_max_witness:
  "\<exists>summary. measure_metrics \<lparr>repo_path = [''r''], files = [sample_source 3, sample_source 7]\<rparr>
      = Inr (map (\<lambda>m. (m, string_of_int (metric_max [sample_measured 3, sample_measured 7] m))) METRIC_NAMES,
             \<lparr>payload_files = [sample_measured 3, sample_measured 7], payload_summary = summary\<rparr>)
    \<and> (\<forall>m\<in>set METRIC_NAMES. dict_get summary m = Some (metric_max [sample_measured 3, sample_measured 7] m))"
  by (rule measure_metrics_max) (simp_all add: sample_measure sample_measured_complete)



text \<open>The skip test looks at every part of the absolute path: a repository that itself lies below
  a directory named, say, \<open>node_modules\<close> or \<open>cce-out\<close> is analysed as if it were empty, without an error.\<close>

theorem repo_below_skipped_dir_is_empty:
  assumes "listing_ok repo listing" "part \<in> set repo" "part \<in> set SKIP_DIRS"
  shows "\<exists>payload. fst (analyse_repo L P fs glob repo listing read_text reg None)
    = Inr (map (\<lambda>m. (m, ''0'')) METRIC_NAMES, payload)"
proof -
  have "iter_source_files repo listing = []" by (rule iter_source_files_skipped [OF assms])
  then have "fst (parse_repo L P fs glob repo listing read_text reg None) = Inr \<lparr>repo_path = repo, files = []\<rparr>"
    by (simp add: parse_repo_def split: prod.split)
  moreover have "string_of_int 0 = ''0''"
    by (simp add: string_of_int_def string_of_nat.simps digit_char_def)
  then have "\<exists>payload. measure_metrics \<lparr>repo_path = repo, files = []\<rparr>
      = Inr (map (\<lambda>m. (m, ''0'')) METRIC_NAMES, payload)"
    using measure_metrics_ok [of "\<lparr>repo_path = repo, files = []\<rparr>" "[]"] by (auto simp: metric_max_def)
  ultimately show ?thesis by (auto simp: analyse_repo_def split: prod.splits)
qed

lemma repo_below_skipped_dir_is_empty_witness:
  "\<exists>payload. fst (analyse_repo sample_libs sample_parsers (\<lambda>p. None) None [''w'', ''node_modules'', ''lib'']
      [\<lparr>parts = [''w'', ''node_modules'', ''lib'', ''a.py''], is_file = True\<rparr>] (\<lambda>p. Inr ''x'') None None)
    = Inr (map (\<lambda>m. (m, ''0'')) METRIC_NAMES, payload)"
  by (rule repo_below_skipped_dir_is_empty [where part = "''node_modules''"])
    (simp_all add: listing_ok_def SKIP_DIRS_def)

end
