(* ===== verification/GitOps.thy ===== *)
theory GitOps
  imports RepoAnalyzer
begin

text \<open>
  \<open>src/cce/git_ops.py\<close>: how a repository argument becomes a path to analyse and a commit.

  The \<open>git\<close> process is the argument \<open>git\<close>, a function of the invocations made so far and of
  the new one; every invocation is appended to the log that is passed along, so theorems can speak
  of what was run. A directory tree is a \<open>fs_entry\<close>, symbolic links carrying what
  \<open>Path.resolve\<close> gives for them. Messages about an entry of the tree leave out its path.
\<close>

section \<open>Running git\<close>

datatype git_outcome = Timeout | Exit (code: int) (out: string) (err: string)

record invocation =
  cwd :: string
  args :: "string list"
  timeout :: nat

type_synonym git_log = "invocation list"
type_synonym git = "git_log \<Rightarrow> invocation \<Rightarrow> git_outcome"

definition HARDENED_GIT_FLAGS :: "string list" where
  "HARDENED_GIT_FLAGS =
     [''-c'', ''protocol.file.allow=never'', ''-c'', ''core.symlinks=false'', ''-c'', ''submodule.recurse=false'']"

definition run_git :: "git \<Rightarrow> git_log \<Rightarrow> string \<Rightarrow> string list \<Rightarrow> nat \<Rightarrow> string result \<times> git_log" where
  "run_git git hist dir argv limit =
     (let call = \<lparr>cwd = dir, args = argv, timeout = limit\<rparr>
      in (case git hist call of
            Timeout \<Rightarrow> Inl (GitTimeoutError (''git '' @ join '' '' argv @ '' timed out after '' @ string_of_nat limit @ ''s''))
          | Exit c o' e \<Rightarrow>
              if c \<noteq> 0
              then Inl (GitSafetyError (if py_strip e = [] then ''git command failed'' else py_strip e))
              else Inr (py_strip o'), hist @ [call]))"

section \<open>The version gate\<close>

text \<open>\<open>str.isdigit\<close> also holds of the superscripts, which \<open>int\<close> refuses.\<close>

definition py_isdigit :: "char \<Rightarrow> bool" where
  "py_isdigit c \<longleftrightarrow> is_digit c \<or> (of_char c :: nat) \<in> {178, 179, 185}"

definition version_component :: "string \<Rightarrow> string \<Rightarrow> nat result" where
  "version_component txt component =
     (let digits = takeWhile py_isdigit component
      in if digits = [] then Inl (ValueError (''non-numeric version component in '' @ repr_string txt))
         else if list_all is_digit digits then Inr (nat_of_digits digits)
         else Inl (ValueError (''invalid literal for int() with base 10: '' @ repr_string digits)))"

definition parse_version :: "string \<Rightarrow> (nat \<times> nat \<times> nat) result" where
  "parse_version txt =
     (let parts = split_char (CHR ''.'') (py_strip txt)
      in if length parts < 2 then Inl (ValueError (''unparsable version: '' @ repr_string txt))
         else andthen (each (version_component txt) (take 3 parts)) (\<lambda>nums.
           let nums' = nums @ replicate (3 - length nums) 0
           in Inr (nums' ! 0, nums' ! 1, nums' ! 2)))"

definition version_less :: "nat \<times> nat \<times> nat \<Rightarrow> nat \<times> nat \<times> nat \<Rightarrow> bool" where
  "version_less v w =
     (case (v, w) of ((a, b, c), (a', b', c')) \<Rightarrow> a < a' \<or> (a = a' \<and> (b < b' \<or> (b = b' \<and> c < c'))))"

definition as_safety_error :: "'a result \<Rightarrow> 'a result" where
  "as_safety_error r =
     (case r of Inl (ValueError m) \<Rightarrow> Inl (GitSafetyError (''cannot parse git version: '' @ m)) | _ \<Rightarrow> r)"

definition assert_git_min_version :: "git \<Rightarrow> git_log \<Rightarrow> string \<Rightarrow> unit result \<times> git_log" where
  "assert_git_min_version git hist minimum =
     (case run_git git hist ''.'' [''--version''] 10 of (r, hist') \<Rightarrow>
        (andthen r (\<lambda>raw.
           if \<not> starts_with ''git version '' raw
           then Inl (GitSafetyError (''unexpected git --version output: '' @ repr_string raw))
           else andthen (as_safety_error (parse_version (drop 12 raw))) (\<lambda>actual.
                andthen (as_safety_error (parse_version minimum)) (\<lambda>required.
                  if version_less actual required
                  then Inl (GitSafetyError (''git '' @ minimum @ ''+ required; found '' @ drop 12 raw))
                  else Inr ()))), hist'))"

section \<open>Local checkouts\<close>

datatype fs_entry =
    RegularFile
  | Symlink (to_dir: bool) (target: "path result")
  | Directory "(string \<times> fs_entry) list"

fun dir_like :: "fs_entry \<Rightarrow> bool" where
  "dir_like RegularFile \<longleftrightarrow> False"
| "dir_like (Symlink d t) \<longleftrightarrow> d"
| "dir_like (Directory es) \<longleftrightarrow> True"

text \<open>\<open>dirnames\<close> of \<open>os.walk\<close> after \<open>.git\<close> was removed, and \<open>filenames\<close>.\<close>

definition dirnames :: "(string \<times> fs_entry) list \<Rightarrow> (string \<times> fs_entry) list" where
  "dirnames es = filter (\<lambda>(n, e). dir_like e \<and> n \<noteq> ''.git'') es"

definition filenames :: "(string \<times> fs_entry) list \<Rightarrow> (string \<times> fs_entry) list" where
  "filenames es = filter (\<lambda>(n, e). \<not> dir_like e) es"

definition check_link :: "path \<Rightarrow> string \<times> fs_entry \<Rightarrow> unit result" where
  "check_link base p =
     (case snd p of
        Symlink d (Inl e) \<Rightarrow> Inl (GitSafetyError ''cannot resolve symlink'')
      | Symlink d (Inr t) \<Rightarrow>
          if base \<noteq> t \<and> \<not> (length base < length t \<and> take (length base) t = base)
          then Inl (GitSafetyError ''symlink escapes repo root'') else Inr ()
      | _ \<Rightarrow> Inr ())"

lemma entry_size: "p \<in> set es \<Longrightarrow> size (snd p) < size (Directory es)"
  by (induction es) auto

function (sequential) check_tree :: "path \<Rightarrow> fs_entry \<Rightarrow> unit result" where
  "check_tree base (Directory es) =
     andthen (each_st (\<lambda>_ p. check_link base p) () (dirnames es @ filenames es)) (\<lambda>_.
     andthen (each (\<lambda>p. check_tree base (snd p)) (dirnames es)) (\<lambda>_. Inr ()))"
| "check_tree base e = Inr ()"
  by pat_completeness auto

termination
  by (relation "measure (\<lambda>(r, e). size e)") (auto simp: dirnames_def dest: entry_size)

definition gitmodules_populated :: "string \<Rightarrow> bool" where
  "gitmodules_populated content \<longleftrightarrow>
     list_ex (\<lambda>line. py_strip line \<noteq> [] \<and> \<not> starts_with ''#'' (py_strip line)) (splitlines content)"

text \<open>The local repository: its resolved root, what reading \<open>.gitmodules\<close> gives (\<open>None\<close> when it is
  not a file), and its tree.\<close>

record local_repo =
  root_resolved :: path
  gitmodules :: "string result option"
  tree :: fs_entry

definition assert_local_safety :: "local_repo \<Rightarrow> unit result" where
  "assert_local_safety r =
     andthen (case gitmodules r of
        None \<Rightarrow> Inr ()
      | Some (Inl e) \<Rightarrow> Inl (GitSafetyError ''cannot read .gitmodules'')
      | Some (Inr content) \<Rightarrow>
          if gitmodules_populated content
          then Inl (GitSafetyError ''populated .gitmodules rejected in local mode'') else Inr ())
       (\<lambda>_. check_tree (root_resolved r) (tree r))"

section \<open>Preparing\<close>

definition commit_ref_ok :: "string \<Rightarrow> bool" where
  "commit_ref_ok s \<longleftrightarrow>
     re_dollar (\<lambda>t. 7 \<le> length t \<and> length t \<le> 64 \<and> list_all is_hex_lower t) s"

definition SUPPORTED_REPO_SCHEMES :: "string list" where
  "SUPPORTED_REPO_SCHEMES = [''https://'', ''http://'', ''git://'', ''ssh://'']"

definition resolve_local_commit ::
    "git \<Rightarrow> git_log \<Rightarrow> string \<Rightarrow> string \<Rightarrow> string option \<Rightarrow> string result \<times> git_log" where
  "resolve_local_commit git hist repo_dir mode commit =
     (if mode = ''commit'' then
        (case commit of
           None \<Rightarrow> (Inl (GitSafetyError ''--commit is required in commit mode''), hist)
         | Some c \<Rightarrow>
             (case run_git git hist repo_dir
                     (HARDENED_GIT_FLAGS @ [''cat-file'', ''-e'', c @ ''^{commit}'']) 30 of
                (r, hist') \<Rightarrow> (andthen r (\<lambda>_. Inr c), hist')))
      else run_git git hist repo_dir (HARDENED_GIT_FLAGS @ [''rev-parse'', ''HEAD'']) 30)"

definition clone_args :: "string \<Rightarrow> string \<Rightarrow> string list" where
  "clone_args repo clone_path =
     [''clone'', ''--no-local'', ''--depth=1'', ''--filter=blob:none'', ''--no-checkout'', ''--'', repo, clone_path]"

text \<open>\<open>local\<close> is \<open>Path(repo)\<close> when it exists; \<open>tmpdir\<close> the fresh temporary directory.
  The result is what the context manager yields.\<close>

definition prepared_repo ::
    "git \<Rightarrow> git_log \<Rightarrow> local_repo option \<Rightarrow> string \<Rightarrow> string \<Rightarrow> string \<Rightarrow> string option \<Rightarrow> string option
     \<Rightarrow> (string \<times> string) result \<times> git_log" where
  "prepared_repo git hist0 local_dir tmpdir repo mode commit git_min_version =
     (case (case git_min_version of None \<Rightarrow> (Inr (), hist0)
            | Some v \<Rightarrow> assert_git_min_version git hist0 v) of
        (Inl e, hist) \<Rightarrow> (Inl e, hist)
      | (Inr _, hist) \<Rightarrow>
          if (case commit of Some c \<Rightarrow> \<not> commit_ref_ok c | None \<Rightarrow> False)
          then (Inl (GitSafetyError (''invalid commit ref: '' @ repr_string (the commit))), hist)
          else if \<not> (list_ex (\<lambda>s. starts_with s repo) SUPPORTED_REPO_SCHEMES \<or> local_dir \<noteq> None)
          then (Inl (GitSafetyError (''unsupported repo: '' @ repr_string repo)), hist)
          else (case local_dir of
            Some r \<Rightarrow>
              (case assert_local_safety r of
                 Inl e \<Rightarrow> (Inl e, hist)
               | Inr _ \<Rightarrow>
                   (case resolve_local_commit git hist repo mode commit of
                      (sha, hist') \<Rightarrow> (andthen sha (\<lambda>s. Inr (repo, s)), hist')))
          | None \<Rightarrow>
              (case commit of
                 None \<Rightarrow> (Inl (GitSafetyError ''--commit is required when --repo is a remote URL''), hist)
               | Some c \<Rightarrow>
                   (let clone_path = tmpdir @ ''/repo'' in
                    case run_git git hist tmpdir (clone_args repo clone_path) 300 of
                      (Inl e, hist1) \<Rightarrow> (Inl e, hist1)
                    | (Inr _, hist1) \<Rightarrow>
                        (case run_git git hist1 clone_path (HARDENED_GIT_FLAGS @ [''checkout'', c]) 60 of
                           (r, hist2) \<Rightarrow> (andthen r (\<lambda>_. Inr (clone_path, c)), hist2))))))"

section \<open>Which links are checked\<close>

text \<open>Everything the walk visits: it does not enter or look at an entry named \<open>.git\<close> that is a
  directory or a link to one.\<close>

function (sequential) visited :: "fs_entry \<Rightarrow> (string \<times> fs_entry) list" where
  "visited (Directory es) =
     dirnames es @ filenames es @ concat (map (\<lambda>p. visited (snd p)) (dirnames es))"
| "visited e = []"
  by pat_completeness auto
termination
  by (relation "measure size") (auto simp: dirnames_def dest: entry_size)

definition link_inside :: "path \<Rightarrow> string \<times> fs_entry \<Rightarrow> bool" where
  "link_inside base p \<longleftrightarrow>
     (case snd p of Symlink d t \<Rightarrow> (case t of Inr x \<Rightarrow> take (length base) x = base | Inl e \<Rightarrow> False)
      | _ \<Rightarrow> True)"

lemma check_link_iff: "check_link base p = Inr () \<longleftrightarrow> link_inside base p"
  by (auto simp: check_link_def link_inside_def split: fs_entry.splits sum.splits
      dest: arg_cong [where f = length])

lemma check_links_iff: "each_st (\<lambda>_ p. check_link base p) () ps = Inr () \<longleftrightarrow> list_all (link_inside base) ps"
  by (induction ps) (auto simp: result_simps check_link_iff)

lemma each_unit_iff: "(\<exists>us. each f ps = Inr us) \<longleftrightarrow> (\<forall>p\<in>set ps. \<exists>u. f p = Inr u)"
proof
  assume "\<forall>p\<in>set ps. \<exists>u. f p = Inr u"
  then have "each f ps = Inr (map (\<lambda>p. projr (f p)) ps)" by (intro each_total) force
  then show "\<exists>us. each f ps = Inr us" by blast
next
  assume "\<exists>us. each f ps = Inr us"
  then show "\<forall>p\<in>set ps. \<exists>u. f p = Inr u"
    by (metis each_nth in_set_conv_nth)
qed

lemma check_tree_iff: "check_tree base e = Inr () \<longleftrightarrow> list_all (link_inside base) (visited e)"
proof (induction base e rule: check_tree.induct)
  case (1 base es)
  have t: "check_tree base (Directory es) = Inr () \<longleftrightarrow>
      each_st (\<lambda>_ p. check_link base p) () (dirnames es @ filenames es) = Inr ()
      \<and> (\<exists>us. each (\<lambda>p. check_tree base (snd p)) (dirnames es) = Inr us)"
    by (simp add: result_simps)
  show ?case
  proof (cases "each_st (\<lambda>_ p. check_link base p) () (dirnames es @ filenames es) = Inr ()")
    case True
    have "(\<exists>us. each (\<lambda>p. check_tree base (snd p)) (dirnames es) = Inr us)
      \<longleftrightarrow> (\<forall>p\<in>set (dirnames es). list_all (link_inside base) (visited (snd p)))"
      using 1 [OF True] by (simp add: each_unit_iff)
    with t True show ?thesis unfolding check_links_iff by (auto simp: list_all_iff)
  next
    case False
    with t show ?thesis unfolding check_links_iff by auto
  qed
qed simp_all

lemma assert_local_safety_iff:
  "assert_local_safety r = Inr () \<longleftrightarrow>
   (case gitmodules r of None \<Rightarrow> True | Some (Inl e) \<Rightarrow> False | Some (Inr c) \<Rightarrow> \<not> gitmodules_populated c)
   \<and> list_all (link_inside (root_resolved r)) (visited (tree r))"
  by (auto simp: assert_local_safety_def result_simps check_tree_iff split: option.splits sum.splits)

section \<open>What is run\<close>

definition new_calls :: "git_log \<Rightarrow> git_log \<Rightarrow> git_log" where
  "new_calls hist hist' = drop (length hist) hist'"

text \<open>The shapes an invocation may have; user text stands only after \<open>--\<close> or is a checked commit.\<close>

definition call_ok :: "string \<Rightarrow> string \<Rightarrow> invocation \<Rightarrow> bool" where
  "call_ok repo tmpdir call \<longleftrightarrow> 0 < timeout call \<and> timeout call \<le> 300 \<and>
     (args call = [''--version'']
      \<or> args call = clone_args repo (tmpdir @ ''/repo'')
      \<or> args call = HARDENED_GIT_FLAGS @ [''rev-parse'', ''HEAD'']
      \<or> (\<exists>c. commit_ref_ok c \<and> args call = HARDENED_GIT_FLAGS @ [''cat-file'', ''-e'', c @ ''^{commit}''])
      \<or> (\<exists>c. commit_ref_ok c \<and> args call = HARDENED_GIT_FLAGS @ [''checkout'', c]))"

lemma run_git_log: "snd (run_git git hist dir argv limit) = hist @ [\<lparr>cwd = dir, args = argv, timeout = limit\<rparr>]"
  by (simp add: run_git_def Let_def)

lemma run_git_eq:
  "run_git git hist dir argv limit = (r, hist') \<Longrightarrow> hist' = hist @ [\<lparr>cwd = dir, args = argv, timeout = limit\<rparr>]"
  using run_git_log [of git hist dir argv limit] by simp

lemma version_gate_log:
  "assert_git_min_version git hist v = (r, hist') \<Longrightarrow>
   hist' = hist @ [\<lparr>cwd = ''.'', args = [''--version''], timeout = 10\<rparr>]"
  by (auto simp: assert_git_min_version_def dest: run_git_eq split: prod.splits)

lemma resolve_local_log:
  assumes "resolve_local_commit git hist dir mode commit = (r, hist')"
    and "\<And>c. commit = Some c \<Longrightarrow> commit_ref_ok c"
  shows "\<exists>new. hist' = hist @ new \<and> list_all (call_ok repo tmpdir) new"
  using assms
  by (auto simp: resolve_local_commit_def call_ok_def split: if_splits option.splits prod.splits dest!: run_git_eq)

definition version_calls :: "string option \<Rightarrow> git_log" where
  "version_calls v = (if v = None then [] else [\<lparr>cwd = ''.'', args = [''--version''], timeout = 10\<rparr>])"

lemma version_step_log:
  "(case v of None \<Rightarrow> (Inr (), hist) | Some v \<Rightarrow> assert_git_min_version git hist v) = (r, hist') \<Longrightarrow>
   hist' = hist @ version_calls v"
  by (auto simp: version_calls_def dest: version_gate_log split: option.splits)

lemma version_calls_ok: "list_all (call_ok repo tmpdir) (version_calls v)"
  by (simp add: version_calls_def call_ok_def)

lemma prepared_repo_log:
  assumes "prepared_repo git hist local_dir tmpdir repo mode commit v = (r, hist')"
  shows "\<exists>new. hist' = hist @ new \<and> list_all (call_ok repo tmpdir) new"
proof -
  obtain g h where gate: "(case v of None \<Rightarrow> (Inr (), hist) | Some v \<Rightarrow> assert_git_min_version git hist v) = (g, h)"
    by fastforce
  have h: "h = hist @ version_calls v" by (rule version_step_log [OF gate])
  have only_gate: "\<exists>new. h = hist @ new \<and> list_all (call_ok repo tmpdir) new"
    using h version_calls_ok by blast
  show ?thesis
  proof (cases "isl g \<or> (case commit of Some c \<Rightarrow> \<not> commit_ref_ok c | None \<Rightarrow> False)
      \<or> \<not> (list_ex (\<lambda>s. starts_with s repo) SUPPORTED_REPO_SCHEMES \<or> local_dir \<noteq> None)")
    case True
    then have "hist' = h"
      using assms unfolding prepared_repo_def gate by (auto split: sum.splits if_splits)
    with only_gate show ?thesis by simp
  next
    case False
    then obtain u where g: "g = Inr u" by (cases g) auto
    have ref: "commit_ref_ok c" if "commit = Some c" for c using False that by simp
    have r: "(r, hist') = (case local_dir of
            Some l \<Rightarrow>
              (case assert_local_safety l of
                 Inl e \<Rightarrow> (Inl e, h)
               | Inr _ \<Rightarrow>
                   (case resolve_local_commit git h repo mode commit of
                      (sha, log') \<Rightarrow> (andthen sha (\<lambda>s. Inr (repo, s)), log')))
          | None \<Rightarrow>
              (case commit of
                 None \<Rightarrow> (Inl (GitSafetyError ''--commit is required when --repo is a remote URL''), h)
               | Some c \<Rightarrow>
                   (case run_git git h tmpdir (clone_args repo (tmpdir @ ''/repo'')) 300 of
                      (Inl e, log1) \<Rightarrow> (Inl e, log1)
                    | (Inr _, log1) \<Rightarrow>
                        (case run_git git log1 (tmpdir @ ''/repo'') (HARDENED_GIT_FLAGS @ [''checkout'', c]) 60 of
                           (r, log2) \<Rightarrow> (andthen r (\<lambda>_. Inr (tmpdir @ ''/repo'', c)), log2)))))"
      using False assms g unfolding prepared_repo_def gate by (auto simp: Let_def split: option.splits)
    have "\<exists>new. hist' = h @ new \<and> list_all (call_ok repo tmpdir) new"
    proof (cases local_dir)
      case (Some l)
      with r ref show ?thesis
        by (auto split: sum.splits prod.splits dest!: resolve_local_log [where repo = repo and tmpdir = tmpdir])
    next
      case None
      show ?thesis
      proof (cases commit)
        case (Some c)
        with r None ref [OF Some] show ?thesis
          by (auto simp: call_ok_def split: sum.splits prod.splits dest!: run_git_eq)
      qed (use r None in simp)
    qed
    with h version_calls_ok [of repo tmpdir v] show ?thesis by auto
  qed
qed

section \<open>Version texts\<close>

definition dotted :: "nat \<Rightarrow> nat \<Rightarrow> nat \<Rightarrow> string" where
  "dotted a b c = string_of_nat a @ CHR ''.'' # string_of_nat b @ CHR ''.'' # string_of_nat c"

lemma version_component_nat: "version_component txt (string_of_nat n) = Inr n"
proof -
  have d: "\<forall>c\<in>set (string_of_nat n). is_digit c" by (rule string_of_nat_digits)
  then have tw: "takeWhile py_isdigit (string_of_nat n) = string_of_nat n"
    by (simp add: py_isdigit_def takeWhile_eq_all_conv)
  show ?thesis unfolding version_component_def tw using d by (simp add: Let_def list_all_iff)
qed

lemma digits_no_dot: "CHR ''.'' \<notin> set (string_of_nat n)"
proof -
  have "\<not> is_digit (CHR ''.'')" by (simp add: is_digit_def)
  with string_of_nat_digits [of n] show ?thesis by blast
qed

lemma digits_ends: "\<not> py_space (hd (string_of_nat n))" "\<not> py_space (last (string_of_nat n))"
  using string_of_nat_digits [of n] by (auto intro!: is_digit_not_space)

lemma dotted_strip: "py_strip (dotted a b c) = dotted a b c"
  by (rule py_strip_id) (simp_all add: dotted_def digits_ends)

lemma parse_version_dotted: "parse_version (dotted a b c) = Inr (a, b, c)"
proof -
  have "split_char (CHR ''.'') (dotted a b c) = [string_of_nat a, string_of_nat b, string_of_nat c]"
    by (simp add: dotted_def split_char_append split_char_no_sep digits_no_dot)
  then show ?thesis
    by (simp add: parse_version_def dotted_strip version_component_nat Let_def)
qed

lemma prefixed_version:
  "py_strip (''git version '' @ dotted a b c @ [newline]) = ''git version '' @ dotted a b c"
proof -
  let ?s = "''git version '' @ dotted a b c"
  have l: "last ?s = last (string_of_nat c)" by (simp add: dotted_def)
  have "py_strip (?s @ [newline]) = ?s"
    by (rule py_strip_snoc_space)
      (simp_all add: l digits_ends(2) py_space_def [of newline] py_space_def [of "CHR ''g''"] del: append.simps)
  then show ?thesis by simp
qed

section \<open>Properties\<close>

text \<open>The version gate accepts exactly when the dotted version git reports is not
  lexicographically below the required one, compared as numbers (so 2.50 is above 2.9), and it runs
  only \<open>git --version\<close>.\<close>

theorem version_gate_exact:
  assumes "git hist \<lparr>cwd = ''.'', args = [''--version''], timeout = 10\<rparr>
      = Exit 0 (''git version '' @ dotted a b c @ [newline]) e"
  shows "(fst (assert_git_min_version git hist (dotted a' b' c')) = Inr () \<longleftrightarrow> \<not> version_less (a, b, c) (a', b', c'))
    \<and> snd (assert_git_min_version git hist (dotted a' b' c'))
        = hist @ [\<lparr>cwd = ''.'', args = [''--version''], timeout = 10\<rparr>]"
proof -
  have "run_git git hist ''.'' [''--version''] 10
      = (Inr (''git version '' @ dotted a b c), hist @ [\<lparr>cwd = ''.'', args = [''--version''], timeout = 10\<rparr>])"
    unfolding run_git_def Let_def assms using prefixed_version [of a b c] by simp
  then show ?thesis
    by (simp add: assert_git_min_version_def starts_with_def parse_version_dotted as_safety_error_def)
qed

lemma version_gate_exact_witness:
  "(fst (assert_git_min_version (\<lambda>h i. Exit 0 (''git version '' @ dotted 2 50 1 @ [newline]) []) [] (dotted 2 9 0)) = Inr ()
     \<longleftrightarrow> \<not> version_less (2, 50, 1) (2, 9, 0))
    \<and> snd (assert_git_min_version (\<lambda>h i. Exit 0 (''git version '' @ dotted 2 50 1 @ [newline]) []) [] (dotted 2 9 0))
        = [] @ [\<lparr>cwd = ''.'', args = [''--version''], timeout = 10\<rparr>]"
  by (rule version_gate_exact) (rule refl)

text \<open>C10: Whatever the inputs and whatever git answers, every command \<open>prepared_repo\<close> runs has one
  of five fixed shapes and a time limit: the repository text appears only after \<open>--\<close>, and a commit
  only after it matched the lower-case hexadecimal pattern, so neither can act as an option.\<close>

theorem prepared_repo_runs_only_safe_commands:
  "list_all (call_ok repo tmpdir)
     (new_calls hist (snd (prepared_repo git hist local_dir tmpdir repo mode commit v)))"
proof -
  obtain r hist' where p: "prepared_repo git hist local_dir tmpdir repo mode commit v = (r, hist')" by fastforce
  from prepared_repo_log [OF p] obtain new where "hist' = hist @ new" "list_all (call_ok repo tmpdir) new"
    by blast
  with p show ?thesis by (simp add: new_calls_def)
qed

text \<open>C11: A local repository is accepted only if its \<open>.gitmodules\<close> is absent or empty of content, and
  every symbolic link the walk visits resolves to the root or below it; and then always.\<close>

theorem local_safety_exact:
  "assert_local_safety r = Inr () \<longleftrightarrow>
   (case gitmodules r of None \<Rightarrow> True | Some (Inl e) \<Rightarrow> False | Some (Inr c) \<Rightarrow> \<not> gitmodules_populated c)
   \<and> list_all (link_inside (root_resolved r)) (visited (tree r))"
  by (rule assert_local_safety_iff)

text \<open>A link named \<open>.git\<close> is pruned before it is looked at, so a checkout whose \<open>.git\<close> is a
  symbolic link to a directory outside the root passes.\<close>

theorem git_link_escapes:
  "assert_local_safety \<lparr>root_resolved = [''repo''], gitmodules = None,
     tree = Directory [(''a.py'', RegularFile), (''.git'', Symlink True (Inr [''elsewhere'', ''git'']))]\<rparr> = Inr ()
   \<and> \<not> link_inside [''repo''] (''.git'', Symlink True (Inr [''elsewhere'', ''git'']))"
  by (simp add: assert_local_safety_def dirnames_def filenames_def check_link_def link_inside_def)

text \<open>In commit mode on a local path, the commit is only checked to exist: the one command run is
  \<open>git cat-file -e\<close>, nothing is checked out, and the path handed to the analysis is the working tree,
  the same for every commit, while the record will name the commit asked for.\<close>

theorem commit_mode_analyses_working_tree:
  assumes "assert_local_safety r = Inr ()" "commit_ref_ok c"
    and "git hist \<lparr>cwd = repo, args = HARDENED_GIT_FLAGS @ [''cat-file'', ''-e'', c @ ''^{commit}''], timeout = 30\<rparr>
      = Exit 0 out' err'"
  shows "prepared_repo git hist (Some r) tmpdir repo ''commit'' (Some c) None
    = (Inr (repo, c), hist @ [\<lparr>cwd = repo, args = HARDENED_GIT_FLAGS @ [''cat-file'', ''-e'', c @ ''^{commit}''], timeout = 30\<rparr>])"
  using assms by (simp add: prepared_repo_def resolve_local_commit_def run_git_def Let_def)

lemma commit_mode_analyses_working_tree_witness:
  "prepared_repo (\<lambda>h i. Exit 0 [] []) []
      (Some \<lparr>root_resolved = [''repo''], gitmodules = None, tree = Directory []\<rparr>) ''/tmp'' ''/repo'' ''commit''
      (Some (replicate 40 (CHR ''a''))) None
    = (Inr (''/repo'', replicate 40 (CHR ''a'')), [] @ [\<lparr>cwd = ''/repo'', args = HARDENED_GIT_FLAGS @
        [''cat-file'', ''-e'', replicate 40 (CHR ''a'') @ ''^{commit}''], timeout = 30\<rparr>])"
  by (rule commit_mode_analyses_working_tree)
    (simp_all add: assert_local_safety_def dirnames_def filenames_def commit_ref_ok_def re_dollar_def
      list_all_iff is_hex_lower_def)

text \<open>A commit reference of 7 to 64 digits is accepted here, but the record can only be built for
  exactly 40: any other length is cloned, checked out and analysed before \<open>build_score_record\<close> refuses it.\<close>

theorem short_commit_always_refused_late:
  assumes "hex_run n c" "7 \<le> n" "n \<le> 64" "n \<noteq> 40" "mode \<in> {''repo'', ''commit''}"
  shows "commit_ref_ok c
    \<and> build_score_record L spec raws repo mode c ts
        = Inl (ScoringError ''commit_sha must be a 40-character lowercase hex SHA'')"
proof -
  have len: "length c = n" and hex: "list_all is_hex_lower c" using assms(1) by (auto simp: hex_run_def)
  have "\<not> is_hex_lower newline" by (simp add: is_hex_lower_def)
  with hex have "c = [] \<or> last c \<noteq> newline" by (metis last_in_set list_all_iff)
  with len assms(4) have "\<not> commit_sha_ok c"
    by (auto simp: commit_sha_ok_def re_dollar_def hex_run_def)
  moreover have "commit_ref_ok c"
    using len hex assms(2,3) by (simp add: commit_ref_ok_def re_dollar_def)
  ultimately show ?thesis using assms(5) by (auto simp: build_score_record_def)
qed

lemma short_commit_always_refused_late_witness:
  "commit_ref_ok ''abcdef1''
    \<and> build_score_record sample_libs shipped_spec (sample_metrics 3) ''/r'' ''commit'' ''abcdef1'' ''t''
        = Inl (ScoringError ''commit_sha must be a 40-character lowercase hex SHA'')"
  by (rule short_commit_always_refused_late [where n = 7]) (simp_all add: hex_run_def is_hex_lower_def)

text \<open>The commit pattern ends in \<open>$\<close>, which also matches before a final newline: forty digits
  followed by a newline are a valid \<open>commit_sha\<close> for the record.\<close>

theorem commit_sha_pattern:
  "commit_sha_ok s \<longleftrightarrow> hex_run 40 s \<or> (\<exists>t. s = t @ [newline] \<and> hex_run 40 t)"
  by (simp add: commit_sha_ok_def re_dollar_iff)

end
