(* ===== verification/Outputs.thy ===== *)
theory Outputs
  imports GitOps
begin

text \<open>
  \<open>src/cce/cli.py\<close>, the file side: the atomic writes, \<open>_write_outputs\<close>, and the two forms of
  \<open>cce verify\<close>.

  A store maps paths to contents; \<open>faults\<close> tells which \<open>write\<close> and \<open>os.replace\<close> calls
  fail, and what a failing write leaves behind. Every operation returns the store it leaves.
\<close>

section \<open>Exit codes\<close>

definition EXIT_SPEC :: int where "EXIT_SPEC = 10"
definition EXIT_DIGEST :: int where "EXIT_DIGEST = 11"
definition EXIT_GIT :: int where "EXIT_GIT = 12"
definition EXIT_ANALYZER :: int where "EXIT_ANALYZER = 13"
definition EXIT_SCORING :: int where "EXIT_SCORING = 14"
definition EXIT_WRITE :: int where "EXIT_WRITE = 15"

section \<open>Atomic writes\<close>

type_synonym store = "string \<rightharpoonup> string"

record faults =
  write_fails :: "string \<Rightarrow> string option option"
  replace_fails :: "string \<Rightarrow> bool"

text \<open>\<open>name.with_suffix(name.suffix + ".tmp")\<close> of the last path part.\<close>

definition tmp_name :: "string \<Rightarrow> string" where
  "tmp_name name =
     (let suffix = path_suffix [name] in take (length name - length suffix) name @ suffix @ ''.tmp'')"

definition in_dir :: "string \<Rightarrow> string \<Rightarrow> string" where
  "in_dir dir name = dir @ ''/'' @ name"

text \<open>
  \<open>write_fails p = Some left\<close>: writing \<open>p\<close> raises \<open>OSError\<close> and leaves \<open>left\<close> there.
\<close>

definition atomic_write :: "faults \<Rightarrow> string \<Rightarrow> string \<Rightarrow> string \<Rightarrow> store \<Rightarrow> unit result \<times> store" where
  "atomic_write F dir name data st =
     (let tmp = in_dir dir (tmp_name name); path = in_dir dir name
      in case write_fails F tmp of
           Some left \<Rightarrow> (Inl (OSError ''write''), (st(tmp := left))(tmp := None))
         | None \<Rightarrow>
             (let st' = st(tmp \<mapsto> data)
              in if replace_fails F tmp then (Inl (OSError ''replace''), st'(tmp := None))
                 else (Inr (), (st'(path \<mapsto> data))(tmp := None))))"

definition then_st :: "unit result \<times> 's \<Rightarrow> ('s \<Rightarrow> unit result \<times> 's) \<Rightarrow> unit result \<times> 's" where
  "then_st m f = (case m of (Inl e, s) \<Rightarrow> (Inl e, s) | (Inr _, s) \<Rightarrow> f s)"

definition write_outputs ::
    "libs \<Rightarrow> faults \<Rightarrow> string \<Rightarrow> mapping_value \<Rightarrow> pyval \<Rightarrow> store \<Rightarrow> unit result \<times> store" where
  "write_outputs L F out_dir record raw_payload st =
     (case andthen (get_item record ''record_hash'') (\<lambda>record_hash.
           andthen (canonical_json_bytes L (VDict record)) (\<lambda>record_bytes.
           andthen (canonical_json_bytes L raw_payload) (\<lambda>raw_bytes.
             Inr (py_str record_hash, record_bytes, raw_bytes)))) of
        Inl e \<Rightarrow> (Inl e, st)
      | Inr (h, record_bytes, raw_bytes) \<Rightarrow>
          (let json_digest = sha256_hex L record_bytes;
               sidecar_text = json_digest @ ''  '' @ h @ ''.json'' @ [newline]
           in then_st (atomic_write F out_dir (h @ ''.json'') record_bytes st) (\<lambda>st.
              then_st (atomic_write F out_dir (h @ ''.raw.json'') raw_bytes st) (\<lambda>st.
                atomic_write F out_dir (h @ ''.sha256'') sidecar_text st))))"

section \<open>Verification\<close>

text \<open>\<open>valid\<close> of a parsed document, as both commands compute it; a raise escapes.\<close>

definition verify_document :: "libs \<Rightarrow> pyval \<Rightarrow> int result" where
  "verify_document L v =
     (case v of
        VDict record \<Rightarrow>
          andthen (verify_record_hash L record) (\<lambda>(valid, counted).
            Inr (if valid then 0 else EXIT_SCORING))
      | _ \<Rightarrow> Inr EXIT_SCORING)"

text \<open>The file name of a path without its last suffix, \<open>PurePath.stem\<close>.\<close>

definition path_stem :: "string \<Rightarrow> string" where
  "path_stem name = take (length name - length (path_suffix [name])) name"

definition lower :: "string \<Rightarrow> string" where
  "lower s = map to_lower_char s"

definition lstrip_star :: "string \<Rightarrow> string" where
  "lstrip_star s = dropWhile (\<lambda>c. c = CHR ''*'') s"

definition parse_sidecar :: "string \<Rightarrow> string \<Rightarrow> (string \<times> string) option" where
  "parse_sidecar name txt =
     (let stripped = py_strip txt
      in if stripped = [] then None
         else if starts_with ''sha256:'' stripped
         then Some (py_strip (drop 7 stripped), path_stem name @ ''.json'')
         else (case split_ws1 stripped of
                 [hex, fname] \<Rightarrow> Some (hex, lstrip_star fname)
               | _ \<Rightarrow> None))"

definition verify_sidecar :: "libs \<Rightarrow> store \<Rightarrow> string \<Rightarrow> string \<Rightarrow> int result" where
  "verify_sidecar L st dir name =
     (case st (in_dir dir name) of
        None \<Rightarrow> Inr EXIT_SCORING
      | Some txt \<Rightarrow>
          (case parse_sidecar name txt of
             None \<Rightarrow> Inr EXIT_SCORING
           | Some (expected_hex, target_filename) \<Rightarrow>
               if length expected_hex \<noteq> 64 \<or> \<not> list_all is_hex_lower (lower expected_hex)
               then Inr EXIT_SCORING
               else (case st (in_dir dir target_filename) of
                       None \<Rightarrow> Inr EXIT_SCORING
                     | Some record_bytes \<Rightarrow>
                         if sha256_hex L record_bytes \<noteq> lower expected_hex then Inr EXIT_SCORING
                         else (case json_loads L record_bytes of
                                 None \<Rightarrow> Inr EXIT_SCORING
                               | Some v \<Rightarrow> verify_document L v))))"

text \<open>The arguments are \<open>--sidecar\<close> split into directory and name, and \<open>--record\<close>; an empty
  text is falsy.\<close>

definition verify_command :: "libs \<Rightarrow> store \<Rightarrow> (string \<times> string) option \<Rightarrow> string option \<Rightarrow> int result" where
  "verify_command L st sidecar record_arg =
     (case sidecar of
        Some (dir, name) \<Rightarrow> verify_sidecar L st dir name
      | None \<Rightarrow>
          (case record_arg of
             None \<Rightarrow> Inr EXIT_SCORING
           | Some p \<Rightarrow>
               if p = [] then Inr EXIT_SCORING
               else (case st p of
                       None \<Rightarrow> Inr EXIT_SCORING
                     | Some bytes \<Rightarrow>
                         (case json_loads L bytes of
                            None \<Rightarrow> Inr EXIT_SCORING
                          | Some v \<Rightarrow> verify_document L v))))"

section \<open>Laws of the atomic write\<close>

lemma tmp_name_eq: "tmp_name name = name @ ''.tmp''"
proof -
  have "take (length name - length (path_suffix [name])) name @ path_suffix [name] = name"
  proof (cases "path_suffix [name] = []")
    case False
    let ?tail = "takeWhile (\<lambda>c. c \<noteq> CHR ''.'') (rev name)"
    from False have dot: "CHR ''.'' \<in> set name" and suf: "path_suffix [name] = CHR ''.'' # rev ?tail"
      by (auto simp: path_suffix_def Let_def split: if_splits)
    have rest: "dropWhile (\<lambda>c. c \<noteq> CHR ''.'') (rev name) \<noteq> []"
      using dot by (simp add: dropWhile_eq_Nil_conv)
    then have "hd (dropWhile (\<lambda>c. c \<noteq> CHR ''.'') (rev name)) = CHR ''.''"
      using hd_dropWhile by blast
    with rest obtain r where r: "dropWhile (\<lambda>c. c \<noteq> CHR ''.'') (rev name) = CHR ''.'' # r"
      by (metis list.exhaust_sel)
    have "rev name = ?tail @ CHR ''.'' # r" using r by (metis takeWhile_dropWhile_id)
    then have "name = rev r @ CHR ''.'' # rev ?tail"
      by (metis append.assoc append_Cons append_Nil rev.simps(2) rev_append rev_rev_ident)
    with suf show ?thesis by (metis append_eq_conv_conj diff_add_inverse2 length_append)
  qed simp
  then show ?thesis unfolding tmp_name_def Let_def by (metis append.assoc)
qed

lemma atomic_write_cases:
  "\<exists>r st'. atomic_write F dir name data st = (r, st')
    \<and> st' (in_dir dir (tmp_name name)) = None
    \<and> (\<forall>p. p \<noteq> in_dir dir name \<longrightarrow> p \<noteq> in_dir dir (tmp_name name) \<longrightarrow> st' p = st p)
    \<and> (r = Inr () \<and> st' (in_dir dir name) = Some data
       \<or> (\<exists>m. r = Inl (OSError m)) \<and> st' (in_dir dir name) = st (in_dir dir name))"
proof -
  have "in_dir dir name \<noteq> in_dir dir (tmp_name name)" by (simp add: in_dir_def tmp_name_eq)
  then show ?thesis by (auto simp: atomic_write_def Let_def split: option.splits)
qed

section \<open>What the three writes leave\<close>

definition output_names :: "string \<Rightarrow> string list" where
  "output_names h = [h @ ''.json'', h @ ''.raw.json'', h @ ''.sha256'']"

definition output_paths :: "string \<Rightarrow> string \<Rightarrow> string set" where
  "output_paths dir h = (\<lambda>n. in_dir dir n) ` set (output_names h)"

definition temp_paths :: "string \<Rightarrow> string \<Rightarrow> string set" where
  "temp_paths dir h = (\<lambda>n. in_dir dir (n @ ''.tmp'')) ` set (output_names h)"

lemma in_dir_inj [simp]: "in_dir d a = in_dir d b \<longleftrightarrow> a = b"
  by (simp add: in_dir_def)

text \<open>The bytes \<open>_write_outputs\<close> prepares: the hash in the names, the record, the payload, the sidecar.\<close>

definition prepared_bytes :: "libs \<Rightarrow> mapping_value \<Rightarrow> pyval \<Rightarrow> (string \<times> string \<times> string \<times> string) result" where
  "prepared_bytes L record raw_payload =
     andthen (get_item record ''record_hash'') (\<lambda>rh.
     andthen (canonical_json_bytes L (VDict record)) (\<lambda>b.
     andthen (canonical_json_bytes L raw_payload) (\<lambda>rb.
       Inr (py_str rh, b, rb, sha256_hex L b @ ''  '' @ py_str rh @ ''.json'' @ [newline]))))"

lemma write_outputs_prepared:
  "write_outputs L F dir record payload st =
     (case prepared_bytes L record payload of
        Inl e \<Rightarrow> (Inl e, st)
      | Inr (h, b, rb, txt) \<Rightarrow>
          then_st (atomic_write F dir (h @ ''.json'') b st) (\<lambda>st.
          then_st (atomic_write F dir (h @ ''.raw.json'') rb st) (\<lambda>st.
            atomic_write F dir (h @ ''.sha256'') txt st)))"
  by (auto simp: write_outputs_def prepared_bytes_def andthen_def Let_def split: sum.splits)

lemma write_outputs_cases:
  assumes p: "prepared_bytes L record payload = Inr (h, b, rb, txt)"
    and w: "write_outputs L F dir record payload st = (r, st')"
    and clean: "\<forall>t\<in>temp_paths dir h. st t = None"
  shows "(\<forall>t\<in>temp_paths dir h. st' t = None)
    \<and> (\<forall>q. q \<notin> output_paths dir h \<longrightarrow> st' q = st q)
    \<and> (r = Inr () \<longrightarrow> st' (in_dir dir (h @ ''.json'')) = Some b \<and> st' (in_dir dir (h @ ''.raw.json'')) = Some rb
         \<and> st' (in_dir dir (h @ ''.sha256'')) = Some txt)
    \<and> (r \<noteq> Inr () \<longrightarrow> (\<exists>m. r = Inl (OSError m)) \<and> st' (in_dir dir (h @ ''.sha256'')) = st (in_dir dir (h @ ''.sha256''))
         \<and> st' (in_dir dir (h @ ''.json'')) \<in> {st (in_dir dir (h @ ''.json'')), Some b}
         \<and> st' (in_dir dir (h @ ''.raw.json'')) \<in> {st (in_dir dir (h @ ''.raw.json'')), Some rb})"
proof -
  let ?a = "in_dir dir (h @ ''.json'')" and ?b = "in_dir dir (h @ ''.raw.json'')" and ?c = "in_dir dir (h @ ''.sha256'')"
  let ?ta = "in_dir dir (h @ ''.json.tmp'')" and ?tb = "in_dir dir (h @ ''.raw.json.tmp'')"
    and ?tc = "in_dir dir (h @ ''.sha256.tmp'')"
  have w': "then_st (atomic_write F dir (h @ ''.json'') b st) (\<lambda>st.
          then_st (atomic_write F dir (h @ ''.raw.json'') rb st) (\<lambda>st.
            atomic_write F dir (h @ ''.sha256'') txt st)) = (r, st')"
    using w by (simp add: write_outputs_prepared p)
  have tmp: "st ?ta = None" "st ?tb = None" "st ?tc = None"
    using clean by (auto simp: temp_paths_def output_names_def)
  have names: "\<And>q. q \<notin> output_paths dir h \<longleftrightarrow> q \<noteq> ?a \<and> q \<noteq> ?b \<and> q \<noteq> ?c"
    "\<And>P. (\<forall>t\<in>temp_paths dir h. P t) \<longleftrightarrow> P ?ta \<and> P ?tb \<and> P ?tc"
    by (auto simp: output_paths_def temp_paths_def output_names_def)
  obtain r1 s1 where 1: "atomic_write F dir (h @ ''.json'') b st = (r1, s1)" "s1 ?ta = None"
    "\<And>q. q \<noteq> ?a \<Longrightarrow> q \<noteq> ?ta \<Longrightarrow> s1 q = st q"
    "r1 = Inr () \<and> s1 ?a = Some b \<or> (\<exists>m. r1 = Inl (OSError m)) \<and> s1 ?a = st ?a"
    using atomic_write_cases [of F dir "h @ ''.json''" b st] unfolding tmp_name_eq by auto
  have f1: "\<And>q. q \<noteq> ?a \<Longrightarrow> s1 q = st q" using 1(2,3) tmp(1) by metis
  have t1: "s1 ?ta = None" "s1 ?tb = None" "s1 ?tc = None" using f1 tmp by simp_all
  show ?thesis
  proof (cases "r1 = Inr ()")
    case False
    with 1 obtain m where m: "r1 = Inl (OSError m)" "s1 ?a = st ?a" by blast
    with w' 1(1) have "r = Inl (OSError m)" "st' = s1" by (simp_all add: then_st_def)
    with f1 m t1 show ?thesis unfolding names by simp
  next
    case True
    obtain r2 s2 where 2: "atomic_write F dir (h @ ''.raw.json'') rb s1 = (r2, s2)" "s2 ?tb = None"
      "\<And>q. q \<noteq> ?b \<Longrightarrow> q \<noteq> ?tb \<Longrightarrow> s2 q = s1 q"
      "r2 = Inr () \<and> s2 ?b = Some rb \<or> (\<exists>m. r2 = Inl (OSError m)) \<and> s2 ?b = s1 ?b"
      using atomic_write_cases [of F dir "h @ ''.raw.json''" rb s1] unfolding tmp_name_eq by auto
    have f2: "\<And>q. q \<noteq> ?b \<Longrightarrow> s2 q = s1 q" using 2(2,3) t1(2) by metis
    have t2: "s2 ?ta = None" "s2 ?tb = None" "s2 ?tc = None" using f2 t1 by simp_all
    have a: "s1 ?a = Some b" using 1(4) True by auto
    show ?thesis
    proof (cases "r2 = Inr ()")
      case False
      with 2 obtain m where m: "r2 = Inl (OSError m)" "s2 ?b = s1 ?b" by blast
      with w' 1(1) 2(1) True have "r = Inl (OSError m)" "st' = s2" by (simp_all add: then_st_def)
      with f1 f2 a m t2 show ?thesis unfolding names by simp
    next
      case True2: True
      obtain r3 s3 where 3: "atomic_write F dir (h @ ''.sha256'') txt s2 = (r3, s3)" "s3 ?tc = None"
        "\<And>q. q \<noteq> ?c \<Longrightarrow> q \<noteq> ?tc \<Longrightarrow> s3 q = s2 q"
        "r3 = Inr () \<and> s3 ?c = Some txt \<or> (\<exists>m. r3 = Inl (OSError m)) \<and> s3 ?c = s2 ?c"
        using atomic_write_cases [of F dir "h @ ''.sha256''" "txt" s2] unfolding tmp_name_eq by auto
      have f3: "\<And>q. q \<noteq> ?c \<Longrightarrow> s3 q = s2 q" using 3(2,3) t2(3) by metis
      have r: "r = r3" "st' = s3" using w' 1(1) 2(1) 3(1) True True2 by (simp_all add: then_st_def)
      have b: "s2 ?b = Some rb" using 2(4) True2 by auto
      have new: "s3 ?a = Some b" "s3 ?b = Some rb" using f2 f3 a b by simp_all
      have unchanged: "s2 ?c = st ?c" using f1 f2 by simp
      have rest: "s3 q = st q" if "q \<noteq> ?a" "q \<noteq> ?b" "q \<noteq> ?c" for q using f1 f2 f3 that by simp
      have tmps: "s3 ?ta = None" "s3 ?tb = None" "s3 ?tc = None" using f3 t2 by simp_all
      from 3(4) show ?thesis
        unfolding names r using new unchanged rest tmps by (elim disjE conjE exE) simp_all
    qed
  qed
qed

section \<open>Reading the sidecar back\<close>

lemma hex_no_space: "list_all is_hex_lower s \<Longrightarrow> \<forall>c\<in>set s. \<not> py_space c"
  by (auto simp: list_all_iff is_hex_lower_not_space)

lemma parse_written_sidecar:
  assumes hex: "hex_run 64 x" and h: "h \<noteq> []" "\<not> py_space (hd h)" "hd h \<noteq> CHR ''*''"
  shows "parse_sidecar name (x @ ''  '' @ h @ ''.json'' @ [newline]) = Some (x, h @ ''.json'')"
proof -
  let ?s = "x @ ''  '' @ h @ ''.json''"
  have x: "x \<noteq> []" "\<forall>c\<in>set x. \<not> py_space c" "is_hex_lower (hd x)"
    using hex hex_no_space [of x] hd_in_set [of x] by (fastforce simp: hex_run_def list_all_iff)+
  have hd: "hd ?s = hd x" using x(1) by simp
  have sp: "py_space (CHR '' '')" "\<not> py_space (CHR ''n'')" "py_space newline" by (simp_all add: py_space_def)
  have "py_strip (?s @ [newline]) = ?s"
    by (rule py_strip_snoc_space) (use x hd sp in simp_all)
  then have strip: "py_strip (x @ ''  '' @ h @ ''.json'' @ [newline]) = ?s" by simp
  have "\<not> is_hex_lower (CHR ''s'')" by (simp add: is_hex_lower_def)
  then have pre: "\<not> starts_with ''sha256:'' ?s"
    using x by (cases x) (auto simp: starts_with_def)
  have l: "py_lstrip ?s = ?s"
    unfolding py_lstrip_def using x hd by (intro dropWhile_hd) auto
  have tw: "takeWhile (\<lambda>c. \<not> py_space c) ?s = x" "dropWhile (\<lambda>c. \<not> py_space c) ?s = ''  '' @ h @ ''.json''"
    using x(2) sp(1) by (simp_all add: takeWhile_append2 dropWhile_append2)
  have r: "py_lstrip (''  '' @ h @ ''.json'') = h @ ''.json''"
    using sp(1) h(1,2) by (simp add: py_lstrip_def dropWhile_hd)
  have "split_ws1 ?s = [x, h @ ''.json'']"
    unfolding split_ws1_def Let_def l tw r using x(1) h(1) by simp
  moreover have "lstrip_star (h @ ''.json'') = h @ ''.json''"
    using h by (simp add: lstrip_star_def dropWhile_hd)
  ultimately show ?thesis unfolding parse_sidecar_def strip Let_def using x(1) pre by simp
qed

lemma lower_hex: "list_all is_hex_lower s \<Longrightarrow> lower s = s"
proof -
  have "to_lower_char c = c" if "is_hex_lower c" for c
    using that by (auto simp: is_hex_lower_def to_lower_char_def Let_def)
  then show "list_all is_hex_lower s \<Longrightarrow> lower s = s" by (induction s) (auto simp: lower_def)
qed

text \<open>Decoding the canonical bytes of a record gives a record with the same strings, whose members
  encode to the same bytes (the order of keys may differ).\<close>

definition json_roundtrip :: "libs \<Rightarrow> mapping_value \<Rightarrow> mapping_value \<Rightarrow> bool" where
  "json_roundtrip L r d \<longleftrightarrow>
     (\<exists>b. canonical_json_bytes L (VDict r) = Inr b \<and> json_loads L b = Some (VDict d))
   \<and> (\<forall>k s. get_key d k = VStr s \<longleftrightarrow> get_key r k = VStr s)
   \<and> (\<forall>k. andthen (get_item d k) (canonical_json_bytes L) = andthen (get_item r k) (canonical_json_bytes L))"

lemma andthen_item: "andthen (get_item d k) (\<lambda>m. andthen (canonical_json_bytes L m) f)
    = andthen (andthen (get_item d k) (canonical_json_bytes L)) f"
  by (simp add: andthen_assoc)

lemma require_string_no: "\<forall>s. get_key d k \<noteq> VStr s \<Longrightarrow>
    require_string d k = Inl (ScoringError (''record.'' @ k @ '' must be a string''))"
  by (cases "get_key d k") (auto simp: require_string_def)

lemma hash_preimage_roundtrip:
  assumes "json_roundtrip L r d"
  shows "hash_preimage L d = hash_preimage L r"
proof -
  have s: "require_string d k = require_string r k" for k
  proof (cases "\<exists>s. get_key r k = VStr s")
    case True
    then obtain s where "get_key r k = VStr s" by blast
    moreover from this have "get_key d k = VStr s" using assms by (simp add: json_roundtrip_def)
    ultimately show ?thesis by (simp add: require_string_def)
  next
    case False
    then have "\<forall>s. get_key d k \<noteq> VStr s" using assms by (auto simp: json_roundtrip_def)
    with False show ?thesis by (simp add: require_string_no)
  qed
  have i: "andthen (get_item d k) (\<lambda>m. andthen (canonical_json_bytes L m) f)
    = andthen (get_item r k) (\<lambda>m. andthen (canonical_json_bytes L m) f)" for k and f :: "string \<Rightarrow> string result"
    unfolding andthen_item using assms by (simp add: json_roundtrip_def)
  show ?thesis unfolding hash_preimage_def s i ..
qed

lemma verify_roundtrip:
  assumes "json_roundtrip L r d" "verify_record_hash L r = Inr (True, [])"
  shows "verify_record_hash L d = Inr (True, [])"
  using assms hash_preimage_roundtrip [OF assms(1)]
  by (auto simp: verify_eq_True compute_record_hash_def json_roundtrip_def)

lemma written_outputs_verify:
  assumes w: "write_outputs L F dir r payload st = (Inr (), st')"
    and v: "verify_record_hash L r = Inr (True, [])" and rt: "json_roundtrip L r d"
    and hex: "\<forall>b. hex_run 64 (sha256_hex L b)" and clean: "\<forall>t\<in>temp_paths dir h. st t = None"
    and h: "get_key r ''record_hash'' = VStr h" "h \<noteq> []" "\<not> py_space (hd h)" "hd h \<noteq> CHR ''*''"
  shows "verify_sidecar L st' dir (h @ ''.sha256'') = Inr 0"
proof -
  obtain x b rb side where p: "prepared_bytes L r payload = Inr (x, b, rb, side)"
    using w by (cases "prepared_bytes L r payload") (auto simp: write_outputs_prepared)
  have gi: "get_item r ''record_hash'' = Inr (VStr h)"
    using h(1) by (auto simp: get_item_def get_key_def lookup_Some split: option.splits)
  have x: "x = h" "canonical_json_bytes L (VDict r) = Inr b"
    "side = sha256_hex L b @ ''  '' @ h @ ''.json'' @ [newline]"
    using p gi by (auto simp: prepared_bytes_def result_simps)
  have st': "st' (in_dir dir (h @ ''.json'')) = Some b" "st' (in_dir dir (h @ ''.sha256'')) = Some side"
    using write_outputs_cases [OF p w] clean x(1) by auto
  have hx: "hex_run 64 (sha256_hex L b)" using hex by blast
  have ps: "parse_sidecar (h @ ''.sha256'') side = Some (sha256_hex L b, h @ ''.json'')"
    unfolding x(3) by (rule parse_written_sidecar [OF hx h(2-4)])
  have lw: "lower (sha256_hex L b) = sha256_hex L b" "length (sha256_hex L b) = 64"
    "list_all is_hex_lower (sha256_hex L b)"
    using hx lower_hex by (auto simp: hex_run_def)
  have "json_loads L b = Some (VDict d)" using rt x(2) by (auto simp: json_roundtrip_def)
  then show ?thesis
    using st' ps lw verify_roundtrip [OF rt v]
    by (simp add: verify_sidecar_def verify_document_def)
qed

section \<open>Properties\<close>

text \<open>An atomic write is all or nothing: it leaves no temporary file and touches no other path; on
  success the target holds exactly the new bytes, on any failure its old content is untouched.\<close>

theorem atomic_write_all_or_nothing:
  "case atomic_write F dir name data st of (r, st') \<Rightarrow>
     st' (in_dir dir (tmp_name name)) = None
   \<and> (\<forall>p. p \<notin> {in_dir dir name, in_dir dir (tmp_name name)} \<longrightarrow> st' p = st p)
   \<and> (r = Inr () \<and> st' (in_dir dir name) = Some data
      \<or> (\<exists>m. r = Inl (OSError m)) \<and> st' (in_dir dir name) = st (in_dir dir name))"
  using atomic_write_cases [of F dir name data st] by auto

lemma atomic_write_all_or_nothing_witness:
  "case atomic_write \<lparr>write_fails = (\<lambda>p. Some (Some ''par'')), replace_fails = (\<lambda>p. False)\<rparr> ''/o'' ''h.json'' ''data''
      [''/o/h.json'' \<mapsto> ''old'', ''/o/x'' \<mapsto> ''other''] of (r, st') \<Rightarrow> st' ''/o/x'' = Some ''other''"
proof -
  obtain r st' where w: "atomic_write \<lparr>write_fails = (\<lambda>p. Some (Some ''par'')), replace_fails = (\<lambda>p. False)\<rparr>
      ''/o'' ''h.json'' ''data'' [''/o/h.json'' \<mapsto> ''old'', ''/o/x'' \<mapsto> ''other''] = (r, st')" by fastforce
  then show ?thesis
    using atomic_write_all_or_nothing [where F = "\<lparr>write_fails = (\<lambda>p. Some (Some ''par'')), replace_fails = (\<lambda>p. False)\<rparr>"
        and dir = "''/o''" and name = "''h.json''" and data = "''data''"
        and st = "[''/o/h.json'' \<mapsto> ''old'', ''/o/x'' \<mapsto> ''other'']"]
    by (simp add: in_dir_def tmp_name_eq)
qed

text \<open>C9: If the outputs could be prepared, then whatever writes fail no temporary file is left, no
  path outside the three targets changes, every target holds its old or its complete new content, and
  the sidecar, written last, is new only when everything was written.\<close>

theorem outputs_crash_consistent:
  assumes "prepared_bytes L record payload = Inr (h, b, rb, txt)"
    and "write_outputs L F dir record payload st = (r, st')"
    and "\<forall>t\<in>temp_paths dir h. st t = None"
  shows "(\<forall>t\<in>temp_paths dir h. st' t = None)
    \<and> (\<forall>q. q \<notin> output_paths dir h \<longrightarrow> st' q = st q)
    \<and> (r = Inr () \<longrightarrow> st' (in_dir dir (h @ ''.json'')) = Some b \<and> st' (in_dir dir (h @ ''.raw.json'')) = Some rb
         \<and> st' (in_dir dir (h @ ''.sha256'')) = Some txt)
    \<and> (r \<noteq> Inr () \<longrightarrow> (\<exists>m. r = Inl (OSError m)) \<and> st' (in_dir dir (h @ ''.sha256'')) = st (in_dir dir (h @ ''.sha256''))
         \<and> st' (in_dir dir (h @ ''.json'')) \<in> {st (in_dir dir (h @ ''.json'')), Some b}
         \<and> st' (in_dir dir (h @ ''.raw.json'')) \<in> {st (in_dir dir (h @ ''.raw.json'')), Some rb})"
  by (rule write_outputs_cases [OF assms])

definition no_faults :: faults where
  "no_faults = \<lparr>write_fails = (\<lambda>p. None), replace_fails = (\<lambda>p. False)\<rparr>"

lemma outputs_crash_consistent_witness:
  "\<exists>h b rb t r st'. prepared_bytes sample_libs (sample_record ''0'') (VDict []) = Inr (h, b, rb, t)
    \<and> write_outputs sample_libs \<lparr>write_fails = (\<lambda>p. None), replace_fails = (\<lambda>p. True)\<rparr> ''/o''
        (sample_record ''0'') (VDict []) Map.empty = (r, st')
    \<and> st' (in_dir ''/o'' (h @ ''.sha256'')) = (if r = Inr () then Some t else None)"
proof -
  obtain h b rb t where p: "prepared_bytes sample_libs (sample_record ''0'') (VDict []) = Inr (h, b, rb, t)"
    by (simp add: prepared_bytes_def sample_json sample_record_def get_item_def lookup_Some)
  obtain r st' where w: "write_outputs sample_libs \<lparr>write_fails = (\<lambda>p. None), replace_fails = (\<lambda>p. True)\<rparr> ''/o''
        (sample_record ''0'') (VDict []) Map.empty = (r, st')" by fastforce
  have "st' (in_dir ''/o'' (h @ ''.sha256'')) = (if r = Inr () then Some t else None)"
    using outputs_crash_consistent [OF p w] by simp
  with p w show ?thesis by blast
qed

text \<open>C8: After a successful write of a verifying record, \<open>cce verify --sidecar\<close> on the sidecar just
  written exits with 0, given that digests are 64 hexadecimal digits and that decoding the canonical
  bytes of a record preserves its members.\<close>

theorem written_sidecar_verifies:
  assumes "write_outputs L F dir r payload st = (Inr (), st')"
    and "verify_record_hash L r = Inr (True, [])" "json_roundtrip L r d"
    and "\<forall>b. hex_run 64 (sha256_hex L b)" "\<forall>t\<in>temp_paths dir h. st t = None"
    and "get_key r ''record_hash'' = VStr h" "h \<noteq> []" "\<not> py_space (hd h)" "hd h \<noteq> CHR ''*''"
  shows "verify_command L st' (Some (dir, h @ ''.sha256'')) None = Inr 0"
  using written_outputs_verify [OF assms] by (simp add: verify_command_def)

definition sample_decoder :: libs where
  "sample_decoder = sample_libs\<lparr>json_loads := (\<lambda>b.
     if b = py_repr (VDict (sample_record ''0'')) then Some (VDict (sample_record ''0'')) else None)\<rparr>"

lemma sample_decoder_simps [simp]:
  "canonical_json_bytes sample_decoder = canonical_json_bytes sample_libs"
  "sha256_hex sample_decoder = sha256_hex sample_libs"
  by (simp_all add: sample_decoder_def)

lemma sample_decoder_verifies: "verify_record_hash sample_decoder (sample_record ''0'') = Inr (True, [])"
proof -
  have "hash_preimage sample_decoder (sample_record ''0'') = hash_preimage sample_libs (sample_record ''0'')"
    by (simp add: hash_preimage_def)
  then show ?thesis
    by (simp add: verify_eq_True compute_record_hash_def sample_record_preimage sample_record_keys)
qed

lemma sample_decoder_roundtrip: "json_roundtrip sample_decoder (sample_record ''0'') (sample_record ''0'')"
  by (simp add: json_roundtrip_def sample_json) (simp add: sample_decoder_def)

lemma hex_digit_hex: "is_hex_lower (hex_digit n)"
proof -
  have "n mod 16 < length ''0123456789abcdef''" by simp
  then show ?thesis unfolding is_hex_lower_def hex_digit_def by (rule nth_mem)
qed

lemma sample_sha_hex: "hex_run 64 (sha256_hex sample_libs b)"
  by (simp add: sample_libs_def hex_run_def list_all_iff hex_digit_hex)

lemma sample_written:
  "\<exists>st'. write_outputs sample_decoder no_faults ''/o'' (sample_record ''0'') (VDict []) Map.empty = (Inr (), st')"
  by (simp add: write_outputs_def sample_json sample_record_def get_item_def lookup_Some Let_def
      then_st_def atomic_write_def no_faults_def)

lemma written_sidecar_verifies_witness:
  "\<exists>st'. write_outputs sample_decoder no_faults ''/o'' (sample_record ''0'') (VDict []) Map.empty = (Inr (), st')
    \<and> verify_command sample_decoder st' (Some (''/o'', (''sha256:'' @ sha256_hex sample_libs sample_preimage) @ ''.sha256'')) None = Inr 0"
proof -
  obtain st' where w: "write_outputs sample_decoder no_faults ''/o'' (sample_record ''0'') (VDict []) Map.empty = (Inr (), st')"
    using sample_written by blast
  have "verify_command sample_decoder st' (Some (''/o'', (''sha256:'' @ sha256_hex sample_libs sample_preimage) @ ''.sha256'')) None = Inr 0"
    by (rule written_sidecar_verifies [OF w sample_decoder_verifies sample_decoder_roundtrip])
      (simp_all add: sample_sha_hex sample_record_keys py_space_def)
  with w show ?thesis by blast
qed

text \<open>C14: \<open>cce verify --sidecar\<close> exits with 0 only if the sidecar names an existing neighbouring file
  whose SHA-256 it states, and that file is a JSON object whose own record hash verifies.\<close>

theorem verify_sidecar_sound:
  assumes "verify_sidecar L st dir name = Inr 0"
  shows "\<exists>t x fname bytes d. st (in_dir dir name) = Some t \<and> parse_sidecar name t = Some (x, fname)
    \<and> st (in_dir dir fname) = Some bytes \<and> sha256_hex L bytes = lower x
    \<and> json_loads L bytes = Some (VDict d) \<and> verify_record_hash L d = Inr (True, [])"
proof -
  have doc: "\<exists>d. v = VDict d \<and> verify_record_hash L d = Inr (True, [])" if "verify_document L v = Inr 0" for v
    using that
    by (cases v) (auto simp: verify_document_def EXIT_SCORING_def result_simps verify_eq_True split: if_splits)
  from assms doc show ?thesis
    by (auto simp: verify_sidecar_def EXIT_SCORING_def split: option.splits prod.splits if_splits)
qed

lemma verify_sidecar_sound_witness:
  "\<exists>st' t x fname bytes d. st' (in_dir ''/o'' ((''sha256:'' @ sha256_hex sample_libs sample_preimage) @ ''.sha256'')) = Some t
    \<and> parse_sidecar ((''sha256:'' @ sha256_hex sample_libs sample_preimage) @ ''.sha256'') t = Some (x, fname)
    \<and> st' (in_dir ''/o'' fname) = Some bytes \<and> sha256_hex sample_decoder bytes = lower x
    \<and> json_loads sample_decoder bytes = Some (VDict d) \<and> verify_record_hash sample_decoder d = Inr (True, [])"
proof -
  obtain st' where w: "write_outputs sample_decoder no_faults ''/o'' (sample_record ''0'') (VDict []) Map.empty = (Inr (), st')"
    using sample_written by blast
  have "verify_sidecar sample_decoder st' ''/o'' ((''sha256:'' @ sha256_hex sample_libs sample_preimage) @ ''.sha256'') = Inr 0"
    by (rule written_outputs_verify [OF w sample_decoder_verifies sample_decoder_roundtrip])
      (simp_all add: sample_sha_hex sample_record_keys py_space_def)
  from verify_sidecar_sound [OF this] show ?thesis by blast
qed

text \<open>A JSON object that has a \<open>record_hash\<close> text but lacks a \<open>spec_hash\<close> text makes
  \<open>cce verify\<close> die with an uncaught \<open>ScoringError\<close> instead of reporting a mismatch.\<close>

theorem verify_incomplete_record_escapes:
  assumes "json_loads L bytes = Some (VDict d)" "get_key d ''record_hash'' = VStr h"
    and "\<forall>s. get_key d ''spec_hash'' \<noteq> VStr s" "p \<noteq> []"
  shows "verify_command L [p \<mapsto> bytes] None (Some p)
    = Inl (ScoringError ''record.spec_hash must be a string'')"
  using assms require_string_no [OF assms(3)]
  by (simp add: verify_command_def verify_document_def verify_record_hash_def compute_record_hash_def
      hash_preimage_def)

lemma verify_incomplete_record_escapes_witness:
  "verify_command (sample_libs\<lparr>json_loads := (\<lambda>b. Some (VDict [(VStr ''record_hash'', VStr ''x'')]))\<rparr>)
     [''r.json'' \<mapsto> ''bytes''] None (Some ''r.json'')
    = Inl (ScoringError ''record.spec_hash must be a string'')"
  by (rule verify_incomplete_record_escapes [where d = "[(VStr ''record_hash'', VStr ''x'')]"])
    (simp_all add: get_key_def)

end
