(* ===== verification/Cli.thy ===== *)
theory Cli
  imports Outputs
begin

text \<open>
  \<open>src/cce/cli.py\<close>, the command side: \<open>cce score\<close> from the spec file to the three outputs, with
  the exit code, the failure counters and the stage timings of every path.

  \<open>world\<close> gathers what the process gets from outside: the files, the environment, git, the clock.
  A \<open>score_run\<close> is what it leaves; an exit of \<open>Inl e\<close> is an uncaught exception. The spans and
  histograms of \<open>otel.py\<close> are no-ops here.
\<close>

section \<open>Arguments and world\<close>

record score_args =
  arg_repo :: string
  arg_mode :: string
  arg_commit :: "string option"
  arg_out :: string
  arg_verify_digests :: string
  arg_assert_network_isolated :: bool

record world =
  w_libs :: libs
  w_parsers :: parsers
  w_binaries :: file_system
  w_registry :: "AnalyzerRegistry option"
  w_spec_file :: "string result"
  w_require_isolated :: "string option"
  w_connects :: bool
  w_git :: git
  w_local :: "local_repo option"
  w_tmpdir :: string
  w_parts :: "string \<Rightarrow> path"
  w_listing :: "string \<Rightarrow> listed list"
  w_read_text :: "path \<Rightarrow> string result"
  w_now :: string
  w_mkdir :: "unit result"
  w_faults :: faults

record score_run =
  exit_code :: "int result"
  stages :: "string list"
  job_failures :: "string list"
  records_total :: nat
  printed :: "string option"
  final_store :: store

definition parse_bool :: "string \<Rightarrow> bool" where
  "parse_bool v \<longleftrightarrow> v = ''true''"

definition STAGE_ORDER :: "string list" where
  "STAGE_ORDER =
     [''cce.load_spec'', ''cce.clone'', ''cce.parse'', ''cce.measure'', ''cce.score'', ''cce.total'']"

section \<open>Leaving early\<close>

definition leave :: "int \<Rightarrow> string \<Rightarrow> string list \<Rightarrow> store \<Rightarrow> score_run" where
  "leave c reason stg st =
     \<lparr>exit_code = Inr c, stages = stg, job_failures = [reason], records_total = 0, printed = None,
       final_store = st\<rparr>"

definition escape :: "exn \<Rightarrow> string list \<Rightarrow> string list \<Rightarrow> store \<Rightarrow> score_run" where
  "escape e reasons stg st =
     \<lparr>exit_code = Inl e, stages = stg, job_failures = reasons, records_total = 0, printed = None,
       final_store = st\<rparr>"

text \<open>The outer \<open>except GitSafetyError\<close> and \<open>except GitTimeoutError\<close>.\<close>

definition git_handler :: "exn \<Rightarrow> string list \<Rightarrow> string list \<Rightarrow> store \<Rightarrow> score_run" where
  "git_handler e reasons stg st =
     (case e of
        GitSafetyError m \<Rightarrow>
          (leave EXIT_GIT ''git_safety'' stg st)\<lparr>job_failures := reasons @ [''git_safety'']\<rparr>
      | GitTimeoutError m \<Rightarrow>
          (leave EXIT_GIT ''git_timeout'' stg st)\<lparr>job_failures := reasons @ [''git_timeout'']\<rparr>
      | _ \<Rightarrow> escape e reasons stg st)"

text \<open>The handlers around parse and measure.\<close>

definition analysis_handler :: "exn \<Rightarrow> string list \<Rightarrow> store \<Rightarrow> score_run" where
  "analysis_handler e stg st =
     (case e of
        AnalyzerError m \<Rightarrow> leave EXIT_ANALYZER ''analyzer'' stg st
      | ToolDigestMismatchError m \<Rightarrow> leave EXIT_DIGEST ''digest'' stg st
      | _ \<Rightarrow> git_handler e [''unexpected''] stg st)"

definition write_stage :: "world \<Rightarrow> score_args \<Rightarrow> string list \<Rightarrow> mapping_value \<Rightarrow> pyval \<Rightarrow> store \<Rightarrow> score_run" where
  "write_stage W opts stg record payload st =
     (case w_mkdir W of
        Inl e \<Rightarrow> escape e [] stg st
      | Inr _ \<Rightarrow>
          (case write_outputs (w_libs W) (w_faults W) (arg_out opts) record payload st of
             (Inl (OSError m), st') \<Rightarrow> leave EXIT_WRITE ''write_output'' stg st'
           | (Inl e, st') \<Rightarrow> escape e [] stg st'
           | (Inr _, st') \<Rightarrow>
               (let stg' = stg @ [''cce.total'']
                in if stg' \<noteq> STAGE_ORDER
                   then (escape (RuntimeError ''AssertionError: stage timing order drift'') [] stg' st')
                          \<lparr>records_total := 1\<rparr>
                   else \<lparr>exit_code = Inr 0, stages = stg', job_failures = [], records_total = 1,
                          printed = Some (py_str (get_key record ''record_hash'')), final_store = st'\<rparr>)))"

definition record_stage ::
    "world \<Rightarrow> score_args \<Rightarrow> ScoringSpec \<Rightarrow> string \<Rightarrow> string list \<Rightarrow> (string, string) dict \<Rightarrow> RawPayload
     \<Rightarrow> store \<Rightarrow> score_run" where
  "record_stage W opts spec commit_sha stg raw_metrics payload st =
     (let stg' = stg @ [''cce.score'']
      in case build_score_record (w_libs W) spec (as_raw raw_metrics) (arg_repo opts) (arg_mode opts)
                commit_sha (w_now W) of
           Inl (ScoringError m) \<Rightarrow> leave EXIT_SCORING ''scoring'' stg' st
         | Inl e \<Rightarrow> git_handler e [] stg' st
         | Inr record \<Rightarrow> write_stage W opts stg' record (payload_value payload) st)"

definition analysis_stage ::
    "world \<Rightarrow> score_args \<Rightarrow> ScoringSpec \<Rightarrow> string \<Rightarrow> string \<Rightarrow> string list \<Rightarrow> store \<Rightarrow> score_run" where
  "analysis_stage W opts spec repo_dir commit_sha stg st =
     (let stg1 = stg @ [''cce.parse'']
      in case fst (parse_repo (w_libs W) (w_parsers W) (w_binaries W) (w_registry W)
                (w_parts W repo_dir) (w_listing W repo_dir) (w_read_text W) None
                (if parse_bool (arg_verify_digests opts) then Some (tool_digests spec) else None)) of
           Inl e \<Rightarrow> analysis_handler e stg1 st
         | Inr ctx \<Rightarrow>
             (let stg2 = stg1 @ [''cce.measure'']
              in case measure_metrics ctx of
                   Inl e \<Rightarrow> analysis_handler e stg2 st
                 | Inr (raw_metrics, payload) \<Rightarrow>
                     record_stage W opts spec commit_sha stg2 raw_metrics payload st))"

definition str_or_none :: "pyval \<Rightarrow> string option" where
  "str_or_none v = (case v of VStr s \<Rightarrow> Some s | _ \<Rightarrow> None)"

definition clone_stage :: "world \<Rightarrow> score_args \<Rightarrow> ScoringSpec \<Rightarrow> string list \<Rightarrow> store \<Rightarrow> score_run" where
  "clone_stage W opts spec stg st =
     (case fst (prepared_repo (w_git W) [] (w_local W) (w_tmpdir W) (arg_repo opts) (arg_mode opts)
              (arg_commit opts) (str_or_none (get_key (raw spec) ''git_min_version''))) of
        Inl e \<Rightarrow> git_handler e [] stg st
      | Inr (repo_dir, commit_sha) \<Rightarrow>
          analysis_stage W opts spec repo_dir commit_sha (stg @ [''cce.clone'']) st)"

definition score_command :: "world \<Rightarrow> score_args \<Rightarrow> store \<Rightarrow> score_run" where
  "score_command W opts st =
     (let stg = [''cce.load_spec'']
      in case load_spec (w_libs W) (w_spec_file W) of
           Inl (SpecValidationError m) \<Rightarrow> leave EXIT_SPEC ''spec'' stg st
         | Inl e \<Rightarrow> escape e [] stg st
         | Inr spec \<Rightarrow>
             (case (if parse_bool (arg_verify_digests opts) then validate_digest_shapes (tool_digests spec)
                    else Inr ()) of
                Inl (SpecValidationError m) \<Rightarrow> leave EXIT_DIGEST ''digest'' stg st
              | Inl e \<Rightarrow> escape e [] stg st
              | Inr _ \<Rightarrow>
                  (case (if arg_assert_network_isolated opts \<or> w_require_isolated W = Some ''1''
                         then assert_network_isolated (w_connects W) else Inr ()) of
                     Inl NetworkIsolationError \<Rightarrow> leave EXIT_GIT ''network_isolation'' stg st
                   | Inl e \<Rightarrow> escape e [] stg st
                   | Inr _ \<Rightarrow> clone_stage W opts spec stg st)))"

text \<open>\<open>main\<close>: dispatch on the sub-command.\<close>

datatype command =
    Score score_args
  | Verify "(string \<times> string) option" "string option"

definition main :: "world \<Rightarrow> command \<Rightarrow> store \<Rightarrow> int result \<times> store" where
  "main W cmd st =
     (case cmd of
        Score opts \<Rightarrow> (exit_code (score_command W opts st), final_store (score_command W opts st))
      | Verify sidecar record_arg \<Rightarrow> (verify_command (w_libs W) st sidecar record_arg, st))"

end
