(* ===== verification/CliLaws.thy ===== *)
theory CliLaws
  imports Cli
begin

text \<open>
  What a run of \<open>cce score\<close> shows to its caller: the table of exit codes and failure reasons, and
  what a zero exit means. Each stage of \<open>score_command\<close> is followed by the rest of the run, so
  each lemma about a stage rests on the one before it.
\<close>

section \<open>The exit table\<close>

text \<open>The codes and the labels of \<open>cce_job_failures_total\<close> that go with them.\<close>

definition exit_reasons :: "(int \<times> string) list" where
  "exit_reasons =
     [(EXIT_SPEC, ''spec''), (EXIT_DIGEST, ''digest''), (EXIT_GIT, ''network_isolation''),
      (EXIT_GIT, ''git_safety''), (EXIT_GIT, ''git_timeout''), (EXIT_ANALYZER, ''analyzer''),
      (EXIT_SCORING, ''scoring''), (EXIT_WRITE, ''write_output'')]"


definition reported :: "store \<Rightarrow> score_run \<Rightarrow> bool" where
  "reported st r \<longleftrightarrow>
     (case exit_code r of
        Inl e \<Rightarrow> printed r = None
      | Inr c \<Rightarrow>
          if c = 0
          then job_failures r = [] \<and> records_total r = 1 \<and> stages r = STAGE_ORDER \<and> printed r \<noteq> None
          else job_failures r \<noteq> [] \<and> (c, last (job_failures r)) \<in> set exit_reasons
             \<and> records_total r = 0 \<and> printed r = None \<and> (c = EXIT_WRITE \<or> final_store r = st))"

lemmas exit_codes = EXIT_SPEC_def EXIT_DIGEST_def EXIT_GIT_def EXIT_ANALYZER_def EXIT_SCORING_def EXIT_WRITE_def

lemma reported_leave [simp]:
  "reported st (leave c reason stg st') \<longleftrightarrow> c \<noteq> 0 \<and> (c, reason) \<in> set exit_reasons \<and> (c = EXIT_WRITE \<or> st' = st)"
  by (auto simp: reported_def leave_def exit_reasons_def exit_codes)

lemma reported_escape [simp]: "reported st (escape e reasons stg st')"
  by (simp add: reported_def escape_def)

lemma reported_git: "reported st (git_handler e reasons stg st)"
  by (cases e) (simp_all add: git_handler_def, simp_all add: reported_def leave_def exit_reasons_def exit_codes)

lemma reported_analysis: "reported st (analysis_handler e stg st)"
  by (cases e) (simp_all add: analysis_handler_def reported_git exit_reasons_def exit_codes)

lemma reported_write: "reported st (write_stage W opts stg record payload st)"
proof (cases "w_mkdir W")
  case (Inl e)
  then show ?thesis by (simp add: write_stage_def)
next
  case (Inr u)
  obtain r st' where w: "write_outputs (w_libs W) (w_faults W) (arg_out opts) record payload st = (r, st')"
    by (cases "write_outputs (w_libs W) (w_faults W) (arg_out opts) record payload st")
  show ?thesis
  proof (cases r)
    case (Inl e)
    with Inr w show ?thesis
      by (cases e) (simp_all add: write_stage_def exit_reasons_def exit_codes)
  next
    case (Inr u')
    with \<open>w_mkdir W = Inr u\<close> w show ?thesis
      by (simp add: write_stage_def Let_def reported_def escape_def)
  qed
qed

lemma reported_record: "reported st (record_stage W opts spec sha stg raw_metrics payload st)"
proof (cases "build_score_record (w_libs W) spec (as_raw raw_metrics) (arg_repo opts) (arg_mode opts) sha (w_now W)")
  case (Inl e)
  then show ?thesis
    by (cases e) (simp_all add: record_stage_def Let_def reported_git exit_reasons_def exit_codes)
next
  case (Inr r)
  then show ?thesis by (simp add: record_stage_def Let_def reported_write)
qed

lemma reported_analysis_stage: "reported st (analysis_stage W opts spec dir sha stg st)"
  by (auto simp: analysis_stage_def Let_def reported_analysis reported_record split: sum.splits prod.splits)

lemma reported_clone: "reported st (clone_stage W opts spec stg st)"
  by (auto simp: clone_stage_def reported_git reported_analysis_stage split: sum.splits prod.splits)

lemma reported_isolation:
  "reported st (case r of Inl NetworkIsolationError \<Rightarrow> leave EXIT_GIT ''network_isolation'' stg st
     | Inl e \<Rightarrow> escape e [] stg st | Inr (_ :: unit) \<Rightarrow> clone_stage W opts spec stg st)"
  by (simp add: reported_clone exit_reasons_def exit_codes split: sum.splits exn.splits)

lemma reported_digests:
  "reported st k \<Longrightarrow> reported st (case r of Inl (SpecValidationError m) \<Rightarrow> leave EXIT_DIGEST ''digest'' stg st
     | Inl e \<Rightarrow> escape e [] stg st | Inr (_ :: unit) \<Rightarrow> k)"
  by (simp add: exit_reasons_def exit_codes split: sum.splits exn.splits)

lemma reported_score: "reported st (score_command W opts st)"
proof (cases "load_spec (w_libs W) (w_spec_file W)")
  case (Inl e)
  then show ?thesis
    by (cases e) (simp_all add: score_command_def Let_def exit_reasons_def exit_codes)
next
  case (Inr spec)
  then show ?thesis unfolding score_command_def Let_def
    by (simp add: reported_digests [OF reported_isolation])
qed



section \<open>What a zero exit means\<close>

lemma git_handler_not_0 [simp]: "exit_code (git_handler e reasons stg st) \<noteq> Inr 0"
  by (cases e) (simp_all add: git_handler_def leave_def escape_def exit_codes)

lemma analysis_handler_not_0 [simp]: "exit_code (analysis_handler e stg st) \<noteq> Inr 0"
  by (cases e) (simp_all add: analysis_handler_def leave_def exit_codes)

lemma leave_code [simp]: "exit_code (leave c reason stg st) = Inr c"
  and escape_code [simp]: "exit_code (escape e reasons stg st) = Inl e"
  by (simp_all add: leave_def escape_def)

lemma write_stage_0:
  assumes "exit_code (write_stage W opts stg r payload st) = Inr 0"
  shows "(\<exists>st'. write_outputs (w_libs W) (w_faults W) (arg_out opts) r payload st = (Inr (), st')
      \<and> final_store (write_stage W opts stg r payload st) = st')
    \<and> printed (write_stage W opts stg r payload st) = Some (py_str (get_key r ''record_hash''))"
proof -
  obtain u where mk: "w_mkdir W = Inr u"
    using assms by (cases "w_mkdir W") (auto simp: write_stage_def)
  obtain q st' where w: "write_outputs (w_libs W) (w_faults W) (arg_out opts) r payload st = (q, st')"
    by (cases "write_outputs (w_libs W) (w_faults W) (arg_out opts) r payload st")
  show ?thesis
  proof (cases q)
    case (Inl e)
    with assms mk w show ?thesis by (cases e) (simp_all add: write_stage_def exit_codes)
  next
    case (Inr v)
    with assms mk w show ?thesis by (auto simp: write_stage_def Let_def split: if_splits)
  qed
qed

lemma record_stage_0:
  assumes "exit_code (record_stage W opts spec sha stg raws payload st) = Inr 0"
  shows "\<exists>r. build_score_record (w_libs W) spec (as_raw raws) (arg_repo opts) (arg_mode opts) sha (w_now W) = Inr r
    \<and> exit_code (write_stage W opts (stg @ [''cce.score'']) r (payload_value payload) st) = Inr 0
    \<and> record_stage W opts spec sha stg raws payload st
        = write_stage W opts (stg @ [''cce.score'']) r (payload_value payload) st"
proof (cases "build_score_record (w_libs W) spec (as_raw raws) (arg_repo opts) (arg_mode opts) sha (w_now W)")
  case (Inl e)
  with assms show ?thesis
    by (cases e) (simp_all add: record_stage_def Let_def exit_codes)
next
  case (Inr r)
  with assms show ?thesis by (auto simp: record_stage_def Let_def)
qed

definition pinned :: "score_args \<Rightarrow> ScoringSpec \<Rightarrow> (string, string) dict option" where
  "pinned opts spec = (if parse_bool (arg_verify_digests opts) then Some (tool_digests spec) else None)"

lemma analysis_stage_0:
  assumes "exit_code (analysis_stage W opts spec dir sha stg st) = Inr 0"
  shows "\<exists>raws payload stg'. fst (analyse_repo (w_libs W) (w_parsers W) (w_binaries W) (w_registry W)
        (w_parts W dir) (w_listing W dir) (w_read_text W) None (pinned opts spec)) = Inr (raws, payload)
    \<and> exit_code (record_stage W opts spec sha stg' raws payload st) = Inr 0
    \<and> analysis_stage W opts spec dir sha stg st = record_stage W opts spec sha stg' raws payload st"
  using assms
  by (fastforce simp: analysis_stage_def analyse_repo_def pinned_def Let_def split: sum.splits prod.splits if_splits)

lemma clone_stage_0:
  assumes "exit_code (clone_stage W opts spec stg st) = Inr 0"
  shows "\<exists>dir sha stg'. fst (prepared_repo (w_git W) [] (w_local W) (w_tmpdir W) (arg_repo opts) (arg_mode opts)
        (arg_commit opts) (str_or_none (get_key (raw spec) ''git_min_version''))) = Inr (dir, sha)
    \<and> exit_code (analysis_stage W opts spec dir sha stg' st) = Inr 0
    \<and> clone_stage W opts spec stg st = analysis_stage W opts spec dir sha stg' st"
  using assms by (fastforce simp: clone_stage_def split: sum.splits prod.splits)

lemma isolation_0:
  assumes "exit_code (case r of Inl NetworkIsolationError \<Rightarrow> leave EXIT_GIT ''network_isolation'' stg st
     | Inl e \<Rightarrow> escape e [] stg st | Inr (_ :: unit) \<Rightarrow> k) = Inr 0"
  shows "r = Inr ()"
proof (cases r)
  case (Inl e)
  with assms show ?thesis by (cases e) (simp_all add: exit_codes)
qed simp

lemma digests_0:
  assumes "exit_code (case r of Inl (SpecValidationError m) \<Rightarrow> leave EXIT_DIGEST ''digest'' stg st
     | Inl e \<Rightarrow> escape e [] stg st | Inr (_ :: unit) \<Rightarrow> k) = Inr 0"
  shows "r = Inr ()"
proof (cases r)
  case (Inl e)
  with assms show ?thesis by (cases e) (simp_all add: exit_codes)
qed simp

lemma score_command_0:
  assumes "exit_code (score_command W opts st) = Inr 0"
  shows "\<exists>spec. load_spec (w_libs W) (w_spec_file W) = Inr spec
    \<and> (parse_bool (arg_verify_digests opts) \<longrightarrow> validate_digest_shapes (tool_digests spec) = Inr ())
    \<and> (arg_assert_network_isolated opts \<or> w_require_isolated W = Some ''1'' \<longrightarrow>
         assert_network_isolated (w_connects W) = Inr ())
    \<and> exit_code (clone_stage W opts spec [''cce.load_spec''] st) = Inr 0
    \<and> score_command W opts st = clone_stage W opts spec [''cce.load_spec''] st"
proof (cases "load_spec (w_libs W) (w_spec_file W)")
  case (Inl e)
  with assms show ?thesis by (cases e) (simp_all add: score_command_def Let_def exit_codes)
next
  case (Inr spec)
  note run = assms [unfolded score_command_def Let_def Inr sum.case]
  note d = digests_0 [OF run]
  note i = isolation_0 [OF run [unfolded d sum.case]]
  have "score_command W opts st = clone_stage W opts spec [''cce.load_spec''] st"
    unfolding score_command_def Let_def Inr by (simp add: d i)
  with Inr d i assms show ?thesis by (auto split: if_splits)
qed

text \<open>The whole run, in one step.\<close>

lemma score_success:
  assumes "exit_code (score_command W opts st) = Inr 0"
  shows "\<exists>spec dir sha raws payload r st'.
      load_spec (w_libs W) (w_spec_file W) = Inr spec
    \<and> fst (prepared_repo (w_git W) [] (w_local W) (w_tmpdir W) (arg_repo opts) (arg_mode opts)
        (arg_commit opts) (str_or_none (get_key (raw spec) ''git_min_version''))) = Inr (dir, sha)
    \<and> fst (analyse_repo (w_libs W) (w_parsers W) (w_binaries W) (w_registry W)
        (w_parts W dir) (w_listing W dir) (w_read_text W) None (pinned opts spec)) = Inr (raws, payload)
    \<and> build_score_record (w_libs W) spec (as_raw raws) (arg_repo opts) (arg_mode opts) sha (w_now W) = Inr r
    \<and> write_outputs (w_libs W) (w_faults W) (arg_out opts) r (payload_value payload) st = (Inr (), st')
    \<and> final_store (score_command W opts st) = st'
    \<and> printed (score_command W opts st) = Some (py_str (get_key r ''record_hash''))"
proof -
  from score_command_0 [OF assms] obtain spec where
    1: "load_spec (w_libs W) (w_spec_file W) = Inr spec" "exit_code (clone_stage W opts spec [''cce.load_spec''] st) = Inr 0"
      "score_command W opts st = clone_stage W opts spec [''cce.load_spec''] st" by blast
  from clone_stage_0 [OF 1(2)] obtain dir sha stg where
    2: "fst (prepared_repo (w_git W) [] (w_local W) (w_tmpdir W) (arg_repo opts) (arg_mode opts)
        (arg_commit opts) (str_or_none (get_key (raw spec) ''git_min_version''))) = Inr (dir, sha)"
      "exit_code (analysis_stage W opts spec dir sha stg st) = Inr 0"
      "clone_stage W opts spec [''cce.load_spec''] st = analysis_stage W opts spec dir sha stg st" by blast
  from analysis_stage_0 [OF 2(2)] obtain raws payload stg2 where
    3: "fst (analyse_repo (w_libs W) (w_parsers W) (w_binaries W) (w_registry W)
        (w_parts W dir) (w_listing W dir) (w_read_text W) None (pinned opts spec)) = Inr (raws, payload)"
      "exit_code (record_stage W opts spec sha stg2 raws payload st) = Inr 0"
      "analysis_stage W opts spec dir sha stg st = record_stage W opts spec sha stg2 raws payload st" by blast
  from record_stage_0 [OF 3(2)] obtain r where
    4: "build_score_record (w_libs W) spec (as_raw raws) (arg_repo opts) (arg_mode opts) sha (w_now W) = Inr r"
      "exit_code (write_stage W opts (stg2 @ [''cce.score'']) r (payload_value payload) st) = Inr 0"
      "record_stage W opts spec sha stg2 raws payload st
        = write_stage W opts (stg2 @ [''cce.score'']) r (payload_value payload) st" by blast
  from write_stage_0 [OF 4(2)] 1 2 3 4 show ?thesis by metis
qed

text \<open>An output directory that cannot be made is not mapped to exit code 15.\<close>

lemma mkdir_error_escapes:
  "w_mkdir W = Inl e \<Longrightarrow> exit_code (write_stage W opts stg r payload st) = Inl e"
  by (simp add: write_stage_def)

end
