(* ===== verification/Positional.thy ===== *)
theory Positional
  imports PyValue
begin

text \<open>
  Numbers at a fixed width: \<open>fixed b n x\<close> is the list of the \<open>n\<close> digits of \<open>x\<close> in
  base \<open>b\<close>, most significant first. Identifiers (\<open>'%032x'\<close>), timestamps (\<open>'%04d'\<close>) and the
  base64 alphabet are all printed with it. The lemmas read the digits back and compare them:
  at equal width the lexicographic order of the digits is the order of the numbers.
\<close>

primrec fixed :: "nat \<Rightarrow> nat \<Rightarrow> nat \<Rightarrow> nat list" where
  "fixed b 0 x = []"
| "fixed b (Suc n) x = fixed b n (x div b) @ [x mod b]"

definition of_digits :: "nat \<Rightarrow> nat list \<Rightarrow> nat" where
  "of_digits b ds = foldl (\<lambda>a d. b * a + d) 0 ds"

lemma fixed_numeral: "fixed b (numeral k) x = fixed b (pred_numeral k) (x div b) @ [x mod b]"
  by (simp add: numeral_eq_Suc)

lemma length_fixed [simp]: "length (fixed b n x) = n"
  by (induction n arbitrary: x) auto

lemma fixed_less: "0 < b \<Longrightarrow> d \<in> set (fixed b n x) \<Longrightarrow> d < b"
  by (induction n arbitrary: x) auto

lemma of_digits_snoc [simp]: "of_digits b (ds @ [d]) = b * of_digits b ds + d"
  and of_digits_Nil [simp]: "of_digits b [] = 0"
  by (simp_all add: of_digits_def)

lemma of_digits_fixed: "x < b ^ n \<Longrightarrow> of_digits b (fixed b n x) = x"
proof (induction n arbitrary: x)
  case 0
  then show ?case by simp
next
  case (Suc n)
  then have "x div b < b ^ n" by (simp add: less_mult_imp_div_less mult.commute)
  from Suc.IH [OF this] show ?case by simp
qed

lemma fixed_of_digits: "\<forall>d\<in>set ds. d < b \<Longrightarrow> fixed b (length ds) (of_digits b ds) = ds"
  by (induction ds rule: rev_induct) auto

lemma fixed_inject: "x < b ^ n \<Longrightarrow> y < b ^ n \<Longrightarrow> fixed b n x = fixed b n y \<longleftrightarrow> x = y"
  by (metis of_digits_fixed)

section \<open>Lexicographic comparison\<close>

lemma append_less_append:
  "length as = length bs \<Longrightarrow> as @ xs < bs @ ys \<longleftrightarrow> as < bs \<or> (as = bs \<and> xs < (ys :: 'a :: linorder list))"
  by (induction as bs rule: list_induct2) auto

lemma append_le_append:
  "length as = length bs \<Longrightarrow> as @ xs \<le> bs @ ys \<longleftrightarrow> as < bs \<or> (as = bs \<and> xs \<le> (ys :: 'a :: linorder list))"
  by (induction as bs rule: list_induct2) auto

lemma fixed_less_iff:
  "0 < b \<Longrightarrow> x < b ^ n \<Longrightarrow> y < b ^ n \<Longrightarrow> fixed b n x < fixed b n y \<longleftrightarrow> x < y"
proof (induction n arbitrary: x y)
  case 0
  then show ?case by simp
next
  case (Suc n)
  have bounds: "x div b < b ^ n" "y div b < b ^ n"
    using Suc.prems by (simp_all add: less_mult_imp_div_less mult.commute)
  have "x < y \<longleftrightarrow> x div b < y div b \<or> (x div b = y div b \<and> x mod b < y mod b)"
    by (metis div_le_mono div_mult_mod_eq linorder_not_le nat_add_left_cancel_less order_le_less)
  with Suc.IH [OF Suc.prems(1) bounds] fixed_inject [OF bounds] show ?case
    by (simp add: append_less_append)
qed

lemma map_less_map:
  fixes f :: "'a::linorder \<Rightarrow> 'b::linorder"
  assumes "\<And>x y. x \<in> A \<Longrightarrow> y \<in> A \<Longrightarrow> f x < f y \<longleftrightarrow> x < y"
    and "set xs \<subseteq> A" "set ys \<subseteq> A"
  shows "map f xs < map f ys \<longleftrightarrow> xs < ys"
  using assms(2,3)
proof (induction xs arbitrary: ys)
  case Nil
  then show ?case by (cases ys) auto
next
  case (Cons x xs)
  show ?case
  proof (cases ys)
    case (Cons y ys')
    have "f x = f y \<longleftrightarrow> x = y"
      using assms(1) [of x y] assms(1) [of y x] Cons Cons.prems by (metis insert_subset list.simps(15) neq_iff)
    with Cons Cons.IH Cons.prems assms(1) show ?thesis by auto
  qed simp
qed

section \<open>Decimal and hexadecimal fields\<close>

definition dec_field :: "nat \<Rightarrow> nat \<Rightarrow> string" where
  "dec_field n x = map digit_char (fixed 10 n x)"

definition hex_field :: "nat \<Rightarrow> nat \<Rightarrow> string" where
  "hex_field n x = map hex_digit (fixed 16 n x)"

lemma length_dec_field [simp]: "length (dec_field n x) = n"
  and length_hex_field [simp]: "length (hex_field n x) = n"
  by (simp_all add: dec_field_def hex_field_def)

lemma all_below_10: "(\<forall>d<10::nat. P d) \<longleftrightarrow> (\<forall>d\<in>set [0..<10]. P d)"
  by auto

lemma digit_char_less: "d < 10 \<Longrightarrow> e < 10 \<Longrightarrow> digit_char d < digit_char e \<longleftrightarrow> d < e"
proof -
  have "\<forall>d\<in>set [0..<10]. \<forall>e\<in>set [0..<10]. digit_char d < digit_char e \<longleftrightarrow> d < e" by code_simp
  then show "d < 10 \<Longrightarrow> e < 10 \<Longrightarrow> ?thesis" by auto
qed

lemma dec_field_less:
  assumes "x < 10 ^ n" "y < 10 ^ n"
  shows "dec_field n x < dec_field n y \<longleftrightarrow> x < y"
proof -
  have "dec_field n x < dec_field n y \<longleftrightarrow> fixed 10 n x < fixed 10 n y"
    unfolding dec_field_def
    by (rule map_less_map [where A = "{..<10}"]) (auto simp: digit_char_less dest: fixed_less [rotated])
  with assms fixed_less_iff [of 10 x n y] show ?thesis by simp
qed

lemma dec_field_inject: "x < 10 ^ n \<Longrightarrow> y < 10 ^ n \<Longrightarrow> dec_field n x = dec_field n y \<longleftrightarrow> x = y"
  using dec_field_less [of x n y] dec_field_less [of y n x] by (metis neq_iff)

lemma hex_digit_lower: "is_hex_lower (hex_digit n)"
proof -
  have "hex_digit n \<in> set ''0123456789abcdef''"
    unfolding hex_digit_def by (rule nth_mem) simp
  then show ?thesis by (simp only: is_hex_lower_def)
qed

lemma hex_field_lower: "list_all is_hex_lower (hex_field n x)"
  by (simp add: hex_field_def list_all_iff hex_digit_lower)

end
