(* ===== verification/Models.thy ===== *)
theory Models
  imports Positional "HOL-Library.Word"
begin

text \<open>
  \<open>src/cce_service/storage/models.py\<close> and \<open>audit.py\<close>: the rows the service keeps, with the
  parts of \<open>uuid\<close> and \<open>datetime\<close> it uses. A UUID is a 128-bit word. The service only makes
  timestamps with \<open>datetime.now(tz=UTC)\<close>, so a \<open>datetime\<close> is the seven fields in UTC.
  Field names carry a prefix per class. A dict from strings is an association list.
\<close>

section \<open>UUIDs\<close>

type_synonym UUID = "128 word"

definition uuid_str :: "UUID \<Rightarrow> string" where
  "uuid_str u =
     (let h = hex_field 32 (unat u)
      in take 8 h @ ''-'' @ take 4 (drop 8 h) @ ''-'' @ take 4 (drop 12 h) @ ''-'' @
         take 4 (drop 16 h) @ ''-'' @ drop 20 h)"

text \<open>\<open>s.replace(p, "")\<close>.\<close>

fun remove_sub :: "string \<Rightarrow> string \<Rightarrow> string" where
  "remove_sub p s =
     (if p = [] then s
      else (case s of [] \<Rightarrow> []
            | c # cs \<Rightarrow> if starts_with p s then remove_sub p (drop (length p) s) else c # remove_sub p cs))"

declare remove_sub.simps [simp del]

definition strip_braces :: "string \<Rightarrow> string" where
  "strip_braces s =
     (let brace = (\<lambda>c. c = CHR ''{'' \<or> c = CHR ''}'')
      in rev (dropWhile brace (rev (dropWhile brace s))))"

definition hex_val :: "char \<Rightarrow> nat option" where
  "hex_val c =
     (let n = (of_char c :: nat)
      in if 48 \<le> n \<and> n \<le> 57 then Some (n - 48)
         else if 97 \<le> n \<and> n \<le> 102 then Some (n - 87)
         else if 65 \<le> n \<and> n \<le> 70 then Some (n - 55) else None)"

text \<open>\<open>int(s, 16)\<close>: surrounding whitespace, a sign, a prefix \<open>0x\<close>, single underscores between digits.\<close>

fun int16_digits :: "bool \<Rightarrow> nat \<Rightarrow> string \<Rightarrow> nat option" where
  "int16_digits prev acc [] = (if prev then Some acc else None)"
| "int16_digits prev acc (c # cs) =
     (if c = CHR ''_'' then (if prev then int16_digits False acc cs else None)
      else (case hex_val c of None \<Rightarrow> None | Some d \<Rightarrow> int16_digits True (16 * acc + d) cs))"

definition int16_unsigned :: "string \<Rightarrow> nat option" where
  "int16_unsigned s =
     (if starts_with ''0x'' s \<or> starts_with ''0X'' s
      then (if drop 2 s = [] then None else int16_digits True 0 (drop 2 s))
      else int16_digits False 0 s)"

definition int16 :: "string \<Rightarrow> int option" where
  "int16 s =
     (let t = py_strip s
      in if starts_with ''-'' t then map_option (\<lambda>n. - int n) (int16_unsigned (drop 1 t))
         else if starts_with ''+'' t then map_option int (int16_unsigned (drop 1 t))
         else map_option int (int16_unsigned t))"

text \<open>\<open>UUID(hex)\<close>.\<close>

definition uuid_parse :: "string \<Rightarrow> UUID result" where
  "uuid_parse hex =
     (let h = remove_sub ''-'' (strip_braces (remove_sub ''uuid:'' (remove_sub ''urn:'' hex)))
      in if length h \<noteq> 32 then Inl (ValueError ''badly formed hexadecimal UUID string'')
         else (case int16 h of
                 None \<Rightarrow> Inl (ValueError ''invalid literal for int() with base 16'')
               | Some i \<Rightarrow> if 0 \<le> i \<and> i < 2 ^ 128 then Inr (of_int i)
                           else Inl (ValueError ''int is out of range'')))"

section \<open>Timestamps\<close>

datatype datetime =
  Datetime (dt_year: nat) (dt_month: nat) (dt_day: nat) (dt_hour: nat) (dt_minute: nat)
    (dt_second: nat) (dt_micro: nat)

definition dt_key :: "datetime \<Rightarrow> nat list" where
  "dt_key t = [dt_year t, dt_month t, dt_day t, dt_hour t, dt_minute t, dt_second t, dt_micro t]"

lemma dt_key_inject: "dt_key t = dt_key u \<longleftrightarrow> t = u"
  by (cases t; cases u) (auto simp: dt_key_def)

text \<open>Timestamps are ordered by their fields, the year first.\<close>

instantiation datetime :: linorder
begin

definition less_eq_datetime :: "datetime \<Rightarrow> datetime \<Rightarrow> bool" where
  "less_eq_datetime t u \<longleftrightarrow> dt_key t \<le> dt_key u"

definition less_datetime :: "datetime \<Rightarrow> datetime \<Rightarrow> bool" where
  "less_datetime t u \<longleftrightarrow> dt_key t < dt_key u"

instance
  by intro_classes (auto simp: less_eq_datetime_def less_datetime_def less_le dt_key_inject)

end

definition datetime_ok :: "datetime \<Rightarrow> bool" where
  "datetime_ok t \<longleftrightarrow> dt_year t < 10000 \<and> dt_month t < 100 \<and> dt_day t < 100 \<and> dt_hour t < 100
     \<and> dt_minute t < 100 \<and> dt_second t < 100 \<and> dt_micro t < 1000000"

text \<open>\<open>t.isoformat()\<close>: the microseconds are left out when they are zero.\<close>

definition iso_tail :: "nat \<Rightarrow> string" where
  "iso_tail us = (if us = 0 then [] else ''.'' @ dec_field 6 us) @ ''+00:00''"

definition isoformat :: "datetime \<Rightarrow> string" where
  "isoformat t =
     dec_field 4 (dt_year t) @ ''-'' @ dec_field 2 (dt_month t) @ ''-'' @ dec_field 2 (dt_day t) @ ''T'' @
     dec_field 2 (dt_hour t) @ '':'' @ dec_field 2 (dt_minute t) @ '':'' @ dec_field 2 (dt_second t) @
     iso_tail (dt_micro t)"

section \<open>Rows\<close>

datatype JobStatus = QUEUED | RUNNING | SUCCEEDED | FAILED

definition status_value :: "JobStatus \<Rightarrow> string" where
  "status_value s =
     (case s of QUEUED \<Rightarrow> ''queued'' | RUNNING \<Rightarrow> ''running'' | SUCCEEDED \<Rightarrow> ''succeeded'' | FAILED \<Rightarrow> ''failed'')"

text \<open>\<open>JobStatus(value)\<close>.\<close>

definition status_of :: "string \<Rightarrow> JobStatus result" where
  "status_of v =
     (case find (\<lambda>s. status_value s = v) [QUEUED, RUNNING, SUCCEEDED, FAILED] of
        Some s \<Rightarrow> Inr s
      | None \<Rightarrow> Inl (ValueError ''not a valid JobStatus''))"

lemma status_of_value [simp]: "status_of (status_value s) = Inr s"
  by (cases s) (simp_all add: status_of_def status_value_def)

type_synonym str_map = "(string, string) dict"

record JobRecord =
  job_id :: UUID
  job_tenant :: string
  job_repo_url :: string
  job_commit_sha :: string
  job_spec_ref :: string
  job_status :: JobStatus
  job_record_hash :: "string option"
  job_score :: "string option"
  job_error :: "string option"
  job_sidecars :: "str_map option"
  job_created_at :: datetime
  job_updated_at :: datetime

record ScoreRecord =
  rec_hash :: string
  rec_commit_sha :: string
  rec_repo_url :: string
  rec_spec_hash :: string
  rec_score :: string
  rec_metrics :: "(string, pyval) dict"
  rec_tool_digests :: str_map
  rec_tenant :: string
  rec_created_at :: datetime

record AuditEvent =
  ev_id :: int
  ev_actor :: string
  ev_action :: string
  ev_target :: string
  ev_tenant :: string
  ev_ts :: datetime
  ev_payload :: "(string, pyval) dict"

text \<open>\<open>audit_event\<close> of \<open>audit.py\<close>; \<open>now\<close> is what the default of \<open>ts\<close> reads.\<close>

definition audit_event ::
    "string \<Rightarrow> string \<Rightarrow> string \<Rightarrow> string \<Rightarrow> (string, pyval) dict option \<Rightarrow> datetime \<Rightarrow> AuditEvent" where
  "audit_event actor action target tenant payload now =
     \<lparr>ev_id = 0, ev_actor = actor, ev_action = action, ev_target = target, ev_tenant = tenant,
       ev_ts = now, ev_payload = (case payload of None \<Rightarrow> [] | Some p \<Rightarrow> p)\<rparr>"

section \<open>Reading an identifier back\<close>

lemma remove_sub_absent: "p \<noteq> [] \<Longrightarrow> hd p \<notin> set s \<Longrightarrow> remove_sub p s = s"
proof (induction s)
  case Nil
  then show ?case by (subst remove_sub.simps) simp
next
  case (Cons c cs)
  then have "\<not> starts_with p (c # cs)" by (cases p) (auto simp: starts_with_def)
  with Cons show ?case by (subst remove_sub.simps) simp
qed

lemma remove_dash: "remove_sub ''-'' s = filter (\<lambda>c. c \<noteq> CHR ''-'') s"
proof (induction s)
  case Nil
  then show ?case by (subst remove_sub.simps) simp
next
  case (Cons c cs)
  then show ?case by (subst remove_sub.simps) (simp add: starts_with_def)
qed

lemma hex_lower_chars:
  "is_hex_lower c \<Longrightarrow> c \<noteq> CHR ''-'' \<and> c \<noteq> CHR ''u'' \<and> c \<noteq> CHR ''{'' \<and> c \<noteq> CHR ''}''
     \<and> c \<noteq> CHR ''+'' \<and> c \<noteq> CHR ''x'' \<and> c \<noteq> CHR ''X'' \<and> c \<noteq> CHR ''_''"
  by (auto simp: is_hex_lower_def)

lemma hex_val_digit: "d < 16 \<Longrightarrow> hex_val (hex_digit d) = Some d"
proof -
  have "\<forall>d\<in>set [0..<16]. hex_val (hex_digit d) = Some d" by code_simp
  then show "d < 16 \<Longrightarrow> ?thesis" by auto
qed

lemma hex_digit_not_underscore: "hex_digit d \<noteq> CHR ''_''"
  using hex_digit_lower [of d] hex_lower_chars by blast

lemma int16_digits_map:
  "\<forall>d\<in>set ds. d < 16 \<Longrightarrow> int16_digits prev acc (map hex_digit ds)
     = (if ds = [] \<and> \<not> prev then None else Some (foldl (\<lambda>a d. 16 * a + d) acc ds))"
  by (induction ds arbitrary: prev acc) (auto simp: hex_val_digit hex_digit_not_underscore)

lemma int16_hex_field:
  assumes "0 < n" "x < 16 ^ n"
  shows "int16 (hex_field n x) = Some (int x)"
proof -
  let ?s = "hex_field n x"
  from assms(1) have ne: "?s \<noteq> []" by (metis length_hex_field length_greater_0_conv)
  have lower: "\<forall>c\<in>set ?s. is_hex_lower c" using hex_field_lower by (simp add: list_all_iff)
  have strip: "py_strip ?s = ?s"
    using ne lower by (intro py_strip_id) (auto simp: is_hex_lower_not_space)
  have not_signed: "\<not> starts_with ''-'' ?s" "\<not> starts_with ''+'' ?s"
    using ne lower hex_lower_chars by (cases ?s; auto simp: starts_with_def)+
  have unprefixed: "\<not> starts_with ''0x'' ?s" "\<not> starts_with ''0X'' ?s"
    using lower hex_lower_chars
    by (cases ?s; cases "tl ?s"; auto simp: starts_with_def; fastforce)+
  have "fixed 16 n x \<noteq> []" using assms(1) by (metis length_fixed length_greater_0_conv)
  then have "int16_digits False 0 ?s = Some (of_digits 16 (fixed 16 n x))"
    unfolding hex_field_def of_digits_def by (subst int16_digits_map) (auto dest: fixed_less [rotated])
  with assms(2) have "int16_digits False 0 ?s = Some x" by (simp add: of_digits_fixed)
  with strip not_signed unprefixed show ?thesis
    unfolding int16_def int16_unsigned_def by (simp add: Let_def)
qed

lemma uuid_str_chars: "c \<in> set (uuid_str u) \<Longrightarrow> c = CHR ''-'' \<or> is_hex_lower c"
  using hex_field_lower [of 32 "unat u"]
  by (auto simp: uuid_str_def Let_def list_all_iff dest: in_set_takeD in_set_dropD)

lemma filter_dash_uuid: "filter (\<lambda>c. c \<noteq> CHR ''-'') (uuid_str u) = hex_field 32 (unat u)"
proof -
  let ?h = "hex_field 32 (unat u)"
  have keep: "filter (\<lambda>c. c \<noteq> CHR ''-'') s = s" if "set s \<subseteq> set ?h" for s
    using that hex_field_lower [of 32 "unat u"] hex_lower_chars
    by (intro filter_True) (auto simp: list_all_iff)
  have sub: "set (take n (drop m ?h)) \<subseteq> set ?h" "set (take n ?h) \<subseteq> set ?h" "set (drop m ?h) \<subseteq> set ?h" for n m
    by (auto dest: in_set_takeD in_set_dropD)
  have "filter (\<lambda>c. c \<noteq> CHR ''-'') (uuid_str u)
      = take 8 ?h @ take 4 (drop 8 ?h) @ take 4 (drop 12 ?h) @ take 4 (drop 16 ?h) @ drop 20 ?h"
    by (simp add: uuid_str_def Let_def keep sub)
  also have "\<dots> = ?h"
    using append_take_drop_id [of 4 "drop 16 ?h"] append_take_drop_id [of 4 "drop 12 ?h"]
      append_take_drop_id [of 4 "drop 8 ?h"] append_take_drop_id [of 8 ?h] by simp
  finally show ?thesis .
qed

lemma strip_braces_id:
  "CHR ''{'' \<notin> set s \<Longrightarrow> CHR ''}'' \<notin> set s \<Longrightarrow> strip_braces s = s"
proof -
  assume a: "CHR ''{'' \<notin> set s" "CHR ''}'' \<notin> set s"
  then have "dropWhile (\<lambda>c. c = CHR ''{'' \<or> c = CHR ''}'') t = t" if "set t = set s" for t
    using that by (cases t) auto
  from this [of s] this [of "rev s"] show ?thesis by (simp add: strip_braces_def Let_def)
qed

text \<open>\<open>UUID(str(u))\<close> is \<open>u\<close>.\<close>

lemma uuid_parse_str: "uuid_parse (uuid_str u) = Inr u"
proof -
  have no: "c \<notin> set (uuid_str u)" if "\<not> is_hex_lower c" "c \<noteq> CHR ''-''" for c
    using uuid_str_chars that by blast
  have u: "unat u < 2 ^ 128" using unsigned_less [of u, where 'a = nat] by simp
  then have "unat u < 16 ^ 32" by simp
  then have "int16 (hex_field 32 (unat u)) = Some (int (unat u))" by (rule int16_hex_field [rotated]) simp
  moreover have "int (unat u) < 2 ^ 128" using unsigned_less [of u, where 'a = int] by simp
  moreover have "remove_sub ''urn:'' (uuid_str u) = uuid_str u" "remove_sub ''uuid:'' (uuid_str u) = uuid_str u"
    by (rule remove_sub_absent, simp, rule no; simp add: is_hex_lower_def)+
  moreover have "strip_braces (uuid_str u) = uuid_str u"
    by (rule strip_braces_id; rule no; simp add: is_hex_lower_def)
  ultimately show ?thesis
    by (simp add: uuid_parse_def Let_def remove_dash filter_dash_uuid)
qed

lemma uuid_str_inject: "uuid_str u = uuid_str v \<longleftrightarrow> u = v"
  using uuid_parse_str by (metis sum.inject(2))

section \<open>Comparing timestamps as text\<close>

text \<open>Texts that agree in length up to a separator compare by their first difference.\<close>

lemma iso_tail_le:
  assumes "us < 1000000" "vs < 1000000"
  shows "iso_tail us \<le> iso_tail vs \<longleftrightarrow> us \<le> vs"
proof -
  have plus_dot: "CHR ''+'' < CHR ''.''" by code_simp
  from assms have "us < 10 ^ 6" "vs < 10 ^ 6" by simp_all
  note f = dec_field_less [OF this] dec_field_inject [OF this]
  show ?thesis
    using plus_dot f by (auto simp: iso_tail_def append_le_append)
qed

lemma isoformat_le_iff:
  assumes "datetime_ok t" "datetime_ok u"
  shows "isoformat t \<le> isoformat u \<longleftrightarrow> t \<le> u"
proof -
  from assms have "iso_tail (dt_micro t) \<le> iso_tail (dt_micro u) \<longleftrightarrow> dt_micro t \<le> dt_micro u"
    by (intro iso_tail_le) (auto simp: datetime_ok_def)
  with assms show ?thesis
    by (auto simp: isoformat_def less_eq_datetime_def dt_key_def datetime_ok_def append_le_append
        dec_field_less dec_field_inject)
qed

end
