(* ===== verification/Dispatch.thy ===== *)
theory Dispatch
  imports CliLaws Models
begin

text \<open>
  \<open>src/cce_service/dispatch/base.py\<close>: the result type of a dispatcher and the in-process
  dispatcher, which runs the core of \<open>cce\<close> on a repository that a callable provides.

  Python checks no annotation, so the fields of a \<open>DispatchResult\<close> have type parameters: the
  in-process dispatcher fills them with parsed values, and \<open>typed_result\<close> reads such a result at
  the annotated types.
\<close>

section \<open>Results\<close>

record ('t, 'm, 'd) DispatchResult =
  dr_record_hash :: 't
  dr_score :: 't
  dr_metrics :: 'm
  dr_spec_hash :: 't
  dr_tool_digests :: 'd
  dr_sidecars :: 'd

type_synonym untyped_result = "(pyval, pyval, pyval) DispatchResult"
type_synonym job_result = "(string, (string, pyval) dict, str_map) DispatchResult"

definition as_text :: "pyval \<Rightarrow> string option" where
  "as_text v = (case v of VStr s \<Rightarrow> Some s | _ \<Rightarrow> None)"

fun named :: "(pyval \<Rightarrow> 'a option) \<Rightarrow> mapping_value \<Rightarrow> (string, 'a) dict option" where
  "named f [] = Some []"
| "named f ((k, v) # d) =
     (case (as_text k, f v, named f d) of
        (Some k', Some v', Some d') \<Rightarrow> Some ((k', v') # d')
      | _ \<Rightarrow> None)"

definition dict_of :: "(pyval \<Rightarrow> 'a option) \<Rightarrow> pyval \<Rightarrow> (string, 'a) dict option" where
  "dict_of f v = (case v of VDict d \<Rightarrow> named f d | _ \<Rightarrow> None)"

definition typed_result :: "untyped_result \<Rightarrow> job_result option" where
  "typed_result r =
     (case (as_text (dr_record_hash r), as_text (dr_score r), dict_of Some (dr_metrics r),
            as_text (dr_spec_hash r), dict_of as_text (dr_tool_digests r), dict_of as_text (dr_sidecars r)) of
        (Some h, Some sc, Some ms, Some sh, Some ds, Some ss) \<Rightarrow>
          Some \<lparr>dr_record_hash = h, dr_score = sc, dr_metrics = ms, dr_spec_hash = sh,
                dr_tool_digests = ds, dr_sidecars = ss\<rparr>
      | _ \<Rightarrow> None)"

lemma as_text_VStr [simp]: "as_text (VStr s) = Some s"
  by (simp add: as_text_def)

lemma named_map [simp]: "(\<And>v. f (g v) = Some (h v)) \<Longrightarrow>
    named f (map (\<lambda>(k, v). (VStr k, g v)) kvs) = Some (map (\<lambda>(k, v). (k, h v)) kvs)"
  by (induction kvs) auto

lemma dict_of_str_dict [simp]: "(\<And>v. f (g v) = Some (h v)) \<Longrightarrow>
    dict_of f (str_dict (map (\<lambda>(k, v). (k, g v)) kvs)) = Some (map (\<lambda>(k, v). (k, h v)) kvs)"
proof -
  assume "\<And>v. f (g v) = Some (h v)"
  from named_map [of f g h kvs, OF this] show ?thesis
    by (simp add: dict_of_def str_dict_def comp_def case_prod_unfold)
qed

section \<open>The in-process dispatcher\<close>

text \<open>
  What the dispatcher gets from outside: the spec file, the libraries, the callable that provides
  a clone (\<open>None\<close> for the default), the content of a directory, the temporary directory and the
  clock.
\<close>

record in_process =
  ip_libs :: libs
  ip_parsers :: parsers
  ip_binaries :: file_system
  ip_registry :: "AnalyzerRegistry option"
  ip_spec_file :: "string result"
  ip_repo_clone :: "(string \<Rightarrow> string \<Rightarrow> string \<Rightarrow> path result) option"
  ip_tmp :: string
  ip_listing :: "path \<Rightarrow> listed list"
  ip_read_text :: "path \<Rightarrow> string result"
  ip_now :: datetime

definition default_clone :: "string \<Rightarrow> string \<Rightarrow> string \<Rightarrow> path result" where
  "default_clone repo_url commit_sha dest =
     Inl (DispatchError ''InProcessDispatcher requires a `repo_clone` callable; default cloning from a URL is not implemented in tests'')"

definition clone_with :: "in_process \<Rightarrow> string \<Rightarrow> string \<Rightarrow> string \<Rightarrow> path result" where
  "clone_with D = (case ip_repo_clone D of None \<Rightarrow> default_clone | Some f \<Rightarrow> f)"

definition dispatch_record :: "in_process \<Rightarrow> JobRecord \<Rightarrow> (mapping_value \<times> pyval) result" where
  "dispatch_record D job =
     andthen (load_spec (ip_libs D) (ip_spec_file D)) (\<lambda>spec.
     andthen (clone_with D (job_repo_url job) (job_commit_sha job) (ip_tmp D)) (\<lambda>repo_path.
     andthen (fst (analyse_repo (ip_libs D) (ip_parsers D) (ip_binaries D) (ip_registry D) repo_path
                     (ip_listing D repo_path) (ip_read_text D) None None)) (\<lambda>(raw_metrics, raw_payload).
     andthen (build_score_record (ip_libs D) spec (as_raw raw_metrics) (job_repo_url job) ''repo''
                (job_commit_sha job) (isoformat (ip_now D))) (\<lambda>record.
     Inr (record, payload_value raw_payload)))))"

definition result_of_record :: "in_process \<Rightarrow> mapping_value \<Rightarrow> string \<Rightarrow> string \<Rightarrow> untyped_result result" where
  "result_of_record D record record_bytes raw_bytes =
     andthen (get_item record ''record_hash'') (\<lambda>record_hash.
     andthen (get_item record ''score'') (\<lambda>score.
     andthen (get_item record ''metrics'') (\<lambda>metrics.
     andthen (get_item record ''spec_hash'') (\<lambda>spec_hash.
     andthen (get_item record ''tool_digests'') (\<lambda>tool_digests.
     Inr \<lparr>dr_record_hash = record_hash, dr_score = score, dr_metrics = metrics, dr_spec_hash = spec_hash,
           dr_tool_digests = tool_digests,
           dr_sidecars = str_dict
             [(''record_sha256'', VStr (''sha256:'' @ sha256_hex (ip_libs D) record_bytes)),
              (''record_bytes'', VStr (string_of_int (int (length record_bytes)))),
              (''raw_bytes'', VStr (string_of_int (int (length raw_bytes))))]\<rparr>)))))"

definition dispatch_in_process :: "in_process \<Rightarrow> JobRecord \<Rightarrow> untyped_result result" where
  "dispatch_in_process D job =
     andthen (dispatch_record D job) (\<lambda>(record, raw_payload).
     andthen (canonical_json_bytes (ip_libs D) (VDict record)) (\<lambda>record_bytes.
     andthen (canonical_json_bytes (ip_libs D) raw_payload) (\<lambda>raw_bytes.
     result_of_record D record record_bytes raw_bytes)))"


section \<open>Well-typed results\<close>

lemma get_item_str [simp]:
  "get_item (dict_set (VStr k) v d) k' = (if k = k' then Inr v else get_item d k')"
  by (simp add: get_item_def lookup_def)

definition hashed :: "libs \<Rightarrow> string \<Rightarrow> bool" where
  "hashed L h \<longleftrightarrow> (\<exists>b. h = ''sha256:'' @ sha256_hex L b)"

lemma hashedI [intro]: "hashed L (''sha256:'' @ sha256_hex L b)"
  by (auto simp: hashed_def)

lemmas hashed_text [simp] = hashedI [simplified]

lemma hashed_shape: "hashed L h \<Longrightarrow> \<forall>b. hex_run 64 (sha256_hex L b) \<Longrightarrow> re_dollar sha256_text h"
  by (rule re_dollar_self) (auto simp: hashed_def sha256_text_def starts_with_def)

lemma load_spec_hashed: "load_spec L f = Inr spec \<Longrightarrow> hashed L (spec_hash spec)"
proof -
  assume "load_spec L f = Inr spec"
  then obtain m where "compute_spec_hash L m = Inr (spec_hash spec)"
    by (auto simp: load_spec_def result_simps split: option.splits pyval.splits dest!: spec_from_mapping_hash)
  then obtain x where "Inr (''sha256:'' @ sha256_hex L x) = (Inr (spec_hash spec) :: string result)"
    unfolding compute_spec_hash_def andthen_eq_Inr by blast
  then show ?thesis unfolding hashed_def sum.inject by (intro exI [of _ x]) (rule sym)
qed

lemma score_fields_items:
  "get_item (score_record_fields spec ms t repo mode sha ts) ''score'' = Inr (VStr t)"
  "get_item (score_record_fields spec ms t repo mode sha ts) ''spec_hash'' = Inr (VStr (spec_hash spec))"
  by (simp_all add: score_record_fields_def get_item_def lookup_def)

lemma build_items:
  assumes "build_score_record L spec raws repo mode sha ts = Inr r"
  obtains t ms h where "get_item r ''score'' = Inr (VStr t)" "get_item r ''spec_hash'' = Inr (VStr (spec_hash spec))"
    "get_item r ''metrics'' = Inr (metrics_value ms)"
    "get_item r ''tool_digests'' = Inr (str_dict (map (\<lambda>(k, d). (k, VStr d)) (sort_key fst (tool_digests spec))))"
    "get_item r ''record_hash'' = Inr (VStr h)" "hashed L h" "commit_sha_ok sha"
proof -
  from assms obtain ms score t b where
    r: "r = dict_set (VStr ''record_hash'') (VStr (''sha256:'' @ sha256_hex L b))
      (score_record_fields spec ms t repo mode sha ts)" and "commit_sha_ok sha"
    by (auto simp: build_score_record_def compute_record_hash_def result_simps Let_def split: if_splits prod.splits)
  then show ?thesis by (intro that [of t ms "''sha256:'' @ sha256_hex L b"]) (auto simp: score_fields_items score_fields_get)
qed

lemma typed_metrics: "\<exists>d. dict_of Some (metrics_value ms) = Some d"
  unfolding metrics_value_def by (subst dict_of_str_dict) auto

lemma typed_digests: "dict_of as_text (str_dict (map (\<lambda>(k, d). (k, VStr d)) ds)) = Some ds"
  by (subst dict_of_str_dict [where h = "\<lambda>v. v"]) auto

lemma typed_sidecars:
  "dict_of as_text (str_dict [(a, VStr x), (b, VStr y), (c, VStr z)]) = Some [(a, x), (b, y), (c, z)]"
  by (simp add: dict_of_def str_dict_def)

lemma result_of_built:
  assumes "build_score_record (ip_libs D) spec raws repo mode sha ts = Inr r"
  obtains u t where "result_of_record D r rb pb = Inr u" "typed_result u = Some t"
    "get_item r ''record_hash'' = Inr (VStr (dr_record_hash t))" "hashed (ip_libs D) (dr_record_hash t)"
    "get_item r ''score'' = Inr (VStr (dr_score t))" "dr_spec_hash t = spec_hash spec"
    "dr_tool_digests t = sort_key fst (tool_digests spec)"
proof -
  from build_items [OF assms] obtain t ms h where
    items: "get_item r ''score'' = Inr (VStr t)" "get_item r ''spec_hash'' = Inr (VStr (spec_hash spec))"
    "get_item r ''metrics'' = Inr (metrics_value ms)"
    "get_item r ''tool_digests'' = Inr (str_dict (map (\<lambda>(k, d). (k, VStr d)) (sort_key fst (tool_digests spec))))"
    "get_item r ''record_hash'' = Inr (VStr h)" and h: "hashed (ip_libs D) h" .
  obtain d where d: "dict_of Some (metrics_value ms) = Some d" using typed_metrics by blast
  let ?sidecars = "[(''record_sha256'', ''sha256:'' @ sha256_hex (ip_libs D) rb),
    (''record_bytes'', string_of_int (int (length rb))), (''raw_bytes'', string_of_int (int (length pb)))]"
  show ?thesis
  proof (rule that)
    show "typed_result \<lparr>dr_record_hash = VStr h, dr_score = VStr t, dr_metrics = metrics_value ms,
        dr_spec_hash = VStr (spec_hash spec),
        dr_tool_digests = str_dict (map (\<lambda>(k, d). (k, VStr d)) (sort_key fst (tool_digests spec))),
        dr_sidecars = str_dict (map (\<lambda>(k, s). (k, VStr s)) ?sidecars)\<rparr>
      = Some \<lparr>dr_record_hash = h, dr_score = t, dr_metrics = d, dr_spec_hash = spec_hash spec,
        dr_tool_digests = sort_key fst (tool_digests spec), dr_sidecars = ?sidecars\<rparr>"
      by (simp add: typed_result_def d typed_digests typed_sidecars)
  qed (simp_all add: result_of_record_def items h)
qed

text \<open>C31: Whatever the in-process dispatcher returns is typed as the annotations of
  \<open>DispatchResult\<close> say, and comes from a record that verifies: its \<open>record_hash\<close> and \<open>spec_hash\<close>
  have the shape \<open>sha256:\<close> and 64 hexadecimal digits that \<open>GET /v1/records\<close> demands, and the tool
  digests are those of the spec.\<close>

theorem in_process_result_typed:
  assumes "dispatch_in_process D job = Inr u" "\<forall>b. hex_run 64 (sha256_hex (ip_libs D) b)"
  shows "\<exists>t record payload spec. typed_result u = Some t
    \<and> load_spec (ip_libs D) (ip_spec_file D) = Inr spec \<and> dispatch_record D job = Inr (record, payload)
    \<and> verify_record_hash (ip_libs D) record = Inr (True, [])
    \<and> get_item record ''record_hash'' = Inr (VStr (dr_record_hash t)) \<and> re_dollar sha256_text (dr_record_hash t)
    \<and> dr_spec_hash t = spec_hash spec \<and> re_dollar sha256_text (dr_spec_hash t)
    \<and> dr_tool_digests t = sort_key fst (tool_digests spec) \<and> commit_sha_ok (job_commit_sha job)"
proof -
  from assms(1) obtain rcd payload rb pb where
    rcd: "dispatch_record D job = Inr (rcd, payload)" and res: "result_of_record D rcd rb pb = Inr u"
    by (auto simp: dispatch_in_process_def result_simps)
  from rcd obtain spec raws ts where
    spec: "load_spec (ip_libs D) (ip_spec_file D) = Inr spec"
    and built: "build_score_record (ip_libs D) spec raws (job_repo_url job) ''repo'' (job_commit_sha job) ts = Inr rcd"
    by (auto simp: dispatch_record_def result_simps)
  from result_of_built [OF built, of rb pb] res obtain t where
    t: "typed_result u = Some t" "get_item rcd ''record_hash'' = Inr (VStr (dr_record_hash t))"
      "hashed (ip_libs D) (dr_record_hash t)" "dr_spec_hash t = spec_hash spec"
      "dr_tool_digests t = sort_key fst (tool_digests spec)" by (metis sum.inject(2))
  have "commit_sha_ok (job_commit_sha job)" using build_items [OF built] by blast
  with t spec rcd build_verifies [OF built] hashed_shape [OF t(3) assms(2)]
    hashed_shape [OF load_spec_hashed [OF spec] assms(2)]
  show ?thesis by (intro exI [of _ t] exI [of _ rcd] exI [of _ payload] exI [of _ spec]) simp
qed


definition sample_spec_libs :: libs where
  "sample_spec_libs = sample_libs\<lparr>yaml_safe_load := (\<lambda>b. Some (VDict (shipped_mapping ''0.30'')))\<rparr>"

definition sample_in_process :: in_process where
  "sample_in_process =
     \<lparr>ip_libs = sample_spec_libs, ip_parsers = sample_parsers, ip_binaries = (\<lambda>p. None), ip_registry = None,
       ip_spec_file = Inr ''spec'', ip_repo_clone = Some (\<lambda>url sha dest. Inr [dest, ''node_modules'']), ip_tmp = ''t'',
       ip_listing = (\<lambda>p. []), ip_read_text = (\<lambda>p. Inr ''''), ip_now = Datetime 2026 1 1 0 0 0 0\<rparr>"

definition small_job :: JobRecord where
  "small_job =
     \<lparr>job_id = 1, job_tenant = ''acme'', job_repo_url = ''https://x/r'', job_commit_sha = replicate 40 (CHR ''a''),
       job_spec_ref = ''s'', job_status = QUEUED, job_record_hash = None, job_score = None, job_error = None,
       job_sidecars = None, job_created_at = Datetime 2026 1 1 0 0 0 0, job_updated_at = Datetime 2026 1 1 0 0 0 0\<rparr>"

lemma plain_spec_cong:
  "weights s = weights s' \<Longrightarrow> normalisation s = normalisation s' \<Longrightarrow> decimal_places s = decimal_places s' \<Longrightarrow>
   plain_spec k s \<longleftrightarrow> plain_spec k s'"
  by (simp add: plain_spec_def weight_of_def rule_of_def)

lemma spec_from_mapping_yaml [simp]:
  "spec_from_mapping (L\<lparr>yaml_safe_load := f\<rparr>) m = spec_from_mapping L m"
proof -
  have "compute_spec_hash (L\<lparr>yaml_safe_load := f\<rparr>) m = compute_spec_hash L m"
    by (simp add: compute_spec_hash_def)
  then show ?thesis by (simp only: spec_from_mapping_def)
qed

lemma zeros_plain: "plain_metrics (as_raw (map (\<lambda>m. (m, ''0'')) METRIC_NAMES))"
proof -
  have "string_of_int 0 = ''0''" by (simp add: string_of_int_def string_of_nat.simps digit_char_def)
  with measured_plain(1) [of "[]"] show ?thesis by (simp add: metric_max_def)
qed

lemma sample_spec_loads:
  obtains s where "load_spec sample_spec_libs (Inr ''spec'') = Inr s" "plain_spec 4 s"
    "get_key (raw s) ''git_min_version'' = VNone"
proof -
  obtain s where s: "spec_from_mapping sample_libs (shipped_mapping ''0.30'') = Inr s"
    "weights s = shipped_weights" "normalisation s = shipped_rules" "decimal_places s = VInt 4"
    using shipped_accepted by blast
  have "load_spec sample_spec_libs (Inr ''spec'') = Inr s"
    using s(1) by (simp add: load_spec_def sample_spec_libs_def)
  moreover have "plain_spec 4 s"
    using shipped_plain s(2-4) plain_spec_cong [of s shipped_spec 4] by (simp add: shipped_spec_def)
  moreover have "raw s = shipped_mapping ''0.30''" using s(1) spec_from_mapping_wf by blast
  then have "get_key (raw s) ''git_min_version'' = VNone" by (simp add: shipped_mapping_def get_key_def)
  ultimately show ?thesis by (rule that)
qed

lemma sample_spec_json: "canonical_json_bytes sample_spec_libs v = Inr (py_repr v)"
  by (simp add: sample_spec_libs_def sample_json)

lemma sample_analysis:
  obtains p where "fst (analyse_repo sample_spec_libs sample_parsers (\<lambda>p. None) None [''t'', ''node_modules'']
      [] (\<lambda>p. Inr '''') None None) = Inr (map (\<lambda>m. (m, ''0'')) METRIC_NAMES, p)"
  using repo_below_skipped_dir_is_empty [of "[''t'', ''node_modules'']" "[]" "''node_modules''"
      sample_spec_libs sample_parsers "\<lambda>p. None" None "\<lambda>p. Inr ''''" None]
  by (auto simp: listing_ok_def SKIP_DIRS_def)

lemma sample_built:
  assumes "plain_spec 4 s" "mode \<in> {''repo'', ''commit''}"
  obtains r where "build_score_record sample_spec_libs s (as_raw (map (\<lambda>m. (m, ''0'')) METRIC_NAMES))
      repo mode (replicate 40 (CHR ''a'')) ts = Inr r"
proof -
  have sha: "hex_run 40 (replicate 40 (CHR ''a''))"
    by (simp add: hex_run_def is_hex_lower_def list_all_iff)
  have "\<forall>ms. \<exists>b. canonical_json_bytes sample_spec_libs (metrics_value ms) = Inr b"
    "\<forall>ds. \<exists>b. canonical_json_bytes sample_spec_libs (str_dict (map (\<lambda>(k, d). (k, VStr d)) ds)) = Inr b"
    by (simp_all add: sample_spec_json)
  from build_total [OF assms(1) zeros_plain assms(2) sha this] that show ?thesis by blast
qed

lemma sample_dispatch: "\<exists>u. dispatch_in_process sample_in_process small_job = Inr u"
proof -
  obtain s where s: "load_spec sample_spec_libs (Inr ''spec'') = Inr s" "plain_spec 4 s" by (rule sample_spec_loads)
  obtain p where an: "fst (analyse_repo sample_spec_libs sample_parsers (\<lambda>p. None) None [''t'', ''node_modules'']
      [] (\<lambda>p. Inr '''') None None) = Inr (map (\<lambda>m. (m, ''0'')) METRIC_NAMES, p)"
    by (rule sample_analysis)
  obtain r where r: "build_score_record sample_spec_libs s (as_raw (map (\<lambda>m. (m, ''0'')) METRIC_NAMES))
      ''https://x/r'' ''repo'' (replicate 40 (CHR ''a'')) (isoformat (Datetime 2026 1 1 0 0 0 0)) = Inr r"
    by (rule sample_built [OF s(2) insertI1])
  have libs: "ip_libs sample_in_process = sample_spec_libs" by (simp add: sample_in_process_def)
  have rcd: "dispatch_record sample_in_process small_job = Inr (r, payload_value p)"
    using s(1) an r
    by (simp add: dispatch_record_def sample_in_process_def small_job_def clone_with_def)
  obtain u where "result_of_record sample_in_process r (py_repr (VDict r)) (py_repr (payload_value p)) = Inr u"
    using result_of_built [of sample_in_process, OF r [folded libs]] by metis
  then show ?thesis by (simp add: dispatch_in_process_def rcd libs sample_spec_json)
qed

lemma sample_spec_sha: "hex_run 64 (sha256_hex sample_spec_libs b)"
  using sample_sha_hex by (simp add: sample_spec_libs_def)

lemma in_process_result_typed_witness:
  "\<exists>u t. dispatch_in_process sample_in_process small_job = Inr u \<and> typed_result u = Some t
    \<and> re_dollar sha256_text (dr_record_hash t) \<and> re_dollar sha256_text (dr_spec_hash t)"
proof -
  obtain u where u: "dispatch_in_process sample_in_process small_job = Inr u" using sample_dispatch by blast
  have "\<forall>b. hex_run 64 (sha256_hex (ip_libs sample_in_process) b)"
    by (simp add: sample_in_process_def sample_spec_sha)
  from in_process_result_typed [OF u this] u show ?thesis by blast
qed

section \<open>The worker and the command line agree\<close>

text \<open>The dispatcher \<open>D\<close> serves a job from the tree that a run of \<open>cce score\<close> in the world \<open>W\<close>
  analyses: same libraries, analyzers, spec file and files.\<close>

definition serves :: "in_process \<Rightarrow> world \<Rightarrow> string \<Rightarrow> JobRecord \<Rightarrow> bool" where
  "serves D W dir job \<longleftrightarrow>
     ip_libs D = w_libs W \<and> ip_parsers D = w_parsers W \<and> ip_binaries D = w_binaries W
   \<and> ip_registry D = w_registry W \<and> ip_spec_file D = w_spec_file W \<and> ip_read_text D = w_read_text W
   \<and> clone_with D (job_repo_url job) (job_commit_sha job) (ip_tmp D) = Inr (w_parts W dir)
   \<and> ip_listing D (w_parts W dir) = w_listing W dir"

lemma analysis_without_digests:
  "fst (analyse_repo L P fs glob repo listing rd reg ds) = Inr x \<Longrightarrow>
   fst (analyse_repo L P fs glob repo listing rd reg None) = Inr x"
  by (auto simp: analyse_repo_def parse_repo_def result_simps split: prod.splits option.splits)

lemma record_hash_where_when:
  assumes "build_score_record L spec raws repo mode sha ts = Inr r" "mode' \<in> {''repo'', ''commit''}"
  shows "\<exists>r' h. build_score_record L spec raws repo' mode' sha ts' = Inr r'
    \<and> get_item r ''record_hash'' = Inr (VStr h) \<and> get_item r' ''record_hash'' = Inr (VStr h)
    \<and> get_item r' ''score'' = get_item r ''score''"
proof -
  have same: "compute_record_hash L (score_record_fields spec ms t repo' mode' sha ts')
      = compute_record_hash L (score_record_fields spec ms t repo mode sha ts)" for ms t
    unfolding compute_record_hash_def by (subst hash_preimage_cong) (simp_all add: score_fields_get)
  from assms(1) obtain ms score t h where
    m: "score_metrics spec raws = Inr (ms, score)" "decimal_string score (decimal_places spec) = Inr t"
      "compute_record_hash L (score_record_fields spec ms t repo mode sha ts) = Inr h" "commit_sha_ok sha"
    and r: "r = dict_set (VStr ''record_hash'') (VStr h) (score_record_fields spec ms t repo mode sha ts)"
    by (auto simp: build_score_record_def result_simps Let_def split: if_splits)
  have "build_score_record L spec raws repo' mode' sha ts'
      = Inr (dict_set (VStr ''record_hash'') (VStr h) (score_record_fields spec ms t repo' mode' sha ts'))"
    using m assms(2) by (simp add: build_score_record_def same Let_def)
  then show ?thesis by (auto simp: r score_fields_items)
qed


definition sample_world :: world where
  "sample_world =
     \<lparr>w_libs = sample_spec_libs, w_parsers = sample_parsers, w_binaries = (\<lambda>p. None), w_registry = None,
       w_spec_file = Inr ''spec'', w_require_isolated = None, w_connects = False, w_git = (\<lambda>h i. Exit 0 [] []),
       w_local = Some \<lparr>root_resolved = [''repo''], gitmodules = None, tree = Directory []\<rparr>, w_tmpdir = ''/tmp'',
       w_parts = (\<lambda>d. [''t'', ''node_modules'']), w_listing = (\<lambda>d. []), w_read_text = (\<lambda>p. Inr ''''),
       w_now = ''2026-01-01T00:00:00Z'', w_mkdir = Inr (), w_faults = no_faults\<rparr>"

definition sample_args :: score_args where
  "sample_args =
     \<lparr>arg_repo = ''/repo'', arg_mode = ''commit'', arg_commit = Some (replicate 40 (CHR ''a'')), arg_out = ''/o'',
       arg_verify_digests = ''false'', arg_assert_network_isolated = False\<rparr>"

lemma sample_prepared:
  "fst (prepared_repo (w_git sample_world) [] (w_local sample_world) (w_tmpdir sample_world) (arg_repo sample_args)
     (arg_mode sample_args) (arg_commit sample_args) None) = Inr (''/repo'', replicate 40 (CHR ''a''))"
  by (simp add: sample_world_def sample_args_def prepared_repo_def resolve_local_commit_def run_git_def Let_def
      assert_local_safety_def dirnames_def filenames_def commit_ref_ok_def re_dollar_def list_all_iff is_hex_lower_def)

lemma sample_run: "exit_code (score_command sample_world sample_args Map.empty) = Inr 0"
proof -
  obtain s where s: "load_spec sample_spec_libs (Inr ''spec'') = Inr s" "plain_spec 4 s"
    "get_key (raw s) ''git_min_version'' = VNone" by (rule sample_spec_loads)
  obtain p where an: "fst (analyse_repo sample_spec_libs sample_parsers (\<lambda>p. None) None [''t'', ''node_modules'']
      [] (\<lambda>p. Inr '''') None None) = Inr (map (\<lambda>m. (m, ''0'')) METRIC_NAMES, p)"
    by (rule sample_analysis)
  then obtain ctx where parse: "fst (parse_repo sample_spec_libs sample_parsers (\<lambda>p. None) None
      [''t'', ''node_modules''] [] (\<lambda>p. Inr '''') None None) = Inr ctx"
    and measure: "measure_metrics ctx = Inr (map (\<lambda>m. (m, ''0'')) METRIC_NAMES, p)"
    by (auto simp: analyse_repo_def result_simps split: prod.splits)
  obtain r where r: "build_score_record sample_spec_libs s (as_raw (map (\<lambda>m. (m, ''0'')) METRIC_NAMES))
      ''/repo'' ''commit'' (replicate 40 (CHR ''a'')) ''2026-01-01T00:00:00Z'' = Inr r"
    by (rule sample_built [OF s(2) insertI2 [OF insertI1]])
  obtain h where h: "get_item r ''record_hash'' = Inr (VStr h)" using build_items [OF r] by blast
  obtain st' where w: "write_outputs sample_spec_libs no_faults ''/o'' r (payload_value p) Map.empty = (Inr (), st')"
    by (simp add: write_outputs_def h sample_spec_json Let_def then_st_def atomic_write_def no_faults_def)
  have written: "exit_code (write_stage sample_world sample_args
      [''cce.load_spec'', ''cce.clone'', ''cce.parse'', ''cce.measure'', ''cce.score''] r (payload_value p) Map.empty) = Inr 0"
    by (simp add: write_stage_def sample_world_def sample_args_def w STAGE_ORDER_def)
  have "exit_code (record_stage sample_world sample_args s (replicate 40 (CHR ''a''))
      [''cce.load_spec'', ''cce.clone'', ''cce.parse'', ''cce.measure''] (map (\<lambda>m. (m, ''0'')) METRIC_NAMES) p Map.empty) = Inr 0"
    using r written by (simp add: record_stage_def sample_world_def sample_args_def)
  then have "exit_code (analysis_stage sample_world sample_args s ''/repo'' (replicate 40 (CHR ''a''))
      [''cce.load_spec'', ''cce.clone''] Map.empty) = Inr 0"
    using parse measure by (simp add: analysis_stage_def sample_world_def sample_args_def parse_bool_def Let_def)
  then have "exit_code (clone_stage sample_world sample_args s [''cce.load_spec''] Map.empty) = Inr 0"
    using sample_prepared s(3) by (simp add: clone_stage_def str_or_none_def)
  then show ?thesis
    using s(1) by (simp add: score_command_def sample_world_def sample_args_def parse_bool_def Let_def)
qed


end
