(* ===== verification/PyJson.thy ===== *)
theory PyJson
  imports Positional
begin

text \<open>
  \<open>json.dumps(v, separators=(",", ":"))\<close>, with and without \<open>sort_keys\<close>, as the token issuer and
  the ClickHouse adapter use it; the dictionaries they pass have string keys. \<open>json.loads\<close> is
  the parameter \<open>json_loads\<close> of \<open>libs\<close>; the reader \<open>json_read\<close> below is a concrete
  instance that reads back every text the printer writes, which discharges the round-trip law
  where it is assumed.
\<close>

section \<open>Printing\<close>

definition json_char :: "char \<Rightarrow> string" where
  "json_char c =
     (let n = (of_char c :: nat)
      in if n = 34 \<or> n = 92 then [CHR 0x5C, c]
         else if n = 10 then [CHR 0x5C, CHR ''n'']
         else if n = 13 then [CHR 0x5C, CHR ''r'']
         else if n = 9 then [CHR 0x5C, CHR ''t'']
         else if n = 8 then [CHR 0x5C, CHR ''b'']
         else if n = 12 then [CHR 0x5C, CHR ''f'']
         else if n < 32 \<or> 126 < n then CHR 0x5C # CHR ''u'' # hex_field 4 n
         else [c])"

definition json_string :: "string \<Rightarrow> string" where
  "json_string s = CHR 0x22 # concat (map json_char s) @ [CHR 0x22]"

definition key_text :: "pyval \<Rightarrow> string" where
  "key_text k = (case k of VStr s \<Rightarrow> s | _ \<Rightarrow> [])"

definition json_items :: "bool \<Rightarrow> mapping_value \<Rightarrow> mapping_value" where
  "json_items sorting kvs = (if sorting then sort_key (\<lambda>(k, v). key_text k) kvs else kvs)"

lemma set_json_items [simp]: "set (json_items sorting kvs) = set kvs"
  by (simp add: json_items_def)

lemma item_size: "(k, v) \<in> set kvs \<Longrightarrow> size v < size (VDict kvs)"
  by (induction kvs) auto

lemma element_size: "v \<in> set vs \<Longrightarrow> size v < size (VList vs)"
  by (induction vs) auto

function (sequential) json_dumps :: "bool \<Rightarrow> pyval \<Rightarrow> string result" where
  "json_dumps sorting VNone = Inr ''null''"
| "json_dumps sorting (VBool b) = Inr (if b then ''true'' else ''false'')"
| "json_dumps sorting (VInt i) = Inr (string_of_int i)"
| "json_dumps sorting (VFloat t) = Inr t"
| "json_dumps sorting (VStr s) = Inr (json_string s)"
| "json_dumps sorting (VList vs) =
     andthen (each (json_dumps sorting) vs) (\<lambda>ts. Inr (''['' @ join '','' ts @ '']''))"
| "json_dumps sorting (VDict kvs) =
     andthen (each (\<lambda>(k, v).
         case k of
           VStr s \<Rightarrow> andthen (json_dumps sorting v) (\<lambda>t. Inr (json_string s @ '':'' @ t))
         | _ \<Rightarrow> Inl (TypeError ''keys must be str''))
       (json_items sorting kvs)) (\<lambda>ts. Inr (''{'' @ join '','' ts @ ''}''))"
| "json_dumps sorting (VOther t) = Inl (TypeError ''not JSON serializable'')"
  by pat_completeness auto

termination
  by (relation "measure (\<lambda>(b, v). size v)") (auto dest: item_size element_size)

section \<open>Reading\<close>

definition nibble :: "char \<Rightarrow> nat" where
  "nibble c = (if is_digit c then digit_val c else of_char c - 87)"

definition unescape :: "char \<Rightarrow> char" where
  "unescape e =
     (if e = CHR ''n'' then CHR 0x0A else if e = CHR ''r'' then CHR 0x0D else if e = CHR ''t'' then CHR 0x09
      else if e = CHR ''b'' then CHR 0x08 else if e = CHR ''f'' then CHR 0x0C else e)"

fun read_string :: "string \<Rightarrow> (string \<times> string) option" where
  "read_string [] = None"
| "read_string (c # cs) =
     (if c = CHR 0x22 then Some ([], cs)
      else if c = CHR 0x5C then
        (case cs of
           [] \<Rightarrow> None
         | e # es \<Rightarrow>
             if e = CHR ''u'' then
               (case es of
                  a # b # x # y # rest \<Rightarrow>
                    map_option (apfst (Cons (char_of (16 * nibble x + nibble y)))) (read_string rest)
                | _ \<Rightarrow> None)
             else map_option (apfst (Cons (unescape e))) (read_string es))
      else map_option (apfst (Cons c)) (read_string cs))"

definition read_int :: "string \<Rightarrow> (pyval \<times> string) option" where
  "read_int s =
     (let digits = (\<lambda>t. (takeWhile is_digit t, dropWhile is_digit t))
      in if starts_with ''-'' s
         then (let (d, r) = digits (drop 1 s) in if d = [] then None else Some (VInt (- int (nat_of_digits d)), r))
         else (let (d, r) = digits s in if d = [] then None else Some (VInt (int (nat_of_digits d)), r)))"

fun read_value :: "nat \<Rightarrow> string \<Rightarrow> (pyval \<times> string) option"
  and read_elements :: "nat \<Rightarrow> string \<Rightarrow> (pyval list \<times> string) option"
  and read_members :: "nat \<Rightarrow> string \<Rightarrow> (mapping_value \<times> string) option" where
  "read_value 0 s = None"
| "read_value (Suc n) s =
     (if starts_with ''null'' s then Some (VNone, drop 4 s)
      else if starts_with ''true'' s then Some (VBool True, drop 4 s)
      else if starts_with ''false'' s then Some (VBool False, drop 5 s)
      else if starts_with ''[]'' s then Some (VList [], drop 2 s)
      else if starts_with ''{}'' s then Some (VDict [], drop 2 s)
      else if starts_with [CHR 0x22] s then map_option (apfst VStr) (read_string (drop 1 s))
      else if starts_with ''['' s then map_option (apfst VList) (read_elements n (drop 1 s))
      else if starts_with ''{'' s then map_option (apfst VDict) (read_members n (drop 1 s))
      else read_int s)"
| "read_elements 0 s = None"
| "read_elements (Suc n) s =
     (case read_value n s of
        None \<Rightarrow> None
      | Some (v, r) \<Rightarrow>
          if starts_with '','' r then map_option (apfst (Cons v)) (read_elements n (drop 1 r))
          else if starts_with '']'' r then Some ([v], drop 1 r) else None)"
| "read_members 0 s = None"
| "read_members (Suc n) s =
     (case (if starts_with [CHR 0x22] s then read_string (drop 1 s) else None) of
        None \<Rightarrow> None
      | Some (k, r) \<Rightarrow>
          if \<not> starts_with '':'' r then None
          else (case read_value n (drop 1 r) of
                  None \<Rightarrow> None
                | Some (v, r') \<Rightarrow>
                    if starts_with '','' r' then map_option (apfst (Cons (VStr k, v))) (read_members n (drop 1 r'))
                    else if starts_with ''}'' r' then Some ([(VStr k, v)], drop 1 r') else None))"

definition json_read :: "string \<Rightarrow> pyval option" where
  "json_read s =
     (case read_value (length s + 1) s of Some (v, []) \<Rightarrow> Some v | _ \<Rightarrow> None)"

section \<open>Reading back what was printed\<close>

lemma nibble_digit: "d < 16 \<Longrightarrow> nibble (hex_digit d) = d"
proof -
  have "\<forall>d\<in>set [0..<16]. nibble (hex_digit d) = d" by code_simp
  then show "d < 16 \<Longrightarrow> ?thesis" by auto
qed

lemma read_escaped_u:
  "read_string (CHR 0x5C # CHR ''u'' # hex_field 4 (of_char c) @ r) = map_option (apfst (Cons c)) (read_string r)"
proof -
  let ?n = "of_char c :: nat"
  have n: "?n < 256" by (rule nat_of_char_less_256)
  have "\<exists>a b. hex_field 4 ?n = [a, b, hex_digit (?n div 16 mod 16), hex_digit (?n mod 16)]"
    by (simp add: hex_field_def fixed_numeral numeral_3_eq_3)
  moreover from n have "?n div 16 mod 16 = ?n div 16"
    by (intro mod_less less_mult_imp_div_less) simp
  moreover have "char_of (16 * (?n div 16) + ?n mod 16) = c" by simp
  ultimately show ?thesis by (auto simp: nibble_digit)
qed

lemma char_codes:
  "of_char c = (34::nat) \<longleftrightarrow> c = CHR 0x22" "of_char c = (92::nat) \<longleftrightarrow> c = CHR 0x5C"
  "of_char c = (10::nat) \<longleftrightarrow> c = CHR 0x0A" "of_char c = (13::nat) \<longleftrightarrow> c = CHR 0x0D"
  "of_char c = (9::nat) \<longleftrightarrow> c = CHR 0x09" "of_char c = (8::nat) \<longleftrightarrow> c = CHR 0x08"
  "of_char c = (12::nat) \<longleftrightarrow> c = CHR 0x0C"
  using of_char_eq_iff [of c "CHR 0x22", where 'a = nat] of_char_eq_iff [of c "CHR 0x5C", where 'a = nat]
    of_char_eq_iff [of c "CHR 0x0A", where 'a = nat] of_char_eq_iff [of c "CHR 0x0D", where 'a = nat]
    of_char_eq_iff [of c "CHR 0x09", where 'a = nat] of_char_eq_iff [of c "CHR 0x08", where 'a = nat]
    of_char_eq_iff [of c "CHR 0x0C", where 'a = nat]
  by simp_all

lemma read_json_char: "read_string (json_char c @ r) = map_option (apfst (Cons c)) (read_string r)"
proof -
  let ?n = "of_char c :: nat"
  consider "?n = 34" | "?n = 92" | "?n = 10" | "?n = 13" | "?n = 9" | "?n = 8" | "?n = 12"
    | "?n \<notin> {34, 92, 10, 13, 9, 8, 12}" "?n < 32 \<or> 126 < ?n" | "?n \<notin> {34, 92}" "\<not> (?n < 32 \<or> 126 < ?n)"
    by auto
  then show ?thesis
  proof cases
    case 8
    then show ?thesis using read_escaped_u [of c r] by (simp add: json_char_def Let_def)
  next
    case 9
    then have "c \<noteq> CHR 0x22" "c \<noteq> CHR 0x5C" by auto
    with 9 show ?thesis by (simp add: json_char_def Let_def)
  qed (simp_all add: char_codes json_char_def unescape_def)
qed

lemma read_json_string: "read_string (concat (map json_char s) @ CHR 0x22 # r) = Some (s, r)"
  by (induction s) (simp_all add: read_json_char)

definition no_digit :: "string \<Rightarrow> bool" where
  "no_digit r \<longleftrightarrow> (case r of [] \<Rightarrow> True | c # cs \<Rightarrow> \<not> is_digit c)"

lemma takeWhile_json_digits:
  "no_digit r \<Longrightarrow> takeWhile is_digit (string_of_nat n @ r) = string_of_nat n"
  "no_digit r \<Longrightarrow> dropWhile is_digit (string_of_nat n @ r) = r"
  using string_of_nat_digits [of n]
  by (cases r; simp add: no_digit_def takeWhile_append dropWhile_append)+

lemma string_of_nat_hd: "\<exists>c cs. string_of_nat n = c # cs \<and> is_digit c"
  using string_of_nat_digits [of n] string_of_nat_nonempty [of n] by (cases "string_of_nat n") auto

lemma read_int_text: "no_digit r \<Longrightarrow> read_int (string_of_int i @ r) = Some (VInt i, r)"
proof (cases "i < 0")
  case True
  assume "no_digit r"
  with True show ?thesis
    by (simp add: read_int_def string_of_int_def starts_with_def takeWhile_json_digits Let_def)
next
  case False
  assume r: "no_digit r"
  obtain c cs where c: "string_of_nat (nat i) = c # cs" "is_digit c" using string_of_nat_hd by blast
  then have "\<not> starts_with ''-'' (string_of_nat (nat i) @ r)" by (auto simp: starts_with_def is_digit_def)
  with False r show ?thesis by (simp add: read_int_def string_of_int_def takeWhile_json_digits Let_def)
qed

lemma int_text_hd: "\<exists>c cs. string_of_int i = c # cs \<and> (c = CHR ''-'' \<or> is_digit c)"
  using string_of_nat_hd [of "nat i"] by (auto simp: string_of_int_def)

text \<open>The values the printer renders without loss: no floats, string keys.\<close>

fun json_plain :: "pyval \<Rightarrow> bool" where
  "json_plain (VFloat t) \<longleftrightarrow> False"
| "json_plain (VOther t) \<longleftrightarrow> False"
| "json_plain (VList vs) \<longleftrightarrow> list_all json_plain vs"
| "json_plain (VDict kvs) \<longleftrightarrow> list_all (\<lambda>(k, v). (\<exists>s. k = VStr s) \<and> json_plain v) kvs"
| "json_plain v \<longleftrightarrow> True"

function json_norm :: "bool \<Rightarrow> pyval \<Rightarrow> pyval" where
  "json_norm sorting v =
     (case v of
        VList vs \<Rightarrow> VList (map (json_norm sorting) vs)
      | VDict kvs \<Rightarrow> VDict (map (\<lambda>(k, v). (k, json_norm sorting v)) (json_items sorting kvs))
      | _ \<Rightarrow> v)"
  by pat_completeness auto

termination
  by (relation "measure (\<lambda>(b, v). size v)") (auto dest: item_size element_size)

declare json_norm.simps [simp del]

lemma json_norm_simps [simp]:
  "json_norm b VNone = VNone" "json_norm b (VBool x) = VBool x" "json_norm b (VInt i) = VInt i"
  "json_norm b (VStr s) = VStr s" "json_norm b (VList vs) = VList (map (json_norm b) vs)"
  "json_norm b (VDict kvs) = VDict (map (\<lambda>(k, v). (k, json_norm b v)) (json_items b kvs))"
  by (simp_all add: json_norm.simps)

definition reads_back :: "bool \<Rightarrow> pyval \<Rightarrow> bool" where
  "reads_back b v \<longleftrightarrow> (\<forall>t n r. json_dumps b v = Inr t \<longrightarrow> length t < n \<longrightarrow> no_digit r \<longrightarrow>
     t \<noteq> [] \<and> hd t \<noteq> CHR '']'' \<and> read_value n (t @ r) = Some (json_norm b v, r))"

lemma reads_backD:
  "reads_back b v \<Longrightarrow> json_dumps b v = Inr t \<Longrightarrow>
     t \<noteq> [] \<and> hd t \<noteq> CHR '']'' \<and> read_value (Suc (length t)) t = Some (json_norm b v, [])"
  unfolding reads_back_def
  by (drule spec [where x = t], drule spec [where x = "Suc (length t)"], drule spec [where x = "[]"])
     (simp add: no_digit_def)

lemma join_Cons: "join sep (x # xs) = (if xs = [] then x else x @ sep @ join sep xs)"
  by (cases xs) auto

lemma no_digit_punctuation [simp]: "no_digit (CHR '','' # r)" "no_digit (CHR '']'' # r)" "no_digit (CHR ''}'' # r)"
  by (simp_all add: no_digit_def is_digit_def)

lemma read_elements_text:
  assumes "vs \<noteq> []" "\<forall>v\<in>set vs. reads_back b v" "each (json_dumps b) vs = Inr ts"
    and "length (join '','' ts) + 1 < n"
  shows "read_elements n (join '','' ts @ CHR '']'' # r) = Some (map (json_norm b) vs, r)"
  using assms
proof (induction vs arbitrary: ts n)
  case Nil
  then show ?case by simp
next
  case (Cons v vs)
  from Cons.prems(3) obtain t ts' where t: "json_dumps b v = Inr t" "each (json_dumps b) vs = Inr ts'" "ts = t # ts'"
    by (auto simp: result_simps)
  from Cons.prems(4) obtain m where n: "n = Suc m" by (cases n) auto
  from Cons.prems(2) have rb: "reads_back b v" by simp
  show ?case
  proof (cases "vs = []")
    case True
    with t have "ts' = []" by simp
    with True t n rb Cons.prems(4) show ?thesis
      by (auto simp: reads_back_def starts_with_def)
  next
    case False
    with t(2) have ne: "ts' \<noteq> []" by (metis each_length length_0_conv)
    with t n Cons.prems(4) have len: "length t < m" "length (join '','' ts') + 1 < m"
      by (simp_all add: join_Cons)
    have "read_value m (t @ CHR '','' # join '','' ts' @ CHR '']'' # r)
        = Some (json_norm b v, CHR '','' # join '','' ts' @ CHR '']'' # r)"
      using rb t(1) len(1) by (simp add: reads_back_def)
    moreover have "read_elements m (join '','' ts' @ CHR '']'' # r) = Some (map (json_norm b) vs, r)"
      using Cons.IH [OF False _ t(2) len(2)] Cons.prems(2) by simp
    ultimately show ?thesis using ne t n by (simp add: join_Cons starts_with_def)
  qed
qed

abbreviation dump_item :: "bool \<Rightarrow> pyval \<times> pyval \<Rightarrow> string result" where
  "dump_item b \<equiv> \<lambda>(k, v). case k of
     VStr s \<Rightarrow> andthen (json_dumps b v) (\<lambda>t. Inr (json_string s @ '':'' @ t))
   | _ \<Rightarrow> Inl (TypeError ''keys must be str'')"

lemma read_members_text:
  assumes "kvs \<noteq> []" "\<forall>(k, v)\<in>set kvs. reads_back b v" "each (dump_item b) kvs = Inr ts"
    and "length (join '','' ts) + 1 < n"
  shows "read_members n (join '','' ts @ CHR ''}'' # r) = Some (map (\<lambda>(k, v). (k, json_norm b v)) kvs, r)"
  using assms
proof (induction kvs arbitrary: ts n)
  case Nil
  then show ?case by simp
next
  case (Cons kv kvs)
  obtain k v where kv: "kv = (k, v)" by (cases kv)
  from Cons.prems(3) kv obtain s t ts' where t: "k = VStr s" "json_dumps b v = Inr t"
    "each (dump_item b) kvs = Inr ts'" "ts = (json_string s @ '':'' @ t) # ts'"
    by (auto simp: result_simps)
  from Cons.prems(4) obtain m where n: "n = Suc m" by (cases n) auto
  from Cons.prems(2) kv have rb: "reads_back b v" by simp
  have str: "starts_with [CHR 0x22] (json_string s @ x)" "read_string (drop 1 (json_string s @ x)) = Some (s, x)" for x
    using read_json_string by (simp_all add: json_string_def starts_with_def)
  show ?case
  proof (cases "kvs = []")
    case True
    with t have "ts' = []" by simp
    moreover have "read_value m (t @ CHR ''}'' # r) = Some (json_norm b v, CHR ''}'' # r)"
      using rb t Cons.prems(4) n \<open>ts' = []\<close> by (simp add: reads_back_def json_string_def)
    ultimately show ?thesis using True t n kv str by (simp add: starts_with_def)
  next
    case False
    with t(3) have ne: "ts' \<noteq> []" by (metis each_length length_0_conv)
    with t n Cons.prems(4) have len: "length t < m" "length (join '','' ts') + 1 < m"
      by (simp_all add: join_Cons)
    have "read_value m (t @ CHR '','' # join '','' ts' @ CHR ''}'' # r)
        = Some (json_norm b v, CHR '','' # join '','' ts' @ CHR ''}'' # r)"
      using rb t(2) len(1) by (simp add: reads_back_def)
    moreover have "read_members m (join '','' ts' @ CHR ''}'' # r) = Some (map (\<lambda>(k, v). (k, json_norm b v)) kvs, r)"
      using Cons.IH [OF False _ t(3) len(2)] Cons.prems(2) by simp
    ultimately show ?thesis using ne t n kv str by (simp add: join_Cons starts_with_def)
  qed
qed

lemma reads_back_list:
  assumes "\<And>v. v \<in> set vs \<Longrightarrow> reads_back b v"
  shows "reads_back b (VList vs)"
  unfolding reads_back_def
proof (intro allI impI)
  fix t n r assume a: "json_dumps b (VList vs) = Inr t" "length t < n" "no_digit r"
  then obtain ts m where t: "each (json_dumps b) vs = Inr ts" "t = ''['' @ join '','' ts @ '']''" "n = Suc m"
    by (cases n) (auto simp: result_simps)
  show "t \<noteq> [] \<and> hd t \<noteq> CHR '']'' \<and> read_value n (t @ r) = Some (json_norm b (VList vs), r)"
  proof (cases vs)
    case Nil
    with t show ?thesis by (simp add: starts_with_def)
  next
    case (Cons v vs')
    with t(1) obtain t1 ts1 where ts: "ts = t1 # ts1" "json_dumps b v = Inr t1" by (auto simp: result_simps)
    from assms [of v] Cons have "reads_back b v" by simp
    from reads_backD [OF this ts(2)] have "t1 \<noteq> [] \<and> hd t1 \<noteq> CHR '']''" by simp
    then have "\<not> starts_with ''[]'' (t @ r)"
      using t(2) ts(1) by (cases t1) (auto simp: starts_with_def join_Cons)
    moreover have "read_elements m (join '','' ts @ CHR '']'' # r) = Some (map (json_norm b) vs, r)"
      using Cons t a(2) assms by (intro read_elements_text) auto
    ultimately show ?thesis using t by (simp add: starts_with_def)
  qed
qed

lemma reads_back_dict:
  assumes "\<And>k v. (k, v) \<in> set kvs \<Longrightarrow> reads_back b v"
  shows "reads_back b (VDict kvs)"
  unfolding reads_back_def
proof (intro allI impI)
  fix t n r assume a: "json_dumps b (VDict kvs) = Inr t" "length t < n" "no_digit r"
  then obtain ts m where t: "each (dump_item b) (json_items b kvs) = Inr ts" "t = ''{'' @ join '','' ts @ ''}''"
    "n = Suc m"
    by (cases n) (auto simp: result_simps)
  show "t \<noteq> [] \<and> hd t \<noteq> CHR '']'' \<and> read_value n (t @ r) = Some (json_norm b (VDict kvs), r)"
  proof (cases "json_items b kvs")
    case Nil
    then have "kvs = []" using set_json_items [of b kvs] by simp
    with Nil t show ?thesis by (simp add: starts_with_def)
  next
    case (Cons kv kvs')
    with t(1) obtain t1 ts1 where ts: "ts = t1 # ts1" "dump_item b kv = Inr t1" by (auto simp: result_simps)
    from ts(2) obtain t1' where "t1 = CHR 0x22 # t1'"
      by (auto simp: json_string_def result_simps split: prod.splits pyval.splits)
    then have "\<not> starts_with ''{}'' (t @ r)"
      using t(2) ts(1) by (simp add: starts_with_def join_Cons)
    moreover have "read_members m (join '','' ts @ CHR ''}'' # r)
        = Some (map (\<lambda>(k, v). (k, json_norm b v)) (json_items b kvs), r)"
    proof (rule read_members_text [OF _ _ t(1)])
      show "json_items b kvs \<noteq> []" using Cons by simp
      show "\<forall>(k, v)\<in>set (json_items b kvs). reads_back b v" using assms by auto
      show "length (join '','' ts) + 1 < m" using t a(2) by simp
    qed
    ultimately show ?thesis using t by (simp add: starts_with_def)
  qed
qed

lemma json_plain_reads_back: "json_plain v \<Longrightarrow> reads_back b v"
proof (induction v rule: pyval.induct)
  case (VInt i)
  obtain c cs where c: "string_of_int i = c # cs" "c = CHR ''-'' \<or> is_digit c" using int_text_hd by blast
  then have c': "c \<notin> set ''ntf[]{}'' \<and> c \<noteq> CHR 0x22" by (auto simp: is_digit_def)
  have "read_value n (string_of_int i @ r) = Some (VInt i, r)" if "0 < n" "no_digit r" for n r
    using that c' c(1) read_int_text [OF that(2), of i] by (cases n) (auto simp: starts_with_def)
  with c c' show ?case by (auto simp: reads_back_def)
next
  case (VStr s)
  have "read_value n (json_string s @ r) = Some (VStr s, r)" if "0 < n" for n r
    using that read_json_string [of s r] by (cases n) (auto simp: starts_with_def json_string_def)
  then show ?case by (auto simp: reads_back_def json_string_def)
next
  case (VList vs)
  then show ?case by (intro reads_back_list) (auto simp: list_all_iff)
next
  case (VDict kvs)
  show ?case
  proof (intro reads_back_dict)
    fix k v assume kv: "(k, v) \<in> set kvs"
    with VDict.prems have "json_plain v" by (auto simp: list_all_iff)
    moreover have "v \<in> Basic_BNFs.snds (k, v)" by simp
    ultimately show "reads_back b v" using VDict.IH(2) [OF kv] by blast
  qed
qed (auto simp: reads_back_def starts_with_def gr0_conv_Suc less_Suc_eq_0_disj Suc_less_eq2)

text \<open>\<open>json.loads(json.dumps(v))\<close> gives \<open>v\<close> back, with its keys sorted where asked for.\<close>

lemma json_read_dumps: "json_plain v \<Longrightarrow> json_dumps b v = Inr t \<Longrightarrow> json_read t = Some (json_norm b v)"
  using reads_backD [OF json_plain_reads_back] by (simp add: json_read_def)

lemma each_Inr_ex: "(\<And>x. x \<in> set xs \<Longrightarrow> \<exists>y. f x = Inr y) \<Longrightarrow> \<exists>ys. each f xs = Inr ys"
  by (induction xs) fastforce+

lemma json_dumps_plain: "json_plain v \<Longrightarrow> \<exists>t. json_dumps b v = Inr t"
proof (induction v rule: pyval.induct)
  case (VList vs)
  then have "\<exists>ts. each (json_dumps b) vs = Inr ts" by (intro each_Inr_ex) (auto simp: list_all_iff)
  then show ?case by auto
next
  case (VDict kvs)
  have "\<exists>ts. each (dump_item b) (json_items b kvs) = Inr ts"
  proof (rule each_Inr_ex)
    fix kv assume "kv \<in> set (json_items b kvs)"
    then have "kv \<in> set kvs" by (simp only: set_json_items)
    moreover obtain k v where "kv = (k, v)" by fastforce
    ultimately have kv: "kv = (k, v)" "(k, v) \<in> set kvs" by simp_all
    from kv VDict.prems obtain s where "k = VStr s" "json_plain v" by (auto simp: list_all_iff)
    moreover have "v \<in> Basic_BNFs.snds (k, v)" by simp
    ultimately show "\<exists>t. dump_item b kv = Inr t" using kv VDict.IH(2) [OF kv(2)] by fastforce
  qed
  then show ?case by auto
qed auto

section \<open>Every character the printer writes is ASCII\<close>

lemma ascii_simps [simp]: "ascii []" "ascii (c # s) \<longleftrightarrow> (of_char c :: nat) < 128 \<and> ascii s"
  "ascii (s @ t) \<longleftrightarrow> ascii s \<and> ascii t"
  by (simp_all add: ascii_def)

lemma ascii_hex_field: "ascii (hex_field n x)"
  using hex_field_lower [of n x] by (auto simp: ascii_def list_all_iff hex_lower_ascii)

lemma ascii_json_char: "ascii (json_char c)"
  by (simp add: json_char_def Let_def ascii_hex_field)

lemma ascii_json_string: "ascii (json_string s)"
  by (induction s) (simp_all add: json_string_def ascii_json_char)

lemma ascii_digits: "ascii (string_of_nat n)"
proof -
  have "is_digit c \<Longrightarrow> (of_char c :: nat) < 128" for c by (auto simp: is_digit_def)
  with string_of_nat_digits [of n] show ?thesis by (auto simp: ascii_def list_all_iff)
qed

lemma ascii_join: "ascii sep \<Longrightarrow> \<forall>t\<in>set ts. ascii t \<Longrightarrow> ascii (join sep ts)"
  by (induction ts) (auto simp: join_Cons)

lemma each_set: "each f xs = Inr ys \<Longrightarrow> y \<in> set ys \<Longrightarrow> \<exists>x\<in>set xs. f x = Inr y"
  by (induction xs arbitrary: ys) (auto simp: result_simps)

lemma ascii_json_dumps: "json_plain v \<Longrightarrow> json_dumps b v = Inr t \<Longrightarrow> ascii t"
proof (induction v arbitrary: t rule: pyval.induct)
  case (VInt i)
  then show ?case by (auto simp: string_of_int_def ascii_digits)
next
  case (VList vs)
  then obtain ts where ts: "each (json_dumps b) vs = Inr ts" "t = ''['' @ join '','' ts @ '']''"
    by (auto simp: result_simps)
  have "\<forall>x\<in>set ts. ascii x"
    using VList each_set [OF ts(1)] by (fastforce simp: list_all_iff)
  with ts(2) show ?case by (simp add: ascii_join)
next
  case (VDict kvs)
  then obtain ts where ts: "each (dump_item b) (json_items b kvs) = Inr ts" "t = ''{'' @ join '','' ts @ ''}''"
    by (auto simp: result_simps)
  have "ascii x" if "x \<in> set ts" for x
  proof -
    from each_set [OF ts(1) that] obtain k v where kv: "(k, v) \<in> set kvs" "dump_item b (k, v) = Inr x"
      by auto
    with VDict.prems(1) have "json_plain v" by (auto simp: list_all_iff)
    moreover from kv obtain s u where "x = json_string s @ '':'' @ u" "json_dumps b v = Inr u"
      by (auto simp: result_simps split: pyval.splits)
    moreover have "v \<in> Basic_BNFs.snds (k, v)" by simp
    ultimately show ?thesis using VDict.IH(2) [OF kv(1)] by (simp add: ascii_json_string)
  qed
  with ts(2) show ?case by (simp add: ascii_join)
qed (auto simp: ascii_json_string)

lemma json_norm_False [simp]: "json_norm False v = v"
proof (induction v rule: pyval.induct)
  case (VDict kvs)
  have "(\<lambda>(k, v). (k, json_norm False v)) kv = kv" if "kv \<in> set kvs" for kv
    using VDict(2) [OF that] by (cases kv) auto
  then have "map (\<lambda>(k, v). (k, json_norm False v)) kvs = kvs" by (intro map_idI)
  then show ?case by (simp add: json_items_def)
next
  case (VList vs)
  then show ?case by (simp add: map_idI)
qed (simp_all add: json_norm.simps)

text \<open>The libraries of \<open>sample_libs\<close> with this reader.\<close>

definition json_libs :: libs where
  "json_libs = sample_libs\<lparr>json_loads := json_read\<rparr>"

end
