(* ===== verification/Base64.thy ===== *)
theory Base64
  imports PyJson
begin

text \<open>
  \<open>_b64url_encode\<close> and \<open>_b64url_decode\<close> of \<open>src/cce_service/auth/jwt.py\<close> and \<open>jwks.py\<close>, with
  the parts of \<open>base64\<close> and \<open>binascii\<close> below them. \<open>a2b\<close> is the state machine of
  \<open>binascii.a2b_base64\<close> in its lenient mode: characters outside the alphabet are skipped, and a
  padding sign ends the input once its group is complete. A byte is a character.
\<close>

section \<open>Encoding\<close>

definition alphabet :: string where
  "alphabet = ''ABCDEFGHIJKLMNOPQRSTUVWXYZabcdefghijklmnopqrstuvwxyz0123456789-_''"

fun sextets :: "nat list \<Rightarrow> nat list" where
  "sextets [] = []"
| "sextets [a] = [a div 4, a mod 4 * 16]"
| "sextets [a, b] = [a div 4, a mod 4 * 16 + b div 16, b mod 16 * 4]"
| "sextets (a # b # c # r) =
     [a div 4, a mod 4 * 16 + b div 16, b mod 16 * 4 + c div 64, c mod 64] @ sextets r"

definition padding :: "nat \<Rightarrow> string" where
  "padding n = (if n mod 3 = 0 then '''' else if n mod 3 = 1 then ''=='' else ''='')"

definition urlsafe_b64encode :: "string \<Rightarrow> string" where
  "urlsafe_b64encode d = map (\<lambda>x. alphabet ! x) (sextets (map of_char d)) @ padding (length d)"

definition b64url_encode :: "string \<Rightarrow> string" where
  "b64url_encode d = rev (dropWhile (\<lambda>c. c = CHR ''='') (rev (urlsafe_b64encode d)))"

section \<open>Decoding\<close>

text \<open>The decoding table after \<open>-_\<close> was translated to \<open>+/\<close>: both spellings are in it.\<close>

definition sextet :: "char \<Rightarrow> nat option" where
  "sextet c =
     (let n = (of_char c :: nat)
      in if 65 \<le> n \<and> n \<le> 90 then Some (n - 65)
         else if 97 \<le> n \<and> n \<le> 122 then Some (n - 71)
         else if 48 \<le> n \<and> n \<le> 57 then Some (n + 4)
         else if n = 45 \<or> n = 43 then Some 62
         else if n = 95 \<or> n = 47 then Some 63 else None)"

fun a2b :: "nat \<Rightarrow> nat \<Rightarrow> nat \<Rightarrow> string \<Rightarrow> string result" where
  "a2b quad left pads [] =
     (if quad = 0 then Inr [] else Inl (ValueError ''binascii.Error''))"
| "a2b quad left pads (c # cs) =
     (if c = CHR ''='' then
        (if 2 \<le> quad \<and> 4 \<le> quad + (pads + 1) then Inr []
         else a2b quad left (if 2 \<le> quad then pads + 1 else pads) cs)
      else
        (case sextet c of
           None \<Rightarrow> a2b quad left pads cs
         | Some d \<Rightarrow>
             if quad = 0 then a2b 1 d 0 cs
             else if quad = 1 then andthen (a2b 2 (d mod 16) 0 cs) (\<lambda>r. Inr (char_of (left * 4 + d div 16) # r))
             else if quad = 2 then andthen (a2b 3 (d mod 4) 0 cs) (\<lambda>r. Inr (char_of (left * 16 + d div 4) # r))
             else andthen (a2b 0 0 0 cs) (\<lambda>r. Inr (char_of (left * 64 + d) # r))))"

text \<open>\<open>pad = "=" * (-len(text) % 4)\<close>; a text with characters beyond ASCII is a \<open>ValueError\<close>.\<close>

definition b64url_decode :: "string \<Rightarrow> string result" where
  "b64url_decode s =
     (let pad = replicate ((4 - length s mod 4) mod 4) (CHR ''='')
      in if \<not> ascii s then Inl (ValueError ''string argument should contain only ASCII characters'')
         else a2b 0 0 0 (s @ pad))"

section \<open>Round trip\<close>

definition symbol_code :: "nat \<Rightarrow> nat" where
  "symbol_code d =
     (if d < 26 then d + 65 else if d < 52 then d + 71 else if d < 62 then d - 4 else if d = 62 then 45 else 95)"

lemma alphabet_codes: "map of_char alphabet = map symbol_code [0..<64]"
proof -
  have "[0..<64] = 0 # 1 # [2..<64]" by (simp add: upt_rec [of 0] upt_rec [of "Suc 0"] numeral_2_eq_2)
  then show ?thesis by (simp add: alphabet_def symbol_code_def upt_rec_numeral)
qed

lemma alphabet_code: "d < 64 \<Longrightarrow> of_char (alphabet ! d) = symbol_code d"
proof -
  assume d: "d < 64"
  have "length alphabet = 64" by (simp add: alphabet_def)
  with d have "(of_char (alphabet ! d) :: nat) = map of_char alphabet ! d" by simp
  with d show ?thesis unfolding alphabet_codes by simp
qed

lemma sextet_alphabet: "d < 64 \<Longrightarrow> sextet (alphabet ! d) = Some d"
  by (auto simp: sextet_def alphabet_code symbol_code_def Let_def)

lemma sextet_chars: "sextet c = Some d \<Longrightarrow> c \<noteq> CHR ''='' \<and> (of_char c :: nat) < 128 \<and> c \<noteq> CHR ''.''"
  by (auto simp: sextet_def Let_def split: if_splits)

lemma alphabet_chars: "d < 64 \<Longrightarrow> alphabet ! d \<noteq> CHR ''='' \<and> (of_char (alphabet ! d) :: nat) < 128
     \<and> alphabet ! d \<noteq> CHR ''.''"
  using sextet_chars sextet_alphabet by blast

lemma sextets_less: "\<forall>a\<in>set bs. a < 256 \<Longrightarrow> \<forall>x\<in>set (sextets bs). x < 64"
  by (induction bs rule: sextets.induct) (auto simp: less_mult_imp_div_less)

abbreviation symbols :: "string \<Rightarrow> string" where
  "symbols d \<equiv> map (\<lambda>x. alphabet ! x) (sextets (map of_char d))"

lemma symbols_ok: "c \<in> set (symbols d) \<Longrightarrow> c \<noteq> CHR ''='' \<and> (of_char c :: nat) < 128 \<and> c \<noteq> CHR ''.''"
  using sextets_less [of "map of_char d"] alphabet_chars by (auto simp: nat_of_char_less_256)

lemma b64url_encode_symbols: "b64url_encode d = symbols d"
proof -
  have "dropWhile (\<lambda>c. c = CHR ''='') (rev (symbols d)) = rev (symbols d)"
  proof (cases "symbols d = []")
    case False
    with symbols_ok [OF last_in_set [OF this]] show ?thesis by (intro dropWhile_hd) (simp_all add: hd_rev)
  qed simp
  then have "dropWhile (\<lambda>c. c = CHR ''='') (rev (padding n) @ rev (symbols d)) = rev (symbols d)" for n
    by (simp add: padding_def)
  then show ?thesis by (simp add: b64url_encode_def urlsafe_b64encode_def)
qed

lemma length_sextets: "length (sextets bs) mod 4 = (if length bs mod 3 = 0 then 0 else length bs mod 3 + 1)"
proof (induction bs rule: sextets.induct)
  case (4 a b c r)
  have "length (sextets (a # b # c # r)) = length (sextets r) + 4" "length (a # b # c # r) = length r + 3"
    by simp_all
  with 4 show ?case by (simp only: mod_add_self2)
qed simp_all

lemma a2b_symbols:
  "a2b 0 0 0 (symbols d @ padding (length d)) = Inr d"
proof (induction "map (of_char :: char \<Rightarrow> nat) d" arbitrary: d rule: sextets.induct)
  case 1
  then show ?case by (simp add: padding_def)
next
  case (2 a)
  then obtain c where d: "d = [c]" "a = of_char c" by (cases d) auto
  then have "a < 256" by (simp add: nat_of_char_less_256)
  then have "a div 4 < 64" "a mod 4 * 16 < 64" by (simp_all add: less_mult_imp_div_less)
  with d show ?case by (simp add: padding_def alphabet_chars sextet_alphabet)
next
  case (3 a b)
  then obtain c e where d: "d = [c, e]" "a = of_char c" "b = of_char e" by (cases d; cases "tl d") auto
  then have "a < 256" "b < 256" by (simp_all add: nat_of_char_less_256)
  then have "a div 4 < 64" "a mod 4 * 16 + b div 16 < 64" "b mod 16 * 4 < 64" "b div 16 < 16"
    by (simp_all add: less_mult_imp_div_less)
  with d show ?case by (simp add: padding_def alphabet_chars sextet_alphabet)
next
  case (4 a b c r)
  then obtain x y z d' where d: "d = x # y # z # d'" "a = of_char x" "b = of_char y" "c = of_char z" "r = map of_char d'"
    by (cases d; cases "tl d"; cases "tl (tl d)") auto
  have b: "a < 256" "b < 256" "c < 256" using d by (simp_all add: nat_of_char_less_256)
  then have s: "a div 4 < 64" "a mod 4 * 16 + b div 16 < 64" "b mod 16 * 4 + c div 64 < 64" "b div 16 < 16" "c div 64 < 4"
    by (simp_all add: less_mult_imp_div_less)
  have "padding (length d) = padding (length d')" using d by (simp add: padding_def)
  with d s 4(1) [OF d(5)] show ?case by (simp add: alphabet_chars sextet_alphabet)
qed

lemma b64url_roundtrip: "b64url_decode (b64url_encode d) = Inr d"
proof -
  have "length (symbols d) mod 4 = (if length d mod 3 = 0 then 0 else length d mod 3 + 1)"
    using length_sextets [of "map of_char d"] by simp
  moreover have "length d mod 3 = 0 \<or> length d mod 3 = 1 \<or> length d mod 3 = 2" by linarith
  ultimately have "replicate ((4 - length (symbols d) mod 4) mod 4) (CHR ''='') = padding (length d)"
    by (auto simp: padding_def numeral_2_eq_2)
  moreover have "ascii (symbols d)" using symbols_ok [of _ d] by (simp only: ascii_def list_all_iff) blast
  ultimately show ?thesis
    using a2b_symbols [of d] by (simp only: b64url_decode_def b64url_encode_symbols Let_def) simp
qed

lemma b64url_encode_no_dot: "CHR ''.'' \<notin> set (b64url_encode d)"
  using symbols_ok [of _ d] by (auto simp: b64url_encode_symbols)

lemma b64url_encode_ascii: "ascii (b64url_encode d)"
  unfolding b64url_encode_symbols ascii_def list_all_iff using symbols_ok [of _ d] by blast

text \<open>Decoding is not injective: characters outside the alphabet do not count.\<close>

lemma decoding_skips_junk: "b64url_decode ''QQ'' = Inr ''A'' \<and> b64url_decode ''!Q!Q!!'' = Inr ''A''"
  by code_simp

end
