(* ===== verification/Jwt.thy ===== *)
theory Jwt
  imports Base64
begin

text \<open>
  \<open>src/cce_service/auth/jwt.py\<close> and \<open>rbac.py\<close>: the HS256 issuer and verifier, the principal
  and the scope check. HMAC-SHA256 is the parameter \<open>hmac\<close>, the JSON reader the parameter
  \<open>json_loads\<close>. An \<open>AuthError\<close> becomes HTTP 401 in the service; every other exception of a
  verifier escapes it.

  \<open>check_claims\<close> is the tail that both verifiers share. The properties say that what is
  accepted carries a signature over exactly the header and payload it names, that the principal
  is read off the signed payload, and that an issued token verifies.
\<close>

section \<open>Claims\<close>

record Principal =
  subject :: string
  tenant :: string
  scopes :: "string set"
  expires_at :: int

definition str_or :: "pyval \<Rightarrow> string option" where
  "str_or v = (case v of VStr s \<Rightarrow> Some s | _ \<Rightarrow> None)"

definition str_items :: "pyval \<Rightarrow> string list option" where
  "str_items v =
     (case v of
        VList vs \<Rightarrow> if list_all (\<lambda>x. str_or x \<noteq> None) vs then Some (map (\<lambda>x. the (str_or x)) vs) else None
      | _ \<Rightarrow> None)"

record verifier_config =
  issuer :: string
  audience :: string
  leeway :: int

definition check_claims :: "verifier_config \<Rightarrow> pyval \<Rightarrow> int \<Rightarrow> Principal result" where
  "check_claims cfg payload now_s =
     andthen (as_object payload) (\<lambda>p.
     andthen (require (get_key p ''iss'' = VStr (issuer cfg)) (AuthError ''issuer mismatch'')) (\<lambda>_.
     andthen (require (get_key p ''aud'' = VStr (audience cfg)) (AuthError ''audience mismatch'')) (\<lambda>_.
     andthen (py_int (get_default p ''exp'' (VInt 0))) (\<lambda>exp.
     andthen (require (\<not> exp + leeway cfg < now_s) (AuthError ''token expired'')) (\<lambda>_.
     case (get_key p ''sub'', get_key p ''tenant'') of
       (VStr sub, VStr ten) \<Rightarrow>
         (case str_items (get_default p ''scopes'' (VList [])) of
            None \<Rightarrow> Inl (AuthError ''invalid scopes claim'')
          | Some ss \<Rightarrow> Inr \<lparr>subject = sub, tenant = ten, scopes = set ss, expires_at = exp\<rparr>)
     | _ \<Rightarrow> Inl (AuthError ''missing subject/tenant''))))))"

section \<open>The HS256 verifier\<close>

definition parse_token :: "libs \<Rightarrow> string \<Rightarrow> (string \<times> string \<times> pyval \<times> pyval \<times> string) result" where
  "parse_token L token =
     (case split_char (CHR ''.'') token of
        [header_b, payload_b, sig_b] \<Rightarrow>
          (let part = (\<lambda>b. andthen (b64url_decode b) (\<lambda>t.
                 case json_loads L t of None \<Rightarrow> Inl JSONDecodeError | Some v \<Rightarrow> Inr v))
           in case andthen (part header_b) (\<lambda>h. andthen (part payload_b) (\<lambda>p.
                   andthen (b64url_decode sig_b) (\<lambda>s. Inr (h, p, s)))) of
                Inl e \<Rightarrow> Inl (AuthError ''malformed token'')
              | Inr (h, p, s) \<Rightarrow> Inr (header_b, payload_b, h, p, s))
      | _ \<Rightarrow> Inl (AuthError ''malformed token''))"

definition signing_input :: "string \<Rightarrow> string \<Rightarrow> string" where
  "signing_input header_b payload_b = utf8_encode (header_b @ ''.'' @ payload_b)"

text \<open>\<open>typ not in {"JWT", None}\<close>: a list or an object cannot be looked up in a set.\<close>

definition typ_ok :: "pyval \<Rightarrow> bool result" where
  "typ_ok v =
     (case v of
        VList vs \<Rightarrow> Inl (TypeError ''unhashable type'')
      | VDict d \<Rightarrow> Inl (TypeError ''unhashable type'')
      | _ \<Rightarrow> Inr (v = VStr ''JWT'' \<or> v = VNone))"

definition check_header :: "pyval \<Rightarrow> unit result" where
  "check_header header =
     andthen (as_object header) (\<lambda>h.
     if get_key h ''alg'' \<noteq> VStr ''HS256'' then Inl (AuthError ''unsupported alg'')
     else andthen (typ_ok (get_key h ''typ'')) (\<lambda>b. require b (AuthError ''unsupported alg'')))"

type_synonym hmac_fun = "string \<Rightarrow> string \<Rightarrow> string"

record JwtVerifier =
  jv_secret :: string
  jv_config :: verifier_config

text \<open>The constructor: an empty secret is refused, and HS256 outside development needs consent.\<close>

definition warn_if_hs256_in_prod :: "string option \<Rightarrow> string option \<Rightarrow> unit result" where
  "warn_if_hs256_in_prod cce_env allow_hs256 =
     (let env = map to_lower_char (py_strip (case cce_env of None \<Rightarrow> '''' | Some e \<Rightarrow> e))
      in if env = ''development'' then Inr ()
         else if allow_hs256 = Some ''1'' then Inr ()
         else Inl (RuntimeError ''HS256 JwtVerifier is not allowed''))"

definition new_jwt_verifier ::
    "string option \<Rightarrow> string option \<Rightarrow> string \<Rightarrow> verifier_config \<Rightarrow> JwtVerifier result" where
  "new_jwt_verifier cce_env allow_hs256 secret cfg =
     andthen (require (secret \<noteq> '''') (ValueError ''HS256 verifier requires a non-empty secret'')) (\<lambda>_.
     andthen (warn_if_hs256_in_prod cce_env allow_hs256) (\<lambda>_.
     Inr \<lparr>jv_secret = utf8_encode secret, jv_config = cfg\<rparr>))"

definition jwt_verify :: "libs \<Rightarrow> hmac_fun \<Rightarrow> JwtVerifier \<Rightarrow> string \<Rightarrow> int \<Rightarrow> Principal result" where
  "jwt_verify L hmac V token now_s =
     andthen (parse_token L token) (\<lambda>(header_b, payload_b, header, payload, signature).
     andthen (check_header header) (\<lambda>_.
     andthen (require (signature = hmac (jv_secret V) (signing_input header_b payload_b))
                (AuthError ''bad signature'')) (\<lambda>_.
     check_claims (jv_config V) payload now_s)))"

section \<open>Issuing\<close>

definition token_payload ::
    "string \<Rightarrow> string \<Rightarrow> string \<Rightarrow> string \<Rightarrow> string list \<Rightarrow> int \<Rightarrow> int \<Rightarrow> pyval" where
  "token_payload iss aud sub ten scope_list now_s ttl =
     str_dict [(''iss'', VStr iss), (''aud'', VStr aud), (''sub'', VStr sub), (''tenant'', VStr ten),
       (''scopes'', VList (map VStr (sort scope_list))), (''iat'', VInt now_s), (''exp'', VInt (now_s + ttl))]"

definition encode_part :: "pyval \<Rightarrow> string result" where
  "encode_part v = andthen (json_dumps False v) (\<lambda>t. Inr (b64url_encode (utf8_encode t)))"

definition issue_hs256_token ::
    "hmac_fun \<Rightarrow> string \<Rightarrow> string \<Rightarrow> string \<Rightarrow> string list \<Rightarrow> string \<Rightarrow> string \<Rightarrow> int \<Rightarrow> int \<Rightarrow> string result" where
  "issue_hs256_token hmac secret sub ten scope_list iss aud ttl now_s =
     andthen (encode_part (str_dict [(''alg'', VStr ''HS256''), (''typ'', VStr ''JWT'')])) (\<lambda>header_b.
     andthen (encode_part (token_payload iss aud sub ten scope_list now_s ttl)) (\<lambda>payload_b.
     Inr (header_b @ ''.'' @ payload_b @ ''.'' @
       b64url_encode (hmac (utf8_encode secret) (signing_input header_b payload_b)))))"

section \<open>Scopes\<close>

datatype Scope = SCORE_WRITE | RECORDS_READ | AUDIT_READ

definition scope_value :: "Scope \<Rightarrow> string" where
  "scope_value s =
     (case s of SCORE_WRITE \<Rightarrow> ''score:write'' | RECORDS_READ \<Rightarrow> ''records:read'' | AUDIT_READ \<Rightarrow> ''audit:read'')"

definition require_scope :: "Principal \<Rightarrow> Scope \<Rightarrow> unit result" where
  "require_scope p s =
     require (scope_value s \<in> scopes p) (AuthError (''missing required scope: '' @ scope_value s))"

section \<open>What the verifier accepts\<close>

lemma split_char_joins: "split_char c s = fs \<Longrightarrow> concat (map (\<lambda>f. f @ [c]) fs) = s @ [c]"
  by (induction s arbitrary: fs) (auto split: list.splits if_splits)

definition signed_text :: "string \<Rightarrow> string \<Rightarrow> string \<Rightarrow> string" where
  "signed_text h b s = h @ ''.'' @ b @ ''.'' @ s"

lemma parse_token_Inr:
  assumes "parse_token L token = Inr (hb, pb, header, payload, signature)"
  shows "\<exists>sb. token = signed_text hb pb sb \<and> b64url_decode sb = Inr signature
    \<and> (\<exists>t. b64url_decode hb = Inr t \<and> json_loads L t = Some header)
    \<and> (\<exists>t. b64url_decode pb = Inr t \<and> json_loads L t = Some payload)"
proof -
  from assms obtain sb where s: "split_char (CHR ''.'') token = [hb, pb, sb]"
    by (auto simp: parse_token_def Let_def split: list.splits sum.splits)
  have "token = signed_text hb pb sb"
    using split_char_joins [OF s] by (simp add: signed_text_def)
  with assms s show ?thesis
    by (auto simp: parse_token_def Let_def result_simps split: sum.splits option.splits)
qed

lemma check_claims_Inr:
  assumes "check_claims cfg payload now_s = Inr p"
  shows "\<exists>d. payload = VDict d \<and> get_key d ''iss'' = VStr (issuer cfg) \<and> get_key d ''aud'' = VStr (audience cfg)
    \<and> get_key d ''sub'' = VStr (subject p) \<and> get_key d ''tenant'' = VStr (tenant p)
    \<and> py_int (get_default d ''exp'' (VInt 0)) = Inr (expires_at p) \<and> now_s \<le> expires_at p + leeway cfg
    \<and> (\<exists>ss. str_items (get_default d ''scopes'' (VList [])) = Some ss \<and> scopes p = set ss)"
proof -
  from assms obtain d where d: "payload = VDict d"
    by (cases payload) (auto simp: check_claims_def as_object_def)
  from assms d show ?thesis
    by (auto simp: check_claims_def as_object_def result_simps split: pyval.splits option.splits)
qed

text \<open>C34: Whatever token the HS256 verifier accepts is three dotted parts whose last one decodes to
  the HMAC of the first two under the secret; its header says \<open>HS256\<close>, its payload names the
  configured issuer and audience and has not expired, and subject, tenant and scopes of the
  principal are those of the payload.\<close>

theorem jwt_verify_sound:
  assumes "jwt_verify L hmac V token now_s = Inr p"
  shows "\<exists>hb pb sb h d t u. token = signed_text hb pb sb
    \<and> b64url_decode sb = Inr (hmac (jv_secret V) (signing_input hb pb))
    \<and> b64url_decode hb = Inr t \<and> json_loads L t = Some (VDict h) \<and> get_key h ''alg'' = VStr ''HS256''
    \<and> b64url_decode pb = Inr u \<and> json_loads L u = Some (VDict d)
    \<and> get_key d ''iss'' = VStr (issuer (jv_config V)) \<and> get_key d ''aud'' = VStr (audience (jv_config V))
    \<and> get_key d ''sub'' = VStr (subject p) \<and> get_key d ''tenant'' = VStr (tenant p)
    \<and> now_s \<le> expires_at p + leeway (jv_config V)
    \<and> (\<exists>ss. str_items (get_default d ''scopes'' (VList [])) = Some ss \<and> scopes p = set ss)"
proof -
  from assms obtain hb pb header payload signature where
    parsed: "parse_token L token = Inr (hb, pb, header, payload, signature)"
    and header: "check_header header = Inr ()"
    and sig: "signature = hmac (jv_secret V) (signing_input hb pb)"
    and claims: "check_claims (jv_config V) payload now_s = Inr p"
    by (auto simp: jwt_verify_def result_simps)
  from header obtain h where h: "header = VDict h" "get_key h ''alg'' = VStr ''HS256''"
    by (cases header) (auto simp: check_header_def as_object_def split: if_splits)
  from parse_token_Inr [OF parsed] check_claims_Inr [OF claims] h sig show ?thesis by blast
qed

section \<open>Issued tokens\<close>

lemma b64_part: "ascii t \<Longrightarrow> b64url_decode (b64url_encode (utf8_encode t)) = Inr t"
  by (simp add: b64url_roundtrip)

definition loads_dumped :: "libs \<Rightarrow> bool" where
  "loads_dumped L \<longleftrightarrow> (\<forall>v t. json_plain v \<longrightarrow> json_dumps False v = Inr t \<longrightarrow> json_loads L t = Some v)"

lemma encode_part_decodes:
  assumes "json_plain v" "loads_dumped L"
  shows "\<exists>e t. encode_part v = Inr e \<and> b64url_decode e = Inr t \<and> json_loads L t = Some v
    \<and> CHR ''.'' \<notin> set e \<and> ascii e"
proof -
  from json_dumps_plain [OF assms(1)] obtain t where t: "json_dumps False v = Inr t" by blast
  with ascii_json_dumps [OF assms(1)] have "ascii t" by blast
  with t assms show ?thesis
    by (auto simp: encode_part_def loads_dumped_def b64url_roundtrip b64url_encode_no_dot b64url_encode_ascii)
qed

lemma split_three:
  "CHR ''.'' \<notin> set a \<Longrightarrow> CHR ''.'' \<notin> set b \<Longrightarrow> CHR ''.'' \<notin> set c \<Longrightarrow>
     split_char (CHR ''.'') (a @ ''.'' @ b @ ''.'' @ c) = [a, b, c]"
  by (simp add: split_char_append split_char_no_sep)

lemma str_items_VStr: "str_items (VList (map VStr ss)) = Some ss"
  by (simp add: str_items_def str_or_def list_all_iff comp_def)

lemma get_key_str_dict:
  "map_of (map (\<lambda>(k, v). (VStr k, v)) kvs) (VStr k) = map_of kvs k"
  by (rule map_of_VStr_id)

lemma claims_of_payload:
  "check_claims cfg (token_payload (issuer cfg) (audience cfg) sub ten ss now_s ttl) later
    = (if later \<le> now_s + ttl + leeway cfg
       then Inr \<lparr>subject = sub, tenant = ten, scopes = set ss, expires_at = now_s + ttl\<rparr>
       else Inl (AuthError ''token expired''))"
  by (auto simp: check_claims_def token_payload_def str_dict_def as_object_def get_key_def get_default_def
      py_int_def str_items_VStr require_def)

lemma parse_issued:
  assumes "loads_dumped L" "json_plain hv" "json_plain pl"
  shows "\<exists>h p. encode_part hv = Inr h \<and> encode_part pl = Inr p
    \<and> (\<forall>sig. parse_token L (h @ ''.'' @ p @ ''.'' @ b64url_encode sig) = Inr (h, p, hv, pl, sig))"
proof -
  from assms(2,3) [THEN encode_part_decodes, OF assms(1)] obtain h t p u where
    h: "encode_part hv = Inr h" "b64url_decode h = Inr t" "json_loads L t = Some hv" "CHR ''.'' \<notin> set h"
    and p: "encode_part pl = Inr p" "b64url_decode p = Inr u" "json_loads L u = Some pl" "CHR ''.'' \<notin> set p"
    by blast
  have "parse_token L (h @ ''.'' @ p @ ''.'' @ b64url_encode sig) = Inr (h, p, hv, pl, sig)" for sig
    unfolding parse_token_def split_three [OF h(4) p(4) b64url_encode_no_dot]
    using h p by (simp add: b64url_roundtrip)
  with h(1) p(1) show ?thesis by blast
qed

lemma issued_verifies:
  assumes "loads_dumped L"
  shows "\<exists>token. issue_hs256_token hmac secret sub ten ss (issuer cfg) (audience cfg) ttl now_s = Inr token
    \<and> jwt_verify L hmac \<lparr>jv_secret = utf8_encode secret, jv_config = cfg\<rparr> token later
      = (if later \<le> now_s + ttl + leeway cfg
         then Inr \<lparr>subject = sub, tenant = ten, scopes = set ss, expires_at = now_s + ttl\<rparr>
         else Inl (AuthError ''token expired''))"
proof -
  let ?header = "str_dict [(''alg'', VStr ''HS256''), (''typ'', VStr ''JWT'')]"
  let ?payload = "token_payload (issuer cfg) (audience cfg) sub ten ss now_s ttl"
  have plain: "json_plain ?header" "json_plain ?payload"
    by (simp_all add: str_dict_def token_payload_def list_all_iff)
  from parse_issued [OF assms plain] obtain h p where
    e: "encode_part ?header = Inr h" "encode_part ?payload = Inr p"
    and parsed: "\<And>sig. parse_token L (h @ ''.'' @ p @ ''.'' @ b64url_encode sig) = Inr (h, p, ?header, ?payload, sig)"
    by blast
  have "check_header ?header = Inr ()"
    by (simp add: check_header_def str_dict_def as_object_def get_key_def typ_ok_def)
  with parsed [of "hmac (utf8_encode secret) (signing_input h p)"] e show ?thesis
    by (simp add: issue_hs256_token_def jwt_verify_def claims_of_payload)
qed

text \<open>C35: Round trip of tokens: what \<open>issue_hs256_token\<close> mints, the verifier with the same secret,
  issuer and audience accepts until the token has expired (leeway included), and it gives back
  exactly the subject, tenant and scopes; afterwards it says that the token expired. Any HMAC
  function will do, and any JSON reader that reads back what \<open>json.dumps\<close> writes.\<close>

theorem issued_token_verifies:
  assumes "loads_dumped L"
  shows "\<exists>token. issue_hs256_token hmac secret sub ten ss (issuer cfg) (audience cfg) ttl now_s = Inr token
    \<and> jwt_verify L hmac \<lparr>jv_secret = utf8_encode secret, jv_config = cfg\<rparr> token later
      = (if later \<le> now_s + ttl + leeway cfg
         then Inr \<lparr>subject = sub, tenant = ten, scopes = set ss, expires_at = now_s + ttl\<rparr>
         else Inl (AuthError ''token expired''))"
  by (rule issued_verifies [OF assms])

text \<open>The reader of \<open>json_libs\<close> obeys the law; a toy HMAC shows that the hypotheses can hold.\<close>

lemma json_libs_loads: "loads_dumped json_libs"
  by (auto simp: loads_dumped_def json_libs_def json_read_dumps)

theorem issued_token_verifies_witness:
  "\<exists>token. jwt_verify json_libs (\<lambda>k m. k) \<lparr>jv_secret = utf8_encode ''k'', jv_config = \<lparr>issuer = ''i'', audience = ''a'', leeway = 5\<rparr>\<rparr>
       token 104 = Inr \<lparr>subject = ''u'', tenant = ''t'', scopes = {''score:write''}, expires_at = 100\<rparr>"
  using issued_token_verifies [OF json_libs_loads, where hmac = "\<lambda>k m. k" and secret = "''k''" and sub = "''u''"
      and ten = "''t''" and ss = "[''score:write'']" and cfg = "\<lparr>issuer = ''i'', audience = ''a'', leeway = 5\<rparr>"
      and ttl = 60 and now_s = 40 and later = 104] by auto

theorem jwt_verify_sound_witness:
  "\<exists>token hb pb sb d. token = signed_text hb pb sb \<and> b64url_decode sb = Inr (utf8_encode ''k'')
    \<and> get_key d ''sub'' = VStr ''u'' \<and> get_key d ''tenant'' = VStr ''t''"
proof -
  let ?cfg = "\<lparr>issuer = ''i'', audience = ''a'', leeway = 5\<rparr>"
  from issued_verifies [OF json_libs_loads, where hmac = "\<lambda>k m. k" and secret = "''k''" and sub = "''u''"
      and ten = "''t''" and ss = "[''score:write'']" and cfg = ?cfg and ttl = 60 and now_s = 40 and later = 104]
  obtain token where "jwt_verify json_libs (\<lambda>k m. k) \<lparr>jv_secret = utf8_encode ''k'', jv_config = ?cfg\<rparr> token 104
      = Inr \<lparr>subject = ''u'', tenant = ''t'', scopes = {''score:write''}, expires_at = 100\<rparr>"
    by auto
  from jwt_verify_sound [OF this] show ?thesis by fastforce
qed

text \<open>Not every malformed token is an \<open>AuthError\<close>: a header that is JSON but no object, or an
  expiry that is no number, makes the verifier raise something the service does not catch.\<close>

lemma odd_header_escapes: "check_header (VList []) = Inl (AttributeError ''get'')"
  by (simp add: check_header_def as_object_def)

lemma odd_expiry_escapes: "py_int (VStr ''soon'') = Inl (ValueError (''invalid literal for int() with base 10: '' @ repr_string ''soon''))"
  by (simp add: py_int_def int_of_text_def py_strip_def py_lstrip_def py_space_def starts_with_def is_digit_def Let_def)

end
