(* ===== verification/Repos.thy ===== *)
theory Repos
  imports Models
begin

text \<open>
  \<open>src/cce_service/storage/repos.py\<close>. The three Protocols are records of operations over a
  state \<open>'s\<close>, so the service and the worker are modelled once for every backend; the in-memory
  backend is defined here. What a backend promises is a locale per Protocol, over the finite map
  or log it holds:

  \<^item> \<open>job_repo\<close>: identifiers are fresh on \<open>create\<close>; \<open>update\<close> keeps \<open>created_at\<close>;
  \<^item> \<open>record_repo\<close>: an \<open>upsert\<close> that is not older than what is held replaces it;
  \<^item> \<open>audit_repo\<close>: an append-only log with fresh identifiers, read from a time on.

  Python objects are values here: the in-memory backends keep a reference to the object they are
  given, but every caller that mutates it calls \<open>update\<close> before anything reads it.
\<close>

section \<open>Protocols\<close>

record 's JobRepo =
  jr_create :: "JobRecord \<Rightarrow> 's \<Rightarrow> unit result \<times> 's"
  jr_get :: "UUID \<Rightarrow> 's \<Rightarrow> JobRecord option result"
  jr_update :: "JobRecord \<Rightarrow> 's \<Rightarrow> unit result \<times> 's"
  jr_list_for_tenant :: "string \<Rightarrow> 's \<Rightarrow> JobRecord list result"

record 's RecordRepo =
  rr_upsert :: "ScoreRecord \<Rightarrow> 's \<Rightarrow> unit result \<times> 's"
  rr_get :: "string \<Rightarrow> 's \<Rightarrow> ScoreRecord option result"

record 's AuditRepo =
  ar_append :: "AuditEvent \<Rightarrow> 's \<Rightarrow> AuditEvent result \<times> 's"
  ar_since :: "string \<Rightarrow> string option \<Rightarrow> 's \<Rightarrow> AuditEvent list result"

section \<open>In memory\<close>

type_synonym job_store = "(UUID, JobRecord) dict"

definition InMemoryJobRepo :: "job_store JobRepo" where
  "InMemoryJobRepo =
     \<lparr>jr_create = (\<lambda>job s. (Inr (), dict_set (job_id job) job s)),
      jr_get = (\<lambda>u s. Inr (dict_get s u)),
      jr_update = (\<lambda>job s.
        if dict_get s (job_id job) = None then (Inl (KeyError (''unknown job_id '' @ uuid_str (job_id job))), s)
        else (Inr (), dict_set (job_id job) job s)),
      jr_list_for_tenant = (\<lambda>tenant s. Inr (filter (\<lambda>j. job_tenant j = tenant) (map snd s)))\<rparr>"

type_synonym record_store = "(string, ScoreRecord) dict"

definition InMemoryRecordRepo :: "record_store RecordRepo" where
  "InMemoryRecordRepo =
     \<lparr>rr_upsert = (\<lambda>record s. (Inr (), dict_set (rec_hash record) record s)),
      rr_get = (\<lambda>h s. Inr (dict_get s h))\<rparr>"

record audit_store =
  audit_events :: "AuditEvent list"
  next_id :: int

definition new_audit_store :: audit_store where
  "new_audit_store = \<lparr>audit_events = [], next_id = 1\<rparr>"

definition InMemoryAuditRepo :: "audit_store AuditRepo" where
  "InMemoryAuditRepo =
     \<lparr>ar_append = (\<lambda>event s.
        (let event' = event\<lparr>ev_id := next_id s\<rparr>
         in (Inr event', \<lparr>audit_events = audit_events s @ [event'], next_id = next_id s + 1\<rparr>))),
      ar_since = (\<lambda>ts_iso tenant s.
        (let events = filter (\<lambda>e. ts_iso \<le> isoformat (ev_ts e)) (audit_events s)
         in Inr (case tenant of None \<Rightarrow> events | Some t \<Rightarrow> filter (\<lambda>e. ev_tenant e = t) events)))\<rparr>"

section \<open>What a job repository promises\<close>

datatype job_op = Create JobRecord | Get UUID | Update JobRecord | ListFor string
datatype job_obs = Done | Raised exn | Found "JobRecord option" | Listed "JobRecord set"

fun obs_unit :: "unit result \<Rightarrow> job_obs" where
  "obs_unit (Inl e) = Raised e"
| "obs_unit (Inr u) = Done"

fun run_job_ops :: "'s JobRepo \<Rightarrow> job_op list \<Rightarrow> 's \<Rightarrow> job_obs list" where
  "run_job_ops R [] s = []"
| "run_job_ops R (Create j # ops) s =
     (let (r, s') = jr_create R j s in obs_unit r # run_job_ops R ops s')"
| "run_job_ops R (Update j # ops) s =
     (let (r, s') = jr_update R j s in obs_unit r # run_job_ops R ops s')"
| "run_job_ops R (Get u # ops) s =
     (case jr_get R u s of Inl e \<Rightarrow> Raised e | Inr j \<Rightarrow> Found j) # run_job_ops R ops s"
| "run_job_ops R (ListFor t # ops) s =
     (case jr_list_for_tenant R t s of Inl e \<Rightarrow> Raised e | Inr js \<Rightarrow> Listed (set js)) # run_job_ops R ops s"

text \<open>The contract: a finite map from identifiers to jobs. Callers create under fresh identifiers
  and never change \<open>created_at\<close>.\<close>

definition jobs_of :: "string \<Rightarrow> (UUID \<rightharpoonup> JobRecord) \<Rightarrow> JobRecord set" where
  "jobs_of t m = {j \<in> ran m. job_tenant j = t}"

fun job_op_ok :: "(UUID \<rightharpoonup> JobRecord) \<Rightarrow> job_op \<Rightarrow> bool" where
  "job_op_ok m (Create j) \<longleftrightarrow> m (job_id j) = None"
| "job_op_ok m (Update j) \<longleftrightarrow>
     (case m (job_id j) of None \<Rightarrow> True | Some old \<Rightarrow> job_created_at j = job_created_at old)"
| "job_op_ok m (Get u) \<longleftrightarrow> True"
| "job_op_ok m (ListFor t) \<longleftrightarrow> True"

fun job_effect :: "(UUID \<rightharpoonup> JobRecord) \<Rightarrow> job_op \<Rightarrow> (UUID \<rightharpoonup> JobRecord)" where
  "job_effect m (Create j) = m(job_id j \<mapsto> j)"
| "job_effect m (Update j) = (if m (job_id j) = None then m else m(job_id j \<mapsto> j))"
| "job_effect m (Get u) = m"
| "job_effect m (ListFor t) = m"

fun job_answer :: "(UUID \<rightharpoonup> JobRecord) \<Rightarrow> job_op \<Rightarrow> job_obs" where
  "job_answer m (Create j) = Done"
| "job_answer m (Update j) =
     (if m (job_id j) = None then Raised (KeyError (''unknown job_id '' @ uuid_str (job_id j))) else Done)"
| "job_answer m (Get u) = Found (m u)"
| "job_answer m (ListFor t) = Listed (jobs_of t m)"

fun job_ops_ok :: "(UUID \<rightharpoonup> JobRecord) \<Rightarrow> job_op list \<Rightarrow> bool" where
  "job_ops_ok m [] \<longleftrightarrow> True"
| "job_ops_ok m (op # ops) \<longleftrightarrow> job_op_ok m op \<and> job_ops_ok (job_effect m op) ops"

fun job_answers :: "(UUID \<rightharpoonup> JobRecord) \<Rightarrow> job_op list \<Rightarrow> job_obs list" where
  "job_answers m [] = []"
| "job_answers m (op # ops) = job_answer m op # job_answers (job_effect m op) ops"

locale job_repo =
  fixes R :: "'s JobRepo" and ok :: "'s \<Rightarrow> bool" and held :: "'s \<Rightarrow> UUID \<Rightarrow> JobRecord option"
  assumes create: "ok s \<Longrightarrow> held s (job_id j) = None \<Longrightarrow>
      \<exists>s'. jr_create R j s = (Inr (), s') \<and> ok s' \<and> held s' = (held s)(job_id j \<mapsto> j)"
    and get: "ok s \<Longrightarrow> jr_get R u s = Inr (held s u)"
    and update: "ok s \<Longrightarrow> held s (job_id j) = Some old \<Longrightarrow> job_created_at j = job_created_at old \<Longrightarrow>
      \<exists>s'. jr_update R j s = (Inr (), s') \<and> ok s' \<and> held s' = (held s)(job_id j \<mapsto> j)"
    and update_unknown: "ok s \<Longrightarrow> held s (job_id j) = None \<Longrightarrow>
      jr_update R j s = (Inl (KeyError (''unknown job_id '' @ uuid_str (job_id j))), s)"
    and listing: "ok s \<Longrightarrow> \<exists>js. jr_list_for_tenant R t s = Inr js \<and> set js = jobs_of t (held s)"
begin

lemma run_refines: "ok s \<Longrightarrow> job_ops_ok (held s) ops \<Longrightarrow> run_job_ops R ops s = job_answers (held s) ops"
proof (induction ops arbitrary: s)
  case Nil
  then show ?case by simp
next
  case (Cons op ops)
  show ?case
  proof (cases op)
    case (Create j)
    with Cons.prems create [of s j] Cons.IH show ?thesis by fastforce
  next
    case (Get u)
    with Cons.prems Cons.IH show ?thesis by (simp add: get)
  next
    case (Update j)
    show ?thesis
    proof (cases "held s (job_id j)")
      case None
      with Update Cons.prems Cons.IH show ?thesis by (simp add: update_unknown)
    next
      case (Some old)
      with Update Cons.prems update [of s j old] Cons.IH show ?thesis by fastforce
    qed
  next
    case (ListFor t)
    with Cons.prems listing [of s t] Cons.IH show ?thesis by fastforce
  qed
qed

lemma create_then_get:
  "ok s \<Longrightarrow> held s (job_id j) = None \<Longrightarrow> \<exists>s'. jr_create R j s = (Inr (), s') \<and> jr_get R (job_id j) s' = Inr (Some j)"
  using create [of s j] get by fastforce

end

definition job_store_ok :: "job_store \<Rightarrow> bool" where
  "job_store_ok s \<longleftrightarrow> distinct (dict_keys s)"

lemma jobs_of_dict: "distinct (dict_keys s) \<Longrightarrow> set (filter (\<lambda>j. job_tenant j = t) (map snd s)) = jobs_of t (dict_get s)"
  by (auto simp: jobs_of_def ran_distinct)

interpretation mem_jobs: job_repo InMemoryJobRepo job_store_ok map_of
  by unfold_locales
     (auto simp: InMemoryJobRepo_def job_store_ok_def update_conv' jobs_of_dict [symmetric] intro!: dict_set_distinct)

section \<open>What a record repository promises\<close>

text \<open>Equal up to the order of the two dicts and the creation time.\<close>

definition same_record :: "ScoreRecord \<Rightarrow> ScoreRecord \<Rightarrow> bool" where
  "same_record r r' \<longleftrightarrow> rec_hash r' = rec_hash r \<and> rec_commit_sha r' = rec_commit_sha r
     \<and> rec_repo_url r' = rec_repo_url r \<and> rec_spec_hash r' = rec_spec_hash r \<and> rec_score r' = rec_score r
     \<and> rec_tenant r' = rec_tenant r \<and> dict_get (rec_metrics r') = dict_get (rec_metrics r)
     \<and> dict_get (rec_tool_digests r') = dict_get (rec_tool_digests r)"

lemma same_record_refl [simp]: "same_record r r"
  by (simp add: same_record_def)

text \<open>A sequence of upserts, and the last record of it under a hash.\<close>

fun upsert_all :: "'s RecordRepo \<Rightarrow> ScoreRecord list \<Rightarrow> 's \<Rightarrow> unit result \<times> 's" where
  "upsert_all R [] s = (Inr (), s)"
| "upsert_all R (r # rs) s =
     (case rr_upsert R r s of (Inl e, s') \<Rightarrow> (Inl e, s') | (Inr u, s') \<Rightarrow> upsert_all R rs s')"

definition last_under :: "string \<Rightarrow> ScoreRecord list \<Rightarrow> ScoreRecord option" where
  "last_under h rs = find (\<lambda>r. rec_hash r = h) (rev rs)"

lemma find_append: "find P (xs @ ys) = (case find P xs of None \<Rightarrow> find P ys | Some x \<Rightarrow> Some x)"
  by (induction xs) auto

lemma last_under_simps [simp]:
  "last_under h [] = None"
  "last_under h (r # rs) = (case last_under h rs of None \<Rightarrow> if rec_hash r = h then Some r else None | Some x \<Rightarrow> Some x)"
  by (simp_all add: last_under_def find_append split: option.splits)

locale record_repo =
  fixes R :: "'s RecordRepo" and ok :: "'s \<Rightarrow> bool" and held :: "'s \<Rightarrow> string \<Rightarrow> ScoreRecord option"
    and storable :: "ScoreRecord \<Rightarrow> bool"
  assumes upsert: "ok s \<Longrightarrow> storable r \<Longrightarrow>
      (\<And>old. held s (rec_hash r) = Some old \<Longrightarrow> rec_created_at old \<le> rec_created_at r) \<Longrightarrow>
      \<exists>s' r'. rr_upsert R r s = (Inr (), s') \<and> ok s' \<and> held s' = (held s)(rec_hash r \<mapsto> r')
        \<and> same_record r r' \<and> rec_created_at r' \<le> rec_created_at r"
    and get: "ok s \<Longrightarrow> rr_get R h s = Inr (held s h)"
begin

lemma upsert_then_get:
  assumes "ok s" "storable r" "\<And>old. held s (rec_hash r) = Some old \<Longrightarrow> rec_created_at old \<le> rec_created_at r"
  shows "\<exists>s' r'. rr_upsert R r s = (Inr (), s') \<and> ok s' \<and> rr_get R (rec_hash r) s' = Inr (Some r') \<and> same_record r r'"
  using upsert [OF assms(1,2)] assms(3) get by fastforce

lemma upsert_all_held:
  assumes "ok s" "\<forall>r\<in>set rs. storable r" "sorted (map rec_created_at rs)"
    and "\<forall>h x. held s h = Some x \<longrightarrow> (\<forall>r\<in>set rs. rec_created_at x \<le> rec_created_at r)"
  shows "\<exists>s'. upsert_all R rs s = (Inr (), s') \<and> ok s'
    \<and> (\<forall>h. case last_under h rs of None \<Rightarrow> held s' h = held s h
            | Some r \<Rightarrow> \<exists>r'. held s' h = Some r' \<and> same_record r r')"
  using assms
proof (induction rs arbitrary: s)
  case Nil
  then show ?case by simp
next
  case (Cons r rs)
  have "\<exists>s' r'. rr_upsert R r s = (Inr (), s') \<and> ok s' \<and> held s' = (held s)(rec_hash r \<mapsto> r')
      \<and> same_record r r' \<and> rec_created_at r' \<le> rec_created_at r"
    by (rule upsert) (use Cons.prems in auto)
  then obtain s1 r' where r: "rr_upsert R r s = (Inr (), s1)" "ok s1" "held s1 = (held s)(rec_hash r \<mapsto> r')"
    "same_record r r'" "rec_created_at r' \<le> rec_created_at r" by blast
  have "\<forall>h x. held s1 h = Some x \<longrightarrow> (\<forall>q\<in>set rs. rec_created_at x \<le> rec_created_at q)"
    using r(3,5) Cons.prems(3,4) by (auto intro: order_trans)
  moreover have "\<forall>r\<in>set rs. storable r" "sorted (map rec_created_at rs)" using Cons.prems by simp_all
  ultimately obtain s' where s': "upsert_all R rs s1 = (Inr (), s')" "ok s'"
    "\<forall>h. case last_under h rs of None \<Rightarrow> held s' h = held s1 h
       | Some r \<Rightarrow> \<exists>r'. held s' h = Some r' \<and> same_record r r'"
    using Cons.IH [OF r(2)] by blast
  show ?case
  proof (intro exI [of _ s'] conjI allI)
    fix h
    show "case last_under h (r # rs) of None \<Rightarrow> held s' h = held s h
       | Some r \<Rightarrow> \<exists>r'. held s' h = Some r' \<and> same_record r r'"
      using s'(3)[rule_format, of h] r(3,4) by (auto split: option.splits)
  qed (use r s' in auto)
qed

lemma upsert_all_get:
  assumes "ok s" "held s = Map.empty" "\<forall>r\<in>set rs. storable r" "sorted (map rec_created_at rs)"
  shows "\<exists>s'. upsert_all R rs s = (Inr (), s')
    \<and> (case last_under h rs of None \<Rightarrow> rr_get R h s' = Inr None
       | Some r \<Rightarrow> \<exists>r'. rr_get R h s' = Inr (Some r') \<and> same_record r r')"
proof -
  have "\<forall>h x. held s h = Some x \<longrightarrow> (\<forall>r\<in>set rs. rec_created_at x \<le> rec_created_at r)"
    using assms(2) by simp
  from upsert_all_held [OF assms(1,3,4) this] obtain s' where s': "upsert_all R rs s = (Inr (), s')" "ok s'"
    "\<forall>h. case last_under h rs of None \<Rightarrow> held s' h = held s h
       | Some r \<Rightarrow> \<exists>r'. held s' h = Some r' \<and> same_record r r'" by blast
  from s'(3)[rule_format, of h] s'(1,2) assms(2) show ?thesis
    by (auto simp: get split: option.splits)
qed

end

interpretation mem_records: record_repo InMemoryRecordRepo "\<lambda>s. True" map_of "\<lambda>r. True"
  by unfold_locales (auto simp: InMemoryRecordRepo_def update_conv')

section \<open>What an audit log promises\<close>

definition visible_since :: "datetime \<Rightarrow> string option \<Rightarrow> AuditEvent \<Rightarrow> bool" where
  "visible_since t tenant e \<longleftrightarrow> t \<le> ev_ts e \<and> (case tenant of None \<Rightarrow> True | Some n \<Rightarrow> ev_tenant e = n)"

locale audit_repo =
  fixes A :: "'s AuditRepo" and ok :: "'s \<Rightarrow> bool" and log_of :: "'s \<Rightarrow> AuditEvent list"
  assumes append_event: "ok s \<Longrightarrow> datetime_ok (ev_ts e) \<Longrightarrow>
      \<exists>s' i. ar_append A e s = (Inr (e\<lparr>ev_id := i\<rparr>), s') \<and> ok s' \<and> log_of s' = log_of s @ [e\<lparr>ev_id := i\<rparr>]
        \<and> i \<notin> ev_id ` set (log_of s)"
    and since: "ok s \<Longrightarrow> datetime_ok t \<Longrightarrow>
      \<exists>es. ar_since A (isoformat t) tenant s = Inr es \<and> set es = {e \<in> set (log_of s). visible_since t tenant e}"
begin

lemma appended_is_visible:
  assumes "ok s" "datetime_ok (ev_ts e)" "datetime_ok t" "t \<le> ev_ts e"
  shows "\<exists>s' i es. ar_append A e s = (Inr (e\<lparr>ev_id := i\<rparr>), s')
    \<and> ar_since A (isoformat t) (Some (ev_tenant e)) s' = Inr es \<and> e\<lparr>ev_id := i\<rparr> \<in> set es"
proof -
  from append_event [OF assms(1,2)] obtain s' i where a: "ar_append A e s = (Inr (e\<lparr>ev_id := i\<rparr>), s')" "ok s'"
    "log_of s' = log_of s @ [e\<lparr>ev_id := i\<rparr>]" by blast
  from since [OF a(2) assms(3)] obtain es where "ar_since A (isoformat t) (Some (ev_tenant e)) s' = Inr es"
    "set es = {e' \<in> set (log_of s'). visible_since t (Some (ev_tenant e)) e'}" by blast
  with a assms(4) show ?thesis by (auto simp: visible_since_def)
qed

end

definition audit_store_ok :: "audit_store \<Rightarrow> bool" where
  "audit_store_ok s \<longleftrightarrow> (\<forall>e\<in>set (audit_events s). ev_id e < next_id s \<and> datetime_ok (ev_ts e))"

interpretation mem_audits: audit_repo InMemoryAuditRepo audit_store_ok audit_events
proof unfold_locales
  fix s and e :: AuditEvent assume "audit_store_ok s" "datetime_ok (ev_ts e)"
  then show "\<exists>s' i. ar_append InMemoryAuditRepo e s = (Inr (e\<lparr>ev_id := i\<rparr>), s') \<and> audit_store_ok s'
      \<and> audit_events s' = audit_events s @ [e\<lparr>ev_id := i\<rparr>] \<and> i \<notin> ev_id ` set (audit_events s)"
    by (intro exI [of _ "snd (ar_append InMemoryAuditRepo e s)"] exI [of _ "next_id s"])
       (fastforce simp: InMemoryAuditRepo_def audit_store_ok_def Let_def)
next
  fix s t tenant assume "audit_store_ok s" "datetime_ok t"
  then show "\<exists>es. ar_since InMemoryAuditRepo (isoformat t) tenant s = Inr es
      \<and> set es = {e \<in> set (audit_events s). visible_since t tenant e}"
    by (cases tenant)
       (auto simp: InMemoryAuditRepo_def audit_store_ok_def visible_since_def isoformat_le_iff Let_def)
qed

text \<open>
  A record is keyed by its hash alone. The hash does not cover the tenant, so when a second
  tenant scores the same commit under the same spec, the record of the first is replaced.
\<close>

lemma upsert_replaces_other_tenant:
  "rec_hash r = rec_hash r' \<Longrightarrow>
     rr_get InMemoryRecordRepo (rec_hash r) (snd (rr_upsert InMemoryRecordRepo r' s)) = Inr (Some r')"
  by (simp add: InMemoryRecordRepo_def)

text \<open>
  The in-memory log compares texts: a request in the notation \<open>Z\<close> misses the events of the very
  second it names.
\<close>

lemma new_year: "isoformat (Datetime 2024 1 1 0 0 0 0) = ''2024-01-01T00:00:00+00:00''"
  by code_simp

lemma new_year_half: "isoformat (Datetime 2024 1 1 0 0 0 5) = ''2024-01-01T00:00:00.000005+00:00''"
  by code_simp

lemma zulu_since_misses_event:
  "\<not> ''2024-01-01T00:00:00Z'' \<le> isoformat (Datetime 2024 1 1 0 0 0 0)"
  "\<not> ''2024-01-01T00:00:00Z'' \<le> isoformat (Datetime 2024 1 1 0 0 0 5)"
  unfolding new_year new_year_half by (simp_all add: less_char_def)

end
