(* ===== verification/PyFloat.thy ===== *)
theory PyFloat
  imports Rounding
begin

text \<open>
  Python floats, used for clock readings, delays and token counts: a float is the real number it
  stands for, and every arithmetic operation rounds once, to 53 binary digits with least exponent
  \<open>-1074\<close>, ties to even. The values here stay far below the overflow threshold, and no
  operation divides, so infinities and NaN do not arise.

  A \<open>clock\<close> is what the process sees of time: \<open>monotonic\<close> reads \<open>time.monotonic()\<close> and
  \<open>sleep\<close> is \<open>time.sleep\<close>; both may change the state they are given.
\<close>

section \<open>Rounding\<close>

definition fl :: "real \<Rightarrow> real" where
  "fl x = rnd 2 53 (-1074) x"

interpretation dbl: radix_format 2 53 "-1074"
  by unfold_locales simp_all

lemma fl_mono: "x \<le> y \<Longrightarrow> fl x \<le> fl y"
  unfolding fl_def by (rule dbl.rnd_mono)

lemma fl_nonneg: "0 \<le> x \<Longrightarrow> 0 \<le> fl x"
  unfolding fl_def by (rule dbl.rnd_nonneg)

text \<open>Integers below \<open>2^53\<close> are floats.\<close>

lemma fl_nat [simp]: "n < 2 ^ 53 \<Longrightarrow> fl (real n) = real n"
  using dbl.rnd_exact [of n 0] by (simp add: fl_def fval_def)

lemma fl_0 [simp]: "fl 0 = 0"
  using fl_nat [of 0] by simp

lemma fl_1 [simp]: "fl 1 = 1"
  using fl_nat [of 1] by simp

lemma fl_numeral [simp]: "(numeral k :: nat) < 2 ^ 53 \<Longrightarrow> fl (numeral k) = numeral k"
  using fl_nat [of "numeral k"] by simp

text \<open>A representable bound survives rounding.\<close>

lemma fl_le_nat: "x \<le> real n \<Longrightarrow> n < 2 ^ 53 \<Longrightarrow> fl x \<le> real n"
  using fl_mono [of x "real n"] by simp

lemma fl_ge_nat: "real n \<le> x \<Longrightarrow> n < 2 ^ 53 \<Longrightarrow> real n \<le> fl x"
  using fl_mono [of "real n" x] by simp

section \<open>How much rounding can add\<close>

lemma rnd_unit_bound:
  assumes "0 < x"
  shows "2 powi rnd_unit 2 53 (-1074) x / 2 \<le> x / 2 ^ 53 + 1 / 2 ^ 60"
proof (cases "\<lfloor>log 2 \<bar>x\<bar>\<rfloor> + 1 - 53 \<le> -1074")
  case True
  then have "rnd_unit 2 53 (-1074) x = -1074" by (simp add: rnd_unit_def)
  moreover have "(2::real) powi (-1074) \<le> 2 powi (-60)" by (rule power_int_increasing) simp_all
  ultimately show ?thesis using assms by (simp add: power_int_minus field_simps)
next
  case False
  let ?k = "\<lfloor>log 2 x\<rfloor>"
  from False assms have u: "rnd_unit 2 53 (-1074) x = ?k - 52" by (simp add: rnd_unit_def)
  have "(2::real) powi ?k \<le> x"
    using dbl.floor_log_iff [OF assms, of ?k] by simp
  moreover have "(2::real) powi (?k - 52) = 2 powi ?k / 2 ^ 52" by (simp add: power_int_diff)
  ultimately show ?thesis by (simp add: u field_simps)
qed

lemma fl_le: "0 \<le> x \<Longrightarrow> fl x \<le> x * (1 + 1 / 2 ^ 53) + 1 / 2 ^ 60"
proof (cases "x = 0")
  case False
  assume "0 \<le> x"
  with False have x: "0 < x" by simp
  have "fl x \<le> x + 2 powi rnd_unit 2 53 (-1074) x / 2"
    using dbl.rnd_error [OF False] unfolding fl_def of_nat_numeral by linarith
  with rnd_unit_bound [OF x] show ?thesis by (simp add: field_simps)
qed simp

section \<open>Clocks\<close>

record 's clock =
  monotonic :: "'s \<Rightarrow> real \<times> 's"
  sleep :: "real \<Rightarrow> 's \<Rightarrow> 's"

end
