(* ===== verification/RateLimit.thy ===== *)
theory RateLimit
  imports PyFloat
begin

text \<open>
  \<open>src/cce_service/rate_limit.py\<close>. \<open>RateLimiter\<close> keeps one \<open>bucket\<close> per pair of tenant
  and bucket name; the dictionary \<open>_buckets\<close> is the state. \<open>allow\<close> reads the clock once when
  it creates a bucket and once more for the refill, both under the lock, so calls are atomic.
  Token counts are floats, with their rounding.
\<close>

section \<open>Buckets\<close>

record bucket =
  capacity :: nat
  refill_per_sec :: real
  tokens :: real
  updated :: real

type_synonym limiter = "(string \<times> string, bucket) dict"

definition DEFAULTS :: "(string, real \<times> nat) dict" where
  "DEFAULTS = [(''score'', (5, 10)), (''records'', (50, 100)), (''audit'', (10, 20))]"

definition bucket_defaults :: "string \<Rightarrow> real \<times> nat" where
  "bucket_defaults name = (case dict_get DEFAULTS name of None \<Rightarrow> (10, 20) | Some d \<Rightarrow> d)"

definition get_bucket :: "'s clock \<Rightarrow> limiter \<Rightarrow> string \<Rightarrow> string \<Rightarrow> 's \<Rightarrow> (bucket \<times> limiter) \<times> 's" where
  "get_bucket C lm tenant name s =
     (case dict_get lm (tenant, name) of
        Some b \<Rightarrow> ((b, lm), s)
      | None \<Rightarrow>
          (let (refill, cap) = bucket_defaults name;
               (now, s') = monotonic C s;
               b = \<lparr>capacity = cap, refill_per_sec = refill, tokens = real cap, updated = now\<rparr>
           in ((b, dict_set (tenant, name) b lm), s')))"

definition refilled :: "real \<Rightarrow> bucket \<Rightarrow> bucket" where
  "refilled now b =
     (let elapsed = fl (now - updated b)
      in b\<lparr>tokens := min (real (capacity b)) (fl (tokens b + fl (elapsed * refill_per_sec b))),
           updated := now\<rparr>)"

definition take_token :: "bucket \<Rightarrow> bool \<times> bucket" where
  "take_token b = (if 1 \<le> tokens b then (True, b\<lparr>tokens := fl (tokens b - 1)\<rparr>) else (False, b))"

definition allow :: "'s clock \<Rightarrow> limiter \<Rightarrow> string \<Rightarrow> string \<Rightarrow> 's \<Rightarrow> (bool \<times> limiter) \<times> 's" where
  "allow C lm tenant name s =
     (let ((b, lm1), s1) = get_bucket C lm tenant name s;
          (now, s2) = monotonic C s1;
          (ok, b') = take_token (refilled now b)
      in ((ok, dict_set (tenant, name) b' lm1), s2))"

section \<open>The state of a limiter\<close>

definition bucket_ok :: "string \<Rightarrow> real \<Rightarrow> bucket \<Rightarrow> bool" where
  "bucket_ok name now b \<longleftrightarrow> (refill_per_sec b, capacity b) = bucket_defaults name
     \<and> 0 \<le> tokens b \<and> tokens b \<le> real (capacity b) \<and> updated b \<le> now"

definition limiter_ok :: "real \<Rightarrow> limiter \<Rightarrow> bool" where
  "limiter_ok now lm \<longleftrightarrow> (\<forall>t n b. dict_get lm (t, n) = Some b \<longrightarrow> bucket_ok n now b)"

lemma bucket_defaults_bounds:
  "bucket_defaults n = (r, c) \<Longrightarrow> 5 \<le> r \<and> r \<le> 50 \<and> 10 \<le> c \<and> c \<le> 100"
  by (auto simp: bucket_defaults_def DEFAULTS_def split: if_splits)

lemma refilled_ok:
  assumes "bucket_ok n u b" "updated b \<le> now"
  shows "bucket_ok n now (refilled now b)"
proof -
  obtain r c where d: "bucket_defaults n = (r, c)" by (cases "bucket_defaults n")
  from bucket_defaults_bounds [OF d] have "0 \<le> r" by simp
  with assms have "0 \<le> fl (tokens b + fl (fl (now - updated b) * r))"
    by (intro fl_nonneg add_nonneg_nonneg mult_nonneg_nonneg) (auto simp: bucket_ok_def)
  with assms d show ?thesis by (auto simp: bucket_ok_def refilled_def Let_def)
qed

lemma take_token_ok:
  assumes "bucket_ok n now b" "take_token b = (ok, b')"
  shows "bucket_ok n now b'"
proof (cases "1 \<le> tokens b")
  case False
  with assms show ?thesis by (simp add: take_token_def)
next
  case True
  obtain r c where d: "bucket_defaults n = (r, c)" by (cases "bucket_defaults n")
  with assms bucket_defaults_bounds [OF d] have "tokens b - 1 \<le> real (capacity b)" "capacity b < 2 ^ 53"
    by (auto simp: bucket_ok_def)
  then have "fl (tokens b - 1) \<le> real (capacity b)" by (rule fl_le_nat)
  with True assms show ?thesis by (auto simp: take_token_def bucket_ok_def fl_nonneg)
qed

lemma take_token_frame:
  "take_token b = (ok, b') \<Longrightarrow> updated b' = updated b \<and> capacity b' = capacity b \<and> refill_per_sec b' = refill_per_sec b"
  by (auto simp: take_token_def split: if_splits)

lemma refilled_frame [simp]:
  "updated (refilled now b) = now" "capacity (refilled now b) = capacity b"
  "refill_per_sec (refilled now b) = refill_per_sec b"
  by (simp_all add: refilled_def Let_def)

section \<open>How many calls a bucket admits\<close>

text \<open>Rounding lets a call gain at most \<open>slack\<close> and stretches the rate by at most \<open>stretch\<close>.\<close>

definition slack :: real where "slack = 1 / 2 ^ 42"
definition stretch :: real where "stretch = 1 + 1 / 2 ^ 50"

definition wide :: real where "wide = 1 + 1 / 2 ^ 53"
definition tiny :: real where "tiny = 1 / 2 ^ 60"

lemma fl_wide: "0 \<le> x \<Longrightarrow> fl x \<le> x * wide + tiny"
  using fl_le by (simp add: wide_def tiny_def)

lemma wide_bounds: "0 \<le> wide" "wide \<le> 2" "wide * wide * wide \<le> stretch" "100 * wide \<le> 100 + slack / 8"
  and tiny_bounds: "0 \<le> tiny" "tiny \<le> slack / 4096"
  by (simp_all add: wide_def stretch_def tiny_def slack_def)

lemma refill_sum:
  fixes p q x y w t z sl :: real
  assumes "p \<le> 100 * w - 100" "q \<le> x + 101 * y" "x \<le> z" "y \<le> 2 * t"
    and "100 * w \<le> 100 + sl / 8" "0 \<le> t" "t \<le> sl / 4096"
  shows "p + q + t \<le> z + sl / 2"
  using assms by linarith

lemma increment_bound:
  assumes "0 \<le> dt" "0 \<le> r" "r \<le> 50"
  shows "fl (fl dt * r) \<le> wide * wide * (r * dt) + 101 * tiny"
proof -
  have "fl dt * r \<le> (dt * wide + tiny) * r"
    using assms by (intro mult_right_mono fl_wide)
  then have "fl dt * r * wide \<le> (dt * wide + tiny) * r * wide"
    by (rule mult_right_mono) (rule wide_bounds)
  moreover have "fl (fl dt * r) \<le> fl dt * r * wide + tiny"
    using assms by (intro fl_wide mult_nonneg_nonneg fl_nonneg)
  moreover have "(dt * wide + tiny) * r * wide = wide * wide * (r * dt) + (r * wide) * tiny"
    by (simp add: algebra_simps)
  moreover have "(r * wide) * tiny \<le> (50 * 2) * tiny"
    using assms wide_bounds tiny_bounds by (intro mult_right_mono mult_mono) auto
  ultimately show ?thesis by linarith
qed

lemma refilled_tokens:
  assumes "bucket_ok n u b" "updated b \<le> now"
  shows "tokens (refilled now b) \<le> tokens b + stretch * (refill_per_sec b * (now - updated b)) + slack / 2"
proof -
  obtain r c where d: "bucket_defaults n = (r, c)" by (cases "bucket_defaults n")
  note rc = bucket_defaults_bounds [OF d]
  from assms d have b: "refill_per_sec b = r" "capacity b = c" "0 \<le> tokens b" "tokens b \<le> c"
    by (auto simp: bucket_ok_def)
  obtain dt x where dt: "dt = now - updated b" and x: "x = r * dt" by blast
  from assms(2) rc have nonneg: "0 \<le> dt" "0 \<le> x" by (simp_all add: dt x)
  let ?i = "fl (fl dt * r)"
  from nonneg rc have i: "?i \<le> wide * wide * x + 101 * tiny" "0 \<le> ?i"
    unfolding x by (intro increment_bound fl_nonneg mult_nonneg_nonneg; simp)+
  have "tokens (refilled now b) \<le> fl (tokens b + ?i)"
    by (simp add: refilled_def Let_def b dt)
  also have "\<dots> \<le> (tokens b + ?i) * wide + tiny"
    using b i by (intro fl_wide) simp
  also have "\<dots> = tokens b + (tokens b * (wide - 1) + ?i * wide + tiny)"
    by (simp add: algebra_simps)
  also have "\<dots> \<le> tokens b + (stretch * x + slack / 2)"
  proof (intro add_left_mono refill_sum [OF _ _ _ _ wide_bounds(4) tiny_bounds])
    have "tokens b * (wide - 1) \<le> 100 * (wide - 1)"
      using b rc by (intro mult_right_mono) (auto simp: wide_def)
    then show "tokens b * (wide - 1) \<le> 100 * wide - 100" by simp
    have "?i * wide \<le> (wide * wide * x + 101 * tiny) * wide"
      using i(1) wide_bounds(1) by (rule mult_right_mono)
    then show "?i * wide \<le> wide * wide * wide * x + 101 * (tiny * wide)"
      by (simp add: algebra_simps)
    show "wide * wide * wide * x \<le> stretch * x"
      using wide_bounds(3) nonneg(2) by (rule mult_right_mono)
    show "tiny * wide \<le> 2 * tiny"
      using mult_left_mono [OF wide_bounds(2) tiny_bounds(1)] by simp
  qed
  finally show ?thesis by (simp add: b x dt)
qed

lemma take_token_pays:
  assumes "bucket_ok n now b" "take_token b = (ok, b')"
  shows "tokens b' + of_bool ok \<le> tokens b + slack / 2"
proof (cases "1 \<le> tokens b")
  case False
  with assms show ?thesis by (auto simp: take_token_def slack_def)
next
  case True
  obtain r c where d: "bucket_defaults n = (r, c)" by (cases "bucket_defaults n")
  with assms bucket_defaults_bounds [OF d] have "tokens b \<le> 100" by (auto simp: bucket_ok_def)
  with True have "(tokens b - 1) * (wide - 1) \<le> 100 * (wide - 1)"
    by (intro mult_right_mono) (auto simp: wide_def)
  moreover have "fl (tokens b - 1) \<le> (tokens b - 1) * wide + tiny"
    using True by (intro fl_wide) simp
  moreover have "(tokens b - 1) * wide = tokens b - 1 + (tokens b - 1) * (wide - 1)"
    by (simp add: algebra_simps)
  ultimately have "fl (tokens b - 1) + 1 \<le> tokens b + (100 * wide - 100) + tiny" by simp
  with wide_bounds(4) tiny_bounds have "fl (tokens b - 1) + 1 \<le> tokens b + slack / 2" by linarith
  with True assms(2) show ?thesis by (auto simp: take_token_def)
qed

text \<open>One call on an existing bucket: what it spends, against the tokens and against the capacity.\<close>

lemma call_pays:
  assumes "bucket_ok n u b" "updated b \<le> now" "take_token (refilled now b) = (ok, b')"
  shows "tokens b' + of_bool ok \<le> tokens b + stretch * (refill_per_sec b * (now - updated b)) + slack"
    and "tokens b' + of_bool ok \<le> real (capacity b) + slack"
    and "bucket_ok n now b' \<and> updated b' = now \<and> refill_per_sec b' = refill_per_sec b"
proof -
  note ok = refilled_ok [OF assms(1,2)]
  note pays = take_token_pays [OF ok assms(3)]
  from pays refilled_tokens [OF assms(1,2)]
  show "tokens b' + of_bool ok \<le> tokens b + stretch * (refill_per_sec b * (now - updated b)) + slack"
    by simp
  have "tokens (refilled now b) \<le> real (capacity b)" by (simp add: refilled_def Let_def)
  with pays show "tokens b' + of_bool ok \<le> real (capacity b) + slack" by (simp add: slack_def)
  from take_token_ok [OF ok assms(3)] take_token_frame [OF assms(3)]
  show "bucket_ok n now b' \<and> updated b' = now \<and> refill_per_sec b' = refill_per_sec b" by simp
qed

section \<open>Sequences of calls\<close>

text \<open>A clock that gives a list of readings; \<open>serve\<close> runs calls against it.\<close>

definition readings :: "real list clock" where
  "readings = \<lparr>monotonic = (\<lambda>ts. (hd (ts @ [0]), tl ts)), sleep = (\<lambda>d ts. ts)\<rparr>"

fun serve :: "limiter \<Rightarrow> (string \<times> string) list \<Rightarrow> real list \<Rightarrow> bool list \<times> limiter" where
  "serve lm [] ts = ([], lm)"
| "serve lm ((tenant, name) # ks) ts =
     (let ((ok, lm'), ts') = allow readings lm tenant name ts;
          (oks, lm'') = serve lm' ks ts'
      in (ok # oks, lm''))"

definition admitted_calls :: "string \<times> string \<Rightarrow> (string \<times> string) list \<Rightarrow> bool list \<Rightarrow> nat" where
  "admitted_calls k ks oks = length (filter (\<lambda>(k', ok). k' = k \<and> ok) (zip ks oks))"

lemma admitted_calls_simps [simp]:
  "admitted_calls k [] oks = 0"
  "admitted_calls k (k' # ks) (ok # oks) = of_bool (k' = k \<and> ok) + admitted_calls k ks oks"
  by (simp_all add: admitted_calls_def)

lemma slack_nonneg: "0 \<le> slack"
  by (simp add: slack_def)

text \<open>One call, with the readings spelled out: an existing bucket costs one, a fresh one two.\<close>

definition bucket_at :: "limiter \<Rightarrow> string \<times> string \<Rightarrow> real \<Rightarrow> bucket" where
  "bucket_at lm k t =
     (case dict_get lm k of
        Some b \<Rightarrow> b
      | None \<Rightarrow> \<lparr>capacity = snd (bucket_defaults (snd k)), refill_per_sec = fst (bucket_defaults (snd k)),
                 tokens = real (snd (bucket_defaults (snd k))), updated = t\<rparr>)"

lemma allow_call:
  assumes "2 \<le> length ts" "sorted ts" "allow readings lm tenant name ts = ((ok, lm'), ts')"
  shows "\<exists>now b'. hd ts \<le> now \<and> now \<in> set ts \<and> (\<forall>t\<in>set ts'. now \<le> t)
    \<and> sorted ts' \<and> length ts \<le> length ts' + 2 \<and> set ts' \<subseteq> set ts
    \<and> take_token (refilled now (bucket_at lm (tenant, name) (hd ts))) = (ok, b')
    \<and> dict_get lm' = (dict_get lm)((tenant, name) \<mapsto> b')"
proof -
  from assms(1) obtain t u ts0 where ts: "ts = t # u # ts0"
    by (cases ts; cases "tl ts") auto
  show ?thesis
  proof (cases "dict_get lm (tenant, name)")
    case None
    then have b: "bucket_at lm (tenant, name) t = \<lparr>capacity = snd (bucket_defaults name),
        refill_per_sec = fst (bucket_defaults name), tokens = real (snd (bucket_defaults name)), updated = t\<rparr>"
      by (simp add: bucket_at_def)
    from None assms ts show ?thesis
      by (intro exI [of _ u]) (auto simp: b allow_def get_bucket_def readings_def Let_def
          fun_eq_iff split: prod.splits)
  next
    case (Some b)
    with assms ts show ?thesis
      by (intro exI [of _ t]) (auto simp: allow_def get_bucket_def readings_def bucket_at_def Let_def
          fun_eq_iff split: prod.splits)
  qed
qed

lemma limiter_okD: "limiter_ok u lm \<Longrightarrow> dict_get lm (t, n) = Some b \<Longrightarrow> bucket_ok n u b"
  by (simp add: limiter_ok_def)

lemma bucket_ok_later: "bucket_ok n u b \<Longrightarrow> u \<le> t \<Longrightarrow> bucket_ok n t b"
  by (simp add: bucket_ok_def)

lemma bucket_at_ok:
  "limiter_ok u lm \<Longrightarrow> u \<le> t \<Longrightarrow> bucket_ok n t (bucket_at lm (tenant, n) t)"
  by (cases "dict_get lm (tenant, n)"; cases "bucket_defaults n")
     (auto simp: bucket_at_def bucket_ok_def dest!: limiter_okD)

lemma bucket_at_updated: "limiter_ok u lm \<Longrightarrow> u \<le> t \<Longrightarrow> updated (bucket_at lm (tenant, n) t) \<le> t"
  by (drule (1) bucket_at_ok [of u lm t n tenant]) (simp add: bucket_ok_def)

text \<open>One call keeps the invariant, moves its bucket only, and pays for what it admits.\<close>

lemma allow_step:
  assumes "2 \<le> length ts" "sorted ts" "limiter_ok u lm" "\<forall>t\<in>set ts. u \<le> t"
    and "allow readings lm tenant name ts = ((ok, lm'), ts')"
  obtains now b' where "now \<in> set ts" "\<forall>t\<in>set ts'. now \<le> t" "sorted ts'" "length ts \<le> length ts' + 2"
    "set ts' \<subseteq> set ts" "limiter_ok now lm'" "dict_get lm' = (dict_get lm)((tenant, name) \<mapsto> b')"
    "updated b' = now" "refill_per_sec b' = fst (bucket_defaults name)"
    "tokens b' + of_bool ok \<le> real (snd (bucket_defaults name)) + slack"
    "\<And>b. dict_get lm (tenant, name) = Some b \<Longrightarrow>
       tokens b' + of_bool ok \<le> tokens b + stretch * (fst (bucket_defaults name) * (now - updated b)) + slack"
proof -
  from allow_call [OF assms(1,2,5)] obtain now b' where
    a: "hd ts \<le> now" "now \<in> set ts" "\<forall>t\<in>set ts'. now \<le> t" "sorted ts'" "length ts \<le> length ts' + 2"
      "set ts' \<subseteq> set ts" "dict_get lm' = (dict_get lm)((tenant, name) \<mapsto> b')"
    and take: "take_token (refilled now (bucket_at lm (tenant, name) (hd ts))) = (ok, b')"
    by blast
  let ?b = "bucket_at lm (tenant, name) (hd ts)"
  from assms(1,4) have hd: "u \<le> hd ts" by (cases ts) auto
  have ok: "bucket_ok name (hd ts) ?b" using assms(3) hd by (rule bucket_at_ok)
  moreover have upd: "updated ?b \<le> now"
    using bucket_at_updated [OF assms(3) hd] a(1) by (rule order_trans)
  moreover note take
  ultimately have pays:
    "tokens b' + of_bool ok \<le> tokens ?b + stretch * (refill_per_sec ?b * (now - updated ?b)) + slack"
    "tokens b' + of_bool ok \<le> real (capacity ?b) + slack"
    "bucket_ok name now b'" "updated b' = now" "refill_per_sec b' = refill_per_sec ?b"
    using call_pays by blast+
  from ok have d: "refill_per_sec ?b = fst (bucket_defaults name)" "capacity ?b = snd (bucket_defaults name)"
    by (auto simp: bucket_ok_def dest: arg_cong [of _ _ fst] arg_cong [of _ _ snd])
  have "limiter_ok now lm'"
    unfolding limiter_ok_def
  proof (intro allI impI)
    fix t n b assume "dict_get lm' (t, n) = Some b"
    with a(7) pays(3) assms(3) hd a(1) show "bucket_ok n now b"
      by (auto simp: limiter_ok_def bucket_ok_def split: if_splits) (meson order_trans)+
  qed
  moreover have "tokens b' + of_bool ok \<le> tokens b + stretch * (fst (bucket_defaults name) * (now - updated b)) + slack"
    if "dict_get lm (tenant, name) = Some b" for b
    using pays(1) that d by (simp add: bucket_at_def)
  ultimately show thesis using a pays d by (intro that [of now b']) auto
qed

lemma serve_spends:
  assumes "limiter_ok u lm" "sorted ts" "2 * length ks \<le> length ts" "\<forall>t\<in>set ts. u \<le> t \<and> t \<le> z" "u \<le> z"
    and "serve lm ks ts = (oks, lm')" "dict_get lm k = Some b"
  shows "real (admitted_calls k ks oks)
    \<le> tokens b + stretch * (fst (bucket_defaults (snd k)) * (z - updated b)) + real (length ks) * slack"
  using assms
proof (induction ks arbitrary: lm ts u b oks)
  case Nil
  obtain t n where k: "k = (t, n)" by (cases k)
  with Nil have "bucket_ok n u b" by (auto simp: limiter_ok_def)
  with Nil k show ?case
    by (cases "bucket_defaults n")
       (auto simp: bucket_ok_def stretch_def dest!: bucket_defaults_bounds intro!: add_nonneg_nonneg mult_nonneg_nonneg)
next
  case (Cons k1 ks)
  obtain tenant name where k1: "k1 = (tenant, name)" by (cases k1)
  let ?r = "fst (bucket_defaults (snd k))"
  from Cons.prems(6) k1 obtain ok lm1 ts1 oks1 where
    call: "allow readings lm tenant name ts = ((ok, lm1), ts1)" and rest: "serve lm1 ks ts1 = (oks1, lm')"
    and oks: "oks = ok # oks1" by (auto split: prod.splits)
  from Cons.prems(3) have len: "2 \<le> length ts" by simp
  from Cons.prems(4) have past: "\<forall>t\<in>set ts. u \<le> t" by simp
  from allow_step [OF len Cons.prems(2,1) past call] obtain now b' where
    s: "now \<in> set ts" "\<forall>t\<in>set ts1. now \<le> t" "sorted ts1" "length ts \<le> length ts1 + 2"
      "set ts1 \<subseteq> set ts" "limiter_ok now lm1" "dict_get lm1 = (dict_get lm)((tenant, name) \<mapsto> b')"
      "updated b' = now"
      "\<And>b. dict_get lm (tenant, name) = Some b \<Longrightarrow>
         tokens b' + of_bool ok \<le> tokens b + stretch * (fst (bucket_defaults name) * (now - updated b)) + slack"
    by metis
  have times: "\<forall>t\<in>set ts1. now \<le> t \<and> t \<le> z" "now \<le> z" "2 * length ks \<le> length ts1"
    using s Cons.prems(3,4) by auto
  note IH = Cons.IH [OF s(6,3) times(3,1,2) rest]
  show ?case
  proof (cases "k1 = k")
    case True
    with k1 s(7) have "dict_get lm1 k = Some b'" by simp
    from IH [OF this] have "real (admitted_calls k ks oks1) \<le> tokens b' + stretch * (?r * (z - now)) + real (length ks) * slack"
      by (simp add: s(8))
    moreover have "tokens b' + of_bool ok \<le> tokens b + stretch * (?r * (now - updated b)) + slack"
      using s(9) [of b] Cons.prems(7) True k1 by auto
    moreover have "stretch * (?r * (now - updated b)) + stretch * (?r * (z - now)) = stretch * (?r * (z - updated b))"
      by (simp add: algebra_simps)
    ultimately show ?thesis using True oks by (simp add: algebra_simps)
  next
    case False
    with k1 s(7) Cons.prems(7) have "dict_get lm1 k = Some b" by auto
    from IH [OF this] False oks slack_nonneg show ?thesis by (simp add: algebra_simps)
  qed
qed

lemma serve_window:
  assumes "limiter_ok u lm" "sorted ts" "2 * length ks \<le> length ts" "\<forall>t\<in>set ts. u \<le> t \<and> a \<le> t \<and> t \<le> z" "a \<le> z"
    and "serve lm ks ts = (oks, lm')"
  shows "real (admitted_calls k ks oks)
    \<le> real (snd (bucket_defaults (snd k))) + stretch * (fst (bucket_defaults (snd k)) * (z - a))
      + real (length ks) * slack"
  using assms
proof (induction ks arbitrary: lm ts u oks)
  case Nil
  then show ?case
    by (cases "bucket_defaults (snd k)")
       (auto simp: stretch_def dest!: bucket_defaults_bounds intro!: add_nonneg_nonneg mult_nonneg_nonneg)
next
  case (Cons k1 ks)
  obtain tenant name where k1: "k1 = (tenant, name)" by (cases k1)
  let ?r = "fst (bucket_defaults (snd k))"
  from Cons.prems(6) k1 obtain ok lm1 ts1 oks1 where
    call: "allow readings lm tenant name ts = ((ok, lm1), ts1)" and rest: "serve lm1 ks ts1 = (oks1, lm')"
    and oks: "oks = ok # oks1" by (auto split: prod.splits)
  from Cons.prems(3) have len: "2 \<le> length ts" by simp
  from Cons.prems(4) have past: "\<forall>t\<in>set ts. u \<le> t" by simp
  from allow_step [OF len Cons.prems(2,1) past call] obtain now b' where
    s: "now \<in> set ts" "\<forall>t\<in>set ts1. now \<le> t" "sorted ts1" "length ts \<le> length ts1 + 2"
      "set ts1 \<subseteq> set ts" "limiter_ok now lm1" "dict_get lm1 = (dict_get lm)((tenant, name) \<mapsto> b')"
      "updated b' = now" "tokens b' + of_bool ok \<le> real (snd (bucket_defaults name)) + slack"
    by metis
  have times: "\<forall>t\<in>set ts1. now \<le> t \<and> t \<le> z" "now \<le> z" "a \<le> now" "2 * length ks \<le> length ts1"
    using s Cons.prems(3,4) by auto
  show ?case
  proof (cases "k1 = k")
    case True
    with k1 s(7) have "dict_get lm1 k = Some b'" by simp
    from serve_spends [OF s(6,3) times(4,1,2) rest this]
    have "real (admitted_calls k ks oks1) \<le> tokens b' + stretch * (?r * (z - now)) + real (length ks) * slack"
      by (simp add: s(8))
    moreover have "stretch * (?r * (z - now)) \<le> stretch * (?r * (z - a))"
      using times(3) bucket_defaults_bounds [of "snd k"]
      by (cases "bucket_defaults (snd k)") (auto simp: stretch_def intro!: mult_left_mono)
    ultimately show ?thesis using True oks s(9) k1 by (auto simp: algebra_simps)
  next
    case False
    have "\<forall>t\<in>set ts1. now \<le> t \<and> a \<le> t \<and> t \<le> z" using times by auto
    from Cons.IH [OF s(6,3) times(4) this Cons.prems(5) rest] False oks slack_nonneg show ?thesis
      by (simp add: algebra_simps)
  qed
qed

text \<open>C38: In any window of time the rate limiter admits at most the burst capacity of a bucket plus
  its rate times the length of the window: whatever the tenants call in between, and however the
  clock readings round, at most one more call passes, and the rate is stretched by \<open>2^-50\<close> at
  most (for up to \<open>2^40\<close> calls, from any reachable state of the limiter).\<close>

theorem rate_limit_window:
  assumes "limiter_ok u lm" "sorted ts" "2 * length ks \<le> length ts"
    and "\<forall>t\<in>set ts. u \<le> t \<and> a \<le> t \<and> t \<le> z" "a \<le> z" "length ks \<le> 2 ^ 40"
    and "serve lm ks ts = (oks, lm')"
  shows "real (admitted_calls (tenant, name) ks oks)
    \<le> real (snd (bucket_defaults name)) + 1 + (1 + 1 / 2 ^ 50) * (fst (bucket_defaults name) * (z - a))"
proof -
  have "real (length ks) * slack \<le> 2 ^ 40 * slack"
    using assms(6) by (intro mult_right_mono) (auto simp: slack_def)
  moreover have "(2::real) ^ 40 * slack \<le> 1" by (simp add: slack_def)
  ultimately show ?thesis
    using serve_window [OF assms(1-5,7), of "(tenant, name)"] by (simp add: stretch_def)
qed

lemma empty_limiter_ok: "limiter_ok u []"
  by (simp add: limiter_ok_def)

lemma sample_call:
  "serve [] [(''t'', ''score'')] [5, 5]
    = ([True], [((''t'', ''score''), \<lparr>capacity = 10, refill_per_sec = 5, tokens = 9, updated = 5\<rparr>)])"
  by (simp add: allow_def get_bucket_def readings_def refilled_def take_token_def bucket_defaults_def
      DEFAULTS_def Let_def)

theorem rate_limit_window_witness:
  "real (admitted_calls (''t'', ''score'') [(''t'', ''score'')] [True]) \<le> 10 + 1 + (1 + 1 / 2 ^ 50) * (5 * (6 - 5))"
  using rate_limit_window [OF empty_limiter_ok [of 5], of "[5, 5]" "[(''t'', ''score'')]" 5 6 _ _ "''t''" "''score''"]
    sample_call by (simp add: bucket_defaults_def DEFAULTS_def)

end
