(* ===== verification/Service.thy ===== *)
theory Service
  imports Jwt Repos RateLimit
begin

text \<open>
  \<open>src/cce_service/api/service.py\<close>. \<open>ScoreService\<close> is wired from a verifier, three
  repositories, a rate limiter and a dispatcher; the record \<open>service\<close> holds these parts, for any
  state types, and \<open>service_state\<close> what they keep. A handler maps a request and a state to a
  result and a state. \<open>ApiError\<close>s are values of \<open>exn\<close> with their status in \<open>status_code\<close>.

  Effects run in the order of the code: \<open>sbind\<close> sequences steps that may raise and change the
  state.
\<close>

section \<open>Steps with state\<close>

definition sbind :: "('s \<Rightarrow> 'a result \<times> 's) \<Rightarrow> ('a \<Rightarrow> 's \<Rightarrow> 'b result \<times> 's) \<Rightarrow> 's \<Rightarrow> 'b result \<times> 's" where
  "sbind m f s = (case m s of (Inl e, s') \<Rightarrow> (Inl e, s') | (Inr x, s') \<Rightarrow> f x s')"

definition lift :: "'a result \<Rightarrow> 's \<Rightarrow> 'a result \<times> 's" where
  "lift r s = (r, s)"

lemma sbind_Inr [result_simps]:
  "sbind m f s = (Inr y, s') \<longleftrightarrow> (\<exists>x s1. m s = (Inr x, s1) \<and> f x s1 = (Inr y, s'))"
  by (auto simp: sbind_def split: prod.splits sum.splits)

lemma sbind_Inl [result_simps]:
  "sbind m f s = (Inl e, s') \<longleftrightarrow> m s = (Inl e, s') \<or> (\<exists>x s1. m s = (Inr x, s1) \<and> f x s1 = (Inl e, s'))"
  by (auto simp: sbind_def split: prod.splits sum.splits)

lemma lift_eq [result_simps, simp]: "lift r s = (x, s') \<longleftrightarrow> r = x \<and> s = s'"
  by (auto simp: lift_def)

section \<open>The service\<close>

record ('w, 'v, 'j, 'r, 'a) service =
  svc_verify :: "string \<Rightarrow> 'v \<Rightarrow> Principal result \<times> 'v"
  svc_jobs :: "'j JobRepo"
  svc_records :: "'r RecordRepo"
  svc_audits :: "'a AuditRepo"
  svc_clock :: "'w clock"
  svc_now :: "'w \<Rightarrow> datetime \<times> 'w"
  svc_uuid4 :: "'w \<Rightarrow> UUID \<times> 'w"
  svc_dispatcher :: "(JobRecord \<Rightarrow> 'w \<Rightarrow> unit result \<times> 'w) option"
  svc_allow_http :: bool

record ('w, 'v, 'j, 'r, 'a) service_state =
  ss_world :: 'w
  ss_verifier :: 'v
  ss_jobs :: 'j
  ss_records :: 'r
  ss_audits :: 'a
  ss_limiter :: limiter

fun status_code :: "exn \<Rightarrow> int option" where
  "status_code (Unauthorized m) = Some 401"
| "status_code (Forbidden m) = Some 403"
| "status_code (NotFound m) = Some 404"
| "status_code (RateLimited m) = Some 429"
| "status_code (BadRequest m) = Some 400"
| "status_code e = None"

section \<open>Checks\<close>

text \<open>\<open>except X as exc: raise Y(\<dots>) from exc\<close>: an exception of another class passes.\<close>

definition reraise :: "(exn \<Rightarrow> exn) \<Rightarrow> 'a result \<Rightarrow> 'a result" where
  "reraise f r = (case r of Inl e \<Rightarrow> Inl (f e) | Inr x \<Rightarrow> Inr x)"

lemma reraise_Inr [simp]: "reraise f r = Inr x \<longleftrightarrow> r = Inr x"
  by (cases r) (auto simp: reraise_def)

fun as_unauthorized :: "exn \<Rightarrow> exn" where
  "as_unauthorized (AuthError m) = Unauthorized m"
| "as_unauthorized e = e"

fun as_forbidden :: "exn \<Rightarrow> exn" where
  "as_forbidden (AuthError m) = Forbidden m"
| "as_forbidden e = e"

definition bearer_token :: "string option \<Rightarrow> string result" where
  "bearer_token authz_header =
     (case authz_header of
        None \<Rightarrow> Inl (Unauthorized ''missing bearer token'')
      | Some h \<Rightarrow>
          if h = [] \<or> \<not> starts_with ''bearer '' (map to_lower_char h) then Inl (Unauthorized ''missing bearer token'')
          else py_index (split_ws1 h) 1)"

definition get_principal ::
    "('w, 'v, 'j, 'r, 'a) service \<Rightarrow> string option \<Rightarrow> ('w, 'v, 'j, 'r, 'a) service_state
     \<Rightarrow> Principal result \<times> ('w, 'v, 'j, 'r, 'a) service_state" where
  "get_principal S authz_header =
     sbind (lift (bearer_token authz_header)) (\<lambda>token s.
       case svc_verify S token (ss_verifier s) of
         (r, v) \<Rightarrow> (reraise as_unauthorized r, s\<lparr>ss_verifier := v\<rparr>))"

definition check_scope :: "Principal \<Rightarrow> Scope \<Rightarrow> unit result" where
  "check_scope p scope =
     reraise as_forbidden (require_scope p scope)"

definition check_rate ::
    "('w, 'v, 'j, 'r, 'a) service \<Rightarrow> Principal \<Rightarrow> string \<Rightarrow> ('w, 'v, 'j, 'r, 'a) service_state
     \<Rightarrow> unit result \<times> ('w, 'v, 'j, 'r, 'a) service_state" where
  "check_rate S p name s =
     (let ((ok, lm), w) = allow (svc_clock S) (ss_limiter s) (tenant p) name (ss_world s)
      in (require ok (RateLimited ''rate limit exceeded''), s\<lparr>ss_limiter := lm, ss_world := w\<rparr>))"

section \<open>Validation\<close>

definition safe_ref_char :: "char \<Rightarrow> bool" where
  "safe_ref_char c \<longleftrightarrow>
     (let n = (of_char c :: nat)
      in (97 \<le> n \<and> n \<le> 122) \<or> (65 \<le> n \<and> n \<le> 90) \<or> (48 \<le> n \<and> n \<le> 57) \<or> c \<in> set ''._-'')"

text \<open>The pattern \<open>_SAFE_SPEC_REF\<close> as an automaton: \<open>True\<close> after a safe character, \<open>False\<close> after a
  slash.\<close>

fun safe_ref_rest :: "bool \<Rightarrow> string \<Rightarrow> bool" where
  "safe_ref_rest after_char [] \<longleftrightarrow> after_char"
| "safe_ref_rest after_char (c # cs) \<longleftrightarrow>
     (if safe_ref_char c then safe_ref_rest True cs
      else c = CHR ''/'' \<and> after_char \<and> safe_ref_rest False cs)"

definition SAFE_SPEC_REF :: "string \<Rightarrow> bool" where
  "SAFE_SPEC_REF = re_dollar (\<lambda>s. case s of [] \<Rightarrow> False | c # cs \<Rightarrow> safe_ref_char c \<and> safe_ref_rest True cs)"

fun contains :: "string \<Rightarrow> string \<Rightarrow> bool" where
  "contains p [] \<longleftrightarrow> p = []"
| "contains p (c # cs) \<longleftrightarrow> starts_with p (c # cs) \<or> contains p cs"

definition str_value :: "pyval \<Rightarrow> exn \<Rightarrow> string result" where
  "str_value v e = (case v of VStr s \<Rightarrow> Inr s | _ \<Rightarrow> Inl e)"

definition valid_repo_url :: "bool \<Rightarrow> string \<Rightarrow> bool" where
  "valid_repo_url allow_http url \<longleftrightarrow>
     starts_with ''https://'' url \<or> (allow_http \<and> starts_with ''http://'' url)"

definition bad_url :: "bool \<Rightarrow> exn" where
  "bad_url allow_http =
     BadRequest (''repo_url must be an https:// URL'' @ (if allow_http then '' (http:// allowed by CCE_ALLOW_HTTP_REPOS)'' else []))"

definition validate_body :: "bool \<Rightarrow> pyval \<Rightarrow> (string \<times> string \<times> string) result" where
  "validate_body allow_http body =
     andthen (as_object body) (\<lambda>b.
     andthen (str_value (get_key b ''repo_url'') (bad_url allow_http)) (\<lambda>repo_url.
     andthen (require (valid_repo_url allow_http repo_url) (bad_url allow_http)) (\<lambda>_.
     andthen (str_value (get_key b ''commit_sha'') (BadRequest ''commit_sha must be a 40-char lowercase hex SHA'')) (\<lambda>commit_sha.
     andthen (require (re_dollar (hex_run 40) commit_sha) (BadRequest ''commit_sha must be a 40-char lowercase hex SHA'')) (\<lambda>_.
     andthen (str_value (get_key b ''spec_ref'') (BadRequest ''spec_ref is required'')) (\<lambda>spec_ref.
     andthen (require (spec_ref \<noteq> []) (BadRequest ''spec_ref is required'')) (\<lambda>_.
     andthen (require (\<not> (contains ''..'' spec_ref \<or> starts_with ''/'' spec_ref \<or> \<not> SAFE_SPEC_REF spec_ref))
                (BadRequest ''spec_ref must not contain path traversal'')) (\<lambda>_.
     Inr (repo_url, commit_sha, spec_ref)))))))))"

section \<open>Handlers\<close>

record ScoreJobView =
  jv_job_id :: string
  jv_status :: string
  jv_record_hash :: "string option"
  jv_score :: "string option"
  jv_sidecars :: "str_map option"
  jv_error :: "string option"

definition view_job :: "JobRecord \<Rightarrow> ScoreJobView" where
  "view_job job =
     \<lparr>jv_job_id = uuid_str (job_id job), jv_status = status_value (job_status job),
       jv_record_hash = job_record_hash job, jv_score = job_score job, jv_sidecars = job_sidecars job,
       jv_error = job_error job\<rparr>"

text \<open>\<open>JobRecord(job_id=uuid4(), \<dots>)\<close>: the defaults of both timestamps read the clock.\<close>

definition fresh_job ::
    "('w, 'v, 'j, 'r, 'a) service \<Rightarrow> Principal \<Rightarrow> string \<times> string \<times> string \<Rightarrow> ('w, 'v, 'j, 'r, 'a) service_state
     \<Rightarrow> JobRecord result \<times> ('w, 'v, 'j, 'r, 'a) service_state" where
  "fresh_job S p request s =
     (let (repo_url, commit_sha, spec_ref) = request;
          (u, w1) = svc_uuid4 S (ss_world s); (created, w2) = svc_now S w1; (updated, w3) = svc_now S w2
      in (Inr \<lparr>job_id = u, job_tenant = tenant p, job_repo_url = repo_url, job_commit_sha = commit_sha,
            job_spec_ref = spec_ref, job_status = QUEUED, job_record_hash = None, job_score = None, job_error = None,
            job_sidecars = None, job_created_at = created, job_updated_at = updated\<rparr>,
          s\<lparr>ss_world := w3\<rparr>))"

definition store_job ::
    "('w, 'v, 'j, 'r, 'a) service \<Rightarrow> JobRecord \<Rightarrow> ('w, 'v, 'j, 'r, 'a) service_state
     \<Rightarrow> unit result \<times> ('w, 'v, 'j, 'r, 'a) service_state" where
  "store_job S job s =
     (let (r, j) = jr_create (svc_jobs S) job (ss_jobs s) in (r, s\<lparr>ss_jobs := j\<rparr>))"

definition audit_create ::
    "('w, 'v, 'j, 'r, 'a) service \<Rightarrow> Principal \<Rightarrow> JobRecord \<Rightarrow> ('w, 'v, 'j, 'r, 'a) service_state
     \<Rightarrow> AuditEvent result \<times> ('w, 'v, 'j, 'r, 'a) service_state" where
  "audit_create S p job s =
     (let (now, w) = svc_now S (ss_world s);
          e = audit_event (subject p) ''score.create'' (uuid_str (job_id job)) (tenant p)
                (Some [(''repo_url'', VStr (job_repo_url job)), (''commit_sha'', VStr (job_commit_sha job))]) now;
          (r, a) = ar_append (svc_audits S) e (ss_audits s)
      in (r, s\<lparr>ss_world := w, ss_audits := a\<rparr>))"

definition run_dispatcher ::
    "('w, 'v, 'j, 'r, 'a) service \<Rightarrow> JobRecord \<Rightarrow> ('w, 'v, 'j, 'r, 'a) service_state
     \<Rightarrow> unit result \<times> ('w, 'v, 'j, 'r, 'a) service_state" where
  "run_dispatcher S job s =
     (case svc_dispatcher S of
        None \<Rightarrow> (Inr (), s)
      | Some d \<Rightarrow> (let (r, w) = d job (ss_world s) in (r, s\<lparr>ss_world := w\<rparr>)))"

definition create_score ::
    "('w, 'v, 'j, 'r, 'a) service \<Rightarrow> string option \<Rightarrow> pyval \<Rightarrow> ('w, 'v, 'j, 'r, 'a) service_state
     \<Rightarrow> ScoreJobView result \<times> ('w, 'v, 'j, 'r, 'a) service_state" where
  "create_score S authz_header body =
     sbind (get_principal S authz_header) (\<lambda>p.
     sbind (lift (check_scope p SCORE_WRITE)) (\<lambda>_.
     sbind (check_rate S p ''score'') (\<lambda>_.
     sbind (lift (validate_body (svc_allow_http S) body)) (\<lambda>request.
     sbind (fresh_job S p request) (\<lambda>job.
     sbind (store_job S job) (\<lambda>_.
     sbind (audit_create S p job) (\<lambda>_.
     sbind (run_dispatcher S job) (\<lambda>_.
     lift (Inr (view_job job))))))))))"

fun as_bad_uuid :: "exn \<Rightarrow> exn" where
  "as_bad_uuid (ValueError m) = BadRequest ''job_id must be a UUID''"
| "as_bad_uuid e = e"

definition get_score ::
    "('w, 'v, 'j, 'r, 'a) service \<Rightarrow> string option \<Rightarrow> string \<Rightarrow> ('w, 'v, 'j, 'r, 'a) service_state
     \<Rightarrow> ScoreJobView result \<times> ('w, 'v, 'j, 'r, 'a) service_state" where
  "get_score S authz_header job_id_text =
     sbind (get_principal S authz_header) (\<lambda>p.
     sbind (lift (check_scope p SCORE_WRITE)) (\<lambda>_.
     sbind (lift (reraise as_bad_uuid (uuid_parse job_id_text))) (\<lambda>uid s.
       lift (andthen (jr_get (svc_jobs S) uid (ss_jobs s)) (\<lambda>job.
         case job of
           None \<Rightarrow> Inl (NotFound ''unknown job'')
         | Some j \<Rightarrow> if job_tenant j \<noteq> tenant p then Inl (NotFound ''unknown job'') else Inr (view_job j))) s)))"

record ScoreRecordView =
  rv_record_hash :: string
  rv_commit_sha :: string
  rv_repo_url :: string
  rv_spec_hash :: string
  rv_score :: string
  rv_metrics :: "(string, pyval) dict"
  rv_tool_digests :: str_map

definition view_record :: "ScoreRecord \<Rightarrow> ScoreRecordView" where
  "view_record r =
     \<lparr>rv_record_hash = rec_hash r, rv_commit_sha = rec_commit_sha r, rv_repo_url = rec_repo_url r,
       rv_spec_hash = rec_spec_hash r, rv_score = rec_score r, rv_metrics = rec_metrics r,
       rv_tool_digests = rec_tool_digests r\<rparr>"

definition get_record ::
    "('w, 'v, 'j, 'r, 'a) service \<Rightarrow> string option \<Rightarrow> string \<Rightarrow> ('w, 'v, 'j, 'r, 'a) service_state
     \<Rightarrow> ScoreRecordView result \<times> ('w, 'v, 'j, 'r, 'a) service_state" where
  "get_record S authz_header record_hash =
     sbind (get_principal S authz_header) (\<lambda>p.
     sbind (lift (check_scope p RECORDS_READ)) (\<lambda>_.
     sbind (lift (require (re_dollar sha256_text record_hash) (BadRequest ''record_hash must be sha256:<64 hex>''))) (\<lambda>_ s.
       lift (andthen (rr_get (svc_records S) record_hash (ss_records s)) (\<lambda>r.
         case r of
           None \<Rightarrow> Inl (NotFound ''unknown record'')
         | Some x \<Rightarrow> if rec_tenant x \<noteq> tenant p then Inl (NotFound ''unknown record'') else Inr (view_record x))) s)))"

record AuditView =
  av_id :: int
  av_actor :: string
  av_action :: string
  av_target :: string
  av_tenant :: string
  av_ts :: string
  av_payload :: "(string, pyval) dict"

definition view_event :: "AuditEvent \<Rightarrow> AuditView" where
  "view_event e =
     \<lparr>av_id = ev_id e, av_actor = ev_actor e, av_action = ev_action e, av_target = ev_target e,
       av_tenant = ev_tenant e, av_ts = isoformat (ev_ts e), av_payload = ev_payload e\<rparr>"

definition list_audit ::
    "('w, 'v, 'j, 'r, 'a) service \<Rightarrow> string option \<Rightarrow> string \<Rightarrow> ('w, 'v, 'j, 'r, 'a) service_state
     \<Rightarrow> AuditView list result \<times> ('w, 'v, 'j, 'r, 'a) service_state" where
  "list_audit S authz_header since_iso =
     sbind (get_principal S authz_header) (\<lambda>p.
     sbind (lift (check_scope p AUDIT_READ)) (\<lambda>_ s.
       lift (andthen (ar_since (svc_audits S) since_iso (Some (tenant p)) (ss_audits s)) (\<lambda>es.
         Inr (map view_event es))) s))"

section \<open>The default wiring\<close>

text \<open>\<open>ScoreService.__init__\<close> with its default repositories.\<close>

definition memory_service ::
    "(string \<Rightarrow> 'v \<Rightarrow> Principal result \<times> 'v) \<Rightarrow> 'w clock \<Rightarrow> ('w \<Rightarrow> datetime \<times> 'w) \<Rightarrow> ('w \<Rightarrow> UUID \<times> 'w)
     \<Rightarrow> (JobRecord \<Rightarrow> 'w \<Rightarrow> unit result \<times> 'w) option \<Rightarrow> bool
     \<Rightarrow> ('w, 'v, job_store, record_store, audit_store) service" where
  "memory_service verify clk now uuid4 dispatcher allow_http =
     \<lparr>svc_verify = verify, svc_jobs = InMemoryJobRepo, svc_records = InMemoryRecordRepo,
       svc_audits = InMemoryAuditRepo, svc_clock = clk, svc_now = now, svc_uuid4 = uuid4,
       svc_dispatcher = dispatcher, svc_allow_http = allow_http\<rparr>"

section \<open>Who may do what\<close>

definition authenticated ::
    "('w, 'v, 'j, 'r, 'a) service \<Rightarrow> string option \<Rightarrow> ('w, 'v, 'j, 'r, 'a) service_state \<Rightarrow> Principal \<Rightarrow> bool" where
  "authenticated S authz_header s p \<longleftrightarrow>
     (\<exists>token v. bearer_token authz_header = Inr token \<and> svc_verify S token (ss_verifier s) = (Inr p, v))"

text \<open>Two states that agree on everything the repositories keep.\<close>

definition same_stores ::
    "('w, 'v, 'j, 'r, 'a) service_state \<Rightarrow> ('w, 'v, 'j, 'r, 'a) service_state \<Rightarrow> bool" where
  "same_stores s s' \<longleftrightarrow> ss_jobs s' = ss_jobs s \<and> ss_records s' = ss_records s \<and> ss_audits s' = ss_audits s"

lemma same_stores_refl [simp]: "same_stores s s"
  by (simp add: same_stores_def)

lemma same_stores_trans: "same_stores s s' \<Longrightarrow> same_stores s' s'' \<Longrightarrow> same_stores s s''"
  by (simp add: same_stores_def)

lemma get_principal_Inr:
  "get_principal S h s = (Inr p, s') \<Longrightarrow> authenticated S h s p \<and> same_stores s s'"
proof (cases "bearer_token h")
  case (Inr token)
  assume "get_principal S h s = (Inr p, s')"
  with Inr show ?thesis
    by (cases "svc_verify S token (ss_verifier s)")
       (auto simp: get_principal_def sbind_def lift_def authenticated_def same_stores_def)
qed (simp add: get_principal_def sbind_def lift_def)

lemma get_principal_stores: "get_principal S h s = (r, s') \<Longrightarrow> same_stores s s'"
  by (auto simp: get_principal_def sbind_def lift_def same_stores_def split: prod.splits sum.splits)

lemma check_rate_stores: "check_rate S p n s = (r, s') \<Longrightarrow> same_stores s s'"
  by (auto simp: check_rate_def same_stores_def split: prod.splits)

lemma check_scope_Inr [simp]: "check_scope p sc = Inr u \<longleftrightarrow> scope_value sc \<in> scopes p"
  by (simp add: check_scope_def require_scope_def)

lemma fresh_job_stores: "fresh_job S p q s = (r, s') \<Longrightarrow> same_stores s s'"
  by (auto simp: fresh_job_def same_stores_def split: prod.splits)

text \<open>What the reads give, before any law of the repositories.\<close>

lemma get_score_Inr:
  assumes "get_score S h u s = (Inr v, s')"
  shows "\<exists>p uid j. authenticated S h s p \<and> ''score:write'' \<in> scopes p \<and> uuid_parse u = Inr uid
    \<and> jr_get (svc_jobs S) uid (ss_jobs s) = Inr (Some j) \<and> job_tenant j = tenant p \<and> v = view_job j \<and> same_stores s s'"
proof -
  from assms obtain p s1 uid j where g: "get_principal S h s = (Inr p, s1)" "''score:write'' \<in> scopes p"
    "uuid_parse u = Inr uid" "jr_get (svc_jobs S) uid (ss_jobs s1) = Inr (Some j)"
    "job_tenant j = tenant p" "v = view_job j" "s' = s1"
    by (auto simp: get_score_def result_simps scope_value_def split: option.splits if_splits)
  with get_principal_Inr [OF g(1)] show ?thesis by (auto simp: same_stores_def)
qed

lemma get_record_Inr:
  assumes "get_record S h rh s = (Inr v, s')"
  shows "\<exists>p r. authenticated S h s p \<and> ''records:read'' \<in> scopes p
    \<and> rr_get (svc_records S) rh (ss_records s) = Inr (Some r) \<and> rec_tenant r = tenant p \<and> v = view_record r \<and> same_stores s s'"
proof -
  from assms obtain p s1 r where g: "get_principal S h s = (Inr p, s1)" "''records:read'' \<in> scopes p"
    "rr_get (svc_records S) rh (ss_records s1) = Inr (Some r)" "rec_tenant r = tenant p" "v = view_record r" "s' = s1"
    by (auto simp: get_record_def result_simps scope_value_def split: option.splits if_splits)
  with get_principal_Inr [OF g(1)] show ?thesis by (auto simp: same_stores_def)
qed

lemma list_audit_Inr:
  assumes "list_audit S h since s = (Inr vs, s')"
  shows "\<exists>p es. authenticated S h s p \<and> ''audit:read'' \<in> scopes p
    \<and> ar_since (svc_audits S) since (Some (tenant p)) (ss_audits s) = Inr es \<and> vs = map view_event es \<and> same_stores s s'"
proof -
  from assms obtain p s1 es where g: "get_principal S h s = (Inr p, s1)" "''audit:read'' \<in> scopes p"
    "ar_since (svc_audits S) since (Some (tenant p)) (ss_audits s1) = Inr es" "vs = map view_event es" "s' = s1"
    by (auto simp: list_audit_def result_simps scope_value_def)
  with get_principal_Inr [OF g(1)] show ?thesis by (auto simp: same_stores_def)
qed

section \<open>The service over its contracts\<close>

locale score_service =
  jobs: job_repo "svc_jobs S" ok_jobs held + audits: audit_repo "svc_audits S" ok_audits log_of
  for S :: "('w, 'v, 'j, 'r, 'a) service"
    and ok_jobs :: "'j \<Rightarrow> bool" and held :: "'j \<Rightarrow> UUID \<Rightarrow> JobRecord option"
    and ok_audits :: "'a \<Rightarrow> bool" and log_of :: "'a \<Rightarrow> AuditEvent list"
begin

lemma reads_own_tenant:
  assumes "ok_jobs (ss_jobs s)" "ok_audits (ss_audits s)" "datetime_ok t"
  shows "get_score S h u s = (Inr v, s1) \<Longrightarrow>
      \<exists>p uid j. authenticated S h s p \<and> ''score:write'' \<in> scopes p \<and> uuid_parse u = Inr uid
        \<and> held (ss_jobs s) uid = Some j \<and> job_tenant j = tenant p \<and> v = view_job j"
    and "list_audit S h (isoformat t) s = (Inr vs, s2) \<Longrightarrow>
      \<exists>p. authenticated S h s p \<and> ''audit:read'' \<in> scopes p
        \<and> set vs = view_event ` {e \<in> set (log_of (ss_audits s)). t \<le> ev_ts e \<and> ev_tenant e = tenant p}"
proof -
  assume "get_score S h u s = (Inr v, s1)"
  from get_score_Inr [OF this] jobs.get [OF assms(1)]
  show "\<exists>p uid j. authenticated S h s p \<and> ''score:write'' \<in> scopes p \<and> uuid_parse u = Inr uid
        \<and> held (ss_jobs s) uid = Some j \<and> job_tenant j = tenant p \<and> v = view_job j" by auto
next
  assume "list_audit S h (isoformat t) s = (Inr vs, s2)"
  from list_audit_Inr [OF this] obtain p es where p: "authenticated S h s p" "''audit:read'' \<in> scopes p"
    "ar_since (svc_audits S) (isoformat t) (Some (tenant p)) (ss_audits s) = Inr es" "vs = map view_event es" by blast
  with audits.since [OF assms(2,3), of "Some (tenant p)"]
  have "set vs = view_event ` {e \<in> set (log_of (ss_audits s)). t \<le> ev_ts e \<and> ev_tenant e = tenant p}"
    by (simp add: visible_since_def)
  with p show "\<exists>p. authenticated S h s p \<and> ''audit:read'' \<in> scopes p
        \<and> set vs = view_event ` {e \<in> set (log_of (ss_audits s)). t \<le> ev_ts e \<and> ev_tenant e = tenant p}" by blast
qed

end

interpretation mem_service: score_service "memory_service verify clk now uuid4 dispatcher allow_http"
    job_store_ok map_of audit_store_ok audit_events
  for verify clk now uuid4 dispatcher allow_http
  unfolding memory_service_def
  by (simp_all add: score_service_def mem_jobs.job_repo_axioms mem_audits.audit_repo_axioms)

section \<open>Creating a job\<close>

text \<open>The job and the event a request leaves behind.\<close>

definition job_for :: "Principal \<Rightarrow> string \<times> string \<times> string \<Rightarrow> JobRecord \<Rightarrow> bool" where
  "job_for p q job \<longleftrightarrow> job_tenant job = tenant p \<and> (job_repo_url job, job_commit_sha job, job_spec_ref job) = q
     \<and> job_status job = QUEUED \<and> job_record_hash job = None \<and> job_score job = None \<and> job_error job = None"

definition created_event :: "Principal \<Rightarrow> JobRecord \<Rightarrow> AuditEvent \<Rightarrow> bool" where
  "created_event p job e \<longleftrightarrow> ev_actor e = subject p \<and> ev_action e = ''score.create''
     \<and> ev_target e = uuid_str (job_id job) \<and> ev_tenant e = tenant p"

text \<open>A dispatcher that does not raise, and the world it leaves; the world after readings of the two clocks.\<close>

definition dispatcher_returns :: "('w, 'v, 'j, 'r, 'a) service \<Rightarrow> bool" where
  "dispatcher_returns S \<longleftrightarrow> (\<forall>d. svc_dispatcher S = Some d \<longrightarrow> (\<forall>job w. fst (d job w) = Inr ()))"

definition dispatched :: "('w, 'v, 'j, 'r, 'a) service \<Rightarrow> JobRecord \<Rightarrow> 'w \<Rightarrow> 'w" where
  "dispatched S job w = (case svc_dispatcher S of None \<Rightarrow> w | Some d \<Rightarrow> snd (d job w))"

abbreviation clock_reads :: "('w, 'v, 'j, 'r, 'a) service \<Rightarrow> 'w \<Rightarrow> 'w" where
  "clock_reads S w \<equiv> snd (monotonic (svc_clock S) w)"

abbreviation now_reads :: "('w, 'v, 'j, 'r, 'a) service \<Rightarrow> 'w \<Rightarrow> 'w" where
  "now_reads S w \<equiv> snd (svc_now S w)"

lemma fresh_job_Inr:
  "\<exists>job. fresh_job S p q s = (Inr job, s\<lparr>ss_world := (now_reads S ^^ 2) (snd (svc_uuid4 S (ss_world s)))\<rparr>) \<and> job_for p q job
     \<and> job_id job = fst (svc_uuid4 S (ss_world s))"
  by (cases q) (auto simp: fresh_job_def job_for_def numeral_2_eq_2 split: prod.splits)

lemma check_rate_world: "check_rate S p k s = (r, s') \<Longrightarrow> \<exists>n. ss_world s' = (clock_reads S ^^ n) (ss_world s)"
proof -
  assume "check_rate S p k s = (r, s')"
  then have "ss_world s' = clock_reads S (ss_world s) \<or> ss_world s' = clock_reads S (clock_reads S (ss_world s))"
    by (auto simp: check_rate_def allow_def get_bucket_def Let_def split: prod.splits option.splits)
  then show ?thesis
  proof
    assume "ss_world s' = clock_reads S (ss_world s)"
    then show ?thesis by (intro exI [of _ 1]) simp
  next
    assume "ss_world s' = clock_reads S (clock_reads S (ss_world s))"
    then show ?thesis by (intro exI [of _ 2]) (simp add: numeral_2_eq_2)
  qed
qed

lemma get_principal_world: "get_principal S h s = (r, s') \<Longrightarrow> ss_world s' = ss_world s"
  by (auto simp: get_principal_def sbind_def lift_def split: prod.splits sum.splits)

context score_service
begin

text \<open>The part after validation cannot fail while the identifier is fresh and the dispatcher, if there is one, does
  not raise; what the dispatcher does to the world comes last.\<close>

lemma accepted_job:
  assumes "ok_jobs (ss_jobs s)" "ok_audits (ss_audits s)" "dispatcher_returns S"
    and "\<And>w. datetime_ok (fst (svc_now S w))" "held (ss_jobs s) (fst (svc_uuid4 S (ss_world s))) = None"
  shows "\<exists>s' job e. sbind (fresh_job S p q) (\<lambda>job. sbind (store_job S job) (\<lambda>_. sbind (audit_create S p job) (\<lambda>_.
        sbind (run_dispatcher S job) (\<lambda>_. lift (Inr (view_job job)))))) s = (Inr (view_job job), s')
    \<and> job_for p q job \<and> created_event p job e \<and> held (ss_jobs s) (job_id job) = None
    \<and> ok_jobs (ss_jobs s') \<and> held (ss_jobs s') = (held (ss_jobs s))(job_id job \<mapsto> job)
    \<and> ok_audits (ss_audits s') \<and> log_of (ss_audits s') = log_of (ss_audits s) @ [e] \<and> ss_records s' = ss_records s
    \<and> job_id job = fst (svc_uuid4 S (ss_world s))
    \<and> ss_world s' = dispatched S job ((now_reads S ^^ 3) (snd (svc_uuid4 S (ss_world s))))"
proof -
  let ?w = "(now_reads S ^^ 2) (snd (svc_uuid4 S (ss_world s)))"
  obtain job where job: "fresh_job S p q s = (Inr job, s\<lparr>ss_world := ?w\<rparr>)" "job_for p q job"
    "job_id job = fst (svc_uuid4 S (ss_world s))"
    using fresh_job_Inr [of S p q s] by (elim exE conjE)
  with assms(5) have new: "held (ss_jobs s) (job_id job) = None" by simp
  from jobs.create [OF assms(1) new] obtain j where
    j: "jr_create (svc_jobs S) job (ss_jobs s) = (Inr (), j)" "ok_jobs j" "held j = (held (ss_jobs s))(job_id job \<mapsto> job)"
    by blast
  let ?s1 = "s\<lparr>ss_world := ?w, ss_jobs := j\<rparr>"
  have stored: "store_job S job (s\<lparr>ss_world := ?w\<rparr>) = (Inr (), ?s1)" using j(1) by (simp add: store_job_def)
  obtain now w' where now: "svc_now S ?w = (now, w')" by fastforce
  then have w': "w' = (now_reads S ^^ 3) (snd (svc_uuid4 S (ss_world s)))" by (simp add: numeral_3_eq_3 numeral_2_eq_2)
  let ?e = "audit_event (subject p) ''score.create'' (uuid_str (job_id job)) (tenant p)
      (Some [(''repo_url'', VStr (job_repo_url job)), (''commit_sha'', VStr (job_commit_sha job))]) now"
  have "datetime_ok now" using assms(4) [of ?w] now by (metis fst_conv)
  then have "datetime_ok (ev_ts ?e)" by (simp add: audit_event_def)
  from audits.append_event [OF assms(2) this] obtain a i where
    a: "ar_append (svc_audits S) ?e (ss_audits s) = (Inr (?e\<lparr>ev_id := i\<rparr>), a)" "ok_audits a"
      "log_of a = log_of (ss_audits s) @ [?e\<lparr>ev_id := i\<rparr>]" by blast
  let ?s2 = "s\<lparr>ss_jobs := j, ss_world := w', ss_audits := a\<rparr>"
  have audited: "audit_create S p job ?s1 = (Inr (?e\<lparr>ev_id := i\<rparr>), ?s2)"
    using a(1) now by (simp add: audit_create_def)
  have sent: "run_dispatcher S job ?s2 = (Inr (), ?s2\<lparr>ss_world := dispatched S job w'\<rparr>)"
    using assms(3)
    by (auto simp: run_dispatcher_def dispatched_def dispatcher_returns_def split: option.splits prod.splits) (metis fst_conv)
  have "created_event p job (?e\<lparr>ev_id := i\<rparr>)" by (simp add: created_event_def audit_event_def)
  with job(2,3) new j a show ?thesis
    by (intro exI [of _ "?s2\<lparr>ss_world := dispatched S job w'\<rparr>"] exI [of _ job] exI [of _ "?e\<lparr>ev_id := i\<rparr>"])
       (simp add: sbind_def job(1) stored audited sent lift_def flip: w')
qed

lemma create_score_world:
  assumes "ok_jobs (ss_jobs s)" "ok_audits (ss_audits s)" "dispatcher_returns S"
    and "\<And>w. datetime_ok (fst (svc_now S w))"
    and "\<And>n. held (ss_jobs s) (fst (svc_uuid4 S ((clock_reads S ^^ n) (ss_world s)))) = None"
  shows "case create_score S h body s of
      (Inl e, s') \<Rightarrow> same_stores s s' \<and> (\<exists>n. ss_world s' = (clock_reads S ^^ n) (ss_world s))
    | (Inr v, s') \<Rightarrow> \<exists>p q job e n. authenticated S h s p \<and> ''score:write'' \<in> scopes p
        \<and> validate_body (svc_allow_http S) body = Inr q \<and> job_for p q job \<and> created_event p job e \<and> v = view_job job
        \<and> held (ss_jobs s) (job_id job) = None \<and> held (ss_jobs s') = (held (ss_jobs s))(job_id job \<mapsto> job)
        \<and> log_of (ss_audits s') = log_of (ss_audits s) @ [e] \<and> ss_records s' = ss_records s
        \<and> ok_jobs (ss_jobs s') \<and> ok_audits (ss_audits s')
        \<and> job_id job = fst (svc_uuid4 S ((clock_reads S ^^ n) (ss_world s)))
        \<and> ss_world s' = dispatched S job ((now_reads S ^^ 3) (snd (svc_uuid4 S ((clock_reads S ^^ n) (ss_world s)))))"
proof -
  let ?rest = "\<lambda>p q. sbind (fresh_job S p q) (\<lambda>job. sbind (store_job S job) (\<lambda>_. sbind (audit_create S p job) (\<lambda>_.
        sbind (run_dispatcher S job) (\<lambda>_. lift (Inr (view_job job))))))"
  obtain r1 s1 where g: "get_principal S h s = (r1, s1)" by fastforce
  have w1: "ss_world s1 = (clock_reads S ^^ 0) (ss_world s)" using get_principal_world [OF g] by simp
  show ?thesis
  proof (cases r1)
    case (Inl e)
    with g get_principal_stores [OF g] w1 show ?thesis by (auto simp: create_score_def sbind_def simp del: funpow_0 intro: exI [of _ 0])
  next
    case (Inr p)
    from g Inr have auth: "authenticated S h s p" using get_principal_Inr by blast
    obtain r2 s2 where c: "check_rate S p ''score'' s1 = (r2, s2)" by fastforce
    obtain n where w2: "ss_world s2 = (clock_reads S ^^ n) (ss_world s)"
      using check_rate_world [OF c] w1 by auto
    have same: "same_stores s s1" "same_stores s s2"
      using get_principal_stores [OF g] check_rate_stores [OF c] same_stores_trans by blast+
    show ?thesis
    proof (cases "check_scope p SCORE_WRITE = Inr () \<and> r2 = Inr () \<and> (\<exists>q. validate_body (svc_allow_http S) body = Inr q)")
      case False
      then obtain e s' where "create_score S h body s = (Inl e, s')" "s' = s1 \<or> s' = s2" using g Inr c
        by (cases "check_scope p SCORE_WRITE"; cases r2; cases "validate_body (svc_allow_http S) body")
           (auto simp: create_score_def sbind_def lift_def simp del: check_scope_Inr)
      moreover from this(2) same w1 w2 have "same_stores s s'" "\<exists>n. ss_world s' = (clock_reads S ^^ n) (ss_world s)" by blast+
      ultimately show ?thesis by simp
    next
      case True
      then obtain q where q: "check_scope p SCORE_WRITE = Inr ()" "r2 = Inr ()" "validate_body (svc_allow_http S) body = Inr q"
        by blast
      from same(2) have "ss_jobs s2 = ss_jobs s" "ss_audits s2 = ss_audits s" "ss_records s2 = ss_records s"
        by (simp_all add: same_stores_def)
      with accepted_job [of s2 p q] assms w2 obtain s' job e where
        rest: "?rest p q s2 = (Inr (view_job job), s')" and job: "job_for p q job" "created_event p job e"
          "held (ss_jobs s) (job_id job) = None" "held (ss_jobs s') = (held (ss_jobs s))(job_id job \<mapsto> job)"
          "log_of (ss_audits s') = log_of (ss_audits s) @ [e]" "ss_records s' = ss_records s"
          "ok_jobs (ss_jobs s')" "ok_audits (ss_audits s')"
          "job_id job = fst (svc_uuid4 S ((clock_reads S ^^ n) (ss_world s)))"
          "ss_world s' = dispatched S job ((now_reads S ^^ 3) (snd (svc_uuid4 S ((clock_reads S ^^ n) (ss_world s)))))"
        by auto
      have "create_score S h body s = ?rest p q s2"
        using g Inr c q by (simp add: create_score_def sbind_def lift_def del: check_scope_Inr)
      with rest have made: "create_score S h body s = (Inr (view_job job), s')" by simp
      from q(1) have "''score:write'' \<in> scopes p" by (simp add: scope_value_def)
      with auth q(3) job show ?thesis unfolding made prod.case sum.case by blast
    qed
  qed
qed

lemma create_score_outcome:
  assumes "ok_jobs (ss_jobs s)" "ok_audits (ss_audits s)" "svc_dispatcher S = None"
    and "\<And>w. datetime_ok (fst (svc_now S w))" "\<And>w. held (ss_jobs s) (fst (svc_uuid4 S w)) = None"
  shows "case create_score S h body s of
      (Inl e, s') \<Rightarrow> same_stores s s'
    | (Inr v, s') \<Rightarrow> \<exists>p q job e. authenticated S h s p \<and> ''score:write'' \<in> scopes p
        \<and> validate_body (svc_allow_http S) body = Inr q \<and> job_for p q job \<and> created_event p job e \<and> v = view_job job
        \<and> held (ss_jobs s) (job_id job) = None \<and> held (ss_jobs s') = (held (ss_jobs s))(job_id job \<mapsto> job)
        \<and> log_of (ss_audits s') = log_of (ss_audits s) @ [e] \<and> ss_records s' = ss_records s
        \<and> ok_jobs (ss_jobs s') \<and> ok_audits (ss_audits s')"
  using create_score_world [OF assms(1,2) _ assms(4,5), of h body] assms(3)
  by (auto simp: dispatcher_returns_def simp del: split_paired_Ex split: prod.splits sum.splits)

end

text \<open>C32: Creating a job is all or nothing: a request either fails and leaves jobs, records and audit
  log as they were, or the caller is authenticated, holds \<open>score:write\<close>, sent a valid body, and
  exactly one new queued job of the caller's tenant and one audit event of the caller were added.
  The repositories are any that keep their contracts.\<close>

theorem create_score_all_or_nothing:
  assumes "score_service S ok_jobs held ok_audits log_of" "ok_jobs (ss_jobs s)" "ok_audits (ss_audits s)"
    and "svc_dispatcher S = None" "\<And>w. datetime_ok (fst (svc_now S w))"
    and "\<And>w. held (ss_jobs s) (fst (svc_uuid4 S w)) = None"
  shows "case create_score S h body s of
      (Inl e, s') \<Rightarrow> same_stores s s'
    | (Inr v, s') \<Rightarrow> \<exists>p q job e. authenticated S h s p \<and> ''score:write'' \<in> scopes p
        \<and> validate_body (svc_allow_http S) body = Inr q \<and> job_for p q job \<and> created_event p job e \<and> v = view_job job
        \<and> held (ss_jobs s) (job_id job) = None \<and> held (ss_jobs s') = (held (ss_jobs s))(job_id job \<mapsto> job)
        \<and> log_of (ss_audits s') = log_of (ss_audits s) @ [e] \<and> ss_records s' = ss_records s
        \<and> ok_jobs (ss_jobs s') \<and> ok_audits (ss_audits s')"
  by (rule score_service.create_score_outcome [OF assms])


section \<open>A request\<close>

definition sample_principal :: Principal where
  "sample_principal = \<lparr>subject = ''u'', tenant = ''t'', scopes = {''score:write'', ''audit:read''}, expires_at = 100\<rparr>"

definition sample_service :: "(unit, unit, job_store, record_store, audit_store) service" where
  "sample_service =
     memory_service (\<lambda>token v. (if token = ''x'' then Inr sample_principal else Inl (AuthError ''no''), v))
       \<lparr>monotonic = (\<lambda>w. (5, w)), sleep = (\<lambda>d w. w)\<rparr> (\<lambda>w. (Datetime 2024 1 1 0 0 0 0, w)) (\<lambda>w. (7, w)) None False"

definition sample_state :: "(unit, unit, job_store, record_store, audit_store) service_state" where
  "sample_state =
     \<lparr>ss_world = (), ss_verifier = (), ss_jobs = [], ss_records = [], ss_audits = new_audit_store, ss_limiter = []\<rparr>"

definition sample_body :: pyval where
  "sample_body =
     str_dict [(''repo_url'', VStr ''https://h/r''), (''commit_sha'', VStr (replicate 40 (CHR ''a''))),
       (''spec_ref'', VStr ''v1/spec.yaml'')]"

lemma sample_valid:
  "validate_body False sample_body = Inr (''https://h/r'', replicate 40 (CHR ''a''), ''v1/spec.yaml'')"
proof -
  have "re_dollar (hex_run 40) (replicate 40 (CHR ''a''))"
    by (rule re_dollar_self) (simp add: hex_run_def is_hex_lower_def list_all_iff)
  moreover have "SAFE_SPEC_REF ''v1/spec.yaml''"
    unfolding SAFE_SPEC_REF_def by (rule re_dollar_self) (simp add: safe_ref_char_def Let_def)
  ultimately show ?thesis
    by (simp add: validate_body_def sample_body_def str_dict_def as_object_def get_key_def str_value_def
        valid_repo_url_def starts_with_def)
qed

lemma sample_checks:
  "get_principal sample_service (Some ''bearer x'') sample_state = (Inr sample_principal, sample_state)"
  by (simp add: get_principal_def sbind_def lift_def bearer_token_def starts_with_def to_lower_char_def
      split_ws1_def py_lstrip_def py_space_def py_index_def sample_service_def memory_service_def reraise_def
      sample_state_def)

lemma sample_rate: "\<exists>s'. check_rate sample_service sample_principal ''score'' sample_state = (Inr (), s') \<and> same_stores sample_state s'"
  by (simp add: check_rate_def allow_def get_bucket_def refilled_def take_token_def bucket_defaults_def DEFAULTS_def
      sample_service_def memory_service_def sample_state_def same_stores_def Let_def)

lemma sample_created: "\<exists>v s'. create_score sample_service (Some ''bearer x'') sample_body sample_state = (Inr v, s')"
proof -
  from sample_rate obtain s1 where r: "check_rate sample_service sample_principal ''score'' sample_state = (Inr (), s1)"
    "same_stores sample_state s1" by blast
  then have "ss_jobs s1 = []" by (simp add: same_stores_def sample_state_def)
  have "check_scope sample_principal SCORE_WRITE = Inr ()" by (simp add: scope_value_def sample_principal_def)
  with r sample_checks sample_valid show ?thesis
    by (simp add: create_score_def sbind_def lift_def sample_service_def memory_service_def fresh_job_def store_job_def
        InMemoryJobRepo_def InMemoryAuditRepo_def audit_create_def run_dispatcher_def Let_def del: check_scope_Inr)
qed

lemma sample_wired: "score_service sample_service job_store_ok map_of audit_store_ok audit_events"
  unfolding sample_service_def by (rule mem_service.score_service_axioms)

lemma sample_tenant: "authenticated sample_service h s p \<Longrightarrow> tenant p = ''t''"
  by (auto simp: authenticated_def sample_service_def memory_service_def sample_principal_def split: if_splits)

theorem create_score_all_or_nothing_witness:
  "\<exists>v s' job. create_score sample_service (Some ''bearer x'') sample_body sample_state = (Inr v, s')
    \<and> map_of (ss_jobs s') = [job_id job \<mapsto> job] \<and> job_tenant job = ''t'' \<and> v = view_job job"
proof -
  from sample_created obtain v s' where c: "create_score sample_service (Some ''bearer x'') sample_body sample_state = (Inr v, s')"
    by blast
  have "case create_score sample_service (Some ''bearer x'') sample_body sample_state of
      (Inl e, s') \<Rightarrow> same_stores sample_state s'
    | (Inr v, s') \<Rightarrow> \<exists>p q job e. authenticated sample_service (Some ''bearer x'') sample_state p \<and> ''score:write'' \<in> scopes p
        \<and> validate_body (svc_allow_http sample_service) sample_body = Inr q \<and> job_for p q job \<and> created_event p job e
        \<and> v = view_job job \<and> map_of (ss_jobs sample_state) (job_id job) = None
        \<and> map_of (ss_jobs s') = (map_of (ss_jobs sample_state))(job_id job \<mapsto> job)
        \<and> audit_events (ss_audits s') = audit_events (ss_audits sample_state) @ [e] \<and> ss_records s' = ss_records sample_state
        \<and> job_store_ok (ss_jobs s') \<and> audit_store_ok (ss_audits s')"
    by (rule create_score_all_or_nothing [OF sample_wired])
       (auto simp: sample_state_def sample_service_def memory_service_def job_store_ok_def audit_store_ok_def
         new_audit_store_def datetime_ok_def)
  with c obtain p q job where job: "authenticated sample_service (Some ''bearer x'') sample_state p" "job_for p q job"
    "v = view_job job" "map_of (ss_jobs s') = (map_of (ss_jobs sample_state))(job_id job \<mapsto> job)" by auto
  from sample_tenant [OF job(1)] job c show ?thesis
    by (intro exI [of _ v] exI [of _ s'] exI [of _ job]) (simp add: sample_state_def job_for_def)
qed

definition sample_event_state :: "(unit, unit, job_store, record_store, audit_store) service_state" where
  "sample_event_state =
     sample_state\<lparr>ss_audits := \<lparr>audit_events =
       [(audit_event ''u'' ''score.create'' ''j'' ''t'' None (Datetime 2024 1 1 0 0 0 0))\<lparr>ev_id := 1\<rparr>,
        (audit_event ''w'' ''score.create'' ''k'' ''other'' None (Datetime 2024 1 1 0 0 0 0))\<lparr>ev_id := 2\<rparr>], next_id = 3\<rparr>\<rparr>"

lemma sample_listed:
  "\<exists>vs s'. list_audit sample_service (Some ''bearer x'') (isoformat (Datetime 2024 1 1 0 0 0 0)) sample_event_state = (Inr vs, s')"
proof -
  have "get_principal sample_service (Some ''bearer x'') sample_event_state = (Inr sample_principal, sample_event_state)"
    using sample_checks by (auto simp: get_principal_def sbind_def lift_def sample_event_state_def sample_state_def
        split: sum.splits prod.splits)
  moreover have "check_scope sample_principal AUDIT_READ = Inr ()" by (simp add: scope_value_def sample_principal_def)
  ultimately show ?thesis
    by (simp add: list_audit_def sbind_def lift_def sample_service_def memory_service_def InMemoryAuditRepo_def Let_def
        del: check_scope_Inr)
qed


text \<open>A header that holds nothing but the scheme raises \<open>IndexError\<close>, which no handler maps to a status.\<close>

lemma bare_scheme_escapes: "bearer_token (Some ''bearer '') = Inl IndexError \<and> status_code IndexError = None"
  by (simp add: bearer_token_def starts_with_def to_lower_char_def split_ws1_def py_lstrip_def py_space_def py_index_def)

end
