(* ===== verification/Breaker.thy ===== *)
theory Breaker
  imports PyFloat
begin

text \<open>
  \<open>src/cce_service/circuit_breaker.py\<close>. The class \<open>CircuitBreaker\<close> is the record
  \<open>breaker\<close>; \<open>call\<close> is split where the code releases its lock: \<open>enter\<close> is the first locked
  block, \<open>on_failure\<close> and \<open>on_success\<close> the two after the downstream call. Log lines are left
  out.

  Threads run \<open>call\<close> concurrently, so the locked blocks of several calls interleave: the step
  relation \<open>bstep\<close> has one rule per block, over the breaker, the number of calls in flight and
  the clock.
\<close>

section \<open>State and operations\<close>

datatype breaker_state = CLOSED | OPEN | HALF_OPEN

record breaker =
  b_name :: string
  failure_threshold :: int
  recovery_timeout :: real
  b_state :: breaker_state
  failure_count :: int
  last_failure_time :: real

definition new_breaker :: "string \<Rightarrow> int \<Rightarrow> real \<Rightarrow> breaker" where
  "new_breaker n threshold timeout =
     \<lparr>b_name = n, failure_threshold = threshold, recovery_timeout = timeout,
       b_state = CLOSED, failure_count = 0, last_failure_time = 0\<rparr>"

definition maybe_transition_locked :: "real \<Rightarrow> breaker \<Rightarrow> breaker" where
  "maybe_transition_locked now b =
     (if b_state b = OPEN \<and> recovery_timeout b \<le> fl (now - last_failure_time b)
      then b\<lparr>b_state := HALF_OPEN\<rparr> else b)"

definition enter :: "real \<Rightarrow> breaker \<Rightarrow> unit result \<times> breaker" where
  "enter now b =
     (let b' = maybe_transition_locked now b
      in if b_state b' = OPEN
         then (Inl (CircuitBreakerOpenError (''circuit breaker '' @ [CHR 0x27] @ b_name b' @ [CHR 0x27] @ '' is open; fast-failing'')), b')
         else (Inr (), b'))"

definition on_failure :: "real \<Rightarrow> breaker \<Rightarrow> breaker" where
  "on_failure now b =
     (let b' = b\<lparr>failure_count := failure_count b + 1, last_failure_time := now\<rparr>
      in if failure_threshold b' \<le> failure_count b' \<and> b_state b' \<noteq> OPEN
         then b'\<lparr>b_state := OPEN\<rparr> else b')"

definition on_success :: "breaker \<Rightarrow> breaker" where
  "on_success b =
     (if b_state b = HALF_OPEN then b\<lparr>b_state := CLOSED, failure_count := 0\<rparr> else b)"

text \<open>\<open>call\<close> on one thread: the downstream runs between the two locked blocks.\<close>

definition breaker_call ::
    "'s clock \<Rightarrow> ('s \<Rightarrow> 'a result \<times> 's) \<Rightarrow> breaker \<Rightarrow> 's \<Rightarrow> 'a result \<times> breaker \<times> 's" where
  "breaker_call C func b s =
     (let (now, s1) = (if b_state b = OPEN then monotonic C s else (0, s))
      in case enter now b of
           (Inl e, b1) \<Rightarrow> (Inl e, b1, s1)
         | (Inr _, b1) \<Rightarrow>
             (case func s1 of
                (Inl e, s2) \<Rightarrow> (let (failed, s3) = monotonic C s2 in (Inl e, on_failure failed b1, s3))
              | (Inr x, s2) \<Rightarrow> (Inr x, on_success b1, s2)))"

section \<open>Interleaved calls\<close>

record breaker_config =
  br :: breaker
  in_flight :: nat
  elapsed_to :: real

datatype breaker_event = Admitted real | Refused real | Failed real | Succeeded real

inductive bstep :: "breaker_config \<Rightarrow> breaker_event \<Rightarrow> breaker_config \<Rightarrow> bool" where
  admitted: "elapsed_to c \<le> t \<Longrightarrow> enter t (br c) = (Inr (), b') \<Longrightarrow>
     bstep c (Admitted t) \<lparr>br = b', in_flight = in_flight c + 1, elapsed_to = t\<rparr>"
| refused: "elapsed_to c \<le> t \<Longrightarrow> enter t (br c) = (Inl e, b') \<Longrightarrow>
     bstep c (Refused t) \<lparr>br = b', in_flight = in_flight c, elapsed_to = t\<rparr>"
| failed: "elapsed_to c \<le> t \<Longrightarrow> in_flight c = Suc n \<Longrightarrow>
     bstep c (Failed t) \<lparr>br = on_failure t (br c), in_flight = n, elapsed_to = t\<rparr>"
| succeeded: "elapsed_to c \<le> t \<Longrightarrow> in_flight c = Suc n \<Longrightarrow>
     bstep c (Succeeded t) \<lparr>br = on_success (br c), in_flight = n, elapsed_to = t\<rparr>"

inductive bsteps :: "breaker_config \<Rightarrow> breaker_event list \<Rightarrow> breaker_config \<Rightarrow> bool" where
  none: "bsteps c [] c"
| more: "bsteps c es c' \<Longrightarrow> bstep c' e c'' \<Longrightarrow> bsteps c (es @ [e]) c''"

definition start_config :: "breaker \<Rightarrow> breaker_config" where
  "start_config b = \<lparr>br = b, in_flight = 0, elapsed_to = 0\<rparr>"

inductive_cases bstep_Admitted [elim!]: "bstep c (Admitted t) c'"
inductive_cases bstep_Refused [elim!]: "bstep c (Refused t) c'"
inductive_cases bstep_Failed [elim!]: "bstep c (Failed t) c'"
inductive_cases bstep_Succeeded [elim!]: "bstep c (Succeeded t) c'"
inductive_simps bsteps_Nil [simp]: "bsteps c [] c'"
inductive_simps bsteps_snoc: "bsteps c (es @ [e]) c'"

lemmas breaker_defs =
  enter_def on_failure_def on_success_def maybe_transition_locked_def Let_def

section \<open>What a breaker promises\<close>

text \<open>
  The contract, without clock or locks: \<open>n\<close> failures since the breaker last closed, and whether a
  trial is under way. A failure always counts; an admission while the threshold is reached starts
  a trial; a success only has an effect during a trial, which it ends.
\<close>

fun contract_step :: "int \<Rightarrow> int \<times> bool \<Rightarrow> breaker_event \<Rightarrow> int \<times> bool" where
  "contract_step k (n, trial) (Failed t) = (n + 1, False)"
| "contract_step k (n, trial) (Succeeded t) = (if trial then (0, False) else (n, trial))"
| "contract_step k (n, trial) (Admitted t) = (n, k \<le> n)"
| "contract_step k (n, trial) (Refused t) = (n, trial)"

definition contract :: "int \<Rightarrow> breaker_event list \<Rightarrow> int \<times> bool" where
  "contract k es = foldl (contract_step k) (0, False) es"

definition contract_state :: "int \<Rightarrow> int \<times> bool \<Rightarrow> breaker_state" where
  "contract_state k p = (if fst p < k then CLOSED else if snd p then HALF_OPEN else OPEN)"

lemma contract_Nil [simp]: "contract k [] = (0, False)"
  and contract_snoc [simp]: "contract k (es @ [e]) = contract_step k (contract k es) e"
  by (simp_all add: contract_def)

text \<open>The simulation: the breaker shows the contract's state, and its settings never change.\<close>

definition shows_contract :: "breaker \<Rightarrow> int \<times> bool \<Rightarrow> bool" where
  "shows_contract b p \<longleftrightarrow> failure_count b = fst p \<and> 0 \<le> fst p
     \<and> b_state b = contract_state (failure_threshold b) p \<and> (snd p \<longrightarrow> failure_threshold b \<le> fst p)"

lemma enter_config:
  "enter t b = (r, b') \<Longrightarrow> failure_threshold b' = failure_threshold b
     \<and> recovery_timeout b' = recovery_timeout b \<and> last_failure_time b' = last_failure_time b"
  by (auto simp: breaker_defs split: if_splits)

lemma on_config [simp]:
  "failure_threshold (on_failure t b) = failure_threshold b"
  "recovery_timeout (on_failure t b) = recovery_timeout b"
  "last_failure_time (on_failure t b) = t"
  "failure_threshold (on_success b) = failure_threshold b"
  "recovery_timeout (on_success b) = recovery_timeout b"
  "last_failure_time (on_success b) = last_failure_time b"
  by (simp_all add: breaker_defs)

lemma bstep_config:
  "bstep c e c' \<Longrightarrow> failure_threshold (br c') = failure_threshold (br c)
     \<and> recovery_timeout (br c') = recovery_timeout (br c) \<and> elapsed_to c \<le> elapsed_to c'"
  by (erule bstep.cases) (auto dest!: enter_config)

lemma bsteps_config:
  "bsteps c es c' \<Longrightarrow> failure_threshold (br c') = failure_threshold (br c)
     \<and> recovery_timeout (br c') = recovery_timeout (br c) \<and> elapsed_to c \<le> elapsed_to c'"
  by (induction rule: bsteps.induct) (auto dest!: bstep_config)

lemma bstep_contract:
  assumes "bstep c e c'" "1 \<le> failure_threshold (br c)" "shows_contract (br c) p"
  shows "shows_contract (br c') (contract_step (failure_threshold (br c)) p e)"
  using assms
  by (cases p, elim bstep.cases)
     (auto simp: shows_contract_def contract_state_def breaker_defs split: if_splits)

lemma bsteps_contract:
  assumes "bsteps c es c'" "c = start_config (new_breaker n k T)" "1 \<le> k"
  shows "shows_contract (br c') (contract k es)"
  using assms
proof (induction rule: bsteps.induct)
  case (none c)
  then show ?case by (simp add: start_config_def new_breaker_def shows_contract_def contract_state_def)
next
  case (more c es c' e c'')
  then have "failure_threshold (br c') = k"
    using bsteps_config [OF more.hyps(1)] by (simp add: start_config_def new_breaker_def)
  with bstep_contract [OF more.hyps(2)] more show ?case by simp
qed


section \<open>No early admission\<close>

lemma bsteps_last_failure:
  "bsteps c es c' \<Longrightarrow> last_failure_time (br c) \<le> elapsed_to c \<Longrightarrow>
     last_failure_time (br c) \<le> last_failure_time (br c') \<and> last_failure_time (br c') \<le> elapsed_to c'"
proof (induction rule: bsteps.induct)
  case (none c)
  then show ?case by simp
next
  case (more c es c' e c'')
  from more.hyps(2) more.IH more.prems show ?case
    by (elim bstep.cases) (auto dest!: enter_config)
qed

lemma admitted_after_timeout:
  assumes "enter t b = (Inr u, b')" "b_state b = OPEN" "l \<le> last_failure_time b"
  shows "recovery_timeout b \<le> fl (t - l)"
proof -
  from assms(1,2) have "recovery_timeout b \<le> fl (t - last_failure_time b)"
    by (auto simp: breaker_defs split: if_splits)
  also have "\<dots> \<le> fl (t - l)" using assms(3) by (intro fl_mono) simp
  finally show ?thesis .
qed

lemma stays_open:
  "bstep c e c' \<Longrightarrow> b_state (br c) = OPEN \<Longrightarrow> \<forall>t. e \<noteq> Admitted t \<Longrightarrow> b_state (br c') = OPEN"
  by (erule bstep.cases) (auto simp: breaker_defs split: if_splits)

definition open_until :: "real \<Rightarrow> real \<Rightarrow> breaker_event list \<Rightarrow> breaker_config \<Rightarrow> bool" where
  "open_until T l es c \<longleftrightarrow>
     (\<forall>t. Admitted t \<in> set es \<longrightarrow> T \<le> fl (t - l) \<and> t \<le> elapsed_to c)
     \<and> ((\<forall>t. Admitted t \<notin> set es) \<longrightarrow> b_state (br c) = OPEN)"

lemma bsteps_open_until:
  assumes "bsteps c es c'" "b_state (br c) = OPEN" "last_failure_time (br c) \<le> elapsed_to c"
  shows "open_until (recovery_timeout (br c)) (last_failure_time (br c)) es c'"
  using assms
proof (induction rule: bsteps.induct)
  case (none c)
  then show ?case by (simp add: open_until_def)
next
  case (more c es c' e c'')
  let ?T = "recovery_timeout (br c)" and ?l = "last_failure_time (br c)"
  from more have IH: "open_until ?T ?l es c'" by simp
  note frame = bsteps_config [OF more.hyps(1)] bsteps_last_failure [OF more.hyps(1) more.prems(2)]
  from bstep_config [OF more.hyps(2)] have later: "elapsed_to c' \<le> elapsed_to c''" by simp
  have new: "?T \<le> fl (t - ?l) \<and> t \<le> elapsed_to c''" if e: "e = Admitted t" for t
  proof (cases "\<forall>u. Admitted u \<notin> set es")
    case True
    with IH have "b_state (br c') = OPEN" by (simp add: open_until_def)
    with more.hyps(2) e frame show ?thesis by (auto dest!: admitted_after_timeout)
  next
    case False
    then obtain u where "Admitted u \<in> set es" by blast
    with IH have "?T \<le> fl (u - ?l)" "u \<le> elapsed_to c'" by (auto simp: open_until_def)
    moreover from more.hyps(2) e have "elapsed_to c' \<le> t" "t = elapsed_to c''" by auto
    ultimately show ?thesis using fl_mono [of "u - ?l" "t - ?l"] by simp
  qed
  have "b_state (br c'') = OPEN" if "\<forall>t. Admitted t \<notin> set (es @ [e])"
    using that IH stays_open [OF more.hyps(2)] by (auto simp: open_until_def)
  with new IH later show ?case by (fastforce simp: open_until_def)
qed

text \<open>Once a failure at time \<open>u\<close> left the circuit breaker open, no call is admitted before the
  recovery timeout has passed since \<open>u\<close>, whatever the calls already in flight do.\<close>

theorem breaker_no_early_admission:
  assumes "bsteps (start_config (new_breaker n k T)) (es @ [Failed u]) c" "b_state (br c) = OPEN"
    and "bsteps c es' c'" "Admitted t \<in> set es'"
  shows "T \<le> fl (t - u)"
proof -
  from assms(1) have u: "last_failure_time (br c) = u" "elapsed_to c = u" by (auto simp: bsteps_snoc)
  have "recovery_timeout (br c) = T"
    using bsteps_config [OF assms(1)] by (simp add: start_config_def new_breaker_def)
  with bsteps_open_until [OF assms(3,2)] assms(4) u show ?thesis by (auto simp: open_until_def)
qed

section \<open>Runs of a breaker\<close>

text \<open>A trip after one failure, and the trial that follows: \<open>tripped\<close> is open since time 2.\<close>

definition tripped :: breaker_config where
  "tripped = \<lparr>br = on_failure 2 (new_breaker ''dispatch'' 1 30), in_flight = 0, elapsed_to = 2\<rparr>"

lemma run_tripped: "bsteps (start_config (new_breaker ''dispatch'' 1 30)) ([Admitted 1] @ [Failed 2]) tripped"
  unfolding bsteps_snoc
proof (intro exI conjI)
  let ?b = "new_breaker ''dispatch'' 1 30"
  let ?mid = "\<lparr>br = ?b, in_flight = 1, elapsed_to = (1::real)\<rparr>"
  have "enter 1 (br (start_config ?b)) = (Inr (), ?b)"
    by (simp add: breaker_defs new_breaker_def start_config_def)
  from bstep.admitted [OF _ this]
  have "bstep (start_config ?b) (Admitted 1) ?mid" by (simp add: start_config_def)
  from bsteps.more [OF bsteps.none this] show "bsteps (start_config ?b) [Admitted 1] ?mid" by simp
  show "bstep ?mid (Failed 2) tripped"
    using bstep.failed [of ?mid 2 0] by (simp add: tripped_def)
qed

lemma tripped_open: "b_state (br tripped) = OPEN"
  by (simp add: tripped_def on_failure_def new_breaker_def)

lemma run_trial:
  "bsteps tripped [Admitted 40]
     \<lparr>br = (br tripped)\<lparr>b_state := HALF_OPEN\<rparr>, in_flight = 1, elapsed_to = 40\<rparr>"
proof -
  have "enter 40 (br tripped) = (Inr (), (br tripped)\<lparr>b_state := HALF_OPEN\<rparr>)"
    by (simp add: breaker_defs tripped_def new_breaker_def)
  from bstep.admitted [OF _ this] have "bstep tripped (Admitted 40)
      \<lparr>br = (br tripped)\<lparr>b_state := HALF_OPEN\<rparr>, in_flight = 1, elapsed_to = 40\<rparr>"
    by (simp add: tripped_def)
  from bsteps.more [OF bsteps.none this] show ?thesis by simp
qed


theorem breaker_no_early_admission_witness: "(30::real) \<le> fl (40 - 2)"
  using breaker_no_early_admission [OF run_tripped tripped_open run_trial, of 40] by simp

text \<open>
  The module says that \<open>N\<close> consecutive failures open the circuit and that one trial request
  decides in the half-open state. A success while closed does not reset the counter, so failures
  with successes between them open the circuit too; and every call that arrives during a trial is
  admitted.
\<close>

lemma success_does_not_reset:
  "b_state b = CLOSED \<Longrightarrow> failure_count b + 1 = failure_threshold b \<Longrightarrow>
     b_state (on_failure t (on_success b)) = OPEN"
  by (simp add: breaker_defs)

lemma trial_admits_every_call:
  "b_state b = HALF_OPEN \<Longrightarrow> enter t b = (Inr (), b)"
  by (simp add: breaker_defs)

end
