(* ===== verification/Retry.thy ===== *)
theory Retry
  imports PyFloat PyText
begin

text \<open>
  \<open>src/cce_service/retry.py\<close>: \<open>retry_on_transient_error\<close>. The arguments of the decorator
  are a \<open>retry_policy\<close>; the decorated function is a state transformer, and so is sleeping. The
  loop runs over the list of attempts \<open>1, \<dots>, max_attempts\<close>. \<open>exc_text\<close> is \<open>str(exc)\<close> of the last
  error; log lines are left out.
\<close>

section \<open>The decorator\<close>

record retry_policy =
  max_attempts :: nat
  base_delay :: real
  max_delay :: real
  retryable_exceptions :: "exn \<Rightarrow> bool"
  component :: string
  exc_text :: "exn \<Rightarrow> string"

definition exhausted :: "retry_policy \<Rightarrow> exn \<Rightarrow> exn" where
  "exhausted R e =
     RetryExhaustedError (component R @ '': '' @ string_of_nat (max_attempts R) @ '' attempts exhausted, last error: ''
       @ exc_text R e)"

definition retry_delay :: "retry_policy \<Rightarrow> nat \<Rightarrow> real" where
  "retry_delay R attempt = min (fl (base_delay R * 2 ^ (attempt - 1))) (max_delay R)"

fun retry_loop ::
    "retry_policy \<Rightarrow> 's clock \<Rightarrow> ('s \<Rightarrow> 'a result \<times> 's) \<Rightarrow> nat list \<Rightarrow> 's \<Rightarrow> 'a result \<times> 's" where
  "retry_loop R C func [] s = (Inl (RetryExhaustedError (component R @ '': unexpected retry exit'')), s)"
| "retry_loop R C func (attempt # rest) s =
     (case func s of
        (Inr x, s') \<Rightarrow> (Inr x, s')
      | (Inl e, s') \<Rightarrow>
          if \<not> retryable_exceptions R e then (Inl e, s')
          else if attempt = max_attempts R
          then (Inl (exhausted R e), s')
          else retry_loop R C func rest (sleep C (retry_delay R attempt) s'))"

definition retry_on_transient_error ::
    "retry_policy \<Rightarrow> 's clock \<Rightarrow> ('s \<Rightarrow> 'a result \<times> 's) \<Rightarrow> 's \<Rightarrow> 'a result \<times> 's" where
  "retry_on_transient_error R C func s = retry_loop R C func [1..<max_attempts R + 1] s"

section \<open>Behaviour\<close>

text \<open>The state before attempt \<open>n + 1\<close> when the first \<open>n\<close> attempts failed.\<close>

primrec before_attempt ::
    "retry_policy \<Rightarrow> 's clock \<Rightarrow> ('s \<Rightarrow> 'a result \<times> 's) \<Rightarrow> 's \<Rightarrow> nat \<Rightarrow> 's" where
  "before_attempt R C func s 0 = s"
| "before_attempt R C func s (Suc n) =
     sleep C (retry_delay R (Suc n)) (snd (func (before_attempt R C func s n)))"

definition transient :: "retry_policy \<Rightarrow> 'a result \<Rightarrow> bool" where
  "transient R r \<longleftrightarrow> (case r of Inl e \<Rightarrow> retryable_exceptions R e | Inr x \<Rightarrow> False)"

text \<open>What the caller sees when \<open>n\<close> attempts failed and the next one, the last made, gives \<open>r\<close>.\<close>

definition final_outcome :: "retry_policy \<Rightarrow> 'a result \<Rightarrow> 'a result" where
  "final_outcome R r =
     (case r of
        Inl e \<Rightarrow> if retryable_exceptions R e then Inl (exhausted R e) else r
      | Inr x \<Rightarrow> r)"

lemma retry_loop_outcome:
  assumes "k < max_attempts R"
  shows "\<exists>n. k \<le> n \<and> n < max_attempts R
    \<and> (\<forall>i. k \<le> i \<and> i < n \<longrightarrow> transient R (fst (func (before_attempt R C func s i))))
    \<and> (transient R (fst (func (before_attempt R C func s n))) \<longrightarrow> n = max_attempts R - 1)
    \<and> retry_loop R C func [Suc k..<max_attempts R + 1] (before_attempt R C func s k)
        = apfst (final_outcome R) (func (before_attempt R C func s n))"
  using assms
proof (induction "max_attempts R - k" arbitrary: k)
  case 0
  then show ?case by simp
next
  case (Suc m)
  let ?s = "before_attempt R C func s"
  have step: "[Suc k..<max_attempts R + 1] = Suc k # [Suc (Suc k)..<max_attempts R + 1]"
    using Suc.prems by (simp add: upt_conv_Cons)
  obtain r s' where f: "func (?s k) = (r, s')" by (cases "func (?s k)")
  show ?case
  proof (cases "transient R r \<and> Suc k \<noteq> max_attempts R")
    case False
    with f Suc.prems show ?thesis unfolding step
      by (intro exI [of _ k]) (auto simp: transient_def final_outcome_def split: sum.splits)
  next
    case True
    then have "m = max_attempts R - Suc k" "Suc k < max_attempts R" using Suc by auto
    from Suc.hyps(1) [OF this] obtain n where n: "Suc k \<le> n" "n < max_attempts R"
      "\<forall>i. Suc k \<le> i \<and> i < n \<longrightarrow> transient R (fst (func (?s i)))"
      "transient R (fst (func (?s n))) \<longrightarrow> n = max_attempts R - 1"
      "retry_loop R C func [Suc (Suc k)..<max_attempts R + 1] (?s (Suc k)) = apfst (final_outcome R) (func (?s n))"
      by blast
    have "retry_loop R C func [Suc k..<max_attempts R + 1] (?s k)
        = retry_loop R C func [Suc (Suc k)..<max_attempts R + 1] (?s (Suc k))"
      unfolding step using True f by (auto simp: transient_def split: sum.splits)
    moreover have "transient R (fst (func (?s i)))" if "k \<le> i" "i < n" for i
      using that n(3) True f by (cases "i = k") auto
    ultimately show ?thesis using n by (intro exI [of _ n]) auto
  qed
qed

text \<open>C37: A retried call makes between 1 and \<open>max_attempts\<close> attempts, each after the waiting time
  of the one before; every attempt but the last failed transiently; the last one's result or
  permanent error is returned as it is, and only a transient failure of attempt \<open>max_attempts\<close>
  becomes \<open>RetryExhaustedError\<close>. The waits never exceed \<open>max_delay\<close>.\<close>

theorem retry_outcome:
  assumes "1 \<le> max_attempts R"
  shows "(\<exists>n < max_attempts R.
      (\<forall>i < n. transient R (fst (func (before_attempt R C func s i))))
    \<and> (transient R (fst (func (before_attempt R C func s n))) \<longrightarrow> n = max_attempts R - 1)
    \<and> retry_on_transient_error R C func s
        = apfst (final_outcome R) (func (before_attempt R C func s n)))
    \<and> (\<forall>i. retry_delay R i \<le> max_delay R)"
  using retry_loop_outcome [of 0 R func C s] assms
  by (auto simp: retry_on_transient_error_def retry_delay_def)

text \<open>The waits before attempts 2 and 3 of the dispatch policy, with no rounding: 1 and 2 seconds.\<close>

definition counting_clock :: "nat clock" where
  "counting_clock = \<lparr>monotonic = (\<lambda>s. (real s, s)), sleep = (\<lambda>d s. s + 1)\<rparr>"

theorem retry_outcome_witness:
  "\<exists>n < 3::nat. fst (retry_on_transient_error
      \<lparr>max_attempts = 3, base_delay = 1, max_delay = 4, retryable_exceptions = (\<lambda>e. True), component = ''c'', exc_text = (\<lambda>e. ''e'')\<rparr>
      counting_clock (\<lambda>s. (if s = 1 then Inr s else Inl IndexError, s)) (0::nat))
    = final_outcome \<lparr>max_attempts = 3, base_delay = 1, max_delay = 4,
        retryable_exceptions = (\<lambda>e. True), component = ''c'', exc_text = (\<lambda>e. ''e'')\<rparr>
        (if n = 1 then Inr 1 else Inl IndexError)"
proof -
  let ?R = "\<lparr>max_attempts = 3, base_delay = 1, max_delay = 4, retryable_exceptions = (\<lambda>e. True), component = ''c'', exc_text = (\<lambda>e. ''e'')\<rparr>"
  let ?f = "\<lambda>s::nat. (if s = 1 then Inr s else Inl IndexError, s)"
  have before: "before_attempt ?R counting_clock ?f 0 n = n" for n
    by (induction n) (simp_all add: counting_clock_def)
  from retry_outcome [of ?R ?f counting_clock 0]
  obtain n where "n < 3"
    "retry_on_transient_error ?R counting_clock ?f 0 = apfst (final_outcome ?R) (?f (before_attempt ?R counting_clock ?f 0 n))"
    by auto
  then show ?thesis unfolding before by auto
qed

end
