(* ===== verification/Worker.thy ===== *)
theory Worker
  imports Dispatch Service Breaker Retry
begin

text \<open>
  \<open>src/cce_service/workers/consumer.py\<close>: the queue and the consumer that takes one job at a time,
  dispatches it through the retry wrapper and the circuit breaker, and stores what came out.

  The record \<open>consumer\<close> holds the parts of a \<open>JobConsumer\<close>, \<open>consumer_state\<close> what they keep and
  the Prometheus instruments. A step maps a state to a result and a state, sequenced with
  \<open>sbind\<close> as in the service. The job object that the consumer mutates is threaded through.
\<close>

section \<open>The queue\<close>

record 'q JobSource =
  js_get :: "real \<Rightarrow> 'q \<Rightarrow> JobRecord option result \<times> 'q"
  js_put :: "JobRecord \<Rightarrow> 'q \<Rightarrow> unit result \<times> 'q"
  js_size :: "'q \<Rightarrow> nat result"

text \<open>\<open>queue.Queue\<close> is unbounded and first in, first out; \<open>queue.Empty\<close> becomes \<open>None\<close>.\<close>

definition InMemoryQueue :: "JobRecord list JobSource" where
  "InMemoryQueue =
     \<lparr>js_get = (\<lambda>wait q. case q of [] \<Rightarrow> (Inr None, []) | j # js \<Rightarrow> (Inr (Some j), js)),
      js_put = (\<lambda>job q. (Inr (), q @ [job])),
      js_size = (\<lambda>q. Inr (length q))\<rparr>"

locale job_source =
  fixes Q :: "'q JobSource" and ok :: "'q \<Rightarrow> bool" and waiting :: "'q \<Rightarrow> JobRecord list"
  assumes get_none: "ok q \<Longrightarrow> waiting q = [] \<Longrightarrow> \<exists>q'. js_get Q t q = (Inr None, q') \<and> ok q' \<and> waiting q' = []"
    and get_some: "ok q \<Longrightarrow> waiting q = j # js \<Longrightarrow> \<exists>q'. js_get Q t q = (Inr (Some j), q') \<and> ok q' \<and> waiting q' = js"
    and put: "ok q \<Longrightarrow> \<exists>q'. js_put Q j q = (Inr (), q') \<and> ok q' \<and> waiting q' = waiting q @ [j]"
    and size: "ok q \<Longrightarrow> js_size Q q = Inr (length (waiting q))"

interpretation mem_queue: job_source InMemoryQueue "\<lambda>q. True" "\<lambda>q. q"
  by unfold_locales (simp_all add: InMemoryQueue_def)

section \<open>The consumer\<close>

record ('w, 'q, 'j, 'r, 'a) consumer =
  con_source :: "'q JobSource"
  con_dispatch :: "JobRecord \<Rightarrow> 'w \<Rightarrow> job_result result \<times> 'w"
  con_jobs :: "'j JobRepo"
  con_records :: "'r RecordRepo"
  con_audits :: "'a AuditRepo"
  con_clock :: "'w clock"
  con_now :: "'w \<Rightarrow> datetime \<times> 'w"
  con_repr :: "exn \<Rightarrow> string"

record ('w, 'q, 'j, 'r, 'a) consumer_state =
  cs_world :: 'w
  cs_queue :: 'q
  cs_jobs :: 'j
  cs_records :: 'r
  cs_audits :: 'a
  cs_breaker :: breaker
  cs_queue_depth :: int
  cs_breaker_gauge :: int
  cs_failures :: "string list"
  cs_records_total :: nat

type_synonym ('w, 'q, 'j, 'r, 'a, 'x) con_step =
  "('w, 'q, 'j, 'r, 'a) consumer_state \<Rightarrow> 'x result \<times> ('w, 'q, 'j, 'r, 'a) consumer_state"

text \<open>\<open>dispatch_circuit_breaker or CircuitBreaker(\<dots>)\<close>.\<close>

definition default_breaker :: breaker where
  "default_breaker = new_breaker ''dispatch'' 5 30"

definition breaker_value :: "breaker_state \<Rightarrow> int" where
  "breaker_value b = (case b of CLOSED \<Rightarrow> 0 | HALF_OPEN \<Rightarrow> 1 | OPEN \<Rightarrow> 2)"

definition emit_cb_state :: "('w, 'q, 'j, 'r, 'a, unit) con_step" where
  "emit_cb_state s = (Inr (), s\<lparr>cs_breaker_gauge := breaker_value (b_state (cs_breaker s))\<rparr>)"

fun is_dispatch_error :: "exn \<Rightarrow> bool" where
  "is_dispatch_error (DispatchError m) = True"
| "is_dispatch_error e = False"

fun dispatch_error_text :: "exn \<Rightarrow> string" where
  "dispatch_error_text (DispatchError m) = m"
| "dispatch_error_text e = []"

definition dispatch_policy :: retry_policy where
  "dispatch_policy =
     \<lparr>max_attempts = 3, base_delay = 1, max_delay = 4, retryable_exceptions = is_dispatch_error,
       component = ''dispatch'', exc_text = dispatch_error_text\<rparr>"

text \<open>\<open>job.updated_at = datetime.now(tz=UTC); self.jobs.update(job)\<close>.\<close>

definition save_job :: "('w, 'q, 'j, 'r, 'a) consumer \<Rightarrow> JobRecord \<Rightarrow> ('w, 'q, 'j, 'r, 'a, JobRecord) con_step" where
  "save_job S job s =
     (let (now, w) = con_now S (cs_world s);
          job' = job\<lparr>job_updated_at := now\<rparr>;
          (r, j) = jr_update (con_jobs S) job' (cs_jobs s)
      in (andthen r (\<lambda>_. Inr job'), s\<lparr>cs_world := w, cs_jobs := j\<rparr>))"

definition audit_job ::
    "('w, 'q, 'j, 'r, 'a) consumer \<Rightarrow> string \<Rightarrow> (string, pyval) dict \<Rightarrow> JobRecord \<Rightarrow> ('w, 'q, 'j, 'r, 'a, AuditEvent) con_step" where
  "audit_job S action payload job s =
     (let (now, w) = con_now S (cs_world s);
          (r, a) = ar_append (con_audits S)
            (audit_event ''worker'' action (uuid_str (job_id job)) (job_tenant job) (Some payload) now) (cs_audits s)
      in (r, s\<lparr>cs_world := w, cs_audits := a\<rparr>))"

definition count_failure :: "string \<Rightarrow> ('w, 'q, 'j, 'r, 'a, unit) con_step" where
  "count_failure reason s = (Inr (), s\<lparr>cs_failures := cs_failures s @ [reason]\<rparr>)"

definition requeue_job :: "('w, 'q, 'j, 'r, 'a) consumer \<Rightarrow> string \<Rightarrow> JobRecord \<Rightarrow> ('w, 'q, 'j, 'r, 'a, JobRecord) con_step" where
  "requeue_job S msg job =
     sbind (save_job S (job\<lparr>job_error := Some msg\<rparr>)) (\<lambda>job' s.
       let (r, q) = js_put (con_source S) job' (cs_queue s)
       in (andthen r (\<lambda>_. Inr job'), s\<lparr>cs_queue := q\<rparr>))"

definition fail_job ::
    "('w, 'q, 'j, 'r, 'a) consumer \<Rightarrow> string \<Rightarrow> string \<Rightarrow> JobRecord \<Rightarrow> ('w, 'q, 'j, 'r, 'a, JobRecord) con_step" where
  "fail_job S reason msg job =
     sbind (count_failure reason) (\<lambda>_.
     sbind (save_job S (job\<lparr>job_status := FAILED, job_error := Some msg\<rparr>)) (\<lambda>job'.
     sbind (audit_job S ''score.failed'' [(''reason'', VStr reason), (''error'', VStr msg)] job') (\<lambda>_.
     lift (Inr job'))))"

definition fail_unexpected ::
    "('w, 'q, 'j, 'r, 'a) consumer \<Rightarrow> exn \<Rightarrow> JobRecord \<Rightarrow> ('w, 'q, 'j, 'r, 'a, JobRecord) con_step" where
  "fail_unexpected S e job =
     sbind (count_failure ''unexpected'') (\<lambda>_.
     save_job S (job\<lparr>job_status := FAILED, job_error := Some (''unexpected: '' @ con_repr S e)\<rparr>))"

text \<open>The \<open>except\<close> clauses, in their order.\<close>

fun handle_error :: "('w, 'q, 'j, 'r, 'a) consumer \<Rightarrow> JobRecord \<Rightarrow> exn \<Rightarrow> ('w, 'q, 'j, 'r, 'a, JobRecord) con_step" where
  "handle_error S job (CircuitBreakerOpenError m) = requeue_job S m job"
| "handle_error S job (RetryExhaustedError m) = fail_job S ''retry_exhausted'' m job"
| "handle_error S job (DispatchError m) = fail_job S ''dispatch'' m job"
| "handle_error S job e = fail_unexpected S e job"

text \<open>\<open>created_at\<close> of the new record is the default, the present time.\<close>

definition record_of :: "JobRecord \<Rightarrow> job_result \<Rightarrow> datetime \<Rightarrow> ScoreRecord" where
  "record_of job result now =
     \<lparr>rec_hash = dr_record_hash result, rec_commit_sha = job_commit_sha job, rec_repo_url = job_repo_url job,
       rec_spec_hash = dr_spec_hash result, rec_score = dr_score result, rec_metrics = dr_metrics result,
       rec_tool_digests = dr_tool_digests result, rec_tenant = job_tenant job, rec_created_at = now\<rparr>"

definition store_record ::
    "('w, 'q, 'j, 'r, 'a) consumer \<Rightarrow> JobRecord \<Rightarrow> job_result \<Rightarrow> ('w, 'q, 'j, 'r, 'a, unit) con_step" where
  "store_record S job result s =
     (let (now, w) = con_now S (cs_world s);
          (r, rs) = rr_upsert (con_records S) (record_of job result now) (cs_records s)
      in (r, s\<lparr>cs_world := w, cs_records := rs\<rparr>))"

definition count_record :: "('w, 'q, 'j, 'r, 'a, unit) con_step" where
  "count_record s = (Inr (), s\<lparr>cs_records_total := cs_records_total s + 1\<rparr>)"

definition complete_job ::
    "('w, 'q, 'j, 'r, 'a) consumer \<Rightarrow> JobRecord \<Rightarrow> job_result \<Rightarrow> ('w, 'q, 'j, 'r, 'a, JobRecord) con_step" where
  "complete_job S job result =
     sbind (store_record S job result) (\<lambda>_.
     sbind (save_job S (job\<lparr>job_status := SUCCEEDED, job_record_hash := Some (dr_record_hash result),
              job_score := Some (dr_score result), job_sidecars := Some (dr_sidecars result), job_error := None\<rparr>)) (\<lambda>job'.
     sbind (audit_job S ''score.succeeded'' [(''record_hash'', VStr (dr_record_hash result))] job') (\<lambda>_.
     sbind count_record (\<lambda>_.
     lift (Inr job')))))"

text \<open>\<open>self.dispatch_cb.call(_dispatch, job)\<close>; an exception is a value here, for the handlers.\<close>

definition dispatch_job ::
    "('w, 'q, 'j, 'r, 'a) consumer \<Rightarrow> JobRecord \<Rightarrow> ('w, 'q, 'j, 'r, 'a) consumer_state
     \<Rightarrow> job_result result \<times> ('w, 'q, 'j, 'r, 'a) consumer_state" where
  "dispatch_job S job s =
     (let (r, b, w) = breaker_call (con_clock S)
            (retry_on_transient_error dispatch_policy (con_clock S) (con_dispatch S job)) (cs_breaker s) (cs_world s)
      in (r, s\<lparr>cs_breaker := b, cs_world := w\<rparr>))"

definition process_job :: "('w, 'q, 'j, 'r, 'a) consumer \<Rightarrow> JobRecord \<Rightarrow> ('w, 'q, 'j, 'r, 'a, JobRecord) con_step" where
  "process_job S job =
     sbind (save_job S (job\<lparr>job_status := RUNNING\<rparr>)) (\<lambda>job s.
       case dispatch_job S job s of
         (Inl e, s') \<Rightarrow> handle_error S job e s'
       | (Inr result, s') \<Rightarrow> complete_job S job result s')"

definition gauge_depth :: "('w, 'q, 'j, 'r, 'a) consumer \<Rightarrow> ('w, 'q, 'j, 'r, 'a, unit) con_step" where
  "gauge_depth S s =
     (case js_size (con_source S) (cs_queue s) of
        Inl e \<Rightarrow> (Inl e, s)
      | Inr n \<Rightarrow> (Inr (), s\<lparr>cs_queue_depth := int n\<rparr>))"

definition take_job :: "('w, 'q, 'j, 'r, 'a) consumer \<Rightarrow> real \<Rightarrow> ('w, 'q, 'j, 'r, 'a, JobRecord option) con_step" where
  "take_job S wait s =
     (let (r, q) = js_get (con_source S) wait (cs_queue s) in (r, s\<lparr>cs_queue := q\<rparr>))"

definition run_once :: "('w, 'q, 'j, 'r, 'a) consumer \<Rightarrow> real \<Rightarrow> ('w, 'q, 'j, 'r, 'a, JobRecord option) con_step" where
  "run_once S wait =
     sbind (gauge_depth S) (\<lambda>_.
     sbind emit_cb_state (\<lambda>_.
     sbind (take_job S wait) (\<lambda>taken.
       case taken of
         None \<Rightarrow> lift (Inr None)
       | Some job \<Rightarrow> (\<lambda>s.
           sbind (process_job S job) (\<lambda>job'. lift (Inr (Some job'))) (s\<lparr>cs_queue_depth := cs_queue_depth s - 1\<rparr>)))))"

text \<open>A worker process calls \<open>run_once\<close> over and over.\<close>

primrec runs :: "('w, 'q, 'j, 'r, 'a) consumer \<Rightarrow> real \<Rightarrow> nat \<Rightarrow> ('w, 'q, 'j, 'r, 'a, unit) con_step" where
  "runs S wait 0 = lift (Inr ())"
| "runs S wait (Suc n) = sbind (run_once S wait) (\<lambda>_. runs S wait n)"


section \<open>What one step does\<close>

text \<open>The job as the consumer stores it, and the call it makes for a running job.\<close>

definition stamped :: "('w, 'q, 'j, 'r, 'a) consumer \<Rightarrow> JobRecord \<Rightarrow> 'w \<Rightarrow> JobRecord" where
  "stamped S job w = job\<lparr>job_updated_at := fst (con_now S w)\<rparr>"

definition started :: "('w, 'q, 'j, 'r, 'a) consumer \<Rightarrow> JobRecord \<Rightarrow> 'w \<Rightarrow> JobRecord" where
  "started S job w = stamped S (job\<lparr>job_status := RUNNING\<rparr>) w"

definition attempt ::
    "('w, 'q, 'j, 'r, 'a) consumer \<Rightarrow> JobRecord \<Rightarrow> breaker \<Rightarrow> 'w \<Rightarrow> job_result result \<times> breaker \<times> 'w" where
  "attempt S job b w =
     breaker_call (con_clock S) (retry_on_transient_error dispatch_policy (con_clock S) (con_dispatch S (started S job w)))
       b (snd (con_now S w))"

abbreviation ticks :: "('w, 'q, 'j, 'r, 'a) consumer \<Rightarrow> 'w \<Rightarrow> 'w" where
  "ticks S w \<equiv> snd (con_now S w)"

fun is_open_error :: "exn \<Rightarrow> bool" where
  "is_open_error (CircuitBreakerOpenError m) = True"
| "is_open_error e = False"

lemma is_open_error_iff: "is_open_error e \<longleftrightarrow> (\<exists>m. e = CircuitBreakerOpenError m)"
  by (cases e) auto

lemma stamped_simps [simp]:
  "job_id (stamped S j w) = job_id j" "job_tenant (stamped S j w) = job_tenant j"
  "job_created_at (stamped S j w) = job_created_at j" "job_status (stamped S j w) = job_status j"
  "job_error (stamped S j w) = job_error j" "job_record_hash (stamped S j w) = job_record_hash j"
  "job_score (stamped S j w) = job_score j" "job_sidecars (stamped S j w) = job_sidecars j"
  "job_repo_url (stamped S j w) = job_repo_url j" "job_commit_sha (stamped S j w) = job_commit_sha j"
  by (simp_all add: stamped_def)

lemma started_simps [simp]:
  "job_id (started S j w) = job_id j" "job_tenant (started S j w) = job_tenant j"
  "job_created_at (started S j w) = job_created_at j" "job_status (started S j w) = RUNNING"
  by (simp_all add: started_def)

lemma iterated [simp]:
  "\<exists>n. ticks S w = (ticks S ^^ n) w" "\<exists>n. ticks S (ticks S w) = (ticks S ^^ n) w"
  "\<exists>n. ticks S (ticks S (ticks S w)) = (ticks S ^^ n) w"
  by (rule exI [of _ "Suc 0"], simp) (rule exI [of _ "Suc (Suc 0)"], simp, rule exI [of _ "Suc (Suc (Suc 0))"], simp)

text \<open>The stores of a worker: a queue, a job repository, an audit log, and a record repository in
  which every upsert lands.\<close>

locale worker =
  source: job_source "con_source S" ok_queue waiting + jobs: job_repo "con_jobs S" ok_jobs held
    + audits: audit_repo "con_audits S" ok_audits log_of
  for S :: "('w, 'q, 'j, 'r, 'a) consumer"
    and ok_queue :: "'q \<Rightarrow> bool" and waiting :: "'q \<Rightarrow> JobRecord list"
    and ok_jobs :: "'j \<Rightarrow> bool" and held :: "'j \<Rightarrow> UUID \<Rightarrow> JobRecord option"
    and ok_audits :: "'a \<Rightarrow> bool" and log_of :: "'a \<Rightarrow> AuditEvent list" +
  fixes ok_records :: "'r \<Rightarrow> bool"
  assumes upsert_lands: "ok_records rs \<Longrightarrow> \<exists>rs' r'. rr_upsert (con_records S) r rs = (Inr (), rs') \<and> ok_records rs'
      \<and> rr_get (con_records S) (rec_hash r) rs' = Inr (Some r') \<and> same_record r r'"
begin

text \<open>Every store is in order, and the clock gives dates.\<close>

definition stores_ok :: "('w, 'q, 'j, 'r, 'a) consumer_state \<Rightarrow> bool" where
  "stores_ok s \<longleftrightarrow> ok_queue (cs_queue s) \<and> ok_jobs (cs_jobs s) \<and> ok_audits (cs_audits s) \<and> ok_records (cs_records s)
     \<and> (\<forall>w. datetime_ok (fst (con_now S w)))"

text \<open>The repository knows the job, with its creation time.\<close>

definition known :: "('w, 'q, 'j, 'r, 'a) consumer_state \<Rightarrow> JobRecord \<Rightarrow> bool" where
  "known s j \<longleftrightarrow> (\<exists>old. held (cs_jobs s) (job_id j) = Some old \<and> job_created_at j = job_created_at old)"

lemma save:
  assumes "ok_jobs (cs_jobs s)" "known s j"
  obtains js where
    "save_job S j s = (Inr (stamped S j (cs_world s)), s\<lparr>cs_world := ticks S (cs_world s), cs_jobs := js\<rparr>)"
    "ok_jobs js" "held js = (held (cs_jobs s))(job_id j \<mapsto> stamped S j (cs_world s))"
proof -
  from assms(2) obtain old where "held (cs_jobs s) (job_id (stamped S j (cs_world s))) = Some old"
    "job_created_at (stamped S j (cs_world s)) = job_created_at old" by (auto simp: known_def)
  from jobs.update [OF assms(1) this] obtain js where
    "jr_update (con_jobs S) (stamped S j (cs_world s)) (cs_jobs s) = (Inr (), js)" "ok_jobs js"
    "held js = (held (cs_jobs s))(job_id j \<mapsto> stamped S j (cs_world s))" by auto
  then show ?thesis
    by (intro that [of js]) (simp_all add: save_job_def stamped_def split_beta Let_def)
qed

lemma audit:
  assumes "ok_audits (cs_audits s)" "\<forall>w. datetime_ok (fst (con_now S w))"
  obtains e a where
    "audit_job S action payload j s = (Inr e, s\<lparr>cs_world := ticks S (cs_world s), cs_audits := a\<rparr>)" "ok_audits a"
    "log_of a = log_of (cs_audits s) @ [e]" "ev_action e = action" "ev_target e = uuid_str (job_id j)"
    "ev_tenant e = job_tenant j"
proof -
  let ?e = "audit_event ''worker'' action (uuid_str (job_id j)) (job_tenant j) (Some payload) (fst (con_now S (cs_world s)))"
  have "datetime_ok (ev_ts ?e)" using assms(2) by (simp add: audit_event_def)
  from audits.append_event [OF assms(1) this] obtain a i where
    "ar_append (con_audits S) ?e (cs_audits s) = (Inr (?e\<lparr>ev_id := i\<rparr>), a)" "ok_audits a"
    "log_of a = log_of (cs_audits s) @ [?e\<lparr>ev_id := i\<rparr>]" by blast
  then show ?thesis
    by (intro that [of "?e\<lparr>ev_id := i\<rparr>" a]) (simp_all add: audit_job_def audit_event_def split_beta Let_def)
qed

lemma store:
  assumes "ok_records (cs_records s)"
  obtains rs r' where
    "store_record S j result s = (Inr (), s\<lparr>cs_world := ticks S (cs_world s), cs_records := rs\<rparr>)" "ok_records rs"
    "rr_get (con_records S) (dr_record_hash result) rs = Inr (Some r')"
    "same_record (record_of j result (fst (con_now S (cs_world s)))) r'"
proof -
  let ?r = "record_of j result (fst (con_now S (cs_world s)))"
  from upsert_lands [OF assms, of ?r] obtain rs r' where
    "rr_upsert (con_records S) ?r (cs_records s) = (Inr (), rs)" "ok_records rs"
    "rr_get (con_records S) (rec_hash ?r) rs = Inr (Some r')" "same_record ?r r'" by blast
  then show ?thesis
    by (intro that [of rs r']) (simp_all add: store_record_def record_of_def split_beta Let_def)
qed

end


context worker
begin

text \<open>How a step leaves a job: the repository holds it as \<open>j'\<close>, the queue holds \<open>js\<close>, and only the
  clock ran on, from \<open>w\<close>.\<close>

definition leaves :: "JobRecord \<Rightarrow> JobRecord \<Rightarrow> JobRecord list \<Rightarrow> 'w
    \<Rightarrow> ('w, 'q, 'j, 'r, 'a) consumer_state \<Rightarrow> ('w, 'q, 'j, 'r, 'a) consumer_state \<Rightarrow> bool" where
  "leaves j j' js w s s' \<longleftrightarrow>
     stores_ok s' \<and> held (cs_jobs s') = (held (cs_jobs s))(job_id j \<mapsto> j') \<and> waiting (cs_queue s') = js
   \<and> job_id j' = job_id j \<and> job_tenant j' = job_tenant j \<and> job_created_at j' = job_created_at j
   \<and> cs_breaker s' = cs_breaker s \<and> (\<exists>n. cs_world s' = (ticks S ^^ n) w)"

lemma stores_okD:
  assumes "stores_ok s"
  shows "ok_queue (cs_queue s)" "ok_jobs (cs_jobs s)" "ok_audits (cs_audits s)" "ok_records (cs_records s)"
  using assms by (simp_all add: stores_ok_def)

lemma requeue_outcome:
  assumes "stores_ok s" "known s j"
  shows "\<exists>j' s'. requeue_job S m j s = (Inr j', s') \<and> leaves j j' (waiting (cs_queue s) @ [j']) (cs_world s) s s'
    \<and> job_status j' = job_status j \<and> job_error j' = Some m"
proof -
  let ?j = "j\<lparr>job_error := Some m\<rparr>"
  have "known s ?j" using assms(2) by (simp add: known_def)
  from save [OF stores_okD(2) [OF assms(1)] this] obtain js where
    js: "save_job S ?j s = (Inr (stamped S ?j (cs_world s)), s\<lparr>cs_world := ticks S (cs_world s), cs_jobs := js\<rparr>)"
    "ok_jobs js" "held js = (held (cs_jobs s))(job_id j \<mapsto> stamped S ?j (cs_world s))" by auto
  from source.put [OF stores_okD(1) [OF assms(1)], of "stamped S ?j (cs_world s)"] obtain q where
    q: "js_put (con_source S) (stamped S ?j (cs_world s)) (cs_queue s) = (Inr (), q)" "ok_queue q"
    "waiting q = waiting (cs_queue s) @ [stamped S ?j (cs_world s)]" by blast
  show ?thesis
    using assms(1) js q
    by (intro exI [of _ "stamped S ?j (cs_world s)"]
          exI [of _ "s\<lparr>cs_world := ticks S (cs_world s), cs_jobs := js, cs_queue := q\<rparr>"])
       (auto simp: requeue_job_def sbind_def leaves_def stores_ok_def)
qed

lemma fail_outcome:
  assumes "stores_ok s" "known s j"
  shows "\<exists>j' s'. fail_job S reason m j s = (Inr j', s') \<and> leaves j j' (waiting (cs_queue s)) (cs_world s) s s'
    \<and> job_status j' = FAILED \<and> cs_records s' = cs_records s
    \<and> (\<exists>e. log_of (cs_audits s') = log_of (cs_audits s) @ [e] \<and> ev_action e = ''score.failed'')"
proof -
  let ?s = "s\<lparr>cs_failures := cs_failures s @ [reason]\<rparr>"
  let ?j = "j\<lparr>job_status := FAILED, job_error := Some m\<rparr>"
  have "known ?s ?j" "ok_jobs (cs_jobs ?s)" using assms by (simp_all add: known_def stores_ok_def)
  from save [OF this(2,1)] obtain js where
    js: "save_job S ?j ?s = (Inr (stamped S ?j (cs_world s)), ?s\<lparr>cs_world := ticks S (cs_world s), cs_jobs := js\<rparr>)"
    "ok_jobs js" "held js = (held (cs_jobs s))(job_id j \<mapsto> stamped S ?j (cs_world s))" by auto
  let ?t = "?s\<lparr>cs_world := ticks S (cs_world s), cs_jobs := js\<rparr>"
  have "ok_audits (cs_audits ?t)" "\<forall>w. datetime_ok (fst (con_now S w))" using assms by (simp_all add: stores_ok_def)
  from audit [OF this, of "''score.failed''" "[(''reason'', VStr reason), (''error'', VStr m)]" "stamped S ?j (cs_world s)"]
  obtain e a where a: "audit_job S ''score.failed'' [(''reason'', VStr reason), (''error'', VStr m)] (stamped S ?j (cs_world s)) ?t
      = (Inr e, ?t\<lparr>cs_world := ticks S (cs_world ?t), cs_audits := a\<rparr>)" "ok_audits a"
      "log_of a = log_of (cs_audits ?t) @ [e]" "ev_action e = ''score.failed''" by blast
  show ?thesis
    using assms(1) js a
    by (intro exI [of _ "stamped S ?j (cs_world s)"] exI [of _ "?t\<lparr>cs_world := ticks S (cs_world ?t), cs_audits := a\<rparr>"])
       (auto simp: fail_job_def count_failure_def sbind_def lift_def leaves_def stores_ok_def)
qed

lemma unexpected_outcome:
  assumes "stores_ok s" "known s j"
  shows "\<exists>j' s'. fail_unexpected S e j s = (Inr j', s') \<and> leaves j j' (waiting (cs_queue s)) (cs_world s) s s'
    \<and> job_status j' = FAILED \<and> cs_records s' = cs_records s \<and> cs_audits s' = cs_audits s"
proof -
  let ?s = "s\<lparr>cs_failures := cs_failures s @ [''unexpected'']\<rparr>"
  let ?j = "j\<lparr>job_status := FAILED, job_error := Some (''unexpected: '' @ con_repr S e)\<rparr>"
  have "known ?s ?j" "ok_jobs (cs_jobs ?s)" using assms by (simp_all add: known_def stores_ok_def)
  from save [OF this(2,1)] obtain js where
    js: "save_job S ?j ?s = (Inr (stamped S ?j (cs_world s)), ?s\<lparr>cs_world := ticks S (cs_world s), cs_jobs := js\<rparr>)"
    "ok_jobs js" "held js = (held (cs_jobs s))(job_id j \<mapsto> stamped S ?j (cs_world s))" by auto
  show ?thesis
    using assms(1) js
    by (intro exI [of _ "stamped S ?j (cs_world s)"] exI [of _ "?s\<lparr>cs_world := ticks S (cs_world s), cs_jobs := js\<rparr>"])
       (auto simp: fail_unexpected_def count_failure_def sbind_def leaves_def stores_ok_def)
qed

lemma error_outcome:
  assumes "stores_ok s" "known s j"
  shows "\<exists>j' s'. handle_error S j e s = (Inr j', s')
    \<and> (if is_open_error e
       then leaves j j' (waiting (cs_queue s) @ [j']) (cs_world s) s s' \<and> job_status j' = job_status j
       else leaves j j' (waiting (cs_queue s)) (cs_world s) s s' \<and> job_status j' = FAILED
          \<and> cs_records s' = cs_records s)"
  using requeue_outcome [OF assms] fail_outcome [OF assms] unexpected_outcome [OF assms]
  by (cases e) (simp_all, blast+)

lemma complete_outcome:
  assumes "stores_ok s" "known s j"
  shows "\<exists>j' s'. complete_job S j result s = (Inr j', s') \<and> leaves j j' (waiting (cs_queue s)) (cs_world s) s s'
    \<and> job_status j' = SUCCEEDED \<and> job_record_hash j' = Some (dr_record_hash result) \<and> job_score j' = Some (dr_score result)
    \<and> job_error j' = None
    \<and> (\<exists>r now. rr_get (con_records S) (dr_record_hash result) (cs_records s') = Inr (Some r)
         \<and> same_record (record_of j result now) r)
    \<and> (\<exists>e. log_of (cs_audits s') = log_of (cs_audits s) @ [e] \<and> ev_action e = ''score.succeeded'')"
proof -
  from store [OF stores_okD(4) [OF assms(1)], of j result] obtain rs r where
    r: "store_record S j result s = (Inr (), s\<lparr>cs_world := ticks S (cs_world s), cs_records := rs\<rparr>)" "ok_records rs"
      "rr_get (con_records S) (dr_record_hash result) rs = Inr (Some r)"
      "same_record (record_of j result (fst (con_now S (cs_world s)))) r" by blast
  let ?s = "s\<lparr>cs_world := ticks S (cs_world s), cs_records := rs\<rparr>"
  let ?j = "j\<lparr>job_status := SUCCEEDED, job_record_hash := Some (dr_record_hash result),
    job_score := Some (dr_score result), job_sidecars := Some (dr_sidecars result), job_error := None\<rparr>"
  have "known ?s ?j" "ok_jobs (cs_jobs ?s)" using assms by (simp_all add: known_def stores_ok_def)
  from save [OF this(2,1)] obtain js where
    js: "save_job S ?j ?s = (Inr (stamped S ?j (cs_world ?s)), ?s\<lparr>cs_world := ticks S (cs_world ?s), cs_jobs := js\<rparr>)"
    "ok_jobs js" "held js = (held (cs_jobs s))(job_id j \<mapsto> stamped S ?j (cs_world ?s))" by auto
  let ?t = "?s\<lparr>cs_world := ticks S (cs_world ?s), cs_jobs := js\<rparr>"
  have "ok_audits (cs_audits ?t)" "\<forall>w. datetime_ok (fst (con_now S w))" using assms by (simp_all add: stores_ok_def)
  from audit [OF this, of "''score.succeeded''" "[(''record_hash'', VStr (dr_record_hash result))]" "stamped S ?j (cs_world ?s)"]
  obtain e a where a: "audit_job S ''score.succeeded'' [(''record_hash'', VStr (dr_record_hash result))] (stamped S ?j (cs_world ?s)) ?t
      = (Inr e, ?t\<lparr>cs_world := ticks S (cs_world ?t), cs_audits := a\<rparr>)" "ok_audits a"
      "log_of a = log_of (cs_audits ?t) @ [e]" "ev_action e = ''score.succeeded''" by blast
  let ?u = "?t\<lparr>cs_world := ticks S (cs_world ?t), cs_audits := a, cs_records_total := cs_records_total s + 1\<rparr>"
  show ?thesis
    using assms(1) r js a
    by (intro exI [of _ "stamped S ?j (cs_world ?s)"] exI [of _ ?u])
       (auto simp: complete_job_def count_record_def sbind_def lift_def leaves_def stores_ok_def)
qed

end

end
