(* ===== verification/WorkerLaws.thy ===== *)
theory WorkerLaws
  imports Worker
begin

text \<open>
  What a worker keeps. From the outcome of one job (\<open>process_outcome\<close>) follow the invariant that no
  job is lost, proved for any lawful stores in the locale \<open>worker\<close>, and the liveness of the queue,
  by a measure on the time an open circuit still has to wait. The interpretation \<open>mem_worker\<close> brings
  both to the in-memory backends, where the properties are stated.
\<close>

section \<open>No job is lost\<close>

text \<open>\<open>attempt\<close> decides: an open circuit puts the job back at the end of the queue, every other
  exception fails it, a result completes it.\<close>

fun refused :: "'x result \<Rightarrow> bool" where
  "refused (Inl e) = is_open_error e"
| "refused (Inr x) = False"

definition active :: "(UUID \<rightharpoonup> JobRecord) \<Rightarrow> UUID set" where
  "active m = {u. \<exists>j. m u = Some j \<and> (job_status j = QUEUED \<or> job_status j = RUNNING)}"

lemma active_upd:
  "active (m(u \<mapsto> j)) = (if job_status j = QUEUED \<or> job_status j = RUNNING then insert u (active m) else active m - {u})"
  by (auto simp: active_def)

text \<open>How the outcome \<open>r\<close> of the call shows in the stored job and, on success, in the records.\<close>

definition worked :: "'r RecordRepo \<Rightarrow> JobRecord \<Rightarrow> job_result result \<Rightarrow> JobRecord \<Rightarrow> 'r \<Rightarrow> bool" where
  "worked R j r j' rs \<longleftrightarrow>
     (case r of
        Inl e \<Rightarrow> job_status j' = (if is_open_error e then RUNNING else FAILED)
      | Inr result \<Rightarrow> job_status j' = SUCCEEDED \<and> job_record_hash j' = Some (dr_record_hash result)
          \<and> job_score j' = Some (dr_score result)
          \<and> (\<exists>x now. rr_get R (dr_record_hash result) rs = Inr (Some x)
               \<and> same_record (record_of j result now) x))"

context worker
begin

lemma process_outcome:
  assumes "stores_ok s" "known s j" "attempt S j (cs_breaker s) (cs_world s) = (r, b, w)"
  shows "\<exists>j' s'. process_job S j s = (Inr j', s') \<and> cs_breaker s' = b
    \<and> leaves j j' (waiting (cs_queue s) @ (if refused r then [j'] else [])) w (s\<lparr>cs_breaker := b\<rparr>) s'
    \<and> worked (con_records S) j r j' (cs_records s')"
proof -
  let ?j = "j\<lparr>job_status := RUNNING\<rparr>"
  have "known s ?j" using assms(2) by (simp add: known_def)
  from save [OF stores_okD(2) [OF assms(1)] this] obtain js where
    js: "save_job S ?j s = (Inr (started S j (cs_world s)), s\<lparr>cs_world := ticks S (cs_world s), cs_jobs := js\<rparr>)"
    "ok_jobs js" "held js = (held (cs_jobs s))(job_id j \<mapsto> started S j (cs_world s))"
    by (auto simp: started_def)
  let ?s = "s\<lparr>cs_jobs := js, cs_breaker := b, cs_world := w\<rparr>"
  let ?j1 = "started S j (cs_world s)"
  have d: "dispatch_job S ?j1 (s\<lparr>cs_world := ticks S (cs_world s), cs_jobs := js\<rparr>) = (r, ?s)"
    using assms(3) by (simp add: dispatch_job_def attempt_def)
  have ok: "stores_ok ?s" "known ?s ?j1"
    using assms(1) js(2,3) by (simp_all add: stores_ok_def known_def)
  have lift: "leaves j j' l w (s\<lparr>cs_breaker := b\<rparr>) s'" if "leaves ?j1 j' l w ?s s'" for j' l s'
    using that js(3) by (simp add: leaves_def)
  show ?thesis
  proof (cases r)
    case (Inl e)
    with error_outcome [OF ok, of e] obtain j' s' where
      o: "handle_error S ?j1 e ?s = (Inr j', s')"
        "leaves ?j1 j' (waiting (cs_queue s) @ (if is_open_error e then [j'] else [])) w ?s s'"
        "job_status j' = (if is_open_error e then RUNNING else FAILED)" by (cases "is_open_error e") auto
    have "process_job S j s = (Inr j', s')"
      using js(1) d Inl o(1) by (simp add: process_job_def sbind_def)
    moreover have "cs_breaker s' = b" using o(2) by (simp add: leaves_def)
    ultimately show ?thesis using lift [OF o(2)] o(3) Inl by (intro exI [of _ j'] exI [of _ s']) (simp add: worked_def)
  next
    case (Inr result)
    from complete_outcome [OF ok, of result] obtain j' s' x now where
      o: "complete_job S ?j1 result ?s = (Inr j', s')" "leaves ?j1 j' (waiting (cs_queue s)) w ?s s'"
        "job_status j' = SUCCEEDED" "job_record_hash j' = Some (dr_record_hash result)" "job_score j' = Some (dr_score result)"
        "job_error j' = None" "rr_get (con_records S) (dr_record_hash result) (cs_records s') = Inr (Some x)"
        "same_record (record_of ?j1 result now) x" by auto
    have "process_job S j s = (Inr j', s')"
      using js(1) d Inr o(1) by (simp add: process_job_def sbind_def)
    moreover have "cs_breaker s' = b" using o(2) by (simp add: leaves_def)
    moreover have "record_of ?j1 result now = record_of j result now"
      by (simp add: record_of_def started_def)
    ultimately show ?thesis using lift [OF o(2)] o(3-8) Inr by (intro exI [of _ j'] exI [of _ s']) (auto simp: worked_def)
  qed
qed

text \<open>The invariant: the stores are in order, the waiting jobs have distinct identifiers and are
  known, and a job is stored as queued or running exactly when it is waiting.\<close>

definition worker_inv :: "('w, 'q, 'j, 'r, 'a) consumer_state \<Rightarrow> bool" where
  "worker_inv s \<longleftrightarrow> stores_ok s \<and> distinct (map job_id (waiting (cs_queue s)))
     \<and> (\<forall>j\<in>set (waiting (cs_queue s)). known s j)
     \<and> active (held (cs_jobs s)) = job_id ` set (waiting (cs_queue s))"

lemma idle_run:
  assumes "worker_inv s" "waiting (cs_queue s) = []"
  shows "\<exists>s'. run_once S t s = (Inr None, s') \<and> worker_inv s' \<and> waiting (cs_queue s') = []
    \<and> cs_jobs s' = cs_jobs s \<and> cs_world s' = cs_world s \<and> cs_breaker s' = cs_breaker s"
proof -
  have ok: "ok_queue (cs_queue s)" using assms(1) by (simp add: worker_inv_def stores_ok_def)
  from source.get_none [OF this assms(2)] obtain q where
    "js_get (con_source S) t (cs_queue s) = (Inr None, q)" "ok_queue q" "waiting q = []" by blast
  with assms source.size [OF ok] show ?thesis
    by (auto simp: run_once_def gauge_depth_def emit_cb_state_def take_job_def sbind_def lift_def
        worker_inv_def stores_ok_def)
qed

lemma busy_run:
  assumes inv: "worker_inv s" and q: "waiting (cs_queue s) = j # js"
    and a: "attempt S j (cs_breaker s) (cs_world s) = (r, b, w)"
  shows "\<exists>j' s'. run_once S t s = (Inr (Some j'), s') \<and> worker_inv s' \<and> cs_breaker s' = b
    \<and> waiting (cs_queue s') = js @ (if refused r then [j'] else [])
    \<and> held (cs_jobs s') = (held (cs_jobs s))(job_id j \<mapsto> j') \<and> job_id j' = job_id j \<and> job_tenant j' = job_tenant j
    \<and> dom (held (cs_jobs s')) = dom (held (cs_jobs s)) \<and> worked (con_records S) j r j' (cs_records s')
    \<and> (\<exists>n. cs_world s' = (ticks S ^^ n) w)"
proof -
  have ok: "ok_queue (cs_queue s)" using inv by (simp add: worker_inv_def stores_ok_def)
  from source.get_some [OF ok q] obtain q' where
    q': "js_get (con_source S) t (cs_queue s) = (Inr (Some j), q')" "ok_queue q'" "waiting q' = js" by blast
  let ?s = "s\<lparr>cs_breaker_gauge := breaker_value (b_state (cs_breaker s)), cs_queue := q',
    cs_queue_depth := int (length (waiting (cs_queue s))) - 1\<rparr>"
  have ok': "stores_ok ?s" "known ?s j" using inv q q'(2) by (simp_all add: worker_inv_def stores_ok_def known_def)
  from process_outcome [OF ok', of r b w] a obtain j' s' where
    p: "process_job S j ?s = (Inr j', s')" "cs_breaker s' = b"
      "leaves j j' (js @ (if refused r then [j'] else [])) w (?s\<lparr>cs_breaker := b\<rparr>) s'"
    and st: "worked (con_records S) j r j' (cs_records s')" using q'(3) by auto
  have run: "run_once S t s = (Inr (Some j'), s')"
    using source.size [OF ok] q'(1) p(1)
    by (simp add: run_once_def gauge_depth_def emit_cb_state_def take_job_def sbind_def lift_def)
  have new: "held (cs_jobs s') = (held (cs_jobs s))(job_id j \<mapsto> j')" "job_id j' = job_id j"
    "waiting (cs_queue s') = js @ (if refused r then [j'] else [])" "stores_ok s'"
    "job_created_at j' = job_created_at j" "job_tenant j' = job_tenant j"
    using p(3) by (simp_all add: leaves_def)
  have "job_status j' = (if refused r then RUNNING else job_status j')" "\<not> refused r \<longrightarrow> job_status j' = SUCCEEDED \<or> job_status j' = FAILED"
    using st by (cases r; simp add: worked_def)+
  moreover have "active (held (cs_jobs s)) = insert (job_id j) (job_id ` set js)" "job_id j \<notin> job_id ` set js"
    using inv q by (auto simp: worker_inv_def)
  ultimately have "active (held (cs_jobs s')) = job_id ` set (waiting (cs_queue s'))"
    unfolding new(1,3) active_upd by (cases "refused r") (auto simp: new(2))
  moreover have "known s' i" if "i \<in> set (waiting (cs_queue s'))" for i
    using that inv q new by (auto simp: worker_inv_def known_def split: if_splits)
  ultimately have "worker_inv s'"
    using inv q new(2-4) by (auto simp: worker_inv_def)
  moreover have "dom (held (cs_jobs s')) = dom (held (cs_jobs s))"
    using ok'(2) by (auto simp: new(1) known_def)
  ultimately show ?thesis using run p(2) new(1-3,6) p(3) st by (auto simp: leaves_def)
qed

lemma run_once_inv: "worker_inv s \<Longrightarrow> \<exists>r s'. run_once S t s = (Inr r, s') \<and> worker_inv s'
    \<and> dom (held (cs_jobs s')) = dom (held (cs_jobs s))"
proof (cases "waiting (cs_queue s)")
  case Nil
  assume "worker_inv s"
  from idle_run [OF this Nil] show ?thesis by fastforce
next
  case (Cons j js)
  assume inv: "worker_inv s"
  obtain r b w where "attempt S j (cs_breaker s) (cs_world s) = (r, b, w)" by (cases "attempt S j (cs_breaker s) (cs_world s)")
  from busy_run [OF inv Cons this] show ?thesis by blast
qed

lemma runs_inv: "worker_inv s \<Longrightarrow> \<exists>s'. runs S t n s = (Inr (), s') \<and> worker_inv s'
    \<and> dom (held (cs_jobs s')) = dom (held (cs_jobs s))"
proof (induction n arbitrary: s)
  case 0
  then show ?case by simp
next
  case (Suc n)
  from run_once_inv [OF Suc.prems] obtain r s1 where "run_once S t s = (Inr r, s1)" "worker_inv s1"
    "dom (held (cs_jobs s1)) = dom (held (cs_jobs s))" by blast
  with Suc.IH [of s1] show ?case by (simp add: sbind_def)
qed

end


section \<open>Every job is finished\<close>

text \<open>Reading the monotonic clock takes at least \<open>d\<close> seconds, and reading the date never turns it
  back; \<open>now_s\<close> is the time in a state of the world.\<close>

definition time_passes :: "('w, 'q, 'j, 'r, 'a) consumer \<Rightarrow> ('w \<Rightarrow> real) \<Rightarrow> real \<Rightarrow> bool" where
  "time_passes S now_s d \<longleftrightarrow> 0 < d
     \<and> (\<forall>w. fst (monotonic (con_clock S) w) = now_s w \<and> now_s w + d \<le> now_s (snd (monotonic (con_clock S) w)))
     \<and> (\<forall>w. now_s w \<le> now_s (ticks S w))"

definition no_inner_breaker :: "('w, 'q, 'j, 'r, 'a) consumer \<Rightarrow> bool" where
  "no_inner_breaker S \<longleftrightarrow> (\<forall>j w. \<not> refused (fst (con_dispatch S j w)))"

lemma retry_refused:
  assumes "refused (fst (retry_loop dispatch_policy C f ks w))" "\<forall>w. \<not> refused (fst (f w))"
  shows False
  using assms
proof (induction ks arbitrary: w)
  case Nil
  then show ?case by simp
next
  case (Cons k ks)
  obtain r w' where f: "f w = (r, w')" by (cases "f w")
  with Cons.prems(2) have "\<not> refused r" by (metis fst_conv)
  with Cons f show ?case by (cases r) (auto simp: exhausted_def split: if_splits)
qed

lemma breaker_call_timeout:
  "breaker_call C f b w = (r, b', w') \<Longrightarrow> recovery_timeout b' = recovery_timeout b"
  by (auto simp: breaker_call_def breaker_defs split: prod.splits sum.splits if_splits)

lemma attempt_refused:
  assumes "attempt S j b w = (r, b', w')" "refused r" "no_inner_breaker S"
  shows "b' = b \<and> w' = snd (monotonic (con_clock S) (ticks S w))
    \<and> fl (fst (monotonic (con_clock S) (ticks S w)) - last_failure_time b) < recovery_timeout b"
proof -
  let ?f = "retry_on_transient_error dispatch_policy (con_clock S) (con_dispatch S (started S j w))"
  have "\<not> refused (fst (?f v))" for v
    using retry_refused [of "con_clock S" "con_dispatch S (started S j w)"] assms(3)
    by (auto simp: retry_on_transient_error_def no_inner_breaker_def)
  then have inner: "\<not> refused x" if "?f v = (x, u)" for x v u using that by (metis fst_conv)
  from assms(1,2) show ?thesis unfolding attempt_def breaker_call_def
    by (auto simp: enter_def maybe_transition_locked_def Let_def dest: inner
        split: prod.splits sum.splits if_splits)
qed

lemma ticks_later:
  assumes "time_passes S now_s d"
  shows "now_s w \<le> now_s ((ticks S ^^ n) w)"
proof (induction n)
  case (Suc n)
  moreover have "now_s ((ticks S ^^ n) w) \<le> now_s (ticks S ((ticks S ^^ n) w))"
    using assms by (simp add: time_passes_def)
  ultimately show ?case by simp
qed simp

lemma runs_add: "runs S t m s = (Inr (), s1) \<Longrightarrow> runs S t (m + n) s = runs S t n s1"
  by (induction m arbitrary: s) (auto simp: sbind_def split: prod.splits sum.splits)

context worker
begin

lemma refused_run:
  assumes "worker_inv s" "waiting (cs_queue s) = j # js" "no_inner_breaker S" "time_passes S now_s d"
    and "attempt S j (cs_breaker s) (cs_world s) = (r, b, w)" "refused r" "fl (recovery_timeout b) = recovery_timeout b"
  shows "\<exists>j' s'. runs S t 1 s = (Inr (), s') \<and> worker_inv s' \<and> cs_breaker s' = cs_breaker s
    \<and> waiting (cs_queue s') = js @ [j'] \<and> now_s (cs_world s) + d \<le> now_s (cs_world s')
    \<and> now_s (cs_world s) < last_failure_time (cs_breaker s) + recovery_timeout (cs_breaker s)"
proof -
  from attempt_refused [OF assms(5,6,3)] have
    a: "b = cs_breaker s" "w = snd (monotonic (con_clock S) (ticks S (cs_world s)))"
    "fl (now_s (ticks S (cs_world s)) - last_failure_time b) < recovery_timeout b"
    using assms(4) by (auto simp: time_passes_def)
  from busy_run [OF assms(1,2,5), of t] assms(6) obtain j' s' n where
    s': "run_once S t s = (Inr (Some j'), s')" "worker_inv s'" "cs_breaker s' = b"
      "waiting (cs_queue s') = js @ [j']" "cs_world s' = (ticks S ^^ n) w" by auto
  have "now_s (cs_world s) + d \<le> now_s (ticks S (cs_world s)) + d" using assms(4) by (simp add: time_passes_def)
  also have "\<dots> \<le> now_s w" unfolding a(2) using assms(4) by (simp add: time_passes_def)
  also have "\<dots> \<le> now_s (cs_world s')" unfolding s'(5) by (rule ticks_later [OF assms(4)])
  finally have "now_s (cs_world s) + d \<le> now_s (cs_world s')" .
  moreover have "now_s (ticks S (cs_world s)) - last_failure_time b < recovery_timeout b"
  proof (rule ccontr)
    assume "\<not> ?thesis"
    then have "recovery_timeout b \<le> now_s (ticks S (cs_world s)) - last_failure_time b" by simp
    from fl_mono [OF this] a(3) assms(7) show False by simp
  qed
  then have "now_s (cs_world s) < last_failure_time b + recovery_timeout b"
    using assms(4) unfolding time_passes_def by (smt (verit))
  ultimately show ?thesis using s' a(1) by (auto simp: sbind_def)
qed

lemma head_finishes:
  assumes "worker_inv s" "waiting (cs_queue s) \<noteq> []" "no_inner_breaker S" "time_passes S now_s d"
    and "fl (recovery_timeout (cs_breaker s)) = recovery_timeout (cs_breaker s)"
  shows "\<exists>n s'. runs S t n s = (Inr (), s') \<and> worker_inv s' \<and> length (waiting (cs_queue s')) < length (waiting (cs_queue s))
    \<and> recovery_timeout (cs_breaker s') = recovery_timeout (cs_breaker s)"
  using assms
proof (induction "nat \<lceil>(last_failure_time (cs_breaker s) + recovery_timeout (cs_breaker s) - now_s (cs_world s)) / d\<rceil>"
    arbitrary: s rule: less_induct)
  case less
  then obtain j js where q: "waiting (cs_queue s) = j # js" by (cases "waiting (cs_queue s)") auto
  obtain r b w where a: "attempt S j (cs_breaker s) (cs_world s) = (r, b, w)"
    by (cases "attempt S j (cs_breaker s) (cs_world s)")
  have T: "recovery_timeout b = recovery_timeout (cs_breaker s)"
    using breaker_call_timeout a by (auto simp: attempt_def)
  show ?case
  proof (cases "refused r")
    case False
    with busy_run [OF less.prems(1) q a, of t] q T show ?thesis
      by (intro exI [of _ 1]) (auto simp: sbind_def)
  next
    case True
    let ?m = "\<lambda>s. (last_failure_time (cs_breaker s) + recovery_timeout (cs_breaker s) - now_s (cs_world s)) / d"
    from refused_run [OF less.prems(1) q less.prems(3,4) a True, of t] less.prems(5) T obtain j' s1 where
      s1: "runs S t 1 s = (Inr (), s1)" "worker_inv s1" "cs_breaker s1 = cs_breaker s"
        "waiting (cs_queue s1) = js @ [j']" "now_s (cs_world s) + d \<le> now_s (cs_world s1)"
        "now_s (cs_world s) < last_failure_time (cs_breaker s) + recovery_timeout (cs_breaker s)" by auto
    have d: "0 < d" using less.prems(4) by (simp add: time_passes_def)
    have "?m s1 \<le> (last_failure_time (cs_breaker s) + recovery_timeout (cs_breaker s) - now_s (cs_world s) - d) / d"
      using s1(3,5) d by (intro divide_right_mono) auto
    then have "?m s1 \<le> ?m s - 1" using d by (simp add: diff_divide_distrib)
    moreover have "0 < ?m s" using s1(6) d by (simp add: field_simps)
    ultimately have "nat \<lceil>?m s1\<rceil> < nat \<lceil>?m s\<rceil>" by linarith
    from less.hyps [OF this s1(2)] s1(3,4) less.prems(3-5) q obtain n s' where
      "runs S t n s1 = (Inr (), s')" "worker_inv s'" "length (waiting (cs_queue s')) < length (waiting (cs_queue s1))"
      "recovery_timeout (cs_breaker s') = recovery_timeout (cs_breaker s)" by auto
    with runs_add [OF s1(1), of n] s1(4) q show ?thesis by (intro exI [of _ "1 + n"]) auto
  qed
qed

lemma drains:
  assumes "worker_inv s" "no_inner_breaker S" "time_passes S now_s d"
    and "fl (recovery_timeout (cs_breaker s)) = recovery_timeout (cs_breaker s)"
  shows "\<exists>n s'. runs S t n s = (Inr (), s') \<and> worker_inv s' \<and> waiting (cs_queue s') = []
    \<and> active (held (cs_jobs s')) = {} \<and> dom (held (cs_jobs s')) = dom (held (cs_jobs s))"
proof -
  have "\<exists>n s'. runs S t n s = (Inr (), s') \<and> worker_inv s' \<and> waiting (cs_queue s') = []"
    using assms
  proof (induction "length (waiting (cs_queue s))" arbitrary: s rule: less_induct)
    case less
    show ?case
    proof (cases "waiting (cs_queue s) = []")
      case True
      with less.prems(1) show ?thesis by (intro exI [of _ 0]) simp
    next
      case False
      from head_finishes [OF less.prems(1) False less.prems(2-4), of t] obtain m s1 where
        s1: "runs S t m s = (Inr (), s1)" "worker_inv s1" "length (waiting (cs_queue s1)) < length (waiting (cs_queue s))"
          "recovery_timeout (cs_breaker s1) = recovery_timeout (cs_breaker s)" by blast
      from less.hyps [OF s1(3,2) less.prems(2,3)] s1(4) less.prems(4) obtain n s' where
        "runs S t n s1 = (Inr (), s')" "worker_inv s'" "waiting (cs_queue s') = []" by auto
      with runs_add [OF s1(1), of n] show ?thesis by (intro exI [of _ "m + n"]) auto
    qed
  qed
  then obtain n s' where n: "runs S t n s = (Inr (), s')" "worker_inv s'" "waiting (cs_queue s') = []" by blast
  with runs_inv [OF assms(1), of t n] show ?thesis by (fastforce simp: worker_inv_def)
qed

end


section \<open>The worker in memory\<close>

definition memory_consumer ::
    "(JobRecord \<Rightarrow> 'w \<Rightarrow> job_result result \<times> 'w) \<Rightarrow> 'w clock \<Rightarrow> ('w \<Rightarrow> datetime \<times> 'w) \<Rightarrow> (exn \<Rightarrow> string)
     \<Rightarrow> ('w, JobRecord list, job_store, record_store, audit_store) consumer" where
  "memory_consumer dispatch clk now repr =
     \<lparr>con_source = InMemoryQueue, con_dispatch = dispatch, con_jobs = InMemoryJobRepo,
       con_records = InMemoryRecordRepo, con_audits = InMemoryAuditRepo, con_clock = clk, con_now = now,
       con_repr = repr\<rparr>"

lemma memory_upsert_lands:
  "\<exists>rs' r'. rr_upsert InMemoryRecordRepo r rs = (Inr (), rs') \<and> True
     \<and> rr_get InMemoryRecordRepo (rec_hash r) rs' = Inr (Some r') \<and> same_record r r'"
  by (intro exI [of _ "dict_set (rec_hash r) r rs"] exI [of _ r]) (simp add: InMemoryRecordRepo_def)

interpretation mem_worker: worker "memory_consumer dispatch clk now repr" "\<lambda>q. True" "\<lambda>q. q" job_store_ok map_of
    audit_store_ok audit_events "\<lambda>r. True"
  for dispatch clk now repr
  unfolding memory_consumer_def
  by (simp add: worker_def worker_axioms_def mem_queue.job_source_axioms mem_jobs.job_repo_axioms
      mem_audits.audit_repo_axioms memory_upsert_lands [simplified])


lemma memory_consumer_simps [simp]:
  "con_now (memory_consumer dispatch clk now repr) = now"
  "con_records (memory_consumer dispatch clk now repr) = InMemoryRecordRepo"
  by (simp_all add: memory_consumer_def)

text \<open>The accounts of a worker in memory: the waiting jobs have distinct identifiers, the repository
  holds each of them, and it holds a job as queued or running exactly when that job is waiting.\<close>

definition jobs_accounted :: "('w, JobRecord list, job_store, record_store, audit_store) consumer_state \<Rightarrow> bool" where
  "jobs_accounted s \<longleftrightarrow>
     job_store_ok (cs_jobs s) \<and> audit_store_ok (cs_audits s) \<and> distinct (map job_id (cs_queue s))
   \<and> (\<forall>j\<in>set (cs_queue s). \<exists>old. dict_get (cs_jobs s) (job_id j) = Some old \<and> job_created_at j = job_created_at old)
   \<and> active (dict_get (cs_jobs s)) = job_id ` set (cs_queue s)"

lemma mem_worker_inv:
  assumes "\<forall>w. datetime_ok (fst (now w))"
  shows "mem_worker.worker_inv dispatch clk now repr s \<longleftrightarrow> jobs_accounted s"
  using assms
  by (auto simp: mem_worker.worker_inv_def mem_worker.stores_ok_def mem_worker.known_def jobs_accounted_def)

text \<open>C16: No job is lost. Whatever the dispatcher returns or raises and whatever the circuit breaker
  does, any number of runs of the worker on the in-memory backends ends without an exception, and
  keeps the accounts: a job the repository holds as queued or running is waiting in the queue, once,
  every other job has succeeded or failed, and no job appears or disappears.\<close>

theorem no_job_lost:
  assumes "jobs_accounted s" "\<forall>w. datetime_ok (fst (now w))"
  shows "\<exists>s'. runs (memory_consumer dispatch clk now repr) t n s = (Inr (), s') \<and> jobs_accounted s'
    \<and> dom (dict_get (cs_jobs s')) = dom (dict_get (cs_jobs s))"
  using mem_worker.runs_inv [of dispatch clk now repr s t n] assms by (simp add: mem_worker_inv)

lemma memory_drains:
  assumes "jobs_accounted s" "\<forall>w. datetime_ok (fst (now w))"
    and "no_inner_breaker (memory_consumer dispatch clk now repr)"
    and "time_passes (memory_consumer dispatch clk now repr) now_s d"
    and "fl (recovery_timeout (cs_breaker s)) = recovery_timeout (cs_breaker s)"
  shows "\<exists>n s'. runs (memory_consumer dispatch clk now repr) t n s = (Inr (), s') \<and> cs_queue s' = []
    \<and> dom (dict_get (cs_jobs s')) = dom (dict_get (cs_jobs s))
    \<and> (\<forall>u j. dict_get (cs_jobs s') u = Some j \<longrightarrow> job_status j = SUCCEEDED \<or> job_status j = FAILED)"
proof -
  have "mem_worker.worker_inv dispatch clk now repr s" using assms(1,2) by (simp add: mem_worker_inv)
  from mem_worker.drains [OF this assms(3-5)] obtain n s' where
    "runs (memory_consumer dispatch clk now repr) t n s = (Inr (), s')" "cs_queue s' = []"
    "active (dict_get (cs_jobs s')) = {}" "dom (dict_get (cs_jobs s')) = dom (dict_get (cs_jobs s))" by blast
  moreover have "job_status j = SUCCEEDED \<or> job_status j = FAILED"
    if "dict_get (cs_jobs s') u = Some j" for u j
    using that \<open>active (dict_get (cs_jobs s')) = {}\<close> by (cases "job_status j") (auto simp: active_def)
  ultimately show ?thesis by blast
qed

text \<open>Every job is finished. If the dispatcher itself raises no \<open>CircuitBreakerOpenError\<close> and
  reading the monotonic clock takes time, then after enough runs of the worker the queue is empty and
  every job the repository held has succeeded or failed: an open circuit delays jobs but does not
  starve them, however often the dispatcher fails.\<close>

theorem every_job_finishes:
  assumes "jobs_accounted s" "\<forall>w. datetime_ok (fst (now w))"
    and "no_inner_breaker (memory_consumer dispatch clk now repr)"
    and "time_passes (memory_consumer dispatch clk now repr) now_s d"
    and "fl (recovery_timeout (cs_breaker s)) = recovery_timeout (cs_breaker s)"
  shows "\<exists>n s'. runs (memory_consumer dispatch clk now repr) t n s = (Inr (), s') \<and> cs_queue s' = []
    \<and> dom (dict_get (cs_jobs s')) = dom (dict_get (cs_jobs s))
    \<and> (\<forall>u j. dict_get (cs_jobs s') u = Some j \<longrightarrow> job_status j = SUCCEEDED \<or> job_status j = FAILED)"
  using memory_drains [OF assms] .

section \<open>From the worker to the reader\<close>

lemma get_record_answer:
  assumes "get_principal S h s = (Inr p, s1)" "''records:read'' \<in> scopes p" "re_dollar sha256_text rh"
    and "rr_get (svc_records S) rh (ss_records s) = Inr (Some x)"
  shows "get_record S h rh s
    = (if rec_tenant x = tenant p then Inr (view_record x) else Inl (NotFound ''unknown record''), s1)"
  using get_principal_stores [OF assms(1)] assms
  by (simp add: get_record_def sbind_def lift_def same_stores_def require_def scope_value_def check_scope_def
      require_scope_def reraise_def)



section \<open>A worker at work\<close>

definition sample_result :: job_result where
  "sample_result =
     \<lparr>dr_record_hash = ''sha256:'' @ replicate 64 (CHR ''a''), dr_score = ''0.0000'', dr_metrics = [],
       dr_spec_hash = ''sha256:'' @ replicate 64 (CHR ''b''), dr_tool_digests = [], dr_sidecars = []\<rparr>"

definition ticking :: "nat clock" where
  "ticking = \<lparr>monotonic = (\<lambda>w. (real w, w + 1)), sleep = (\<lambda>d w. w + 1)\<rparr>"

text \<open>A dispatcher that fails before time 4.\<close>

abbreviation sample_worker :: "(nat, JobRecord list, job_store, record_store, audit_store) consumer" where
  "sample_worker \<equiv> memory_consumer (\<lambda>j w. (if w < 4 then Inl (DispatchError ''boot'') else Inr sample_result, w)) ticking
     (\<lambda>w. (Datetime 2026 1 1 0 0 0 0, w)) (\<lambda>e. '''')"

definition sample_worker_state :: "nat \<Rightarrow> (nat, JobRecord list, job_store, record_store, audit_store) consumer_state" where
  "sample_worker_state w =
     \<lparr>cs_world = w, cs_queue = [small_job], cs_jobs = [(1, small_job)], cs_records = [], cs_audits = new_audit_store,
       cs_breaker = default_breaker, cs_queue_depth = 0, cs_breaker_gauge = 0, cs_failures = [], cs_records_total = 0\<rparr>"

lemma sample_accounted: "jobs_accounted (sample_worker_state w)"
  by (auto simp: jobs_accounted_def sample_worker_state_def job_store_ok_def audit_store_ok_def new_audit_store_def
      small_job_def active_def)

lemma sample_dates: "\<forall>w :: nat. datetime_ok (fst (Datetime 2026 1 1 0 0 0 0, w))"
  by (simp add: datetime_ok_def)

lemma sample_dom: "dom (dict_get (cs_jobs (sample_worker_state w))) = {1}"
  by (auto simp: sample_worker_state_def split: if_splits)

lemma no_job_lost_witness:
  "\<exists>s'. runs sample_worker 1 2 (sample_worker_state 0) = (Inr (), s') \<and> jobs_accounted s' \<and> dom (dict_get (cs_jobs s')) = {1}"
  using no_job_lost [OF sample_accounted sample_dates, of "\<lambda>j w. (if w < 4 then Inl (DispatchError ''boot'') else Inr sample_result, w)"
    ticking "\<lambda>e. ''''" 1 2 0]
  unfolding sample_dom .

lemma every_job_finishes_witness:
  "\<exists>n s'. runs sample_worker 1 n (sample_worker_state 0) = (Inr (), s') \<and> cs_queue s' = []
    \<and> (\<exists>j. dict_get (cs_jobs s') 1 = Some j \<and> (job_status j = SUCCEEDED \<or> job_status j = FAILED))"
proof -
  have quiet: "no_inner_breaker sample_worker"
    by (simp add: no_inner_breaker_def memory_consumer_def)
  have time: "time_passes sample_worker real 1"
    by (simp add: time_passes_def memory_consumer_def ticking_def)
  have "fl (recovery_timeout (cs_breaker (sample_worker_state 0))) = recovery_timeout (cs_breaker (sample_worker_state 0))"
    by (simp add: sample_worker_state_def default_breaker_def new_breaker_def)
  from every_job_finishes [OF sample_accounted sample_dates quiet time this, of 1]
  obtain n s' where n: "runs sample_worker 1 n (sample_worker_state 0) = (Inr (), s')" "cs_queue s' = []"
    "dom (dict_get (cs_jobs s')) = {1}"
    "\<forall>u j. dict_get (cs_jobs s') u = Some j \<longrightarrow> job_status j = SUCCEEDED \<or> job_status j = FAILED"
    unfolding sample_dom by blast
  then have "1 \<in> dom (dict_get (cs_jobs s'))" by simp
  with n show ?thesis by blast
qed

definition reader :: Principal where
  "reader = \<lparr>subject = ''u'', tenant = ''acme'', scopes = {''records:read''}, expires_at = 100\<rparr>"



section \<open>Gaps\<close>

text \<open>The retry wrapper turns every \<open>DispatchError\<close> into \<open>RetryExhaustedError\<close>, so the handler for
  \<open>DispatchError\<close> is never reached.\<close>

lemma dispatch_handler_unreachable:
  "fst (retry_on_transient_error dispatch_policy C f w) \<noteq> Inl (DispatchError m)"
proof -
  have "fst (retry_loop dispatch_policy C f ks v) \<noteq> Inl (DispatchError m)" for ks v
    by (induction ks arbitrary: v) (auto simp: dispatch_policy_def exhausted_def split: prod.splits sum.splits)
  then show ?thesis by (simp add: retry_on_transient_error_def)
qed

text \<open>A job that an open circuit sends back to the queue keeps the status \<open>RUNNING\<close>.\<close>

lemma requeued_job_shows_running:
  "requeue_job S m j s = (Inr j', s') \<Longrightarrow> job_status j' = job_status j"
  by (auto simp: requeue_job_def save_job_def sbind_def Let_def andthen_def split: prod.splits sum.splits)

text \<open>When the record store raises after a successful dispatch, the exception leaves \<open>run_once\<close>: the
  job is neither in the queue nor marked as failed, and stays \<open>RUNNING\<close> in the repository.\<close>

lemma store_error_strands_job:
  assumes "rr_upsert (con_records S) (record_of j result (fst (con_now S (cs_world s)))) (cs_records s) = (Inl e, rs)"
  shows "\<exists>s'. complete_job S j result s = (Inl e, s') \<and> cs_queue s' = cs_queue s \<and> cs_jobs s' = cs_jobs s
    \<and> cs_audits s' = cs_audits s"
  using assms by (auto simp: complete_job_def store_record_def sbind_def split_beta Let_def)

text \<open>An unexpected exception fails the job without an audit event.\<close>

lemma unexpected_leaves_no_event: "cs_audits (snd (fail_unexpected S e j s)) = cs_audits s"
  by (simp add: fail_unexpected_def count_failure_def save_job_def sbind_def split_beta Let_def)

end
