(* ===== verification/Api.thy ===== *)
theory Api
  imports Service
begin

text \<open>
  \<open>src/cce_service/api/app.py\<close>: the middleware that bounds request bodies, the guard of
  \<open>/metrics\<close> and the mapping of \<open>ApiError\<close>s. FastAPI and the ASGI server are outside.

  One call of an ASGI application is a tree: it receives messages, sends messages, and ends or
  raises; both leaves carry the state that the call leaves in the process. Every branch is finite.
  The middleware maps the tree of the inner application to the tree that the server runs.
\<close>

section \<open>Applications\<close>

datatype asgi_in = Request string bool | Disconnect

datatype asgi_out = Start int "(string \<times> string) list" | Body string bool | Other string

datatype 's app =
    Finish 's
  | Raise exn 's
  | Receive "asgi_in \<Rightarrow> 's app"
  | Send asgi_out "'s app"

text \<open>\<open>_send_json\<close>, followed by the rest of the call; \<open>json.dumps\<close> of the one-key dict.\<close>

definition detail_json :: "string \<Rightarrow> string" where
  "detail_json msg = ''{'' @ json_string ''detail'' @ '': '' @ json_string msg @ ''}''"

definition send_json :: "int \<Rightarrow> string \<Rightarrow> 's app \<Rightarrow> 's app" where
  "send_json code payload rest =
     Send (Start code [(''content-type'', ''application/json''),
             (''content-length'', string_of_int (int (length payload)))])
       (Send (Body payload False) rest)"

definition too_large_json :: "nat \<Rightarrow> string" where
  "too_large_json max_bytes =
     detail_json (''request body exceeds '' @ string_of_int (int max_bytes) @ '' byte limit'')"

section \<open>The body limit\<close>

definition MAX_BODY_BYTES :: nat where
  "MAX_BODY_BYTES = 1024 * 1024"

definition body_size :: "asgi_in \<Rightarrow> nat" where
  "body_size m = (case m of Request b cont \<Rightarrow> length b | Disconnect \<Rightarrow> 0)"

text \<open>\<open>limited_receive\<close>, \<open>guarded_send\<close> and the \<open>try\<close> around the inner application, with the three
  variables they share.\<close>

primrec limited :: "nat \<Rightarrow> 's app \<Rightarrow> nat \<Rightarrow> bool \<Rightarrow> bool \<Rightarrow> 's app" where
  "limited max_bytes (Finish s) received too_large response_started =
     (if too_large \<and> \<not> response_started then send_json 413 (too_large_json max_bytes) (Finish s) else Finish s)"
| "limited max_bytes (Raise e s) received too_large response_started =
     (if \<not> too_large then Raise e s
      else if \<not> response_started then send_json 413 (too_large_json max_bytes) (Finish s)
      else Finish s)"
| "limited max_bytes (Receive f) received too_large response_started =
     Receive (\<lambda>m. limited max_bytes (f m) (received + body_size m)
        (too_large \<or> (m \<noteq> Disconnect \<and> max_bytes < received + body_size m)) response_started)"
| "limited max_bytes (Send m rest) received too_large response_started =
     (case m of
        Start st hs \<Rightarrow>
          if too_large then send_json 413 (too_large_json max_bytes) (limited max_bytes rest received too_large True)
          else Send m (limited max_bytes rest received too_large True)
      | Body b cont \<Rightarrow>
          if too_large then limited max_bytes rest received too_large response_started
          else Send m (limited max_bytes rest received too_large response_started)
      | Other x \<Rightarrow> Send m (limited max_bytes rest received too_large response_started))"

text \<open>The dict of headers: later ones win. A rejected request leaves the state \<open>s\<close> it found.\<close>

definition content_length :: "(string \<times> string) list \<Rightarrow> string option" where
  "content_length headers = map_of (rev (map (\<lambda>(k, v). (map to_lower_char k, v)) headers)) ''content-length''"

definition body_limit :: "nat \<Rightarrow> 's \<Rightarrow> string \<Rightarrow> (string \<times> string) list \<Rightarrow> 's app \<Rightarrow> 's app" where
  "body_limit max_bytes s scope_type headers inner =
     (if scope_type \<noteq> ''http'' then inner
      else case content_length headers of
        None \<Rightarrow> limited max_bytes inner 0 False False
      | Some cl \<Rightarrow>
          (case int_of_text cl of
             Inl _ \<Rightarrow> send_json 400 (detail_json ''invalid content-length header'') (Finish s)
           | Inr declared \<Rightarrow>
               if int max_bytes < declared then send_json 413 (too_large_json max_bytes) (Finish s)
               else limited max_bytes inner 0 False False))"

section \<open>Runs\<close>

datatype event = In asgi_in | Out asgi_out
datatype 's outcome = Finished 's | Failed exn 's | Waiting

primrec run :: "'s app \<Rightarrow> asgi_in list \<Rightarrow> event list \<times> 's outcome" where
  "run (Finish s) inputs = ([], Finished s)"
| "run (Raise e s) inputs = ([], Failed e s)"
| "run (Receive f) inputs =
     (case inputs of [] \<Rightarrow> ([], Waiting) | m # ms \<Rightarrow> apfst (\<lambda>es. In m # es) (run (f m) ms))"
| "run (Send m rest) inputs = apfst (\<lambda>es. Out m # es) (run rest inputs)"

definition received :: "event list \<Rightarrow> nat" where
  "received es = (\<Sum>e\<leftarrow>es. case e of In m \<Rightarrow> body_size m | Out m \<Rightarrow> 0)"


section \<open>What the limit guarantees\<close>

lemma received_simps [simp]:
  "received [] = 0" "received (In m # es) = body_size m + received es" "received (Out x # es) = received es"
  by (simp_all add: received_def)

lemma body_size_simps [simp]: "body_size (Request b c) = length b" "body_size Disconnect = 0"
  by (simp_all add: body_size_def)

lemma over_limit [simp]:
  "(m < rec \<or> (i \<noteq> Disconnect \<and> m < rec + body_size i)) \<longleftrightarrow> (m :: nat) < rec + body_size i"
  by (cases i) auto

text \<open>What may be sent once more than \<open>m\<close> bytes, \<open>rec\<close> of them before \<open>es\<close>, were received.\<close>

fun allowed_late :: "nat \<Rightarrow> asgi_out \<Rightarrow> bool" where
  "allowed_late m (Start st hs) \<longleftrightarrow> st = 413"
| "allowed_late m (Body b c) \<longleftrightarrow> b = too_large_json m"
| "allowed_late m (Other x) \<longleftrightarrow> True"

fun late_ok :: "nat \<Rightarrow> nat \<Rightarrow> event list \<Rightarrow> bool" where
  "late_ok m rec [] \<longleftrightarrow> True"
| "late_ok m rec (In i # es) \<longleftrightarrow> late_ok m (rec + body_size i) es"
| "late_ok m rec (Out x # es) \<longleftrightarrow> (rec \<le> m \<or> allowed_late m x) \<and> late_ok m rec es"

lemma late_okD:
  "late_ok m rec (pre @ Out x # post) \<Longrightarrow> m < rec + received pre \<Longrightarrow> allowed_late m x"
  by (induction m rec pre rule: late_ok.induct) auto

lemma run_send_json [simp]:
  "run (send_json c p rest) inputs
     = apfst (\<lambda>es. Out (Start c [(''content-type'', ''application/json''),
          (''content-length'', string_of_int (int (length p)))]) # Out (Body p False) # es) (run rest inputs)"
  by (simp add: send_json_def apfst_def map_prod_def split_beta)

lemma limited_late:
  "big = (m < rec) \<Longrightarrow> late_ok m rec (fst (run (limited m a rec big started) inputs))"
proof (induction a arbitrary: rec big started inputs)
  case (Receive f)
  then show ?case by (cases inputs) simp_all
next
  case (Send x a)
  from Send.IH [OF Send.prems] Send.prems show ?case by (cases x; cases big) simp_all
qed simp_all

lemma limited_answers:
  "big = (m < rec) \<Longrightarrow> m < rec + received (fst (run (limited m a rec big False) inputs)) \<Longrightarrow>
   snd (run (limited m a rec big False) inputs) \<noteq> Waiting \<Longrightarrow>
   \<exists>st hs. Out (Start st hs) \<in> set (fst (run (limited m a rec big False) inputs))"
proof (induction a arbitrary: rec big inputs)
  case (Receive f)
  show ?case
  proof (cases inputs)
    case (Cons i ms)
    with Receive.prems Receive.IH [of "f i" "m < rec + body_size i" "rec + body_size i" ms]
    show ?thesis by (simp add: add.assoc)
  qed (use Receive.prems in simp)
next
  case (Send x a)
  from Send.IH [OF Send.prems(1)] Send.prems show ?case by (cases x; cases big) auto
qed (auto split: if_splits)

lemma limited_transparent:
  "big = (m < rec) \<Longrightarrow> rec + (\<Sum>i\<leftarrow>inputs. body_size i) \<le> m \<Longrightarrow> run (limited m a rec big started) inputs = run a inputs"
proof (induction a arbitrary: rec big started inputs)
  case (Receive f)
  show ?case
  proof (cases inputs)
    case (Cons i ms)
    with Receive.prems Receive.IH [of "f i" "m < rec + body_size i" "rec + body_size i" ms started]
    show ?thesis by (simp add: add.assoc)
  qed simp
next
  case (Send x a)
  then show ?case by (cases x) simp_all
qed simp_all




text \<open>The limit does not keep an oversized body from the application: the call ends in the state that
  it would have left without the middleware. A request over the limit that is answered with 413 may
  still have created a job.\<close>

lemma oversized_request_is_processed:
  "snd (run a inputs) = Finished s \<Longrightarrow> snd (run (limited m a rec big started) inputs) = Finished s"
proof (induction a arbitrary: rec big started inputs)
  case (Receive f)
  then show ?case by (cases inputs) simp_all
next
  case (Send x a)
  from Send.IH Send.prems show ?case by (cases x; cases big) simp_all
qed simp_all

text \<open>A response that has started before the limit is passed loses its body, and is never ended.\<close>

lemma started_response_is_cut:
  "run (body_limit 3 () ''http'' [] (Send (Start 200 []) (Receive (\<lambda>m. Send (Body ''ok'' False) (Finish ())))))
      [Request ''abcd'' False]
    = ([Out (Start 200 []), In (Request ''abcd'' False)], Finished ())"
  by (simp add: body_limit_def content_length_def)

text \<open>A negative \<open>Content-Length\<close> counts as within the limit.\<close>

lemma negative_length_accepted:
  "body_limit m s ''http'' [(''Content-Length'', ''-5'')] inner = limited m inner 0 False False"
  by (simp add: body_limit_def content_length_def to_lower_char_def int_of_text_def py_strip_def py_lstrip_def
      py_space_def starts_with_def is_digit_def digit_val_def Let_def)

section \<open>Metrics and errors\<close>

text \<open>The guard of \<open>GET /metrics\<close>. \<open>hmac.compare_digest\<close> on texts raises unless both are ASCII.\<close>

definition compare_digest :: "string \<Rightarrow> string \<Rightarrow> bool result" where
  "compare_digest a b =
     (if ascii a \<and> ascii b then Inr (a = b) else Inl (TypeError ''comparing strings with non-ASCII characters is not supported''))"

definition provided_token :: "string option \<Rightarrow> string result" where
  "provided_token authorization =
     (case authorization of
        None \<Rightarrow> Inr ''''
      | Some a \<Rightarrow> if a \<noteq> [] \<and> starts_with ''bearer '' (map to_lower_char a) then py_index (split_ws1 a) 1 else Inr '''')"

definition metrics_guard :: "string option \<Rightarrow> string option \<Rightarrow> string option \<Rightarrow> unit result" where
  "metrics_guard cce_metrics_token cce_env authorization =
     (let expected = py_strip (case cce_metrics_token of None \<Rightarrow> '''' | Some t \<Rightarrow> t);
          env = map to_lower_char (py_strip (case cce_env of None \<Rightarrow> '''' | Some e \<Rightarrow> e));
          is_dev = (env = ''development'')
      in if expected = ''''
         then (if \<not> is_dev then Inl (HTTPException 503 ''metrics endpoint not configured'') else Inr ())
         else andthen (provided_token authorization) (\<lambda>provided.
              andthen (compare_digest provided expected) (\<lambda>same.
              if \<not> same then Inl (HTTPException 401 ''metrics auth required'') else Inr ())))"

text \<open>\<open>_api_error_handler\<close>: what is raised for an \<open>ApiError\<close>; every other exception passes.\<close>

definition api_error_handler :: "exn \<Rightarrow> string \<Rightarrow> exn" where
  "api_error_handler e text = (case status_code e of None \<Rightarrow> e | Some c \<Rightarrow> HTTPException c text)"

text \<open>The endpoint is open exactly in development without a token, or to a caller who presents the
  configured token.\<close>

lemma metrics_guard_open:
  "metrics_guard token env authorization = Inr () \<longleftrightarrow>
     (let expected = py_strip (case token of None \<Rightarrow> '''' | Some t \<Rightarrow> t)
      in if expected = '''' then map to_lower_char (py_strip (case env of None \<Rightarrow> '''' | Some e \<Rightarrow> e)) = ''development''
         else provided_token authorization = Inr expected \<and> ascii expected)"
  by (auto simp: metrics_guard_def compare_digest_def result_simps Let_def split: if_splits)

lemma provided_token_eq:
  "provided_token authorization = Inr t \<Longrightarrow> t \<noteq> '''' \<Longrightarrow>
   \<exists>a. authorization = Some a \<and> starts_with ''bearer '' (map to_lower_char a) \<and> py_index (split_ws1 a) 1 = Inr t"
  by (auto simp: provided_token_def split: option.splits if_splits)

end
