(* ===== verification/Telemetry.thy ===== *)
theory Telemetry
  imports PyJson Models
begin

text \<open>
  Telemetry and logging: \<open>src/cce/otel.py\<close>, which sets up OpenTelemetry once per process and opens the
  spans of the stages, and \<open>src/cce_service/logging_setup.py\<close>, which prints log records as JSON lines.

  The OpenTelemetry packages are a parameter: whether they can be imported, and their constructors, which may
  raise any exception, given by its class name and message. The Prometheus shims of the module have no
  state here; the components that count keep their own counters.
\<close>

section \<open>Setting up tracing\<close>

type_synonym raised = "string \<times> string"

text \<open>What a span exporter writes to: a collector, or standard error.\<close>

datatype exporter = OTLP string | Console

record ('r, 'p, 'e, 's) sdk =
  sdk_importable :: bool
  api_importable :: bool
  Resource_create :: "(string \<times> string) list \<Rightarrow> raised + 'r"
  TracerProvider :: "'r \<Rightarrow> raised + 'p"
  SpanExporter :: "exporter \<Rightarrow> raised + 'e"
  BatchSpanProcessor :: "'e \<Rightarrow> raised + 's"
  add_span_processor :: "'p \<Rightarrow> 's \<Rightarrow> raised + 'p"
  set_tracer_provider :: "'p \<Rightarrow> 'p option \<Rightarrow> raised + 'p option"

record 'p otel =
  initialised :: bool
  force_noop :: bool
  tracer_provider :: "'p option"
  stderr_writes :: "string list"

type_synonym environ = "string \<Rightarrow> string option"

definition stripped_env :: "environ \<Rightarrow> string \<Rightarrow> string option" where
  "stripped_env env name =
     (case env name of None \<Rightarrow> None | Some v \<Rightarrow> if py_strip v = [] then None else Some (py_strip v))"

definition select_exporter :: "environ \<Rightarrow> exporter" where
  "select_exporter env =
     (case stripped_env env ''OTEL_EXPORTER_OTLP_TRACES_ENDPOINT'' of
        Some traces \<Rightarrow> OTLP traces
      | None \<Rightarrow> (case stripped_env env ''OTEL_EXPORTER_OTLP_ENDPOINT'' of Some generic \<Rightarrow> OTLP generic | None \<Rightarrow> Console))"

definition resource_attributes :: "environ \<Rightarrow> string \<Rightarrow> string \<Rightarrow> (string \<times> string) list" where
  "resource_attributes env service_name service_version =
     [(''service.name'', case env ''OTEL_SERVICE_NAME'' of None \<Rightarrow> service_name | Some n \<Rightarrow> n),
      (''service.version'', service_version)]"

definition build_provider :: "('r, 'p, 'e, 's) sdk \<Rightarrow> environ \<Rightarrow> string \<Rightarrow> string \<Rightarrow> raised + 'p" where
  "build_provider K env service_name service_version =
     andthen (Resource_create K (resource_attributes env service_name service_version)) (\<lambda>resource.
     andthen (TracerProvider K resource) (\<lambda>provider.
     andthen (SpanExporter K (select_exporter env)) (\<lambda>exporter.
     andthen (BatchSpanProcessor K exporter) (\<lambda>processor.
     add_span_processor K provider processor))))"

definition init_otel :: "('r, 'p, 'e, 's) sdk \<Rightarrow> environ \<Rightarrow> string \<Rightarrow> string \<Rightarrow> 'p otel \<Rightarrow> 'p otel" where
  "init_otel K env service_name service_version st =
     (if initialised st then st
      else let st = st\<lparr>initialised := True, force_noop := False\<rparr> in
        if \<not> sdk_importable K then st\<lparr>force_noop := True\<rparr>
        else case andthen (build_provider K env service_name service_version)
                    (\<lambda>provider. set_tracer_provider K provider (tracer_provider st)) of
               Inr current \<Rightarrow> st\<lparr>tracer_provider := current\<rparr>
             | Inl (cls, message) \<Rightarrow>
                 st\<lparr>stderr_writes := stderr_writes st @ [''init_otel: '' @ cls @ '': '' @ message @ [CHR 0x0A]],
                    force_noop := True\<rparr>)"

text \<open>\<open>SdkTracer None\<close> is the proxy tracer of the API package.\<close>

datatype 'p tracer = NoopTracer | SdkTracer "'p option"

definition get_tracer :: "('r, 'p, 'e, 's) sdk \<Rightarrow> 'p otel \<Rightarrow> 'p tracer" where
  "get_tracer K st =
     (if force_noop st then NoopTracer else if \<not> api_importable K then NoopTracer else SdkTracer (tracer_provider st))"

section \<open>Spans\<close>

definition PRD_SPAN_NAMES :: "string list" where
  "PRD_SPAN_NAMES = [''load_spec'', ''clone'', ''parse'', ''measure'', ''score'']"

definition ALLOWED_SPAN_NAMES :: "string list" where
  "ALLOWED_SPAN_NAMES = PRD_SPAN_NAMES @ [''write_outputs'']"

datatype span_call = StartSpan string | SetAttribute string string

text \<open>What entering \<open>stage_span(stage, **attrs)\<close> asks of the tracer; attributes come with the text
  \<open>str(value)\<close>, \<open>None\<close> for the value \<open>None\<close>.\<close>

definition stage_span :: "'p tracer \<Rightarrow> string \<Rightarrow> (string \<times> string option) list \<Rightarrow> span_call list" where
  "stage_span t stage attrs =
     (case t of
        NoopTracer \<Rightarrow> []
      | SdkTracer p \<Rightarrow> StartSpan (''cce.'' @ stage)
          # concat (map (\<lambda>(k, v). case v of None \<Rightarrow> [] | Some w \<Rightarrow> [SetAttribute k w]) attrs))"

section \<open>What set-up guarantees\<close>

lemma init_otel_idempotent:
  "init_otel K' env' n' v' (init_otel K env n v st) = init_otel K env n v st"
  by (simp add: init_otel_def Let_def split: sum.split prod.split)

text \<open>Only the first call of a process counts, also if it failed.\<close>

lemma init_otel_once: "initialised (init_otel K env n v st)"
  by (simp add: init_otel_def Let_def split: sum.split prod.split)

lemma init_otel_ok:
  assumes "\<not> initialised st" "sdk_importable K" "api_importable K" "build_provider K env n v = Inr p"
    and "set_tracer_provider K p (tracer_provider st) = Inr (Some p)"
  shows "get_tracer K (init_otel K env n v st) = SdkTracer (Some p)"
    and "stderr_writes (init_otel K env n v st) = stderr_writes st"
  using assms by (simp_all add: init_otel_def get_tracer_def)

lemma init_otel_failed:
  assumes "\<not> initialised st" "sdk_importable K" "build_provider K env n v = Inl (cls, message)"
  shows "get_tracer K (init_otel K env n v st) = NoopTracer"
    and "stderr_writes (init_otel K env n v st) = stderr_writes st @ [''init_otel: '' @ cls @ '': '' @ message @ [CHR 0x0A]]"
    and "tracer_provider (init_otel K env n v st) = tracer_provider st"
  using assms by (simp_all add: init_otel_def get_tracer_def)

lemma init_otel_not_installed:
  assumes "\<not> initialised st" "\<not> sdk_importable K"
  shows "get_tracer K (init_otel K env n v st) = NoopTracer"
    and "stderr_writes (init_otel K env n v st) = stderr_writes st"
  using assms by (simp_all add: init_otel_def get_tracer_def)

text \<open>The endpoint for traces wins over the general one; blank values count as unset.\<close>

lemma select_exporter_order:
  "stripped_env env ''OTEL_EXPORTER_OTLP_TRACES_ENDPOINT'' = Some t \<Longrightarrow> select_exporter env = OTLP t"
  "\<lbrakk>stripped_env env ''OTEL_EXPORTER_OTLP_TRACES_ENDPOINT'' = None; stripped_env env ''OTEL_EXPORTER_OTLP_ENDPOINT'' = Some g\<rbrakk>
     \<Longrightarrow> select_exporter env = OTLP g"
  "\<lbrakk>stripped_env env ''OTEL_EXPORTER_OTLP_TRACES_ENDPOINT'' = None; stripped_env env ''OTEL_EXPORTER_OTLP_ENDPOINT'' = None\<rbrakk>
     \<Longrightarrow> select_exporter env = Console"
  by (simp_all add: select_exporter_def)

text \<open>A message with a line break makes the one line two.\<close>

lemma init_otel_message_with_newline:
  assumes "\<not> initialised st" "sdk_importable K" "build_provider K env n v = Inl (''ValueError'', [CHR ''a'', CHR 0x0A, CHR ''b''])"
  shows "\<exists>line. stderr_writes (init_otel K env n v st) = stderr_writes st @ [line] \<and> 1 < length (filter (\<lambda>c. c = CHR 0x0A) line)"
  using init_otel_failed(2) [OF assms] by simp

text \<open>The spans of the VM dispatcher are outside the set that the contract of the module allows.\<close>

lemma dispatch_span_not_allowed:
  "StartSpan (''cce.'' @ ''dispatch.boot'') \<in> set (stage_span (SdkTracer p) ''dispatch.boot'' attrs)
   \<and> ''dispatch.boot'' \<notin> set ALLOWED_SPAN_NAMES"
  by (simp add: stage_span_def ALLOWED_SPAN_NAMES_def PRD_SPAN_NAMES_def)

section \<open>Log lines\<close>

text \<open>A log record, with its formatted message, the job id it carries and the \<open>repr\<close> of its exception.\<close>

record LogRecord =
  lr_levelname :: string
  lr_name :: string
  lr_message :: string
  lr_job_id :: "string option"
  lr_exception :: "string option"

record log_context =
  ctx_request_id :: "string option"
  ctx_trace_id :: "string option"
  ctx_span_id :: "string option"

definition present :: "string \<Rightarrow> string option \<Rightarrow> (string \<times> string) list" where
  "present key v = (case v of None \<Rightarrow> [] | Some t \<Rightarrow> if t = [] then [] else [(key, t)])"

definition log_fields :: "log_context \<Rightarrow> datetime \<Rightarrow> LogRecord \<Rightarrow> (string \<times> string) list" where
  "log_fields ctx now_utc r =
     [(''timestamp'', isoformat now_utc), (''level'', map to_lower_char (lr_levelname r)), (''logger'', lr_name r),
      (''message'', lr_message r)]
     @ present ''request_id'' (ctx_request_id ctx) @ present ''trace_id'' (ctx_trace_id ctx)
     @ present ''span_id'' (ctx_span_id ctx) @ present ''job_id'' (lr_job_id r)
     @ (case lr_exception r of None \<Rightarrow> [] | Some e \<Rightarrow> [(''exception'', e)])"

definition JsonLineFormatter :: "log_context \<Rightarrow> datetime \<Rightarrow> LogRecord \<Rightarrow> string result" where
  "JsonLineFormatter ctx now_utc r =
     json_dumps False (str_dict (map (\<lambda>(k, v). (k, VStr v)) (log_fields ctx now_utc r)))"

definition set_request_id :: "string \<Rightarrow> log_context \<Rightarrow> log_context" where
  "set_request_id request_id ctx = ctx\<lparr>ctx_request_id := Some request_id\<rparr>"

definition set_job_id :: "LogRecord \<Rightarrow> string \<Rightarrow> LogRecord" where
  "set_job_id r jid = r\<lparr>lr_job_id := Some jid\<rparr>"

text \<open>The handlers and the level of the root logger.\<close>

datatype handler = PlainHandler string | JsonStderrHandler

definition setup_json_logging :: "environ \<Rightarrow> handler list \<times> nat \<Rightarrow> handler list \<times> nat" where
  "setup_json_logging env logger_root = (if env ''CCE_LOG_FORMAT'' \<noteq> Some ''json'' then logger_root else ([JsonStderrHandler], 20))"

text \<open>\<open>JobLogAdapter.process\<close>: \<open>adapter_extra\<close> is \<open>self.extra\<close>, \<open>caller_extra\<close> is \<open>kwargs.get("extra")\<close>.\<close>

definition adapter_process ::
    "(string, string) dict \<Rightarrow> (string, string) dict option \<Rightarrow> (string, string) dict option" where
  "adapter_process adapter_extra caller_extra =
     (if adapter_extra = [] then caller_extra
      else Some (foldl (\<lambda>d (k, v). dict_set k v d) (case caller_extra of None \<Rightarrow> [] | Some d \<Rightarrow> d) adapter_extra))"


section \<open>One line per record\<close>

definition printable :: "string \<Rightarrow> bool" where
  "printable s \<longleftrightarrow> (\<forall>c\<in>set s. 32 \<le> (of_char c :: nat) \<and> (of_char c :: nat) < 127)"

lemma printable_simps [simp]:
  "printable []" "printable (s @ t) \<longleftrightarrow> printable s \<and> printable t"
  "printable (c # s) \<longleftrightarrow> 32 \<le> (of_char c :: nat) \<and> (of_char c :: nat) < 127 \<and> printable s"
  "printable (concat ss) \<longleftrightarrow> (\<forall>s\<in>set ss. printable s)"
  by (auto simp: printable_def)

lemma hex_digit_printable: "32 \<le> (of_char (hex_digit m) :: nat) \<and> (of_char (hex_digit m) :: nat) < 127"
proof -
  have "\<forall>d\<in>set [0..<16]. 32 \<le> (of_char (hex_digit d) :: nat) \<and> (of_char (hex_digit d) :: nat) < 127" by code_simp
  moreover have "m mod 16 \<in> set [0..<16]" by simp
  ultimately have "32 \<le> (of_char (hex_digit (m mod 16)) :: nat) \<and> (of_char (hex_digit (m mod 16)) :: nat) < 127" by blast
  then show ?thesis by (simp add: hex_digit_def)
qed

lemma json_string_printable: "printable (json_string s)"
proof -
  have field: "printable (hex_field k n)" for k n
    by (auto simp: printable_def hex_field_def hex_digit_printable)
  have "printable (json_char c)" for c
    by (auto simp: json_char_def Let_def field)
  then show ?thesis by (auto simp: json_string_def)
qed

lemma join_printable: "\<forall>x\<in>set xs. printable x \<Longrightarrow> printable sep \<Longrightarrow> printable (join sep xs)"
  by (induction xs) (auto simp: join_Cons)

lemma text_items_dump:
  "each (\<lambda>(k, v). case k of VStr s \<Rightarrow> andthen (json_dumps False v) (\<lambda>t. Inr (json_string s @ '':'' @ t))
       | _ \<Rightarrow> Inl (TypeError ''keys must be str'')) (map (\<lambda>(k, v). (VStr k, VStr v)) kvs)
   = Inr (map (\<lambda>(k, v). json_string k @ '':'' @ json_string v) kvs)"
  by (induction kvs) auto

lemma str_dict_dumps:
  "json_dumps False (str_dict (map (\<lambda>(k, v). (k, VStr v)) kvs))
   = Inr (''{'' @ join '','' (map (\<lambda>(k, v). json_string k @ '':'' @ json_string v) kvs) @ ''}'')"
  using text_items_dump [of kvs] by (simp add: str_dict_def json_items_def comp_def case_prod_unfold del: append_Cons)

text \<open>every log record is printed, as one line of printable ASCII characters, and reading the line as JSON gives
  back the fields of the record: its message in particular, whatever line breaks, quotes or control
  characters it holds.\<close>

theorem log_line_roundtrip:
  "\<exists>line. JsonLineFormatter ctx now_utc r = Inr line
     \<and> printable line
     \<and> json_read line = Some (str_dict (map (\<lambda>(k, v). (k, VStr v)) (log_fields ctx now_utc r)))"
proof -
  let ?kvs = "log_fields ctx now_utc r"
  let ?line = "''{'' @ join '','' (map (\<lambda>(k, v). json_string k @ '':'' @ json_string v) ?kvs) @ ''}''"
  have line: "JsonLineFormatter ctx now_utc r = Inr ?line"
    unfolding JsonLineFormatter_def by (rule str_dict_dumps)
  have "printable (join '','' (map (\<lambda>(k, v). json_string k @ '':'' @ json_string v) ?kvs))"
    by (rule join_printable) (auto simp: json_string_printable)
  then have "printable ?line" by simp
  moreover have "json_plain (str_dict (map (\<lambda>(k, v). (k, VStr v)) ?kvs))"
    by (auto simp: str_dict_def list_all_iff)
  then have "json_read ?line = Some (str_dict (map (\<lambda>(k, v). (k, VStr v)) ?kvs))"
    using json_read_dumps line unfolding JsonLineFormatter_def by fastforce
  ultimately show ?thesis using line by blast
qed

text \<open>The request id that the middleware set is in every line; a job id only if the record carries one.\<close>

lemma request_id_logged:
  "rid \<noteq> [] \<Longrightarrow> (''request_id'', rid) \<in> set (log_fields (set_request_id rid ctx) now_utc r)"
  by (simp add: log_fields_def set_request_id_def present_def)

lemma job_id_logged:
  "jid \<noteq> [] \<Longrightarrow> (''job_id'', jid) \<in> set (log_fields ctx now_utc (set_job_id r jid))"
  by (simp add: log_fields_def set_job_id_def present_def)

text \<open>The adapter's fields win over those of the caller.\<close>

lemma adapter_wins:
  assumes "distinct (map fst adapter_extra)" "(k, v) \<in> set adapter_extra"
  shows "\<exists>d. adapter_process adapter_extra caller_extra = Some d \<and> dict_get d k = Some v"
proof -
  have "dict_get (foldl (\<lambda>d (k, v). dict_set k v d) d xs) k = Some v"
    if "distinct (map fst xs)" "(k, v) \<in> set xs \<or> k \<notin> fst ` set xs \<and> dict_get d k = Some v" for xs d
    using that by (induction xs arbitrary: d) (force split: prod.splits if_splits)+
  with assms show ?thesis by (auto simp: adapter_process_def)
qed

end
