(* ===== verification/Routes.thy ===== *)
theory Routes
  imports Api Telemetry
begin

text \<open>
  The routes of \<open>src/cce_service/api/app.py\<close>: each handler forwards to the service and turns the view it
  gets into the JSON value of the response, or raises what the service raises. What FastAPI makes of a
  raised exception is not part of this repository.

  The property composes two requests: a job that was created can be read back.
\<close>

section \<open>Views as JSON\<close>

definition opt_value :: "('a \<Rightarrow> pyval) \<Rightarrow> 'a option \<Rightarrow> pyval" where
  "opt_value f v = (case v of None \<Rightarrow> VNone | Some x \<Rightarrow> f x)"

definition text_dict :: "str_map \<Rightarrow> pyval" where
  "text_dict d = str_dict (map (\<lambda>(k, v). (k, VStr v)) d)"

definition job_view_json :: "ScoreJobView \<Rightarrow> pyval" where
  "job_view_json v =
     str_dict [(''job_id'', VStr (jv_job_id v)), (''status'', VStr (jv_status v)),
       (''record_hash'', opt_value VStr (jv_record_hash v)), (''score'', opt_value VStr (jv_score v)),
       (''sidecars'', opt_value text_dict (jv_sidecars v)), (''error'', opt_value VStr (jv_error v))]"

definition record_view_json :: "ScoreRecordView \<Rightarrow> pyval" where
  "record_view_json v =
     str_dict [(''record_hash'', VStr (rv_record_hash v)), (''commit_sha'', VStr (rv_commit_sha v)),
       (''repo_url'', VStr (rv_repo_url v)), (''spec_hash'', VStr (rv_spec_hash v)), (''score'', VStr (rv_score v)),
       (''metrics'', str_dict (rv_metrics v)), (''tool_digests'', text_dict (rv_tool_digests v))]"

definition audit_view_json :: "AuditView \<Rightarrow> pyval" where
  "audit_view_json v =
     str_dict [(''id'', VInt (av_id v)), (''actor'', VStr (av_actor v)), (''action'', VStr (av_action v)),
       (''target'', VStr (av_target v)), (''tenant'', VStr (av_tenant v)), (''ts'', VStr (av_ts v)),
       (''payload'', str_dict (av_payload v))]"

section \<open>Handlers\<close>

type_synonym ('w, 'v, 'j, 'r, 'a) handler_run =
  "('w, 'v, 'j, 'r, 'a) service_state \<Rightarrow> pyval result \<times> ('w, 'v, 'j, 'r, 'a) service_state"

definition healthz :: pyval where
  "healthz = str_dict [(''status'', VStr ''ok'')]"

text \<open>The body is parsed before the service looks at the token.\<close>

definition post_scores ::
    "libs \<Rightarrow> ('w, 'v, 'j, 'r, 'a) service \<Rightarrow> string option \<Rightarrow> string \<Rightarrow> ('w, 'v, 'j, 'r, 'a) handler_run" where
  "post_scores L S authorization body_text =
     sbind (lift (case json_loads L body_text of None \<Rightarrow> Inl JSONDecodeError | Some b \<Rightarrow> Inr b)) (\<lambda>body.
     sbind (create_score S authorization body) (\<lambda>view.
     lift (Inr (job_view_json view))))"

definition get_scores ::
    "('w, 'v, 'j, 'r, 'a) service \<Rightarrow> string option \<Rightarrow> string \<Rightarrow> ('w, 'v, 'j, 'r, 'a) handler_run" where
  "get_scores S authorization job_id_text =
     sbind (get_score S authorization job_id_text) (\<lambda>view. lift (Inr (job_view_json view)))"

definition get_records ::
    "('w, 'v, 'j, 'r, 'a) service \<Rightarrow> string option \<Rightarrow> string \<Rightarrow> ('w, 'v, 'j, 'r, 'a) handler_run" where
  "get_records S authorization record_hash =
     sbind (get_record S authorization record_hash) (\<lambda>view. lift (Inr (record_view_json view)))"

definition get_audit ::
    "('w, 'v, 'j, 'r, 'a) service \<Rightarrow> string option \<Rightarrow> string \<Rightarrow> ('w, 'v, 'j, 'r, 'a) handler_run" where
  "get_audit S authorization since =
     sbind (list_audit S authorization since) (\<lambda>views. lift (Inr (VList (map audit_view_json views))))"

text \<open>The request id of the middleware: the header, or one made from the identity of the request object.\<close>

definition request_id :: "string option \<Rightarrow> string \<Rightarrow> string" where
  "request_id header object_id_hex = (case header of None \<Rightarrow> ''cce-'' @ object_id_hex | Some r \<Rightarrow> r)"

definition request_id_middleware ::
    "string option \<Rightarrow> string \<Rightarrow> log_context \<Rightarrow> (string, string) dict \<Rightarrow> log_context \<times> (string, string) dict" where
  "request_id_middleware header object_id_hex ctx response_headers =
     (let rid = request_id header object_id_hex
      in (set_request_id rid ctx, dict_set ''X-Request-Id'' rid response_headers))"

section \<open>Creating, then reading\<close>

context score_service
begin

lemma created_then_read:
  assumes "ok_jobs (ss_jobs s)" "ok_audits (ss_audits s)" "svc_dispatcher S = None"
    and "\<And>w. datetime_ok (fst (svc_now S w))" "\<And>w. held (ss_jobs s) (fst (svc_uuid4 S w)) = None"
    and create: "create_score S h body s = (Inr v, s1)"
    and caller: "get_principal S h' s1 = (Inr p', s2)" "''score:write'' \<in> scopes p'"
      "\<And>p. authenticated S h s p \<Longrightarrow> tenant p' = tenant p"
  shows "get_score S h' (jv_job_id v) s1 = (Inr v, s2)"
proof -
  from create_score_outcome [OF assms(1-5), of h body] create
  obtain p q job where job: "authenticated S h s p" "job_for p q job" "v = view_job job"
    "held (ss_jobs s1) = (held (ss_jobs s))(job_id job \<mapsto> job)" "ok_jobs (ss_jobs s1)" by auto
  from get_principal_stores [OF caller(1)] have jobs: "ss_jobs s2 = ss_jobs s1" by (simp add: same_stores_def)
  have "jr_get (svc_jobs S) (job_id job) (ss_jobs s2) = Inr (Some job)"
    using jobs.get [OF job(5)] job(4) jobs by simp
  moreover have "job_tenant job = tenant p'" using job(2) caller(3) [OF job(1)] by (simp add: job_for_def)
  moreover have "check_scope p' SCORE_WRITE = Inr ()" using caller(2) by (simp add: scope_value_def)
  ultimately show ?thesis using caller(1) job(3)
    by (simp add: get_score_def sbind_def lift_def view_job_def uuid_parse_str reraise_def del: check_scope_Inr)
qed

end

text \<open>a job that was created can be read: when \<open>POST /v1/scores\<close> returns a view, then
  \<open>GET /v1/scores/{job_id}\<close> with the identifier of that view, by any authenticated caller of the same tenant with
  the scope \<open>score:write\<close>, returns the same JSON. The repositories are any that keep their contracts.\<close>

theorem created_job_can_be_read:
  assumes "score_service S ok_jobs held ok_audits log_of" "ok_jobs (ss_jobs s)" "ok_audits (ss_audits s)"
    and "svc_dispatcher S = None" "\<And>w. datetime_ok (fst (svc_now S w))"
    and "\<And>w. held (ss_jobs s) (fst (svc_uuid4 S w)) = None"
    and post: "post_scores L S h body_text s = (Inr response, s1)"
    and caller: "get_principal S h' s1 = (Inr p', s2)" "''score:write'' \<in> scopes p'"
      "\<And>p. authenticated S h s p \<Longrightarrow> tenant p' = tenant p"
  shows "\<exists>view. response = job_view_json view \<and> get_scores S h' (jv_job_id view) s1 = (Inr response, s2)"
proof -
  from post obtain body view where "json_loads L body_text = Some body" "create_score S h body s = (Inr view, s1)"
    "response = job_view_json view"
    by (auto simp: post_scores_def result_simps split: option.splits)
  with score_service.created_then_read [OF assms(1-6) _ caller] show ?thesis
    by (intro exI [of _ view]) (simp add: get_scores_def sbind_def lift_def)
qed

lemma sample_posted:
  "\<exists>response s1. post_scores (sample_libs\<lparr>json_loads := (\<lambda>b. Some sample_body)\<rparr>) sample_service (Some ''bearer x'') ''body'' sample_state
    = (Inr response, s1)"
  using sample_created by (auto simp: post_scores_def sbind_def lift_def)

lemma created_job_can_be_read_witness:
  "\<exists>response s1 view s2. post_scores (sample_libs\<lparr>json_loads := (\<lambda>b. Some sample_body)\<rparr>) sample_service (Some ''bearer x'') ''body'' sample_state
      = (Inr response, s1)
    \<and> response = job_view_json view \<and> get_scores sample_service (Some ''bearer x'') (jv_job_id view) s1 = (Inr response, s2)"
proof -
  from sample_posted obtain response s1 where post:
    "post_scores (sample_libs\<lparr>json_loads := (\<lambda>b. Some sample_body)\<rparr>) sample_service (Some ''bearer x'') ''body'' sample_state = (Inr response, s1)"
    by blast
  have again: "get_principal sample_service (Some ''bearer x'') s1 = (Inr sample_principal, s1)"
    by (simp add: get_principal_def sbind_def lift_def bearer_token_def starts_with_def to_lower_char_def
      split_ws1_def py_lstrip_def py_space_def py_index_def sample_service_def memory_service_def reraise_def)
  have scope: "''score:write'' \<in> scopes sample_principal" by (simp add: sample_principal_def)
  have "\<exists>view. response = job_view_json view
    \<and> get_scores sample_service (Some ''bearer x'') (jv_job_id view) s1 = (Inr response, s1)"
    by (rule created_job_can_be_read [OF sample_wired _ _ _ _ _ post again scope])
       (auto simp: sample_state_def sample_service_def memory_service_def job_store_ok_def audit_store_ok_def
         new_audit_store_def datetime_ok_def authenticated_def sample_principal_def split: if_splits)
  with post show ?thesis by blast
qed

text \<open>A body that is not JSON raises \<open>JSONDecodeError\<close>, before the token is looked at; no handler maps it to a
  client error.\<close>

lemma malformed_body_escapes:
  "json_loads L body_text = None \<Longrightarrow> post_scores L S authorization body_text s = (Inl JSONDecodeError, s)"
  "status_code JSONDecodeError = None"
  by (simp_all add: post_scores_def sbind_def lift_def)

end
