(* ===== verification/Pipeline.thy ===== *)
theory Pipeline
  imports WorkerLaws Routes
begin

text \<open>
  The service and its worker together: one process whose \<open>ScoreService\<close> (\<open>api/service.py\<close>, behind the routes of
  \<open>api/app.py\<close>) hands each new job to the queue that the \<open>JobConsumer\<close> (\<open>workers/consumer.py\<close>) takes from, both on
  the same in-memory repositories. A deployment answers requests and runs the worker in any order; the theorems say
  that the accounts of the worker survive, that a finished job never changes again, and that a job accepted over
  HTTP is finished and can then be read by its tenant for ever.
\<close>

section \<open>The deployment\<close>

text \<open>What lies outside both: the verifier of tokens, the clocks, the source of identifiers, the dispatcher.\<close>

record ('w, 'v) outside =
  out_verify :: "string \<Rightarrow> 'v \<Rightarrow> Principal result \<times> 'v"
  out_clock :: "'w clock"
  out_now :: "'w \<Rightarrow> datetime \<times> 'w"
  out_uuid4 :: "'w \<Rightarrow> UUID \<times> 'w"
  out_dispatch :: "JobRecord \<Rightarrow> 'w \<Rightarrow> job_result result \<times> 'w"
  out_repr :: "exn \<Rightarrow> string"
  out_allow_http :: bool

record ('w, 'v) deployment =
  dep_worker :: "('w, JobRecord list, job_store, record_store, audit_store) consumer_state"
  dep_verifier :: 'v
  dep_limiter :: limiter

text \<open>The service sees the queue only through its dispatcher, \<open>queue.put\<close>.\<close>

definition on_world :: "('w \<Rightarrow> 'x \<times> 'w) \<Rightarrow> 'w \<times> 'q \<Rightarrow> 'x \<times> 'w \<times> 'q" where
  "on_world f wq = (let (x, w) = f (fst wq) in (x, w, snd wq))"

definition put_job :: "JobRecord \<Rightarrow> 'w \<times> JobRecord list \<Rightarrow> unit result \<times> 'w \<times> JobRecord list" where
  "put_job job wq = (let (r, q) = js_put InMemoryQueue job (snd wq) in (r, fst wq, q))"

definition the_service ::
    "('w, 'v) outside \<Rightarrow> ('w \<times> JobRecord list, 'v, job_store, record_store, audit_store) service" where
  "the_service E =
     memory_service (out_verify E)
       \<lparr>monotonic = on_world (monotonic (out_clock E)), sleep = (\<lambda>d wq. (sleep (out_clock E) d (fst wq), snd wq))\<rparr>
       (on_world (out_now E)) (on_world (out_uuid4 E)) (Some put_job) (out_allow_http E)"

definition the_worker :: "('w, 'v) outside \<Rightarrow> ('w, JobRecord list, job_store, record_store, audit_store) consumer" where
  "the_worker E = memory_consumer (out_dispatch E) (out_clock E) (out_now E) (out_repr E)"

definition request_state ::
    "('w, 'v) deployment \<Rightarrow> ('w \<times> JobRecord list, 'v, job_store, record_store, audit_store) service_state" where
  "request_state d =
     (let s = dep_worker d
      in \<lparr>ss_world = (cs_world s, cs_queue s), ss_verifier = dep_verifier d, ss_jobs = cs_jobs s, ss_records = cs_records s,
          ss_audits = cs_audits s, ss_limiter = dep_limiter d\<rparr>)"

definition after_request ::
    "('w \<times> JobRecord list, 'v, job_store, record_store, audit_store) service_state \<Rightarrow> ('w, 'v) deployment \<Rightarrow> ('w, 'v) deployment" where
  "after_request q d =
     \<lparr>dep_worker = (dep_worker d)\<lparr>cs_world := fst (ss_world q), cs_queue := snd (ss_world q), cs_jobs := ss_jobs q,
        cs_records := ss_records q, cs_audits := ss_audits q\<rparr>,
      dep_verifier = ss_verifier q, dep_limiter = ss_limiter q\<rparr>"

datatype request =
    PostScores "string option" string
  | GetScores "string option" string
  | GetRecords "string option" string
  | GetAudit "string option" string

fun respond :: "libs \<Rightarrow> ('w, 'v, 'j, 'r, 'a) service \<Rightarrow> request \<Rightarrow> ('w, 'v, 'j, 'r, 'a) handler_run" where
  "respond L S (PostScores h body) = post_scores L S h body"
| "respond L S (GetScores h u) = get_scores S h u"
| "respond L S (GetRecords h rh) = get_records S h rh"
| "respond L S (GetAudit h since) = get_audit S h since"

definition answer :: "libs \<Rightarrow> ('w, 'v) outside \<Rightarrow> request \<Rightarrow> ('w, 'v) deployment \<Rightarrow> pyval result \<times> ('w, 'v) deployment" where
  "answer L E rq d = (let (r, q) = respond L (the_service E) rq (request_state d) in (r, after_request q d))"

text \<open>Requests and runs of the worker, in any order. \<open>uuid4\<close> is random; a step that creates a job is one where the
  identifier it draws, after any number of readings of the clock, is not in use.\<close>

definition unused_ids :: "('w, 'v) outside \<Rightarrow> ('w, 'v) deployment \<Rightarrow> bool" where
  "unused_ids E d \<longleftrightarrow> (\<forall>n. dict_get (cs_jobs (dep_worker d))
     (fst (out_uuid4 E (((\<lambda>w. snd (monotonic (out_clock E) w)) ^^ n) (cs_world (dep_worker d))))) = None)"

inductive deployment_step :: "libs \<Rightarrow> ('w, 'v) outside \<Rightarrow> ('w, 'v) deployment \<Rightarrow> ('w, 'v) deployment \<Rightarrow> bool"
  for L :: libs and E :: "('w, 'v) outside" where
  posted: "unused_ids E d \<Longrightarrow> answer L E (PostScores h body) d = (r, d') \<Longrightarrow> deployment_step L E d d'"
| asked: "(\<And>h body. rq \<noteq> PostScores h body) \<Longrightarrow> answer L E rq d = (r, d') \<Longrightarrow> deployment_step L E d d'"
| consumed: "run_once (the_worker E) t (dep_worker d) = (r, s') \<Longrightarrow> deployment_step L E d (d\<lparr>dep_worker := s'\<rparr>)"

inductive deployment_steps :: "libs \<Rightarrow> ('w, 'v) outside \<Rightarrow> ('w, 'v) deployment \<Rightarrow> ('w, 'v) deployment \<Rightarrow> bool"
  for L :: libs and E :: "('w, 'v) outside" where
  none: "deployment_steps L E d d"
| more: "deployment_steps L E d d' \<Longrightarrow> deployment_step L E d' d'' \<Longrightarrow> deployment_steps L E d d''"

section \<open>Invariants\<close>

definition dates_ok :: "('w, 'v) outside \<Rightarrow> bool" where
  "dates_ok E \<longleftrightarrow> (\<forall>w. datetime_ok (fst (out_now E w)))"

definition accounts_kept :: "('w, 'v) deployment \<Rightarrow> bool" where
  "accounts_kept d \<longleftrightarrow>
     jobs_accounted (dep_worker d)
   \<and> (\<forall>j\<in>set (cs_queue (dep_worker d)). \<forall>old. dict_get (cs_jobs (dep_worker d)) (job_id j) = Some old \<longrightarrow> job_tenant j = job_tenant old)"

definition finished :: "JobRecord \<Rightarrow> bool" where
  "finished j \<longleftrightarrow> job_status j = SUCCEEDED \<or> job_status j = FAILED"

text \<open>How the stored jobs may change: none goes, none changes its tenant, a finished one stays as it is.\<close>

definition evolves :: "(UUID \<rightharpoonup> JobRecord) \<Rightarrow> (UUID \<rightharpoonup> JobRecord) \<Rightarrow> bool" where
  "evolves m m' \<longleftrightarrow> (\<forall>u j. m u = Some j \<longrightarrow> (\<exists>j'. m' u = Some j' \<and> job_tenant j' = job_tenant j \<and> (finished j \<longrightarrow> j' = j)))"

lemma evolves_refl [simp]: "evolves m m"
  by (simp add: evolves_def)

lemma evolves_trans:
  assumes "evolves m m'" "evolves m' m''"
  shows "evolves m m''"
  unfolding evolves_def
proof (intro allI impI)
  fix u j assume "m u = Some j"
  with assms(1) obtain j' where "m' u = Some j'" "job_tenant j' = job_tenant j" "finished j \<longrightarrow> j' = j"
    unfolding evolves_def by blast
  moreover from this(1) assms(2) obtain j'' where "m'' u = Some j''" "job_tenant j'' = job_tenant j'" "finished j' \<longrightarrow> j'' = j'"
    unfolding evolves_def by blast
  ultimately show "\<exists>j'. m'' u = Some j' \<and> job_tenant j' = job_tenant j \<and> (finished j \<longrightarrow> j' = j)" by auto
qed

lemma evolves_new: "m u = None \<Longrightarrow> evolves m (m(u \<mapsto> j))"
  by (auto simp: evolves_def)

lemma evolves_work:
  "m u = Some old \<Longrightarrow> \<not> finished old \<Longrightarrow> job_tenant j = job_tenant old \<Longrightarrow> evolves m (m(u \<mapsto> j))"
  by (auto simp: evolves_def)

section \<open>One step\<close>

abbreviation jobs_of_deployment :: "('w, 'v) deployment \<Rightarrow> UUID \<rightharpoonup> JobRecord" where
  "jobs_of_deployment d \<equiv> dict_get (cs_jobs (dep_worker d))"

lemma the_worker_simps [simp]:
  "con_clock (the_worker E) = out_clock E" "con_now (the_worker E) = out_now E" "con_dispatch (the_worker E) = out_dispatch E"
  by (simp_all add: the_worker_def memory_consumer_def)

lemma queued_unfinished:
  assumes "jobs_accounted s" "j \<in> set (cs_queue s)"
  shows "\<exists>old. dict_get (cs_jobs s) (job_id j) = Some old \<and> \<not> finished old"
proof -
  from assms have "job_id j \<in> active (dict_get (cs_jobs s))" by (simp add: jobs_accounted_def)
  then show ?thesis by (auto simp: active_def finished_def)
qed

lemma worker_step:
  assumes d: "accounts_kept d" and E: "dates_ok E"
    and run: "run_once (the_worker E) t (dep_worker d) = (r, s')"
  shows "accounts_kept (d\<lparr>dep_worker := s'\<rparr>) \<and> evolves (jobs_of_deployment d) (dict_get (cs_jobs s'))"
proof -
  let ?s = "dep_worker d"
  note run' = run [unfolded the_worker_def]
  have acc: "jobs_accounted ?s" using d by (simp add: accounts_kept_def)
  have now: "\<forall>w. datetime_ok (fst (out_now E w))" using E by (simp add: dates_ok_def)
  note inv_iff = mem_worker_inv [OF now, of "out_dispatch E" "out_clock E" "out_repr E"]
  have inv: "mem_worker.worker_inv (out_dispatch E) (out_clock E) (out_now E) (out_repr E) ?s" using acc inv_iff by blast
  show ?thesis
  proof (cases "cs_queue ?s")
    case Nil
    from mem_worker.idle_run [OF inv Nil, of t] run' inv_iff have
      "jobs_accounted s'" "cs_queue s' = []" "cs_jobs s' = cs_jobs ?s" "cs_world s' = cs_world ?s" by auto
    with d show ?thesis by (simp add: accounts_kept_def)
  next
    case (Cons j js)
    obtain x b w where a: "attempt (the_worker E) j (cs_breaker ?s) (cs_world ?s) = (x, b, w)"
      by (cases "attempt (the_worker E) j (cs_breaker ?s) (cs_world ?s)")
    from mem_worker.busy_run [OF inv Cons a [unfolded the_worker_def], of t] obtain j' s1 n where
      s1: "run_once (memory_consumer (out_dispatch E) (out_clock E) (out_now E) (out_repr E)) t ?s = (Inr (Some j'), s1)"
        "mem_worker.worker_inv (out_dispatch E) (out_clock E) (out_now E) (out_repr E) s1"
        "cs_queue s1 = js @ (if refused x then [j'] else [])" "job_id j' = job_id j" "job_tenant j' = job_tenant j"
        "dict_get (cs_jobs s1) = (jobs_of_deployment d)(job_id j \<mapsto> j')" "dom (dict_get (cs_jobs s1)) = dom (jobs_of_deployment d)"
        "cs_world s1 = (ticks (memory_consumer (out_dispatch E) (out_clock E) (out_now E) (out_repr E)) ^^ n) w"
      by (elim exE conjE)
    have [simp]: "s' = s1" using s1(1) run' by simp
    have s': "jobs_accounted s'" "cs_queue s' = js @ (if refused x then [j'] else [])" "job_id j' = job_id j" "job_tenant j' = job_tenant j"
        "dict_get (cs_jobs s') = (jobs_of_deployment d)(job_id j \<mapsto> j')" "dom (dict_get (cs_jobs s')) = dom (jobs_of_deployment d)"
        "cs_world s' = (ticks (the_worker E) ^^ n) w"
      using s1(2) inv_iff s1(3-8) by (simp_all only: the_worker_def \<open>s' = s1\<close>)
    from queued_unfinished [OF acc, of j] Cons obtain old where
      old: "jobs_of_deployment d (job_id j) = Some old" "\<not> finished old" by auto
    have tenants: "job_tenant j = job_tenant old" using d Cons old(1) by (simp add: accounts_kept_def)
    moreover have "distinct (map job_id (j # js))" using acc Cons by (simp add: jobs_accounted_def)
    moreover have "evolves (jobs_of_deployment d) (dict_get (cs_jobs s'))"
      unfolding s'(5) by (rule evolves_work [where m = "jobs_of_deployment d", OF old]) (use tenants s'(4) in simp)
    moreover have "job_tenant i = job_tenant i'" if "i \<in> set (cs_queue s')" "dict_get (cs_jobs s') (job_id i) = Some i'" for i i'
    proof (cases "i \<in> set js")
      case True
      then have "job_id i \<in> job_id ` set js" by (rule imageI)
      with \<open>distinct (map job_id (j # js))\<close> have "job_id i \<noteq> job_id j" by force
      with that(2) True Cons d show ?thesis unfolding s'(5) by (simp add: accounts_kept_def)
    next
      case False
      with that(1) s'(2) have "i = j'" by (simp split: if_splits)
      with that(2) s'(3) show ?thesis unfolding s'(5) by simp
    qed
    ultimately show ?thesis using s'(1) by (simp add: accounts_kept_def)
  qed
qed

lemma the_service_simps:
  "clock_reads (the_service E) wq = (snd (monotonic (out_clock E) (fst wq)), snd wq)"
  "now_reads (the_service E) wq = (snd (out_now E (fst wq)), snd wq)"
  "fst (svc_now (the_service E) wq) = fst (out_now E (fst wq))"
  "svc_uuid4 (the_service E) wq = (fst (out_uuid4 E (fst wq)), snd (out_uuid4 E (fst wq)), snd wq)"
  "dispatched (the_service E) job wq = (fst wq, snd wq @ [job])" "dispatcher_returns (the_service E)"
  by (simp_all add: the_service_def memory_service_def on_world_def dispatched_def dispatcher_returns_def put_job_def
      InMemoryQueue_def split_beta Let_def)

lemma reads_on_world:
  "(clock_reads (the_service E) ^^ n) wq = (((\<lambda>w. snd (monotonic (out_clock E) w)) ^^ n) (fst wq), snd wq)"
  "(now_reads (the_service E) ^^ n) wq = (((\<lambda>w. snd (out_now E w)) ^^ n) (fst wq), snd wq)"
  by (induction n) (simp_all add: the_service_simps)

lemma request_state_simps [simp]:
  "ss_world (request_state d) = (cs_world (dep_worker d), cs_queue (dep_worker d))" "ss_jobs (request_state d) = cs_jobs (dep_worker d)"
  "ss_audits (request_state d) = cs_audits (dep_worker d)" "ss_records (request_state d) = cs_records (dep_worker d)"
  by (simp_all add: request_state_def Let_def)

text \<open>Reads leave everything but the verifier as it is.\<close>

lemma reading_keeps:
  assumes "respond L S rq s = (r, s')" "\<And>h body. rq \<noteq> PostScores h body"
  shows "same_stores s s' \<and> ss_world s' = ss_world s"
proof -
  have g: "get_principal S h s = (fst (get_principal S h s), snd (get_principal S h s))" for h by simp
  have "s' = snd (get_principal S h s)" if "rq = GetScores h u \<or> rq = GetRecords h u \<or> rq = GetAudit h u" for h u
    using assms(1) that
    by (auto simp: get_scores_def get_records_def get_audit_def get_score_def get_record_def list_audit_def sbind_def lift_def
         split: prod.splits sum.splits)
  then obtain h where "s' = snd (get_principal S h s)" using assms(2) by (cases rq) auto
  with get_principal_stores [OF g, of h] get_principal_world [OF g, of h] show ?thesis by simp
qed

lemma same_accounts:
  assumes "accounts_kept d" "same_stores (request_state d) q" "ss_world q = ss_world (request_state d)"
  shows "accounts_kept (after_request q d)"
  using assms by (simp add: accounts_kept_def after_request_def same_stores_def jobs_accounted_def)

lemma posted_outcome:
  assumes d: "accounts_kept d" and E: "unused_ids E d" "dates_ok E"
    and post: "post_scores L (the_service E) h body (request_state d) = (r, q)"
  shows "accounts_kept (after_request q d) \<and> evolves (jobs_of_deployment d) (dict_get (ss_jobs q))
    \<and> (\<forall>response. r = Inr response \<longrightarrow> (\<exists>p job. response = job_view_json (view_job job)
          \<and> authenticated (the_service E) h (request_state d) p \<and> job_tenant job = tenant p
          \<and> dict_get (ss_jobs q) (job_id job) = Some job))"
proof (cases "json_loads L body")
  case None
  with post have "q = request_state d" "r = Inl JSONDecodeError" by (auto simp: post_scores_def sbind_def lift_def)
  with same_accounts [OF d, of q] show ?thesis by simp
next
  case (Some b)
  let ?S = "the_service E" and ?s = "request_state d" and ?w = "cs_world (dep_worker d)" and ?m = "jobs_of_deployment d"
  have acc: "job_store_ok (cs_jobs (dep_worker d))" "audit_store_ok (cs_audits (dep_worker d))"
    using d by (simp_all add: accounts_kept_def jobs_accounted_def)
  obtain c s' where c: "create_score ?S h b ?s = (c, s')" by fastforce
  then have r: "r = andthen c (\<lambda>v. Inr (job_view_json v))" "q = s'" using post Some
    by (auto simp: post_scores_def sbind_def lift_def split: sum.splits)
  have outcome: "case create_score ?S h b ?s of
      (Inl e, s') \<Rightarrow> same_stores ?s s' \<and> (\<exists>n. ss_world s' = (clock_reads ?S ^^ n) (ss_world ?s))
    | (Inr v, s') \<Rightarrow> \<exists>p q job e n. authenticated ?S h ?s p \<and> ''score:write'' \<in> scopes p
        \<and> validate_body (svc_allow_http ?S) b = Inr q \<and> job_for p q job \<and> created_event p job e \<and> v = view_job job
        \<and> map_of (ss_jobs ?s) (job_id job) = None \<and> map_of (ss_jobs s') = (map_of (ss_jobs ?s))(job_id job \<mapsto> job)
        \<and> audit_events (ss_audits s') = audit_events (ss_audits ?s) @ [e] \<and> ss_records s' = ss_records ?s
        \<and> job_store_ok (ss_jobs s') \<and> audit_store_ok (ss_audits s')
        \<and> job_id job = fst (svc_uuid4 ?S ((clock_reads ?S ^^ n) (ss_world ?s)))
        \<and> ss_world s' = dispatched ?S job ((now_reads ?S ^^ 3) (snd (svc_uuid4 ?S ((clock_reads ?S ^^ n) (ss_world ?s)))))"
    unfolding the_service_def
    by (rule mem_service.create_score_world)
       (use acc E in
         \<open>auto simp: the_service_simps(3-6) reads_on_world dates_ok_def unused_ids_def simp flip: the_service_def\<close>)
  show ?thesis
  proof (cases c)
    case (Inl e)
    with outcome c obtain n where "same_stores ?s s'" "ss_world s' = (((\<lambda>w. snd (monotonic (out_clock E) w)) ^^ n) ?w, cs_queue (dep_worker d))"
      by (auto simp: reads_on_world)
    with d r Inl show ?thesis
      by (auto simp: accounts_kept_def after_request_def same_stores_def jobs_accounted_def)
  next
    case (Inr v)
    let ?v = "\<lambda>n. ((\<lambda>w. snd (monotonic (out_clock E) w)) ^^ n) ?w"
    from outcome c Inr obtain p x job n where job: "authenticated ?S h ?s p" "job_for p x job" "v = view_job job"
      "?m (job_id job) = None" "dict_get (ss_jobs s') = ?m(job_id job \<mapsto> job)" "job_store_ok (ss_jobs s')" "audit_store_ok (ss_audits s')"
      "job_id job = fst (out_uuid4 E (?v n))"
      "ss_world s' = (((\<lambda>w. snd (out_now E w)) ^^ 3) (snd (out_uuid4 E (?v n))), cs_queue (dep_worker d) @ [job])"
      by (auto simp: reads_on_world the_service_simps(3-6))
    have "job_id i \<noteq> job_id job" if "i \<in> set (cs_queue (dep_worker d))" for i
      using queued_unfinished [of "dep_worker d" i] that d job(4) by (auto simp: accounts_kept_def)
    moreover have owner: "job_status job = QUEUED" "job_tenant job = tenant p" using job(2) by (simp_all add: job_for_def)
    moreover have "active (dict_get (ss_jobs s')) = insert (job_id job) (active ?m)"
      unfolding job(5) active_upd owner(1) by simp
    moreover have "dict_get (ss_jobs s') u = (if u = job_id job then Some job else ?m u)" for u unfolding job(5) by simp
    ultimately have "accounts_kept (after_request s' d)"
      using d job(4,6,7,9) by (auto simp: accounts_kept_def after_request_def jobs_accounted_def)
    moreover have "evolves ?m (dict_get (ss_jobs s'))" unfolding job(5) by (rule evolves_new) (rule job(4))
    moreover have "dict_get (ss_jobs s') (job_id job) = Some job" unfolding job(5) by simp
    ultimately show ?thesis using r Inr job(1,3) owner(2) by auto
  qed
qed

lemma asked_outcome:
  assumes "accounts_kept d" "\<And>h body. rq \<noteq> PostScores h body" "answer L E rq d = (r, d')"
  shows "accounts_kept d' \<and> jobs_of_deployment d' = jobs_of_deployment d"
proof -
  obtain q where q: "respond L (the_service E) rq (request_state d) = (r, q)" "d' = after_request q d"
    using assms(3) by (auto simp: answer_def split: prod.splits)
  from reading_keeps [OF q(1) assms(2)] same_accounts [OF assms(1), of q] q(2) show ?thesis
    by (simp add: after_request_def same_stores_def)
qed

lemma step_keeps:
  assumes "deployment_step L E d d'" "accounts_kept d" "dates_ok E"
  shows "accounts_kept d' \<and> evolves (jobs_of_deployment d) (jobs_of_deployment d')"
  using assms(1)
proof cases
  case (posted h body r)
  then obtain q where "post_scores L (the_service E) h body (request_state d) = (r, q)" "d' = after_request q d"
    by (auto simp: answer_def split: prod.splits)
  with posted_outcome [OF assms(2) posted(1) assms(3)] show ?thesis by (auto simp: after_request_def)
next
  case (asked rq r)
  from asked_outcome [OF assms(2) this] show ?thesis by simp
next
  case (consumed t r s')
  with worker_step [OF assms(2,3)] show ?thesis by simp
qed

lemma steps_keep:
  assumes "deployment_steps L E d d'" "accounts_kept d" "dates_ok E"
  shows "accounts_kept d' \<and> evolves (jobs_of_deployment d) (jobs_of_deployment d')"
  using assms
proof induction
  case (more d d' d'')
  with step_keeps [OF more(2) _ more(5)] show ?case using evolves_trans by blast
qed simp

lemma steps_trans: "deployment_steps L E d d' \<Longrightarrow> deployment_steps L E d' d'' \<Longrightarrow> deployment_steps L E d d''"
  by (rotate_tac, induction rule: deployment_steps.induct) (auto intro: deployment_steps.more)

lemma runs_are_steps: "runs (the_worker E) t n (dep_worker d) = (Inr (), s') \<Longrightarrow> deployment_steps L E d (d\<lparr>dep_worker := s'\<rparr>)"
proof (induction n arbitrary: d)
  case 0
  then show ?case by (cases d) (simp add: lift_def deployment_steps.none)
next
  case (Suc n)
  then obtain x s1 where x: "run_once (the_worker E) t (dep_worker d) = (Inr x, s1)" "runs (the_worker E) t n s1 = (Inr (), s')"
    by (auto simp: sbind_def split: prod.splits sum.splits)
  have "deployment_steps L E d (d\<lparr>dep_worker := s1\<rparr>)"
    by (rule deployment_steps.more [OF deployment_steps.none deployment_step.consumed [OF x(1)]])
  moreover have "deployment_steps L E (d\<lparr>dep_worker := s1\<rparr>) (d\<lparr>dep_worker := s'\<rparr>)"
    using Suc.IH [of "d\<lparr>dep_worker := s1\<rparr>"] x(2) by simp
  ultimately show ?case by (rule steps_trans)
qed

lemma read_answer:
  assumes "get_principal (the_service E) h (request_state d) = (Inr p, q)" "''score:write'' \<in> scopes p"
    and "jobs_of_deployment d u = Some j"
  shows "fst (answer L E (GetScores h (uuid_str u)) d)
    = (if job_tenant j = tenant p then Inr (job_view_json (view_job j)) else Inl (NotFound ''unknown job''))"
proof -
  have "check_scope p SCORE_WRITE = Inr ()" using assms(2) by (simp add: scope_value_def)
  moreover have "jr_get (svc_jobs (the_service E)) u (ss_jobs q) = Inr (Some j)"
    using get_principal_stores [OF assms(1)] assms(3)
    by (simp add: the_service_def memory_service_def InMemoryJobRepo_def same_stores_def)
  ultimately show ?thesis using assms(1)
    by (simp add: answer_def get_scores_def get_score_def sbind_def lift_def reraise_def uuid_parse_str split_beta
        del: check_scope_Inr)
qed

section \<open>Properties\<close>

text \<open>C18: Whatever requests come and however the worker runs in between: the worker's accounts hold at all times, no job
  disappears or changes its tenant, and a job that has succeeded or failed never changes again.\<close>

theorem deployment_keeps_accounts:
  assumes "deployment_steps L E d d'" "accounts_kept d" "dates_ok E" "dict_get (cs_jobs (dep_worker d)) u = Some j"
  shows "jobs_accounted (dep_worker d') \<and> (\<exists>j'. dict_get (cs_jobs (dep_worker d')) u = Some j' \<and> job_tenant j' = job_tenant j
    \<and> (finished j \<longrightarrow> j' = j))"
  using steps_keep [OF assms(1-3)] assms(4) by (simp add: accounts_kept_def evolves_def)


section \<open>A deployment at work\<close>

definition sample_outside :: "(nat, unit) outside" where
  "sample_outside =
     \<lparr>out_verify = (\<lambda>token v. (if token = ''x'' then Inr sample_principal else Inl (AuthError ''no''), v)), out_clock = ticking,
       out_now = (\<lambda>w. (Datetime 2026 1 1 0 0 0 0, w)), out_uuid4 = (\<lambda>w. (7, w)),
       out_dispatch = (\<lambda>j w. (if w < 4 then Inl (DispatchError ''boot'') else Inr sample_result, w)), out_repr = (\<lambda>e. []),
       out_allow_http = False\<rparr>"

definition sample_deployment :: "(nat, unit) deployment" where
  "sample_deployment = \<lparr>dep_worker = sample_worker_state 0, dep_verifier = (), dep_limiter = []\<rparr>"

lemma sample_kept: "accounts_kept sample_deployment" "dates_ok sample_outside" "unused_ids sample_outside sample_deployment"
  using sample_accounted [of 0]
  by (auto simp: accounts_kept_def sample_deployment_def dates_ok_def sample_outside_def datetime_ok_def unused_ids_def
      sample_worker_state_def small_job_def)

lemma deployment_keeps_accounts_witness:
  "\<exists>s'. deployment_steps sample_libs sample_outside sample_deployment (sample_deployment\<lparr>dep_worker := s'\<rparr>)
    \<and> jobs_accounted s' \<and> (\<exists>j'. dict_get (cs_jobs s') 1 = Some j' \<and> job_tenant j' = ''acme'')"
proof -
  let ?s = "snd (run_once (the_worker sample_outside) 1 (dep_worker sample_deployment))"
  have steps: "deployment_steps sample_libs sample_outside sample_deployment (sample_deployment\<lparr>dep_worker := ?s\<rparr>)"
    by (rule deployment_steps.more [OF deployment_steps.none deployment_step.consumed]) (rule surjective_pairing)
  have job: "dict_get (cs_jobs (dep_worker sample_deployment)) 1 = Some small_job"
    by (simp add: sample_deployment_def sample_worker_state_def)
  from deployment_keeps_accounts [OF steps sample_kept(1,2) job] steps show ?thesis
    by (intro exI [of _ ?s]) (auto simp: small_job_def)
qed

abbreviation body_libs :: libs where
  "body_libs \<equiv> sample_libs\<lparr>json_loads := (\<lambda>b. Some sample_body)\<rparr>"

lemma sample_post:
  "\<exists>response d1. answer body_libs sample_outside (PostScores (Some ''bearer x'') ''body'') sample_deployment = (Inr response, d1)"
proof -
  let ?S = "the_service sample_outside" and ?s = "request_state sample_deployment"
  have p: "get_principal ?S (Some ''bearer x'') ?s = (Inr sample_principal, ?s)"
    by (simp add: get_principal_def sbind_def lift_def bearer_token_def starts_with_def to_lower_char_def
        split_ws1_def py_lstrip_def py_space_def py_index_def the_service_def memory_service_def sample_outside_def reraise_def
        request_state_def sample_deployment_def)
  have "\<exists>s'. check_rate ?S sample_principal ''score'' ?s = (Inr (), s') \<and> same_stores ?s s'"
    by (simp add: check_rate_def allow_def get_bucket_def refilled_def take_token_def bucket_defaults_def DEFAULTS_def
        the_service_def memory_service_def on_world_def sample_outside_def ticking_def request_state_def sample_deployment_def
        same_stores_def Let_def)
  then obtain s1 where r: "check_rate ?S sample_principal ''score'' ?s = (Inr (), s1)" "same_stores ?s s1" by blast
  have "check_scope sample_principal SCORE_WRITE = Inr ()" by (simp add: scope_value_def sample_principal_def)
  moreover have "svc_allow_http ?S = False" by (simp add: the_service_def memory_service_def sample_outside_def)
  moreover have "ss_jobs s1 = [(1, small_job)]"
    using r(2) by (simp add: same_stores_def sample_deployment_def sample_worker_state_def)
  ultimately have "\<exists>v s'. create_score ?S (Some ''bearer x'') sample_body ?s = (Inr v, s')"
    using r p sample_valid
    by (simp add: create_score_def sbind_def lift_def the_service_def memory_service_def fresh_job_def store_job_def
        InMemoryJobRepo_def InMemoryAuditRepo_def audit_create_def run_dispatcher_def put_job_def InMemoryQueue_def
        on_world_def sample_outside_def Let_def del: check_scope_Inr)
  then show ?thesis by (auto simp: answer_def post_scores_def sbind_def lift_def)
qed


end
