(* ===== verification/Postgres.thy ===== *)
theory Postgres
  imports Repos
begin

text \<open>
  \<open>src/cce_service/storage/postgres.py\<close>: the two adapters over SQLAlchemy. The database is
  outside the repository: a \<open>job_table\<close> and an \<open>audit_table\<close> are the session operations the
  adapters call (primary-key lookup, insert, update of a loaded row, select by tenant; insert with
  a generated key, select by time and tenant). The locales state what the adapters rely on, in
  SQL's terms, and the adapters are shown to keep the contracts of \<open>job_repo\<close> and
  \<open>audit_repo\<close>. Engine and pool options are in \<open>Wiring\<close>.
\<close>

section \<open>Rows\<close>

record JobRow =
  row_job_id :: string
  row_tenant :: string
  row_repo_url :: string
  row_commit_sha :: string
  row_spec_ref :: string
  row_status :: string
  row_record_hash :: "string option"
  row_score :: "string option"
  row_error :: "string option"
  row_sidecars :: "str_map option"
  row_created_at :: datetime
  row_updated_at :: datetime

definition job_to_row :: "JobRecord \<Rightarrow> JobRow" where
  "job_to_row job =
     \<lparr>row_job_id = uuid_str (job_id job), row_tenant = job_tenant job, row_repo_url = job_repo_url job,
       row_commit_sha = job_commit_sha job, row_spec_ref = job_spec_ref job,
       row_status = status_value (job_status job), row_record_hash = job_record_hash job,
       row_score = job_score job, row_error = job_error job, row_sidecars = job_sidecars job,
       row_created_at = job_created_at job, row_updated_at = job_updated_at job\<rparr>"

definition row_to_job :: "JobRow \<Rightarrow> JobRecord result" where
  "row_to_job row =
     andthen (uuid_parse (row_job_id row)) (\<lambda>u.
     andthen (status_of (row_status row)) (\<lambda>status.
     Inr \<lparr>job_id = u, job_tenant = row_tenant row, job_repo_url = row_repo_url row,
       job_commit_sha = row_commit_sha row, job_spec_ref = row_spec_ref row, job_status = status,
       job_record_hash = row_record_hash row, job_score = row_score row, job_error = row_error row,
       job_sidecars = row_sidecars row, job_created_at = row_created_at row,
       job_updated_at = row_updated_at row\<rparr>))"

lemma row_to_job_to_row [simp]: "row_to_job (job_to_row job) = Inr job"
  by (simp add: row_to_job_def job_to_row_def uuid_parse_str)

section \<open>The jobs adapter\<close>

record 's job_table =
  jt_get :: "string \<Rightarrow> 's \<Rightarrow> JobRow option"
  jt_insert :: "JobRow \<Rightarrow> 's \<Rightarrow> unit result \<times> 's"
  jt_save :: "JobRow \<Rightarrow> 's \<Rightarrow> unit result \<times> 's"
  jt_select_tenant :: "string \<Rightarrow> 's \<Rightarrow> JobRow list"

definition pg_get :: "'s job_table \<Rightarrow> UUID \<Rightarrow> 's \<Rightarrow> JobRecord option result" where
  "pg_get T u s =
     (case jt_get T (uuid_str u) s of
        None \<Rightarrow> Inr None
      | Some row \<Rightarrow> andthen (row_to_job row) (\<lambda>job. Inr (Some job)))"

text \<open>\<open>update\<close> assigns every column but \<open>job_id\<close> and \<open>created_at\<close> of the row it loaded.\<close>

definition pg_update :: "'s job_table \<Rightarrow> JobRecord \<Rightarrow> 's \<Rightarrow> unit result \<times> 's" where
  "pg_update T job s =
     (case jt_get T (uuid_str (job_id job)) s of
        None \<Rightarrow> (Inl (KeyError (''unknown job_id '' @ uuid_str (job_id job))), s)
      | Some row \<Rightarrow>
          jt_save T (row\<lparr>row_tenant := job_tenant job, row_repo_url := job_repo_url job,
            row_commit_sha := job_commit_sha job, row_spec_ref := job_spec_ref job,
            row_status := status_value (job_status job), row_record_hash := job_record_hash job,
            row_score := job_score job, row_error := job_error job, row_sidecars := job_sidecars job,
            row_updated_at := job_updated_at job\<rparr>) s)"

definition PostgresJobRepo :: "'s job_table \<Rightarrow> 's JobRepo" where
  "PostgresJobRepo T =
     \<lparr>jr_create = (\<lambda>job. jt_insert T (job_to_row job)),
      jr_get = pg_get T,
      jr_update = pg_update T,
      jr_list_for_tenant = (\<lambda>tenant s. each row_to_job (jt_select_tenant T tenant s))\<rparr>"

text \<open>What the adapter relies on: a table with a primary key, that never fails.\<close>

locale sql_jobs =
  fixes T :: "'s job_table" and ok :: "'s \<Rightarrow> bool"
  assumes get_insert: "ok s \<Longrightarrow> jt_get T (row_job_id r) s = None \<Longrightarrow>
      \<exists>s'. jt_insert T r s = (Inr (), s') \<and> ok s' \<and> (\<forall>k. jt_get T k s' = (if k = row_job_id r then Some r else jt_get T k s))"
    and get_save: "ok s \<Longrightarrow> jt_get T (row_job_id r) s \<noteq> None \<Longrightarrow>
      \<exists>s'. jt_save T r s = (Inr (), s') \<and> ok s' \<and> (\<forall>k. jt_get T k s' = (if k = row_job_id r then Some r else jt_get T k s))"
    and get_key: "ok s \<Longrightarrow> jt_get T k s = Some r \<Longrightarrow> row_job_id r = k"
    and select: "ok s \<Longrightarrow> set (jt_select_tenant T t s) = {r. jt_get T (row_job_id r) s = Some r \<and> row_tenant r = t}"

text \<open>The map of jobs a table holds, and the tables the adapter itself writes.\<close>

definition table_jobs :: "'s job_table \<Rightarrow> 's \<Rightarrow> UUID \<Rightarrow> JobRecord option" where
  "table_jobs T s u =
     (case jt_get T (uuid_str u) s of
        None \<Rightarrow> None
      | Some row \<Rightarrow> (case row_to_job row of Inl e \<Rightarrow> None | Inr job \<Rightarrow> Some job))"

definition written :: "'s job_table \<Rightarrow> 's \<Rightarrow> bool" where
  "written T s \<longleftrightarrow> (\<forall>k row. jt_get T k s = Some row \<longrightarrow> (\<exists>job. row = job_to_row job))"

lemma row_job_id_to_row [simp]: "row_job_id (job_to_row j) = uuid_str (job_id j)"
  and row_tenant_to_row [simp]: "row_tenant (job_to_row j) = job_tenant j"
  and row_created_at_to_row [simp]: "row_created_at (job_to_row j) = job_created_at j"
  by (simp_all add: job_to_row_def)

lemma updated_row:
  "job_id old = job_id job \<Longrightarrow> job_created_at job = job_created_at old \<Longrightarrow>
   (job_to_row old)\<lparr>row_tenant := job_tenant job, row_repo_url := job_repo_url job,
      row_commit_sha := job_commit_sha job, row_spec_ref := job_spec_ref job,
      row_status := status_value (job_status job), row_record_hash := job_record_hash job,
      row_score := job_score job, row_error := job_error job, row_sidecars := job_sidecars job,
      row_updated_at := job_updated_at job\<rparr> = job_to_row job"
  by (simp add: job_to_row_def)

context sql_jobs
begin

lemma table_lookup:
  "ok s \<Longrightarrow> written T s \<Longrightarrow> jt_get T (uuid_str u) s = map_option job_to_row (table_jobs T s u)
     \<and> (\<forall>j. table_jobs T s u = Some j \<longrightarrow> job_id j = u)"
proof (cases "jt_get T (uuid_str u) s")
  case (Some r)
  assume a: "ok s" "written T s"
  with Some obtain j where "r = job_to_row j" by (auto simp: written_def)
  with a Some get_key [of s "uuid_str u" r] show ?thesis by (simp add: table_jobs_def uuid_str_inject)
qed (simp add: table_jobs_def)

lemma store_row:
  assumes "written T s" "\<forall>k. jt_get T k s' = (if k = uuid_str (job_id j) then Some (job_to_row j) else jt_get T k s)"
  shows "written T s' \<and> table_jobs T s' = (table_jobs T s)(job_id j \<mapsto> j)"
  using assms by (auto simp: written_def table_jobs_def uuid_str_inject fun_eq_iff)

sublocale pg: job_repo "PostgresJobRepo T" "\<lambda>s. ok s \<and> written T s" "table_jobs T"
proof unfold_locales
  fix s and j :: JobRecord assume a: "ok s \<and> written T s" "table_jobs T s (job_id j) = None"
  with table_lookup [of s "job_id j"] get_insert [of s "job_to_row j"]
  obtain s' where "jt_insert T (job_to_row j) s = (Inr (), s')" "ok s'"
    "\<forall>k. jt_get T k s' = (if k = uuid_str (job_id j) then Some (job_to_row j) else jt_get T k s)" by auto
  with a store_row [of s s' j] show "\<exists>s'. jr_create (PostgresJobRepo T) j s = (Inr (), s') \<and> (ok s' \<and> written T s')
      \<and> table_jobs T s' = (table_jobs T s)(job_id j \<mapsto> j)"
    by (auto simp: PostgresJobRepo_def)
next
  fix s u assume "ok s \<and> written T s"
  with table_lookup [of s u] show "jr_get (PostgresJobRepo T) u s = Inr (table_jobs T s u)"
    by (cases "table_jobs T s u") (auto simp: PostgresJobRepo_def pg_get_def)
next
  fix s and j old :: JobRecord assume a: "ok s \<and> written T s" "table_jobs T s (job_id j) = Some old" "job_created_at j = job_created_at old"
  with table_lookup [of s "job_id j"] have row: "jt_get T (uuid_str (job_id j)) s = Some (job_to_row old)" "job_id old = job_id j"
    by auto
  with a get_save [of s "job_to_row j"] obtain s' where "jt_save T (job_to_row j) s = (Inr (), s')" "ok s'"
    "\<forall>k. jt_get T k s' = (if k = uuid_str (job_id j) then Some (job_to_row j) else jt_get T k s)" by auto
  with a row store_row [of s s' j] updated_row [of old j]
  show "\<exists>s'. jr_update (PostgresJobRepo T) j s = (Inr (), s') \<and> (ok s' \<and> written T s')
      \<and> table_jobs T s' = (table_jobs T s)(job_id j \<mapsto> j)"
    by (auto simp: PostgresJobRepo_def pg_update_def)
next
  fix s and j :: JobRecord assume "ok s \<and> written T s" "table_jobs T s (job_id j) = None"
  with table_lookup [of s "job_id j"]
  show "jr_update (PostgresJobRepo T) j s = (Inl (KeyError (''unknown job_id '' @ uuid_str (job_id j))), s)"
    by (simp add: PostgresJobRepo_def pg_update_def)
next
  fix s t assume a: "ok s \<and> written T s"
  let ?rows = "jt_select_tenant T t s"
  have rows: "set ?rows = job_to_row ` {j. table_jobs T s (job_id j) = Some j \<and> job_tenant j = t}"
  proof (intro set_eqI iffI)
    fix r assume "r \<in> set ?rows"
    with a select [of s t] have r: "jt_get T (row_job_id r) s = Some r" "row_tenant r = t" by auto
    with a obtain j where j: "r = job_to_row j" unfolding written_def by blast
    with r have "table_jobs T s (job_id j) = Some j" "job_tenant j = t" by (simp_all add: table_jobs_def)
    with j show "r \<in> job_to_row ` {j. table_jobs T s (job_id j) = Some j \<and> job_tenant j = t}" by blast
  next
    fix r assume "r \<in> job_to_row ` {j. table_jobs T s (job_id j) = Some j \<and> job_tenant j = t}"
    then obtain j where j: "r = job_to_row j" "table_jobs T s (job_id j) = Some j" "job_tenant j = t" by blast
    with a table_lookup [of s "job_id j"] select [of s t] show "r \<in> set ?rows" by simp
  qed
  have "each row_to_job ?rows = Inr (map (\<lambda>r. case row_to_job r of Inr j \<Rightarrow> j) ?rows)"
    using rows by (intro each_total) auto
  moreover have "set (map (\<lambda>r. case row_to_job r of Inr j \<Rightarrow> j) ?rows)
      = {j. table_jobs T s (job_id j) = Some j \<and> job_tenant j = t}"
    by (simp add: rows image_image)
  moreover have "\<dots> = jobs_of t (table_jobs T s)"
    using a table_lookup by (auto simp: jobs_of_def ran_def)
  ultimately show "\<exists>js. jr_list_for_tenant (PostgresJobRepo T) t s = Inr js \<and> set js = jobs_of t (table_jobs T s)"
    by (simp add: PostgresJobRepo_def)
qed

lemma answers_as_contract:
  "ok s \<Longrightarrow> written T s \<Longrightarrow> job_ops_ok (table_jobs T s) ops \<Longrightarrow>
     run_job_ops (PostgresJobRepo T) ops s = job_answers (table_jobs T s) ops"
  by (rule pg.run_refines) simp_all

end

section \<open>The audit adapter\<close>

record AuditRow =
  arow_id :: int
  arow_actor :: string
  arow_action :: string
  arow_target :: string
  arow_tenant :: string
  arow_ts :: datetime
  arow_payload :: "(string, pyval) dict option"

record 's audit_table =
  at_insert :: "AuditRow \<Rightarrow> 's \<Rightarrow> int result \<times> 's"
  at_select :: "string \<Rightarrow> string option \<Rightarrow> 's \<Rightarrow> AuditRow list"

definition event_to_row :: "AuditEvent \<Rightarrow> AuditRow" where
  "event_to_row e =
     \<lparr>arow_id = 0, arow_actor = ev_actor e, arow_action = ev_action e, arow_target = ev_target e,
       arow_tenant = ev_tenant e, arow_ts = ev_ts e, arow_payload = Some (ev_payload e)\<rparr>"

definition row_to_event :: "AuditRow \<Rightarrow> AuditEvent" where
  "row_to_event r =
     \<lparr>ev_id = arow_id r, ev_actor = arow_actor r, ev_action = arow_action r, ev_target = arow_target r,
       ev_tenant = arow_tenant r, ev_ts = arow_ts r,
       ev_payload = (case arow_payload r of None \<Rightarrow> [] | Some p \<Rightarrow> p)\<rparr>"

text \<open>\<open>append\<close>: the flush gives the generated key, which is written into the event.\<close>

definition PostgresAuditRepo :: "'s audit_table \<Rightarrow> 's AuditRepo" where
  "PostgresAuditRepo T =
     \<lparr>ar_append = (\<lambda>event s.
        (case at_insert T (event_to_row event) s of
           (Inl e, s') \<Rightarrow> (Inl e, s')
         | (Inr i, s') \<Rightarrow> (Inr (event\<lparr>ev_id := i\<rparr>), s'))),
      ar_since = (\<lambda>ts_iso tenant s. Inr (map row_to_event (at_select T ts_iso tenant s)))\<rparr>"

text \<open>The table generates fresh keys and compares timestamps, not their texts.\<close>

locale sql_audits =
  fixes T :: "'s audit_table" and ok :: "'s \<Rightarrow> bool" and rows :: "'s \<Rightarrow> AuditRow list"
  assumes insert_row: "ok s \<Longrightarrow> datetime_ok (arow_ts r) \<Longrightarrow> \<exists>s' i. at_insert T r s = (Inr i, s') \<and> ok s'
      \<and> rows s' = rows s @ [r\<lparr>arow_id := i\<rparr>] \<and> i \<notin> arow_id ` set (rows s)"
    and select_since: "ok s \<Longrightarrow> datetime_ok t \<Longrightarrow> set (at_select T (isoformat t) tenant s)
      = {r \<in> set (rows s). t \<le> arow_ts r \<and> (case tenant of None \<Rightarrow> True | Some n \<Rightarrow> arow_tenant r = n)}"
begin

sublocale pg_audits: audit_repo "PostgresAuditRepo T" ok "\<lambda>s. map row_to_event (rows s)"
proof unfold_locales
  fix s and e :: AuditEvent assume a: "ok s" "datetime_ok (ev_ts e)"
  then have "datetime_ok (arow_ts (event_to_row e))" by (simp add: event_to_row_def)
  from insert_row [OF a(1) this] obtain s' i where i: "at_insert T (event_to_row e) s = (Inr i, s')"
    "ok s'" "rows s' = rows s @ [(event_to_row e)\<lparr>arow_id := i\<rparr>]" "i \<notin> arow_id ` set (rows s)" by blast
  then show "\<exists>s' i. ar_append (PostgresAuditRepo T) e s = (Inr (e\<lparr>ev_id := i\<rparr>), s') \<and> ok s'
      \<and> map row_to_event (rows s') = map row_to_event (rows s) @ [e\<lparr>ev_id := i\<rparr>]
      \<and> i \<notin> ev_id ` set (map row_to_event (rows s))"
    by (intro exI [of _ s'] exI [of _ i])
       (auto simp: PostgresAuditRepo_def row_to_event_def event_to_row_def)
next
  fix s t tenant assume "ok s" "datetime_ok t"
  from select_since [OF this] show "\<exists>es. ar_since (PostgresAuditRepo T) (isoformat t) tenant s = Inr es
      \<and> set es = {e \<in> set (map row_to_event (rows s)). visible_since t tenant e}"
    by (cases tenant) (auto simp: PostgresAuditRepo_def visible_since_def row_to_event_def image_iff)
qed

end

section \<open>Concrete tables\<close>

definition dict_jobs :: "(string, JobRow) dict job_table" where
  "dict_jobs =
     \<lparr>jt_get = (\<lambda>k s. dict_get s k),
      jt_insert = (\<lambda>r s. if dict_get s (row_job_id r) = None then (Inr (), dict_set (row_job_id r) r s)
                          else (Inl IntegrityError, s)),
      jt_save = (\<lambda>r s. (Inr (), dict_set (row_job_id r) r s)),
      jt_select_tenant = (\<lambda>t s. filter (\<lambda>r. row_tenant r = t) (map snd s))\<rparr>"

definition keyed :: "(string, JobRow) dict \<Rightarrow> bool" where
  "keyed s \<longleftrightarrow> distinct (dict_keys s) \<and> (\<forall>k r. dict_get s k = Some r \<longrightarrow> row_job_id r = k)"

lemma keyed_set: "keyed s \<Longrightarrow> keyed (dict_set (row_job_id r) r s)"
  by (auto simp: keyed_def distinct_update)

lemma keyed_rows: "keyed s \<Longrightarrow> r \<in> snd ` set s \<longleftrightarrow> dict_get s (row_job_id r) = Some r"
proof
  assume k: "keyed s" and "r \<in> snd ` set s"
  then obtain k where "(k, r) \<in> set s" by auto
  with k have "dict_get s k = Some r" by (simp add: keyed_def)
  with k show "dict_get s (row_job_id r) = Some r" by (auto simp: keyed_def)
qed (force dest: map_of_SomeD)

interpretation dict_sql: sql_jobs dict_jobs keyed
proof unfold_locales
  fix s and r :: JobRow assume "keyed s" "jt_get dict_jobs (row_job_id r) s = None"
  then show "\<exists>s'. jt_insert dict_jobs r s = (Inr (), s') \<and> keyed s'
      \<and> (\<forall>k. jt_get dict_jobs k s' = (if k = row_job_id r then Some r else jt_get dict_jobs k s))"
    by (auto simp: dict_jobs_def keyed_set)
next
  fix s and r :: JobRow assume "keyed s"
  then show "\<exists>s'. jt_save dict_jobs r s = (Inr (), s') \<and> keyed s'
      \<and> (\<forall>k. jt_get dict_jobs k s' = (if k = row_job_id r then Some r else jt_get dict_jobs k s))"
    by (auto simp: dict_jobs_def keyed_set)
next
  fix s k and r :: JobRow assume "keyed s" "jt_get dict_jobs k s = Some r"
  then show "row_job_id r = k" by (auto simp: dict_jobs_def keyed_def dest: map_of_SomeD)
next
  fix s t assume "keyed s"
  then show "set (jt_select_tenant dict_jobs t s) = {r. jt_get dict_jobs (row_job_id r) s = Some r \<and> row_tenant r = t}"
    using keyed_rows [of s] by (simp add: dict_jobs_def)
qed

definition list_audits :: "AuditRow list audit_table" where
  "list_audits =
     \<lparr>at_insert = (\<lambda>r s. (Inr (int (length s) + 1), s @ [r\<lparr>arow_id := int (length s) + 1\<rparr>])),
      at_select = (\<lambda>ts tenant s. filter (\<lambda>r. ts \<le> isoformat (arow_ts r)
        \<and> (case tenant of None \<Rightarrow> True | Some n \<Rightarrow> arow_tenant r = n)) s)\<rparr>"

definition numbered :: "AuditRow list \<Rightarrow> bool" where
  "numbered s \<longleftrightarrow> (\<forall>r\<in>set s. arow_id r \<le> int (length s) \<and> datetime_ok (arow_ts r))"

interpretation list_sql: sql_audits list_audits numbered "\<lambda>s. s"
proof unfold_locales
  fix s and r :: AuditRow assume "numbered s" "datetime_ok (arow_ts r)"
  then show "\<exists>s' i. at_insert list_audits r s = (Inr i, s') \<and> numbered s' \<and> s' = s @ [r\<lparr>arow_id := i\<rparr>]
      \<and> i \<notin> arow_id ` set s"
    by (fastforce simp: list_audits_def numbered_def)
next
  fix s t tenant assume "numbered s" "datetime_ok t"
  then show "set (at_select list_audits (isoformat t) tenant s)
      = {r \<in> set s. t \<le> arow_ts r \<and> (case tenant of None \<Rightarrow> True | Some n \<Rightarrow> arow_tenant r = n)}"
    by (auto simp: list_audits_def numbered_def isoformat_le_iff)
qed

section \<open>One contract, two backends\<close>


definition sample_job :: JobRecord where
  "sample_job =
     \<lparr>job_id = 7, job_tenant = ''t'', job_repo_url = ''https://h/r'', job_commit_sha = replicate 40 (CHR ''a''),
       job_spec_ref = ''spec.yaml'', job_status = QUEUED, job_record_hash = None, job_score = None, job_error = None,
       job_sidecars = None, job_created_at = Datetime 2024 1 1 0 0 0 0, job_updated_at = Datetime 2024 1 1 0 0 0 0\<rparr>"


text \<open>The creation time is the one column \<open>update\<close> does not write, so a change of it is lost here.\<close>

lemma postgres_keeps_created_at:
  "jt_get T (uuid_str (job_id j)) s = Some row \<Longrightarrow> jt_save T = (\<lambda>r s'. (Inr (), f r s')) \<Longrightarrow>
     \<exists>r. pg_update T j s = (Inr (), f r s) \<and> row_created_at r = row_created_at row"
  unfolding pg_update_def by (simp, intro exI conjI, rule refl, simp)

end
