(* ===== verification/ClickHouse.thy ===== *)
theory ClickHouse
  imports Repos PyJson Retry
begin

text \<open>
  \<open>src/cce_service/storage/clickhouse.py\<close>. The client is outside the repository: \<open>ch_insert\<close>
  and \<open>ch_query_final\<close> are \<open>insert\<close> into \<open>records\<close> and the \<open>SELECT \<dots> FINAL WHERE
  record_hash = \<dots> LIMIT 1\<close>. The locale \<open>clickhouse\<close> states what a \<open>ReplacingMergeTree(created_at)\<close>
  ordered by \<open>record_hash\<close> promises: \<open>FINAL\<close> shows, per hash, the row with the greatest
  \<open>created_at\<close>, the last inserted one among equals; the column keeps milliseconds.
  The columns of dicts hold JSON; a text that is not an object is a \<open>TypeError\<close> here, while the
  code would keep the value it reads. \<open>ch_exc_text\<close> is \<open>str\<close> of an exception of the client. Client options are in \<open>Wiring\<close>.
\<close>

section \<open>The adapter\<close>

record ChRow =
  ch_record_hash :: string
  ch_commit_sha :: string
  ch_repo_url :: string
  ch_spec_hash :: string
  ch_score :: string
  ch_metrics_json :: string
  ch_tool_digests_json :: string
  ch_tenant :: "string option"
  ch_created_at :: datetime

record 's ch_client =
  ch_insert :: "ChRow \<Rightarrow> 's \<Rightarrow> unit result \<times> 's"
  ch_query_final :: "string \<Rightarrow> 's \<Rightarrow> ChRow list result"
  ch_exc_text :: "exn \<Rightarrow> string"

definition str_values :: "str_map \<Rightarrow> (string, pyval) dict" where
  "str_values d = map (\<lambda>(k, v). (k, VStr v)) d"

definition upsert_policy :: "'s ch_client \<Rightarrow> retry_policy" where
  "upsert_policy cl =
     \<lparr>max_attempts = 3, base_delay = 1, max_delay = 30, retryable_exceptions = (\<lambda>e. True),
       component = ''clickhouse.upsert'', exc_text = ch_exc_text cl\<rparr>"

definition ch_row :: "ScoreRecord \<Rightarrow> ChRow result" where
  "ch_row record =
     andthen (json_dumps True (str_dict (rec_metrics record))) (\<lambda>metrics.
     andthen (json_dumps True (str_dict (str_values (rec_tool_digests record)))) (\<lambda>digests.
     Inr \<lparr>ch_record_hash = rec_hash record, ch_commit_sha = rec_commit_sha record,
       ch_repo_url = rec_repo_url record, ch_spec_hash = rec_spec_hash record, ch_score = rec_score record,
       ch_metrics_json = metrics, ch_tool_digests_json = digests, ch_tenant = Some (rec_tenant record),
       ch_created_at = rec_created_at record\<rparr>))"

definition ch_upsert :: "'s clock \<Rightarrow> 's ch_client \<Rightarrow> ScoreRecord \<Rightarrow> 's \<Rightarrow> unit result \<times> 's" where
  "ch_upsert C cl record =
     retry_on_transient_error (upsert_policy cl) C
       (\<lambda>s. case ch_row record of Inl e \<Rightarrow> (Inl e, s) | Inr row \<Rightarrow> ch_insert cl row s)"

text \<open>\<open>json.loads(text or "{}")\<close>, an object with string keys.\<close>

definition loads_object :: "libs \<Rightarrow> string \<Rightarrow> (string, pyval) dict result" where
  "loads_object L t =
     (case json_loads L (if t = [] then ''{}'' else t) of
        None \<Rightarrow> Inl JSONDecodeError
      | Some (VDict kvs) \<Rightarrow> each (\<lambda>(k, v). case k of VStr s \<Rightarrow> Inr (s, v) | _ \<Rightarrow> Inl (TypeError ''key'')) kvs
      | Some v \<Rightarrow> Inl (TypeError ''object''))"

definition text_values :: "(string, pyval) dict \<Rightarrow> str_map result" where
  "text_values d = each (\<lambda>(k, v). case v of VStr s \<Rightarrow> Inr (k, s) | _ \<Rightarrow> Inl (TypeError ''digest'')) d"

definition ch_decode :: "libs \<Rightarrow> ChRow \<Rightarrow> ScoreRecord result" where
  "ch_decode L r =
     andthen (loads_object L (ch_metrics_json r)) (\<lambda>metrics.
     andthen (andthen (loads_object L (ch_tool_digests_json r)) text_values) (\<lambda>digests.
     Inr \<lparr>rec_hash = ch_record_hash r, rec_commit_sha = ch_commit_sha r, rec_repo_url = ch_repo_url r,
       rec_spec_hash = ch_spec_hash r, rec_score = ch_score r, rec_metrics = metrics,
       rec_tool_digests = digests, rec_tenant = (case ch_tenant r of None \<Rightarrow> ''default'' | Some t \<Rightarrow> t),
       rec_created_at = ch_created_at r\<rparr>))"

definition ch_get :: "libs \<Rightarrow> 's ch_client \<Rightarrow> string \<Rightarrow> 's \<Rightarrow> ScoreRecord option result" where
  "ch_get L cl record_hash s =
     andthen (ch_query_final cl record_hash s) (\<lambda>rows.
       case rows of
         [] \<Rightarrow> Inr None
       | r # _ \<Rightarrow> andthen (ch_decode L r) (\<lambda>record. Inr (Some record)))"

definition ClickHouseRecordRepo :: "libs \<Rightarrow> 's clock \<Rightarrow> 's ch_client \<Rightarrow> 's RecordRepo" where
  "ClickHouseRecordRepo L C cl = \<lparr>rr_upsert = ch_upsert C cl, rr_get = ch_get L cl\<rparr>"

section \<open>What it keeps\<close>

definition storable_dict :: "(string, pyval) dict \<Rightarrow> bool" where
  "storable_dict d \<longleftrightarrow> distinct (dict_keys d) \<and> (\<forall>v\<in>snd ` set d. \<exists>s. v = VStr s)"

text \<open>Metrics and digests are dicts of texts, as scoring makes them.\<close>

definition storable :: "ScoreRecord \<Rightarrow> bool" where
  "storable r \<longleftrightarrow> storable_dict (rec_metrics r) \<and> distinct (dict_keys (rec_tool_digests r))"

lemma storable_str_values: "distinct (dict_keys d) \<Longrightarrow> storable_dict (str_values d)"
  by (auto simp: storable_dict_def str_values_def comp_def case_prod_beta)

lemma storable_plain: "storable_dict d \<Longrightarrow> json_plain (str_dict d)"
  by (force simp: storable_dict_def str_dict_def list_all_iff)

definition ms_floor :: "datetime \<Rightarrow> datetime" where
  "ms_floor t =
     Datetime (dt_year t) (dt_month t) (dt_day t) (dt_hour t) (dt_minute t) (dt_second t) (dt_micro t - dt_micro t mod 1000)"

lemma ms_floor_mono: "t \<le> u \<Longrightarrow> ms_floor t \<le> ms_floor u"
proof -
  have "m - m mod 1000 \<le> n - n mod 1000" if "m \<le> n" for m n :: nat
    using that by (metis div_le_mono minus_mod_eq_mult_div mult_le_mono2)
  then show "t \<le> u \<Longrightarrow> ?thesis"
    by (auto simp: less_eq_datetime_def dt_key_def ms_floor_def le_less)
qed

lemma ms_floor_le: "ms_floor t \<le> t"
  by (auto simp: less_eq_datetime_def dt_key_def ms_floor_def)

lemma ms_floor_idem [simp]: "ms_floor (ms_floor t) = ms_floor t"
  by (simp add: ms_floor_def minus_mod_eq_mult_div)

lemma sort_key_map: "sort_key f (map g xs) = map g (sort_key (f \<circ> g) xs)"
proof -
  have "insort_key f (g x) (map g ys) = map g (insort_key (f \<circ> g) x ys)" for x ys
    by (induction ys) auto
  then show ?thesis by (induction xs) auto
qed

lemma json_items_str_dict:
  "json_items True (map (\<lambda>(k, v). (VStr k, v)) d) = map (\<lambda>(k, v). (VStr k, v)) (sort_key fst d)"
  by (simp add: json_items_def sort_key_map comp_def case_prod_beta key_text_def)

lemma sorted_get: "distinct (dict_keys e) \<Longrightarrow> dict_get (sort_key fst e) = dict_get e"
  by (intro map_of_inject_set [THEN iffD2]) (auto simp: distinct_map intro: inj_on_subset)

text \<open>What \<open>FINAL\<close> shows after an insert.\<close>

definition replacing :: "ChRow \<Rightarrow> ChRow option \<Rightarrow> ChRow" where
  "replacing r old =
     (let r' = r\<lparr>ch_created_at := ms_floor (ch_created_at r)\<rparr>
      in case old of None \<Rightarrow> r' | Some q \<Rightarrow> if ch_created_at r' < ch_created_at q then q else r')"

locale clickhouse =
  fixes L :: libs and C :: "'s clock" and cl :: "'s ch_client" and ok :: "'s \<Rightarrow> bool"
    and view :: "'s \<Rightarrow> string \<Rightarrow> ChRow option"
  assumes insert_row: "ok s \<Longrightarrow> \<exists>s'. ch_insert cl r s = (Inr (), s') \<and> ok s'
      \<and> view s' = (view s)(ch_record_hash r \<mapsto> replacing r (view s (ch_record_hash r)))"
    and query: "ok s \<Longrightarrow> ch_query_final cl h s = Inr (case view s h of None \<Rightarrow> [] | Some r \<Rightarrow> [r])"
    and json_law: "json_plain v \<Longrightarrow> json_dumps True v = Inr t \<Longrightarrow> json_loads L t = Some (json_norm True v)"
begin

definition held :: "'s \<Rightarrow> string \<Rightarrow> ScoreRecord option" where
  "held s h = (case view s h of None \<Rightarrow> None | Some r \<Rightarrow> (case ch_decode L r of Inl e \<Rightarrow> None | Inr x \<Rightarrow> Some x))"

definition readable :: "'s \<Rightarrow> bool" where
  "readable s \<longleftrightarrow> ok s \<and> (\<forall>h r. view s h = Some r \<longrightarrow> (\<exists>x. ch_decode L r = Inr x) \<and> ms_floor (ch_created_at r) = ch_created_at r)"

lemma loads_dumped:
  assumes "storable_dict d" "json_dumps True (str_dict d) = Inr t"
  shows "loads_object L t = Inr (sort_key fst d)"
proof -
  have "json_norm True (str_dict d) = VDict (map (\<lambda>(k, v). (VStr k, v)) (sort_key fst d))"
    using assms(1) unfolding str_dict_def
    by (auto simp: json_items_str_dict storable_dict_def comp_def case_prod_beta image_iff)
  moreover have "each (\<lambda>(k, v). case k of VStr s \<Rightarrow> Inr (s, v) | _ \<Rightarrow> Inl (TypeError ''key''))
      (map (\<lambda>(k, v). (VStr k, v)) e) = Inr e" for e
    by (induction e) auto
  moreover have "t \<noteq> []" using assms(2) by (auto simp: str_dict_def result_simps)
  ultimately show ?thesis
    using json_law [OF storable_plain [OF assms(1)] assms(2)] by (simp add: loads_object_def)
qed

lemma decode_row:
  assumes "storable r"
  shows "\<exists>row r'. ch_row r = Inr row \<and> ch_record_hash row = rec_hash r \<and> ch_created_at row = rec_created_at r
    \<and> (\<forall>t. ch_decode L (row\<lparr>ch_created_at := t\<rparr>) = Inr (r'\<lparr>rec_created_at := t\<rparr>)) \<and> same_record r r'"
proof -
  let ?ds = "str_values (rec_tool_digests r)"
  from assms have d: "storable_dict (rec_metrics r)" "storable_dict ?ds" "distinct (dict_keys (rec_tool_digests r))"
    by (auto simp: storable_def storable_str_values)
  from d(1,2)[THEN storable_plain, THEN json_dumps_plain] obtain m t where
    m: "json_dumps True (str_dict (rec_metrics r)) = Inr m" "json_dumps True (str_dict ?ds) = Inr t" by blast
  have sorted_digests: "sort_key fst ?ds = str_values (sort_key fst (rec_tool_digests r))"
    by (simp add: str_values_def sort_key_map comp_def case_prod_beta)
  have texts: "text_values (str_values e) = Inr e" for e
    by (induction e) (auto simp: text_values_def str_values_def)
  from m loads_dumped [OF d(1) m(1)] loads_dumped [OF d(2) m(2)] d show ?thesis
    by (auto simp: sorted_get ch_row_def ch_decode_def sorted_digests texts same_record_def storable_dict_def
        intro!: exI [of _ "r\<lparr>rec_metrics := sort_key fst (rec_metrics r), rec_tool_digests := sort_key fst (rec_tool_digests r)\<rparr>"])
qed

lemma upsert_row:
  assumes "readable s" "storable r" "\<And>old. held s (rec_hash r) = Some old \<Longrightarrow> rec_created_at old \<le> rec_created_at r"
  shows "\<exists>s' r'. ch_upsert C cl r s = (Inr (), s') \<and> readable s' \<and> held s' = (held s)(rec_hash r \<mapsto> r') \<and> same_record r r'
    \<and> rec_created_at r' \<le> rec_created_at r"
proof -
  from decode_row [OF assms(2)] obtain row r' where row: "ch_row r = Inr row" "ch_record_hash row = rec_hash r"
    "ch_created_at row = rec_created_at r"
    and dec: "\<And>t. ch_decode L (row\<lparr>ch_created_at := t\<rparr>) = Inr (r'\<lparr>rec_created_at := t\<rparr>)"
    and same: "same_record r r'" by blast
  let ?t = "ms_floor (rec_created_at r)"
  from assms(1) insert_row [of s row] obtain s' where ins: "ch_insert cl row s = (Inr (), s')" "ok s'"
    "view s' = (view s)(rec_hash r \<mapsto> replacing row (view s (rec_hash r)))"
    by (auto simp: readable_def row)
  have "replacing row (view s (rec_hash r)) = row\<lparr>ch_created_at := ?t\<rparr>"
  proof (cases "view s (rec_hash r)")
    case (Some q)
    with assms(1) obtain x where x: "ch_decode L q = Inr x" "ms_floor (ch_created_at q) = ch_created_at q"
      by (auto simp: readable_def)
    then have "rec_created_at x = ch_created_at q" by (auto simp: ch_decode_def result_simps)
    with x Some assms(3) [of x] have "ch_created_at q \<le> rec_created_at r" by (simp add: held_def)
    from ms_floor_mono [OF this] x(2) have "\<not> ?t < ch_created_at q" by simp
    with Some row show ?thesis by (simp add: replacing_def Let_def)
  qed (simp add: replacing_def row Let_def)
  with ins dec [of ?t] have "held s' = (held s)(rec_hash r \<mapsto> r'\<lparr>rec_created_at := ?t\<rparr>)"
    and "readable s'"
    using assms(1) by (auto simp: held_def readable_def fun_eq_iff)
  moreover have "ch_upsert C cl r s = (Inr (), s')"
    using ins row by (simp add: ch_upsert_def retry_on_transient_error_def upsert_policy_def upt_conv_Cons)
  moreover have "same_record r (r'\<lparr>rec_created_at := ?t\<rparr>)" using same by (simp add: same_record_def)
  ultimately show ?thesis using ms_floor_le [of "rec_created_at r"] by (intro exI conjI) auto
qed

sublocale ch: record_repo "ClickHouseRecordRepo L C cl" readable held storable
proof unfold_locales
  fix s r assume "readable s" "storable r"
    "\<And>old. held s (rec_hash r) = Some old \<Longrightarrow> rec_created_at old \<le> rec_created_at r"
  from upsert_row [OF this] show "\<exists>s' r'. rr_upsert (ClickHouseRecordRepo L C cl) r s = (Inr (), s') \<and> readable s'
      \<and> held s' = (held s)(rec_hash r \<mapsto> r') \<and> same_record r r' \<and> rec_created_at r' \<le> rec_created_at r"
    by (simp add: ClickHouseRecordRepo_def)
next
  fix s h assume "readable s"
  then have "ok s" "view s h = None \<or> (\<exists>r x. view s h = Some r \<and> ch_decode L r = Inr x)"
    by (auto simp: readable_def) (metis option.exhaust)
  then show "rr_get (ClickHouseRecordRepo L C cl) h s = Inr (held s h)"
    by (auto simp: ClickHouseRecordRepo_def ch_get_def held_def query)
qed

lemma upserts_read_back:
  assumes "ok s" "view s = Map.empty" "\<forall>r\<in>set rs. storable r" "sorted (map rec_created_at rs)"
  shows "\<exists>s'. upsert_all (ClickHouseRecordRepo L C cl) rs s = (Inr (), s')
    \<and> (case last_under h rs of None \<Rightarrow> ch_get L cl h s' = Inr None
       | Some r \<Rightarrow> \<exists>r'. ch_get L cl h s' = Inr (Some r') \<and> same_record r r')"
proof -
  from assms(1,2) have "readable s" "held s = Map.empty" by (auto simp: readable_def held_def)
  note found = ch.upsert_all_get [OF this assms(3,4), of h]
  have get: "rr_get (ClickHouseRecordRepo L C cl) = ch_get L cl" by (simp add: ClickHouseRecordRepo_def)
  show ?thesis using found unfolding get .
qed

end

section \<open>A concrete client\<close>

definition dict_client :: "(string, ChRow) dict ch_client" where
  "dict_client =
     \<lparr>ch_insert = (\<lambda>r s. (Inr (), dict_set (ch_record_hash r) (replacing r (dict_get s (ch_record_hash r))) s)),
      ch_query_final = (\<lambda>h s. Inr (case dict_get s h of None \<Rightarrow> [] | Some r \<Rightarrow> [r])),
      ch_exc_text = (\<lambda>e. [])\<rparr>"

definition idle_clock :: "'s clock" where
  "idle_clock = \<lparr>monotonic = (\<lambda>s. (0, s)), sleep = (\<lambda>d s. s)\<rparr>"

interpretation dict_ch: clickhouse json_libs idle_clock dict_client "\<lambda>s. True" map_of
  by unfold_locales (auto simp: dict_client_def json_libs_def update_conv' json_read_dumps)


definition sample_record :: ScoreRecord where
  "sample_record =
     \<lparr>rec_hash = ''sha256:0'', rec_commit_sha = ''c'', rec_repo_url = ''https://h/r'', rec_spec_hash = ''s'',
       rec_score = ''0.5'', rec_metrics = [(''nloc'', VStr ''3''), (''ccn'', VStr ''1'')], rec_tool_digests = [(''scc'', ''d'')],
       rec_tenant = ''t'', rec_created_at = Datetime 2024 1 1 0 0 0 7\<rparr>"


text \<open>\<open>FINAL\<close> keeps the newest record, not the last one written: an upsert older than what is held
  has no effect, unlike in memory.\<close>

lemma older_upsert_ignored:
  "ms_floor (ch_created_at r) < ch_created_at q \<Longrightarrow> replacing r (Some q) = q"
  by (simp add: replacing_def Let_def)

end
