(* ===== verification/Jwks.thy ===== *)
theory Jwks
  imports Jwt PyFloat
begin

text \<open>
  \<open>src/cce_service/auth/jwks.py\<close>: the verifier that fetches public keys. The HTTP request and the
  \<open>cryptography\<close> package are outside the repository: \<open>jwks_env\<close> gathers the clock, the fetch
  (the parsed body), the construction of a public key from its integers and the check of a
  signature. The cache is the record \<open>JwksCache\<close>; a verifier returns the cache it leaves.
\<close>

section \<open>Keys\<close>

record ('s, 'k) jwks_env =
  env_clock :: "'s clock"
  env_fetch :: "'s \<Rightarrow> pyval result \<times> 's"
  env_has_crypto :: bool
  env_rsa_key :: "nat \<Rightarrow> nat \<Rightarrow> 'k result"
  env_ec_key :: "nat \<Rightarrow> nat \<Rightarrow> 'k result"
  env_check :: "'k \<Rightarrow> string \<Rightarrow> string \<Rightarrow> bool"

text \<open>\<open>jwk[name]\<close>.\<close>

definition member :: "mapping_value \<Rightarrow> string \<Rightarrow> pyval result" where
  "member jwk k = (case map_of jwk (VStr k) of None \<Rightarrow> Inl (KeyError k) | Some v \<Rightarrow> Inr v)"

definition members :: "mapping_value \<Rightarrow> string list \<Rightarrow> pyval result" where
  "members jwk ks = andthen (each (\<lambda>k. andthen (member jwk k) (\<lambda>v. Inr (k, v))) ks) (\<lambda>kvs. Inr (str_dict kvs))"

definition jwk_thumbprint :: "libs \<Rightarrow> mapping_value \<Rightarrow> string result" where
  "jwk_thumbprint L jwk =
     (let kty = get_key jwk ''kty''
      in andthen (if kty = VStr ''RSA'' then members jwk [''e'', ''kty'', ''n'']
                  else if kty = VStr ''EC'' then members jwk [''crv'', ''kty'', ''x'', ''y'']
                  else Inl (AuthError (''unsupported JWK kty: '' @ py_repr kty)))
           (\<lambda>m. andthen (json_dumps True m) (\<lambda>t. Inr (sha256_hex L (utf8_encode t)))))"

section \<open>The cache\<close>

type_synonym keys = "(string, mapping_value) dict"

record JwksCache =
  jc_ttl :: int
  jc_fetched_at :: real
  jc_keys :: keys

definition new_jwks_cache :: "int \<Rightarrow> JwksCache" where
  "new_jwks_cache ttl = \<lparr>jc_ttl = ttl, jc_fetched_at = 0, jc_keys = []\<rparr>"

definition add_key :: "libs \<Rightarrow> keys \<Rightarrow> pyval \<Rightarrow> keys result" where
  "add_key L new_keys jwk =
     andthen (as_object jwk) (\<lambda>d.
       case get_key d ''kid'' of
         VStr kid \<Rightarrow> Inr (dict_set kid d new_keys)
       | _ \<Rightarrow> andthen (jwk_thumbprint L d) (\<lambda>t. Inr (dict_set t d new_keys)))"

text \<open>Iterating over a parsed JSON value: the keys of an object, the characters of a string.\<close>

definition iter_value :: "pyval \<Rightarrow> pyval list result" where
  "iter_value v =
     (case v of
        VList vs \<Rightarrow> Inr vs
      | VDict d \<Rightarrow> Inr (map fst d)
      | VStr s \<Rightarrow> Inr (map (\<lambda>c. VStr [c]) s)
      | _ \<Rightarrow> Inl (TypeError ''not iterable''))"

definition keys_of_body :: "libs \<Rightarrow> pyval \<Rightarrow> keys result" where
  "keys_of_body L body =
     andthen (as_object body) (\<lambda>b.
     andthen (iter_value (get_default b ''keys'' (VList []))) (\<lambda>jwks.
     each_st (add_key L) [] jwks))"

definition maybe_refresh :: "libs \<Rightarrow> ('s, 'k) jwks_env \<Rightarrow> JwksCache \<Rightarrow> 's \<Rightarrow> unit result \<times> JwksCache \<times> 's" where
  "maybe_refresh L E c s =
     (let (now, s1) = monotonic (env_clock E) s
      in if fl (now - jc_fetched_at c) < of_int (jc_ttl c) then (Inr (), c, s1)
         else (case env_fetch E s1 of
                 (Inl e, s2) \<Rightarrow> (Inl e, c, s2)
               | (Inr body, s2) \<Rightarrow>
                   (case keys_of_body L body of
                      Inl e \<Rightarrow> (Inl e, c, s2)
                    | Inr new_keys \<Rightarrow> (Inr (), c\<lparr>jc_keys := new_keys, jc_fetched_at := now\<rparr>, s2))))"

text \<open>\<open>get\<close>.\<close>

definition cache_get ::
    "libs \<Rightarrow> ('s, 'k) jwks_env \<Rightarrow> JwksCache \<Rightarrow> string \<Rightarrow> 's \<Rightarrow> mapping_value option result \<times> JwksCache \<times> 's" where
  "cache_get L E c kid s =
     (case maybe_refresh L E c s of (r, c', s') \<Rightarrow> (andthen r (\<lambda>_. Inr (dict_get (jc_keys c') kid)), c', s'))"

section \<open>Signatures\<close>

definition int_from_bytes :: "string \<Rightarrow> nat" where
  "int_from_bytes b = of_digits 256 (map of_char b)"

definition key_number :: "mapping_value \<Rightarrow> string \<Rightarrow> nat result" where
  "key_number jwk k =
     andthen (member jwk k) (\<lambda>v.
     andthen (b64url_decode (py_str v)) (\<lambda>b. Inr (int_from_bytes b)))"

definition check_signature ::
    "('s, 'k) jwks_env \<Rightarrow> 'k result \<Rightarrow> string \<Rightarrow> string \<Rightarrow> unit result" where
  "check_signature E key signing signature =
     andthen key (\<lambda>k. require (env_check E k signing signature) (AuthError ''bad signature''))"

definition verify_rs256 :: "('s, 'k) jwks_env \<Rightarrow> string \<Rightarrow> string \<Rightarrow> mapping_value \<Rightarrow> unit result" where
  "verify_rs256 E signing signature jwk =
     andthen (require (env_has_crypto E) (AuthError ''signature verification unavailable: cryptography not installed'')) (\<lambda>_.
     andthen (key_number jwk ''e'') (\<lambda>e.
     andthen (key_number jwk ''n'') (\<lambda>n.
     check_signature E (env_rsa_key E e n) signing signature)))"

definition verify_es256 :: "('s, 'k) jwks_env \<Rightarrow> string \<Rightarrow> string \<Rightarrow> mapping_value \<Rightarrow> unit result" where
  "verify_es256 E signing signature jwk =
     andthen (require (env_has_crypto E) (AuthError ''signature verification unavailable: cryptography not installed'')) (\<lambda>_.
     andthen (key_number jwk ''x'') (\<lambda>x.
     andthen (key_number jwk ''y'') (\<lambda>y.
     check_signature E (env_ec_key E x y) signing signature)))"

section \<open>The verifier\<close>

record JwksVerifier =
  jw_cache :: JwksCache
  jw_config :: verifier_config

definition warn_missing_crypto :: "bool \<Rightarrow> string option \<Rightarrow> unit result" where
  "warn_missing_crypto has_crypto cce_env =
     (let env = (case cce_env of None \<Rightarrow> ''development'' | Some e \<Rightarrow> e)
      in require (has_crypto \<or> env = ''development'')
           (RuntimeError (''JwksVerifier refused to start in env='' @ repr_string env @ '' without the ''
              @ ''cryptography library. Install it or set CCE_ENV=development.'')))"

definition new_jwks_verifier ::
    "bool \<Rightarrow> string option \<Rightarrow> string \<Rightarrow> int \<Rightarrow> verifier_config \<Rightarrow> JwksVerifier result" where
  "new_jwks_verifier has_crypto cce_env jwks_uri ttl cfg =
     andthen (require (starts_with ''https://'' jwks_uri) (ValueError ''jwks_uri must start with https://'')) (\<lambda>_.
     andthen (warn_missing_crypto has_crypto cce_env) (\<lambda>_.
     Inr \<lparr>jw_cache = new_jwks_cache ttl, jw_config = cfg\<rparr>))"

text \<open>\<open>alg not in {\<dots>}\<close> raises on an unhashable value.\<close>

definition header_alg :: "pyval \<Rightarrow> string result" where
  "header_alg alg =
     (case alg of
        VStr a \<Rightarrow> if a = ''RS256'' \<or> a = ''ES256'' then Inr a else Inl (AuthError (''unsupported alg: '' @ py_repr alg))
      | VList vs \<Rightarrow> Inl (TypeError ''unhashable type'')
      | VDict d \<Rightarrow> Inl (TypeError ''unhashable type'')
      | _ \<Rightarrow> Inl (AuthError (''unsupported alg: '' @ py_repr alg)))"

definition header_kid :: "mapping_value \<Rightarrow> string result" where
  "header_kid h = (case get_key h ''kid'' of VStr k \<Rightarrow> Inr k | _ \<Rightarrow> Inl (AuthError ''missing kid in token header''))"

definition verify_with_key ::
    "('s, 'k) jwks_env \<Rightarrow> string \<Rightarrow> string \<Rightarrow> mapping_value option \<Rightarrow> string \<Rightarrow> string \<Rightarrow> unit result" where
  "verify_with_key E alg kid jwk signing signature =
     (case jwk of
        None \<Rightarrow> Inl (AuthError (''unknown kid: '' @ repr_string kid))
      | Some j \<Rightarrow> if alg = ''RS256'' then verify_rs256 E signing signature j else verify_es256 E signing signature j)"

definition jwks_verify ::
    "libs \<Rightarrow> ('s, 'k) jwks_env \<Rightarrow> JwksVerifier \<Rightarrow> string \<Rightarrow> int \<Rightarrow> 's \<Rightarrow> Principal result \<times> JwksVerifier \<times> 's" where
  "jwks_verify L E V token now_s s =
     (case andthen (parse_token L token) (\<lambda>(hb, pb, header, payload, signature).
           andthen (as_object header) (\<lambda>h.
           andthen (header_alg (get_key h ''alg'')) (\<lambda>alg.
           andthen (header_kid h) (\<lambda>kid. Inr (alg, kid, signing_input hb pb, payload, signature))))) of
        Inl e \<Rightarrow> (Inl e, V, s)
      | Inr (alg, kid, signing, payload, signature) \<Rightarrow>
          (case cache_get L E (jw_cache V) kid s of
             (Inl e, c, s1) \<Rightarrow> (Inl e, V\<lparr>jw_cache := c\<rparr>, s1)
           | (Inr jwk, c, s1) \<Rightarrow>
               (andthen (verify_with_key E alg kid jwk signing signature) (\<lambda>_.
                  check_claims (jw_config V) payload now_s), V\<lparr>jw_cache := c\<rparr>, s1)))"

section \<open>What it accepts\<close>


text \<open>
  The cache starts as fetched at time 0 of a clock that starts near the boot of the host: until
  the host is up for one time-to-live, the first verification fetches nothing, no key is known
  and every token is refused.
\<close>

lemma fresh_cache_skips_first_fetch:
  "monotonic (env_clock E) s = (now, s1) \<Longrightarrow> fl now < of_int ttl \<Longrightarrow>
     maybe_refresh L E (new_jwks_cache ttl) s = (Inr (), new_jwks_cache ttl, s1)"
  by (simp add: maybe_refresh_def new_jwks_cache_def)

section \<open>Issuing, and a token that is accepted\<close>

definition issue_rs256_token ::
    "bool \<Rightarrow> (string \<Rightarrow> string) \<Rightarrow> string \<Rightarrow> string \<Rightarrow> string list \<Rightarrow> string \<Rightarrow> string \<Rightarrow> int \<Rightarrow> string \<Rightarrow> int
     \<Rightarrow> string result" where
  "issue_rs256_token has_crypto sign sub ten scope_list iss aud ttl key_id now_s =
     andthen (require has_crypto (RuntimeError ''cryptography library is required for RS256 token issuance'')) (\<lambda>_.
     andthen (encode_part (str_dict [(''alg'', VStr ''RS256''), (''typ'', VStr ''JWT''), (''kid'', VStr key_id)])) (\<lambda>header_b.
     andthen (encode_part (token_payload iss aud sub ten scope_list now_s ttl)) (\<lambda>payload_b.
     Inr (header_b @ ''.'' @ payload_b @ ''.'' @ b64url_encode (sign (signing_input header_b payload_b))))))"

lemma issued_rs256_verifies:
  assumes "loads_dumped L" "env_has_crypto E"
    and "maybe_refresh L E (jw_cache V) s = (Inr (), c, s1)" "dict_get (jc_keys c) kid = Some jwk"
    and "key_number jwk ''e'' = Inr e" "key_number jwk ''n'' = Inr n" "env_rsa_key E e n = Inr key"
    and "\<And>m. env_check E key m (sign m)" "later \<le> now_s + ttl + leeway (jw_config V)"
  shows "\<exists>token. issue_rs256_token True sign sub ten ss (issuer (jw_config V)) (audience (jw_config V)) ttl kid now_s
      = Inr token
    \<and> jwks_verify L E V token later s
      = (Inr \<lparr>subject = sub, tenant = ten, scopes = set ss, expires_at = now_s + ttl\<rparr>, V\<lparr>jw_cache := c\<rparr>, s1)"
proof -
  let ?header = "str_dict [(''alg'', VStr ''RS256''), (''typ'', VStr ''JWT''), (''kid'', VStr kid)]"
  let ?payload = "token_payload (issuer (jw_config V)) (audience (jw_config V)) sub ten ss now_s ttl"
  have plain: "json_plain ?header" "json_plain ?payload"
    by (simp_all add: str_dict_def token_payload_def list_all_iff)
  from parse_issued [OF assms(1) plain] obtain h p where
    e: "encode_part ?header = Inr h" "encode_part ?payload = Inr p"
    and parsed: "\<And>sig. parse_token L (h @ ''.'' @ p @ ''.'' @ b64url_encode sig) = Inr (h, p, ?header, ?payload, sig)"
    by blast
  obtain d where d: "as_object ?header = Inr d" "get_key d ''alg'' = VStr ''RS256''" "get_key d ''kid'' = VStr kid"
    by (simp add: str_dict_def as_object_def get_key_def)
  with parsed [of "sign (signing_input h p)"] assms e show ?thesis
    by (simp add: issue_rs256_token_def jwks_verify_def cache_get_def header_alg_def header_kid_def verify_with_key_def
        verify_rs256_def check_signature_def claims_of_payload)
qed

definition sample_jwk :: mapping_value where
  "sample_jwk = [(VStr ''kid'', VStr ''k''), (VStr ''kty'', VStr ''RSA''), (VStr ''e'', VStr ''AQAB''), (VStr ''n'', VStr ''AQAB'')]"

definition sample_env :: "(unit, nat) jwks_env" where
  "sample_env =
     \<lparr>env_clock = \<lparr>monotonic = (\<lambda>s. (1000, s)), sleep = (\<lambda>d s. s)\<rparr>,
      env_fetch = (\<lambda>s. (Inr (str_dict [(''keys'', VList [VDict sample_jwk])]), s)), env_has_crypto = True,
      env_rsa_key = (\<lambda>e n. Inr (e + n)), env_ec_key = (\<lambda>x y. Inl (ValueError ''point'')),
      env_check = (\<lambda>k m sig. sig = m)\<rparr>"

definition sample_jwks :: JwksVerifier where
  "sample_jwks = \<lparr>jw_cache = new_jwks_cache 300, jw_config = \<lparr>issuer = ''i'', audience = ''a'', leeway = 0\<rparr>\<rparr>"

lemma sample_refresh:
  "maybe_refresh json_libs sample_env (jw_cache sample_jwks) ()
    = (Inr (), \<lparr>jc_ttl = 300, jc_fetched_at = 1000, jc_keys = [(''k'', sample_jwk)]\<rparr>, ())"
  by (simp add: maybe_refresh_def sample_env_def sample_jwks_def new_jwks_cache_def keys_of_body_def as_object_def
      str_dict_def get_default_def iter_value_def add_key_def get_key_def sample_jwk_def)

lemma sample_numbers: "\<exists>e n. key_number sample_jwk ''e'' = Inr e \<and> key_number sample_jwk ''n'' = Inr n"
proof -
  have "\<exists>b. b64url_decode ''AQAB'' = Inr b"
    by (simp add: b64url_decode_def sextet_def)
  then show ?thesis by (auto simp: key_number_def sample_jwk_def member_def)
qed


end
