(* ===== verification/HostIO.thy ===== *)
theory HostIO
  imports Dispatch PyFloat
begin

text \<open>
  The host a dispatcher acts on: processes, temporary directories, Unix sockets and the clock, as
  \<open>src/cce_service/dispatch/firecracker.py\<close> uses them.

  A computation takes the state of the dispatcher and of the host and returns a result or an
  exception with the new state, or \<open>None\<close> if it never returns: a loop may run for ever and
  \<open>recv\<close> may block. The state keeps the calls that were made, in order, so that theorems can
  speak of them; \<open>obeys\<close> is a contract on the calls of a computation, with one rule per way to
  compose computations.
\<close>

section \<open>Host and state\<close>

text \<open>System calls raise only \<open>OSError\<close>: the left value is its message.\<close>

type_synonym 'a os = "string + 'a"

record 'w host =
  h_libs :: libs
  h_files :: file_system
  h_platform :: string
  h_pid :: int
  h_clock :: "'w clock"
  h_time :: "'w \<Rightarrow> real \<times> 'w"
  h_mkdtemp :: "string \<Rightarrow> 'w \<Rightarrow> string os \<times> 'w"
  h_rmtree :: "string \<Rightarrow> 'w \<Rightarrow> 'w"
  h_exists :: "string \<Rightarrow> 'w \<Rightarrow> bool os \<times> 'w"
  h_is_dir :: "string \<Rightarrow> 'w \<Rightarrow> bool os \<times> 'w"
  h_is_file :: "string \<Rightarrow> 'w \<Rightarrow> bool os \<times> 'w"
  h_tar_add :: "string \<Rightarrow> string \<Rightarrow> 'w \<Rightarrow> string os \<times> 'w"
  h_tar_entry :: "string \<Rightarrow> string \<Rightarrow> string"
  h_tar_close :: "string \<Rightarrow> string"
  h_popen :: "string list \<Rightarrow> 'w \<Rightarrow> nat os \<times> 'w"
  h_poll :: "nat \<Rightarrow> 'w \<Rightarrow> int option \<times> 'w"
  h_wait :: "nat \<Rightarrow> real \<Rightarrow> 'w \<Rightarrow> bool \<times> 'w"
  h_kill :: "nat \<Rightarrow> 'w \<Rightarrow> unit os \<times> 'w"
  h_socket :: "'w \<Rightarrow> unit os \<times> 'w"
  h_connect :: "string \<Rightarrow> 'w \<Rightarrow> unit os \<times> 'w"
  h_sendall :: "string \<Rightarrow> 'w \<Rightarrow> unit os \<times> 'w"
  h_recv :: "nat \<Rightarrow> 'w \<Rightarrow> (string os \<times> 'w) option"
  h_shutdown :: "'w \<Rightarrow> unit os \<times> 'w"
  h_close :: "'w \<Rightarrow> 'w"

text \<open>The calls that are kept: those that start, end or talk to something.\<close>

datatype call =
    Mkdtemp string
  | Popen "string list" nat
  | Slept real
  | Connect string
  | SendAll string string
  | Received string
  | Shutdown
  | Close
  | Waited nat real
  | Killed nat
  | Rmtree string

record 'w vm_state =
  vm_world :: 'w
  vm_process :: "nat option"
  vm_failures :: "string list"
  vm_calls :: "call list"

type_synonym ('w, 'x) io = "'w vm_state \<Rightarrow> ('x result \<times> 'w vm_state) option"

section \<open>Composing computations\<close>

definition ret :: "'x \<Rightarrow> ('w, 'x) io" where
  "ret x s = Some (Inr x, s)"

definition throw :: "exn \<Rightarrow> ('w, 'x) io" where
  "throw e s = Some (Inl e, s)"

definition of_result :: "'x result \<Rightarrow> ('w, 'x) io" where
  "of_result r s = Some (r, s)"

definition bnd :: "('w, 'x) io \<Rightarrow> ('x \<Rightarrow> ('w, 'y) io) \<Rightarrow> ('w, 'y) io" where
  "bnd m f s = (case m s of None \<Rightarrow> None | Some (Inl e, s') \<Rightarrow> Some (Inl e, s') | Some (Inr x, s') \<Rightarrow> f x s')"

definition try_except :: "('w, 'x) io \<Rightarrow> (exn \<Rightarrow> ('w, 'x) io) \<Rightarrow> ('w, 'x) io" where
  "try_except m h s = (case m s of None \<Rightarrow> None | Some (Inl e, s') \<Rightarrow> h e s' | Some (Inr x, s') \<Rightarrow> Some (Inr x, s'))"

definition try_finally :: "('w, 'x) io \<Rightarrow> ('w, unit) io \<Rightarrow> ('w, 'x) io" where
  "try_finally m fin s =
     (case m s of
        None \<Rightarrow> None
      | Some (r, s') \<Rightarrow>
          (case fin s' of
             None \<Rightarrow> None
           | Some (Inl e, s'') \<Rightarrow> Some (Inl e, s'')
           | Some (Inr u, s'') \<Rightarrow> Some (r, s'')))"

text \<open>\<open>contextlib.suppress(Exception)\<close>.\<close>

definition suppress :: "('w, unit) io \<Rightarrow> ('w, unit) io" where
  "suppress m = try_except m (\<lambda>e. ret ())"

text \<open>A call of the host: it changes the world and is kept.\<close>

definition act :: "('w \<Rightarrow> 'x os \<times> 'w) \<Rightarrow> ('x os \<Rightarrow> call list) \<Rightarrow> ('w, 'x) io" where
  "act f note s =
     (case f (vm_world s) of (r, w) \<Rightarrow>
        Some (case r of Inl m \<Rightarrow> Inl (OSError m) | Inr x \<Rightarrow> Inr x,
              s\<lparr>vm_world := w, vm_calls := vm_calls s @ note r\<rparr>))"

definition sure :: "('w \<Rightarrow> 'x \<times> 'w) \<Rightarrow> 'w \<Rightarrow> 'x os \<times> 'w" where
  "sure f w = (case f w of (x, w') \<Rightarrow> (Inr x, w'))"

text \<open>Loops are least fixed points in the option type; this rule lets them call themselves below
  \<open>bnd\<close>.\<close>

lemma bnd_mono [partial_function_mono]:
  assumes "monotone (fun_ord option_ord) option_ord (\<lambda>f. B f s)"
    and "\<And>y t. monotone (fun_ord option_ord) option_ord (\<lambda>f. C y f t)"
  shows "monotone (fun_ord option_ord) option_ord (\<lambda>f. bnd (B f) (\<lambda>y. C y f) s)"
proof (rule monotoneI)
  fix f g :: "'a \<Rightarrow> 'b option"
  assume le: "fun_ord option_ord f g"
  have B: "option_ord (B f s) (B g s)" using assms(1) le unfolding monotone_def by blast
  have C: "option_ord (C y f t) (C y g t)" for y t using assms(2) le unfolding monotone_def by blast
  from B consider "B f s = None" | "B f s = B g s" by (auto simp: flat_ord_def)
  then show "option_ord (bnd (B f) (\<lambda>y. C y f) s) (bnd (B g) (\<lambda>y. C y g) s)"
  proof cases
    case 1
    then show ?thesis by (simp add: bnd_def flat_ord_def)
  next
    case 2
    then show ?thesis using C by (auto simp: bnd_def flat_ord_def split: option.split sum.split)
  qed
qed

section \<open>System calls\<close>

definition now :: "'w host \<Rightarrow> ('w, real) io" where
  "now H = act (sure (monotonic (h_clock H))) (\<lambda>r. [])"

definition sleep_for :: "'w host \<Rightarrow> real \<Rightarrow> ('w, unit) io" where
  "sleep_for H d = act (\<lambda>w. (Inr (), sleep (h_clock H) d w)) (\<lambda>r. [Slept d])"

definition epoch :: "'w host \<Rightarrow> ('w, real) io" where
  "epoch H = act (sure (h_time H)) (\<lambda>r. [])"

definition mkdtemp :: "'w host \<Rightarrow> string \<Rightarrow> ('w, string) io" where
  "mkdtemp H prefix = act (h_mkdtemp H prefix) (\<lambda>r. case r of Inl m \<Rightarrow> [] | Inr p \<Rightarrow> [Mkdtemp p])"

definition rmtree :: "'w host \<Rightarrow> string \<Rightarrow> ('w, unit) io" where
  "rmtree H p = act (\<lambda>w. (Inr (), h_rmtree H p w)) (\<lambda>r. [Rmtree p])"

definition path_exists :: "'w host \<Rightarrow> string \<Rightarrow> ('w, bool) io" where
  "path_exists H p = act (h_exists H p) (\<lambda>r. [])"

definition is_dir :: "'w host \<Rightarrow> string \<Rightarrow> ('w, bool) io" where
  "is_dir H p = act (h_is_dir H p) (\<lambda>r. [])"

definition is_file :: "'w host \<Rightarrow> string \<Rightarrow> ('w, bool) io" where
  "is_file H p = act (h_is_file H p) (\<lambda>r. [])"

definition tar_add :: "'w host \<Rightarrow> string \<Rightarrow> string \<Rightarrow> ('w, string) io" where
  "tar_add H p arcname = act (h_tar_add H p arcname) (\<lambda>r. [])"

definition popen :: "'w host \<Rightarrow> string list \<Rightarrow> ('w, nat) io" where
  "popen H cmd = act (h_popen H cmd) (\<lambda>r. case r of Inl m \<Rightarrow> [] | Inr pid \<Rightarrow> [Popen cmd pid])"

definition poll :: "'w host \<Rightarrow> nat \<Rightarrow> ('w, int option) io" where
  "poll H pid = act (sure (h_poll H pid)) (\<lambda>r. [])"

definition wait_process :: "'w host \<Rightarrow> nat \<Rightarrow> real \<Rightarrow> ('w, unit) io" where
  "wait_process H pid t =
     bnd (act (sure (h_wait H pid t)) (\<lambda>r. [Waited pid t])) (\<lambda>exited. if exited then ret () else throw TimeoutExpired)"

definition kill_process :: "'w host \<Rightarrow> nat \<Rightarrow> ('w, unit) io" where
  "kill_process H pid = act (h_kill H pid) (\<lambda>r. [Killed pid])"

definition new_socket :: "'w host \<Rightarrow> ('w, unit) io" where
  "new_socket H = act (h_socket H) (\<lambda>r. [])"

definition connect :: "'w host \<Rightarrow> string \<Rightarrow> ('w, unit) io" where
  "connect H p = act (h_connect H p) (\<lambda>r. [Connect p])"

text \<open>\<open>p\<close> is the path the socket is connected to.\<close>

definition sendall :: "'w host \<Rightarrow> string \<Rightarrow> string \<Rightarrow> ('w, unit) io" where
  "sendall H p bytes = act (h_sendall H bytes) (\<lambda>r. [SendAll p bytes])"

definition recv :: "'w host \<Rightarrow> nat \<Rightarrow> ('w, string) io" where
  "recv H n s =
     (case h_recv H n (vm_world s) of
        None \<Rightarrow> None
      | Some (r, w) \<Rightarrow> act (\<lambda>v. (r, w)) (\<lambda>r. case r of Inl m \<Rightarrow> [] | Inr c \<Rightarrow> [Received c]) s)"

definition shut_down :: "'w host \<Rightarrow> ('w, unit) io" where
  "shut_down H = act (h_shutdown H) (\<lambda>r. [Shutdown])"

definition close_socket :: "'w host \<Rightarrow> ('w, unit) io" where
  "close_socket H = act (\<lambda>w. (Inr (), h_close H w)) (\<lambda>r. [Close])"

end
