(* ===== verification/Firecracker.thy ===== *)
theory Firecracker
  imports HostIO PyJson
begin

text \<open>
  \<open>src/cce_service/dispatch/firecracker.py\<close>: one microVM per job. The digests of the four pinned
  artefacts are checked, the jailer is started, the VM is configured over its API socket, the job
  is streamed in and the result is polled over vsock; whatever happens then, the process is ended and the
  work directory removed.

  A \<open>firecracker\<close> is what \<open>FirecrackerDispatcher.__init__\<close> sets; its process is \<open>vm_process\<close>
  of the state. \<open>vm_failures\<close> are the increments of the boot failure counter, by reason. Spans and log
  lines are left out.
\<close>

section \<open>Configuration\<close>

record FirecrackerConfig =
  firecracker_binary :: string
  firecracker_digest :: string
  jailer_binary :: string
  jailer_digest :: string
  kernel_image :: string
  kernel_digest :: string
  rootfs_image :: string
  rootfs_digest :: string
  vcpu_count :: int
  mem_mib :: int
  wallclock_seconds :: int

definition pinned_artifacts :: "FirecrackerConfig \<Rightarrow> (string \<times> string \<times> string) list" where
  "pinned_artifacts c =
     [(''firecracker'', firecracker_binary c, firecracker_digest c), (''jailer'', jailer_binary c, jailer_digest c),
      (''kernel'', kernel_image c, kernel_digest c), (''rootfs'', rootfs_image c, rootfs_digest c)]"

definition config_assert_digests :: "libs \<Rightarrow> file_system \<Rightarrow> FirecrackerConfig \<Rightarrow> unit result" where
  "config_assert_digests L fs c =
     andthen (each (\<lambda>(name, p, digest). assert_tool_digest L fs name digest p) (pinned_artifacts c)) (\<lambda>_. Inr ())"

definition GUEST_CID :: int where "GUEST_CID = 3"
definition PORT_INGEST :: int where "PORT_INGEST = 52"
definition PORT_RESULT :: int where "PORT_RESULT = 53"
definition BOOT_WAIT_SECONDS :: real where "BOOT_WAIT_SECONDS = 10"
definition RESULT_POLL_INTERVAL :: real where "RESULT_POLL_INTERVAL = 1 / 4"

record firecracker =
  fc_config :: FirecrackerConfig
  fc_available :: bool

definition new_firecracker :: "string \<Rightarrow> string option \<Rightarrow> FirecrackerConfig \<Rightarrow> firecracker" where
  "new_firecracker sys_platform which_firecracker config =
     \<lparr>fc_config = config, fc_available = (starts_with ''linux'' sys_platform \<and> which_firecracker \<noteq> None)\<rparr>"

section \<open>The API client\<close>

definition crlf :: string where "crlf = [CHR 0x0D, CHR 0x0A]"

fun occurs :: "string \<Rightarrow> string \<Rightarrow> bool" where
  "occurs p [] \<longleftrightarrow> p = []"
| "occurs p (c # cs) \<longleftrightarrow> starts_with p (c # cs) \<or> occurs p cs"

text \<open>\<open>response.split(b"\<dots>", 1)[0]\<close> at the first CR LF.\<close>

fun first_line :: "string \<Rightarrow> string" where
  "first_line [] = []"
| "first_line (c # cs) = (if starts_with crlf (c # cs) then [] else c # first_line cs)"

text \<open>\<open>repr\<close> of a bytes object.\<close>

definition repr_byte :: "char \<Rightarrow> char \<Rightarrow> string" where
  "repr_byte q c =
     (let n = (of_char c :: nat)
      in if n < 127 then repr_char q c else [CHR 0x5C, CHR ''x'', hex_digit (n div 16), hex_digit n])"

definition repr_bytes :: "string \<Rightarrow> string" where
  "repr_bytes s =
     (let q = (if CHR 0x27 \<in> set s \<and> CHR 0x22 \<notin> set s then CHR 0x22 else CHR 0x27)
      in CHR ''b'' # q # concat (map (repr_byte q) s) @ [q])"

definition api_request :: "string \<Rightarrow> string \<Rightarrow> string" where
  "api_request route payload =
     ''PUT '' @ route @ '' HTTP/1.1'' @ crlf
     @ ''Host: localhost'' @ crlf
     @ ''Content-Type: application/json'' @ crlf
     @ ''Content-Length: '' @ string_of_int (int (length payload)) @ crlf
     @ ''Accept: application/json'' @ crlf
     @ crlf @ payload"

partial_function (option) read_response :: "'w host \<Rightarrow> string \<Rightarrow> 'w vm_state \<Rightarrow> (string result \<times> 'w vm_state) option" where
  "read_response H response s =
     bnd (recv H 4096) (\<lambda>chunk s.
       if chunk = [] then ret response s
       else if occurs (crlf @ crlf) (response @ chunk) \<and> occurs ''Content-Length: 0'' (response @ chunk)
       then ret (response @ chunk) s
       else read_response H (response @ chunk) s) s"

definition api_put :: "'w host \<Rightarrow> string \<Rightarrow> string \<Rightarrow> mapping_value \<Rightarrow> ('w, unit) io" where
  "api_put H socket_path route body =
     bnd (of_result (json_dumps False (VDict body))) (\<lambda>payload.
     bnd (new_socket H) (\<lambda>_.
     bnd (try_finally
           (bnd (connect H socket_path) (\<lambda>_.
            bnd (sendall H socket_path (api_request route payload)) (\<lambda>_.
            read_response H [])))
           (close_socket H)) (\<lambda>response.
     if occurs '' 200 '' (first_line response) \<or> occurs '' 204 '' (first_line response) then ret ()
     else throw (DispatchError (''firecracker API '' @ route @ '' failed: '' @ first_line response)))))"

section \<open>Booting\<close>

definition vsock_uds :: "string \<Rightarrow> string" where "vsock_uds workdir = workdir @ ''/vsock.uds''"
definition vm_socket :: "string \<Rightarrow> string" where "vm_socket workdir = workdir @ ''/fc.sock''"

definition chroot_id :: "int \<Rightarrow> real \<Rightarrow> string" where
  "chroot_id pid t = ''cce-'' @ string_of_int pid @ ''-'' @ string_of_int \<lfloor>fl (t * 1000)\<rfloor>"

definition jailer_command :: "FirecrackerConfig \<Rightarrow> string \<Rightarrow> string \<Rightarrow> string list" where
  "jailer_command c chroot workdir =
     [jailer_binary c, ''--id'', chroot, ''--exec-file'', firecracker_binary c, ''--chroot-base-dir'', workdir,
      ''--uid'', ''1000'', ''--gid'', ''1000'', ''--new-pid-ns'', ''--'', ''--api-sock'', vm_socket workdir]"

definition boot_steps :: "FirecrackerConfig \<Rightarrow> string \<Rightarrow> (string \<times> mapping_value) list" where
  "boot_steps c workdir =
     [(''/boot-source'',
       [(VStr ''kernel_image_path'', VStr (kernel_image c)),
        (VStr ''boot_args'', VStr ''console=ttyS0 reboot=k panic=1 pci=off'')]),
      (''/drives/rootfs'',
       [(VStr ''drive_id'', VStr ''rootfs''), (VStr ''path_on_host'', VStr (rootfs_image c)),
        (VStr ''is_root_device'', VBool True), (VStr ''is_read_only'', VBool True)]),
      (''/machine-config'',
       [(VStr ''vcpu_count'', VInt (vcpu_count c)), (VStr ''mem_size_mib'', VInt (mem_mib c)), (VStr ''smt'', VBool False)]),
      (''/vsock'',
       [(VStr ''vsock_id'', VStr ''cce''), (VStr ''guest_cid'', VInt GUEST_CID), (VStr ''uds_path'', VStr (vsock_uds workdir))]),
      (''/actions'', [(VStr ''action_type'', VStr ''InstanceStart'')])]"

fun api_puts :: "'w host \<Rightarrow> string \<Rightarrow> (string \<times> mapping_value) list \<Rightarrow> ('w, unit) io" where
  "api_puts H socket_path [] = ret ()"
| "api_puts H socket_path ((route, body) # steps) =
     bnd (api_put H socket_path route body) (\<lambda>_. api_puts H socket_path steps)"

definition boot_failure :: "string \<Rightarrow> exn \<Rightarrow> ('w, 'x) io" where
  "boot_failure reason e s = throw e (s\<lparr>vm_failures := vm_failures s @ [reason]\<rparr>)"

partial_function (option) wait_for_socket ::
    "'w host \<Rightarrow> string \<Rightarrow> nat \<Rightarrow> real \<Rightarrow> 'w vm_state \<Rightarrow> (unit result \<times> 'w vm_state) option" where
  "wait_for_socket H socket_path pid deadline s =
     bnd (now H) (\<lambda>t s.
       if t < deadline then
         bnd (path_exists H socket_path) (\<lambda>there s.
           if there then ret () s
           else bnd (poll H pid) (\<lambda>returncode s.
             if returncode \<noteq> None
             then boot_failure ''firecracker_exited_before_socket''
                    (DispatchError (''firecracker exited before opening API socket (exit code ''
                       @ string_of_int (the returncode) @ '')'')) s
             else bnd (sleep_for H (fl (5 / 100))) (\<lambda>_ s. wait_for_socket H socket_path pid deadline s) s) s) s
       else boot_failure ''api_socket_timeout'' (DispatchError ''timed out waiting for firecracker API socket'') s) s"

definition set_process :: "nat option \<Rightarrow> ('w, unit) io" where
  "set_process p s = ret () (s\<lparr>vm_process := p\<rparr>)"

definition spawn_vm :: "firecracker \<Rightarrow> 'w host \<Rightarrow> string \<Rightarrow> string \<Rightarrow> ('w, unit) io" where
  "spawn_vm F H socket_path workdir =
     bnd (epoch H) (\<lambda>t.
     bnd (popen H (jailer_command (fc_config F) (chroot_id (h_pid H) t) workdir)) (\<lambda>pid.
     bnd (set_process (Some pid)) (\<lambda>_.
     bnd (now H) (\<lambda>start.
     bnd (wait_for_socket H socket_path pid (fl (start + BOOT_WAIT_SECONDS))) (\<lambda>_.
     api_puts H socket_path (boot_steps (fc_config F) workdir))))))"

section \<open>The job and its result\<close>

definition job_meta :: "JobRecord \<Rightarrow> mapping_value" where
  "job_meta job =
     [(VStr ''job_id'', VStr (uuid_str (job_id job))), (VStr ''repo_url'', VStr (job_repo_url job)),
      (VStr ''commit_sha'', VStr (job_commit_sha job)), (VStr ''spec_ref'', VStr (job_spec_ref job))]"

definition job_archive :: "'w host \<Rightarrow> JobRecord \<Rightarrow> ('w, string) io" where
  "job_archive H job =
     bnd (is_dir H (job_repo_url job)) (\<lambda>local_repo.
     bnd (if local_repo then tar_add H (job_repo_url job) ''repo'' else ret []) (\<lambda>repo.
     bnd (is_file H (job_spec_ref job)) (\<lambda>local_spec.
     bnd (if local_spec then tar_add H (job_spec_ref job) ''spec.yaml'' else ret []) (\<lambda>spec.
     bnd (of_result (json_dumps False (VDict (job_meta job)))) (\<lambda>meta.
     ret (h_tar_close H (repo @ spec @ h_tar_entry H ''job.json'' meta)))))))"

definition connect_line :: "int \<Rightarrow> string" where
  "connect_line port = ''CONNECT '' @ string_of_int port @ [CHR 0x0A]"

definition send_job :: "'w host \<Rightarrow> JobRecord \<Rightarrow> string \<Rightarrow> ('w, unit) io" where
  "send_job H job workdir =
     bnd (job_archive H job) (\<lambda>payload.
     bnd (new_socket H) (\<lambda>_.
     try_finally
       (bnd (connect H (vsock_uds workdir)) (\<lambda>_.
        bnd (sendall H (vsock_uds workdir) (connect_line PORT_INGEST)) (\<lambda>_.
        bnd (recv H 64) (\<lambda>ack.
        if \<not> starts_with ''OK'' ack then throw (DispatchError (''vsock ingest CONNECT failed: '' @ repr_bytes ack))
        else bnd (sendall H (vsock_uds workdir) payload) (\<lambda>_. shut_down H)))))
       (close_socket H)))"

partial_function (option) read_all :: "'w host \<Rightarrow> string \<Rightarrow> 'w vm_state \<Rightarrow> (string result \<times> 'w vm_state) option" where
  "read_all H chunks s =
     bnd (recv H 65536) (\<lambda>chunk s. if chunk = [] then ret chunks s else read_all H (chunks @ chunk) s) s"

text \<open>One round of the polling loop: the reason to go on, or the value to return.\<close>

definition ask_result :: "'w host \<Rightarrow> string \<Rightarrow> ('w, string + pyval) io" where
  "ask_result H workdir =
     bnd (connect H (vsock_uds workdir)) (\<lambda>_.
     bnd (sendall H (vsock_uds workdir) (connect_line PORT_RESULT)) (\<lambda>_.
     bnd (recv H 64) (\<lambda>ack.
     if \<not> starts_with ''OK'' ack then
       bnd (close_socket H) (\<lambda>_. bnd (sleep_for H RESULT_POLL_INTERVAL) (\<lambda>_.
       ret (Inl (''vsock result CONNECT not OK: '' @ repr_bytes ack))))
     else bnd (read_all H []) (\<lambda>body.
       if body = [] then bnd (sleep_for H RESULT_POLL_INTERVAL) (\<lambda>_. ret (Inl ''guest returned empty result''))
       else case json_loads (h_libs H) body of None \<Rightarrow> throw JSONDecodeError | Some v \<Rightarrow> ret (Inr v)))))"

definition retry_later :: "'w host \<Rightarrow> exn \<Rightarrow> ('w, string + pyval) io" where
  "retry_later H e =
     (case e of
        OSError m \<Rightarrow> bnd (sleep_for H RESULT_POLL_INTERVAL) (\<lambda>_. ret (Inl (''vsock connect: '' @ m)))
      | _ \<Rightarrow> throw e)"

definition poll_result :: "'w host \<Rightarrow> string \<Rightarrow> ('w, string + pyval) io" where
  "poll_result H workdir =
     bnd (new_socket H) (\<lambda>_. try_finally (try_except (ask_result H workdir) (retry_later H)) (close_socket H))"

partial_function (option) await_loop ::
    "'w host \<Rightarrow> string \<Rightarrow> real \<Rightarrow> string option \<Rightarrow> 'w vm_state \<Rightarrow> (pyval result \<times> 'w vm_state) option" where
  "await_loop H workdir deadline last_err s =
     bnd (now H) (\<lambda>t s.
       if t < deadline then
         bnd (poll_result H workdir) (\<lambda>r s.
           case r of Inl why \<Rightarrow> await_loop H workdir deadline (Some why) s | Inr v \<Rightarrow> ret v s) s
       else throw (DispatchError (''timed out waiting for guest result: ''
              @ (case last_err of None \<Rightarrow> ''None'' | Some e \<Rightarrow> e))) s) s"

definition await_result :: "firecracker \<Rightarrow> 'w host \<Rightarrow> string \<Rightarrow> ('w, pyval) io" where
  "await_result F H workdir =
     bnd (now H) (\<lambda>t. await_loop H workdir (fl (t + real_of_int (wallclock_seconds (fc_config F)))) None)"

section \<open>Shutting down\<close>

definition end_process :: "'w host \<Rightarrow> nat \<Rightarrow> ('w, unit) io" where
  "end_process H pid =
     try_except (wait_process H pid 5) (\<lambda>e.
       if e = TimeoutExpired then bnd (kill_process H pid) (\<lambda>_. suppress (wait_process H pid 2)) else throw e)"

definition teardown :: "'w host \<Rightarrow> string \<Rightarrow> ('w, unit) io" where
  "teardown H socket_path =
     bnd (suppress (api_put H socket_path ''/actions'' [(VStr ''action_type'', VStr ''SendCtrlAltDel'')])) (\<lambda>_ s.
     bnd (set_process None) (\<lambda>_.
       case vm_process s of None \<Rightarrow> ret () | Some pid \<Rightarrow> end_process H pid) s)"

section \<open>Dispatching a job\<close>

text \<open>\<open>payload[key]\<close> on what \<open>json.loads\<close> returned.\<close>

definition payload_item :: "pyval \<Rightarrow> string \<Rightarrow> pyval result" where
  "payload_item payload key =
     (case payload of
        VDict d \<Rightarrow> get_item d key
      | VList vs \<Rightarrow> Inl (TypeError ''list indices must be integers or slices, not str'')
      | VStr t \<Rightarrow> Inl (TypeError ''string indices must be integers'')
      | _ \<Rightarrow> Inl (TypeError ''object is not subscriptable''))"

definition payload_get :: "pyval \<Rightarrow> string \<Rightarrow> pyval \<Rightarrow> pyval result" where
  "payload_get payload key absent =
     (case payload of
        VDict d \<Rightarrow> Inr (case map_of d (VStr key) of None \<Rightarrow> absent | Some v \<Rightarrow> v)
      | _ \<Rightarrow> Inl (AttributeError ''get''))"

definition result_of_payload :: "pyval \<Rightarrow> untyped_result result" where
  "result_of_payload payload =
     andthen (payload_item payload ''record_hash'') (\<lambda>record_hash.
     andthen (payload_item payload ''score'') (\<lambda>score.
     andthen (payload_item payload ''metrics'') (\<lambda>metrics.
     andthen (payload_item payload ''spec_hash'') (\<lambda>spec_hash.
     andthen (payload_item payload ''tool_digests'') (\<lambda>tool_digests.
     andthen (payload_get payload ''sidecars'' (VDict [])) (\<lambda>sidecars.
     Inr \<lparr>dr_record_hash = record_hash, dr_score = score, dr_metrics = metrics, dr_spec_hash = spec_hash,
           dr_tool_digests = tool_digests, dr_sidecars = sidecars\<rparr>))))))"

definition digest_gate :: "firecracker \<Rightarrow> 'w host \<Rightarrow> ('w, unit) io" where
  "digest_gate F H =
     (case config_assert_digests (h_libs H) (h_files H) (fc_config F) of
        Inl (ToolDigestMismatchError m) \<Rightarrow> boot_failure ''digest_mismatch'' (DispatchError m)
      | r \<Rightarrow> of_result r)"

text \<open>The handler for \<open>TimeoutExpired\<close> around scoring.\<close>

definition wallclock_handler :: "exn \<Rightarrow> ('w, pyval) io" where
  "wallclock_handler e =
     throw (if e = TimeoutExpired then DispatchError ''VM exceeded wallclock cap'' else e)"

definition score_in_vm :: "firecracker \<Rightarrow> 'w host \<Rightarrow> JobRecord \<Rightarrow> string \<Rightarrow> ('w, pyval) io" where
  "score_in_vm F H job workdir =
     try_finally
       (try_except (bnd (send_job H job workdir) (\<lambda>_. await_result F H workdir)) wallclock_handler)
       (bnd (teardown H (vm_socket workdir)) (\<lambda>_. rmtree H workdir))"

definition dispatch_vm :: "firecracker \<Rightarrow> 'w host \<Rightarrow> JobRecord \<Rightarrow> ('w, untyped_result) io" where
  "dispatch_vm F H job =
     (if \<not> fc_available F
      then throw (DispatchError (''Firecracker dispatch is only supported on Linux/KVM hosts; current platform: '' @ h_platform H))
      else
        bnd (digest_gate F H) (\<lambda>_.
        bnd (mkdtemp H ''cce-fc-'') (\<lambda>workdir.
        bnd (spawn_vm F H (vm_socket workdir) workdir) (\<lambda>_.
        bnd (score_in_vm F H job workdir) (\<lambda>payload.
        of_result (result_of_payload payload))))))"

end
