(* ===== verification/VmLaws.thy ===== *)
theory VmLaws
  imports Firecracker "HOL-Library.Sublist"
begin

text \<open>
  What the VM dispatcher does to its host.

  \<open>steady\<close> is a contract on a computation that keeps the process handle: how its result and its
  calls are related. With one rule per combinator, and fixed point induction for the loops, the contracts
  compose to \<open>vm_run\<close>, the specification of a dispatch as the calls it may make in order.
\<close>

section \<open>Contracts\<close>

definition steady :: "('w, 'x) io \<Rightarrow> ('x result \<Rightarrow> call list \<Rightarrow> bool) \<Rightarrow> bool" where
  "steady m P \<longleftrightarrow> (\<forall>s r s'. m s = Some (r, s') \<longrightarrow>
     vm_process s' = vm_process s \<and> (\<exists>cs. vm_calls s' = vm_calls s @ cs \<and> P r cs))"

lemma steadyI [intro?]:
  "(\<And>s r s'. m s = Some (r, s') \<Longrightarrow> vm_process s' = vm_process s \<and> (\<exists>cs. vm_calls s' = vm_calls s @ cs \<and> P r cs))
   \<Longrightarrow> steady m P"
  by (simp add: steady_def)

lemma steadyD:
  assumes "steady m P" "m s = Some (r, s')"
  obtains cs where "vm_process s' = vm_process s" "vm_calls s' = vm_calls s @ cs" "P r cs"
  using assms unfolding steady_def by blast

lemma steady_weaken: "steady m P \<Longrightarrow> (\<And>r cs. P r cs \<Longrightarrow> Q r cs) \<Longrightarrow> steady m Q"
  unfolding steady_def by blast

lemma steady_ret: "P (Inr x) [] \<Longrightarrow> steady (ret x) P"
  by (simp add: steady_def ret_def)

lemma steady_throw: "P (Inl e) [] \<Longrightarrow> steady (throw e) P"
  by (simp add: steady_def throw_def)

lemma steady_of_result: "P r [] \<Longrightarrow> steady (of_result r) P"
  by (simp add: steady_def of_result_def)

lemma steady_boot_failure: "P (Inl e) [] \<Longrightarrow> steady (boot_failure reason e) P"
  by (simp add: steady_def boot_failure_def throw_def)

lemma steady_act:
  "(\<And>m. P (Inl (OSError m)) (note (Inl m))) \<Longrightarrow> (\<And>x. P (Inr x) (note (Inr x))) \<Longrightarrow> steady (act f note) P"
  by (auto simp: steady_def act_def split: prod.splits sum.splits)

lemma steady_bnd:
  assumes "steady m P" "\<And>x cs. P (Inr x) cs \<Longrightarrow> steady (f x) (Q x)"
    and "\<And>e cs. P (Inl e) cs \<Longrightarrow> R (Inl e) cs"
    and "\<And>x r c1 c2. P (Inr x) c1 \<Longrightarrow> Q x r c2 \<Longrightarrow> R r (c1 @ c2)"
  shows "steady (bnd m f) R"
proof
  fix s r s'
  assume "bnd m f s = Some (r, s')"
  then consider (raised) e where "m s = Some (Inl e, s')" "r = Inl e"
    | (went) x s1 where "m s = Some (Inr x, s1)" "f x s1 = Some (r, s')"
    by (auto simp: bnd_def split: option.splits prod.splits sum.splits)
  then show "vm_process s' = vm_process s \<and> (\<exists>cs. vm_calls s' = vm_calls s @ cs \<and> R r cs)"
  proof cases
    case raised
    with assms(1,3) show ?thesis by (auto elim: steadyD)
  next
    case went
    from assms(1) went(1) obtain c1 where c1: "vm_process s1 = vm_process s" "vm_calls s1 = vm_calls s @ c1" "P (Inr x) c1"
      by (rule steadyD)
    from assms(2) [OF c1(3)] went(2) obtain c2
      where c2: "vm_process s' = vm_process s1" "vm_calls s' = vm_calls s1 @ c2" "Q x r c2"
      by (rule steadyD)
    from assms(4) [OF c1(3) c2(3)] c1 c2 show ?thesis by simp
  qed
qed

lemma steady_except:
  assumes "steady m P" "\<And>e. steady (h e) (Q e)"
    and "\<And>x cs. P (Inr x) cs \<Longrightarrow> R (Inr x) cs"
    and "\<And>e r c1 c2. P (Inl e) c1 \<Longrightarrow> Q e r c2 \<Longrightarrow> R r (c1 @ c2)"
  shows "steady (try_except m h) R"
proof
  fix s r s'
  assume "try_except m h s = Some (r, s')"
  then consider (went) x where "m s = Some (Inr x, s')" "r = Inr x"
    | (raised) e s1 where "m s = Some (Inl e, s1)" "h e s1 = Some (r, s')"
    by (auto simp: try_except_def split: option.splits prod.splits sum.splits)
  then show "vm_process s' = vm_process s \<and> (\<exists>cs. vm_calls s' = vm_calls s @ cs \<and> R r cs)"
  proof cases
    case went
    with assms(1,3) show ?thesis by (auto elim: steadyD)
  next
    case raised
    from assms(1) raised(1) obtain c1 where c1: "vm_process s1 = vm_process s" "vm_calls s1 = vm_calls s @ c1" "P (Inl e) c1"
      by (rule steadyD)
    from assms(2) raised(2) obtain c2 where c2: "vm_process s' = vm_process s1" "vm_calls s' = vm_calls s1 @ c2" "Q e r c2"
      by (rule steadyD)
    from assms(4) [OF c1(3) c2(3)] c1 c2 show ?thesis by simp
  qed
qed

lemma finally_cases:
  assumes "try_finally m fin s = Some (r, s')"
  obtains r1 s1 where "m s = Some (r1, s1)" "fin s1 = Some (Inr (), s')" "r = r1"
    | r1 s1 e where "m s = Some (r1, s1)" "fin s1 = Some (Inl e, s')" "r = Inl e"
  using assms by (auto simp: try_finally_def split: option.splits prod.splits sum.splits)

lemma steady_finally:
  assumes "steady m P" "steady fin Q"
    and "\<And>r c1 c2. P r c1 \<Longrightarrow> Q (Inr ()) c2 \<Longrightarrow> R r (c1 @ c2)"
    and "\<And>r e c1 c2. P r c1 \<Longrightarrow> Q (Inl e) c2 \<Longrightarrow> R (Inl e) (c1 @ c2)"
  shows "steady (try_finally m fin) R"
proof
  fix s r s'
  assume "try_finally m fin s = Some (r, s')"
  then obtain r1 s1 q where run: "m s = Some (r1, s1)" "fin s1 = Some (q, s')"
    and r: "r = (case q of Inl e \<Rightarrow> Inl e | Inr u \<Rightarrow> r1)"
    by (cases rule: finally_cases) auto
  from assms(1) run(1) obtain c1 where c1: "vm_process s1 = vm_process s" "vm_calls s1 = vm_calls s @ c1" "P r1 c1"
    by (rule steadyD)
  from assms(2) run(2) obtain c2 where c2: "vm_process s' = vm_process s1" "vm_calls s' = vm_calls s1 @ c2" "Q q c2"
    by (rule steadyD)
  from c1 c2 r assms(3) [OF c1(3), of c2] assms(4) [OF c1(3), of _ c2]
  show "vm_process s' = vm_process s \<and> (\<exists>cs. vm_calls s' = vm_calls s @ cs \<and> R r cs)"
    by (cases q) auto
qed

section \<open>What is said to whom\<close>

fun talk :: "call \<Rightarrow> bool" where
  "talk (Connect p) = True"
| "talk (SendAll p b) = True"
| "talk (Received b) = True"
| "talk Shutdown = True"
| "talk Close = True"
| "talk (Slept d) = True"
| "talk c = False"

fun sents :: "call list \<Rightarrow> (string \<times> string) list" where
  "sents [] = []"
| "sents (SendAll p b # cs) = (p, b) # sents cs"
| "sents (c # cs) = sents cs"

lemma sents_append [simp]: "sents (cs @ ds) = sents cs @ sents ds"
  by (induction cs rule: sents.induct) simp_all

text \<open>A computation that only talks, and what it says.\<close>

definition says :: "('w, 'x) io \<Rightarrow> ('x result \<Rightarrow> (string \<times> string) list \<Rightarrow> bool) \<Rightarrow> bool" where
  "says m B \<longleftrightarrow> steady m (\<lambda>r cs. list_all talk cs \<and> B r (sents cs))"

abbreviation silent :: "('w, 'x) io \<Rightarrow> bool" where
  "silent m \<equiv> says m (\<lambda>r b. b = [])"

lemma says_weaken: "says m A \<Longrightarrow> (\<And>r b. A r b \<Longrightarrow> B r b) \<Longrightarrow> says m B"
  unfolding says_def by (erule steady_weaken) simp

lemma says_bnd:
  assumes "says m A" "\<And>x b. A (Inr x) b \<Longrightarrow> says (f x) (B x)" "\<And>e b. A (Inl e) b \<Longrightarrow> C (Inl e) b"
    and "\<And>x r b b'. A (Inr x) b \<Longrightarrow> B x r b' \<Longrightarrow> C r (b @ b')"
  shows "says (bnd m f) C"
  unfolding says_def
proof (rule steady_bnd [OF assms(1) [unfolded says_def]])
  show "list_all talk cs \<and> A (Inr x) (sents cs) \<Longrightarrow> steady (f x) (\<lambda>r cs. list_all talk cs \<and> B x r (sents cs))" for x cs
    using assms(2) [of x "sents cs"] by (simp add: says_def)
qed (auto intro: assms(3,4))

lemma says_except:
  assumes "says m A" "\<And>e. says (h e) (B e)" "\<And>x b. A (Inr x) b \<Longrightarrow> C (Inr x) b"
    and "\<And>e r b b'. A (Inl e) b \<Longrightarrow> B e r b' \<Longrightarrow> C r (b @ b')"
  shows "says (try_except m h) C"
  unfolding says_def by (rule steady_except [OF assms(1,2) [unfolded says_def]]) (auto intro: assms(3,4))

lemma says_finally:
  assumes "says m A" "silent fin" "\<And>r b. A r b \<Longrightarrow> C r b" "\<And>r e b. A r b \<Longrightarrow> C (Inl e) b"
  shows "says (try_finally m fin) C"
  unfolding says_def by (rule steady_finally [OF assms(1,2) [unfolded says_def]]) (auto intro: assms(3,4))

lemma silent_bnd: "silent m \<Longrightarrow> (\<And>x. says (f x) C) \<Longrightarrow> (\<And>e. C (Inl e) []) \<Longrightarrow> says (bnd m f) C"
  by (rule says_bnd [where A = "\<lambda>r b. b = []" and B = "\<lambda>x. C"]) auto

lemmas steady_atoms = steady_ret steady_throw steady_of_result steady_boot_failure steady_act

lemma says_atoms:
  "B (Inr x) [] \<Longrightarrow> says (ret x) B"
  "B (Inl e) [] \<Longrightarrow> says (throw e) B"
  "B r [] \<Longrightarrow> says (of_result r) B"
  "B (Inl e) [] \<Longrightarrow> says (boot_failure reason e) B"
  unfolding says_def by (auto intro: steady_atoms)

lemma recv_contract: "(\<And>m. P (Inl (OSError m)) []) \<Longrightarrow> (\<And>c. P (Inr c) [Received c]) \<Longrightarrow> steady (recv H n) P"
  by (auto simp: steady_def recv_def act_def split: option.splits prod.splits sum.splits)

lemma quiet_calls:
  "silent (now H)" "silent (sleep_for H d)" "silent (epoch H)" "silent (path_exists H p)" "silent (is_dir H p)"
  "silent (is_file H p)" "silent (tar_add H p a)" "silent (poll H pid)" "silent (new_socket H)" "silent (connect H p)"
  "silent (recv H n)" "silent (shut_down H)" "silent (close_socket H)"
  unfolding says_def now_def sleep_for_def epoch_def path_exists_def is_dir_def is_file_def tar_add_def poll_def
    new_socket_def connect_def shut_down_def close_socket_def
  by (rule steady_act recv_contract; simp)+

lemma says_sendall: "says (sendall H p b) (\<lambda>r bs. bs = [(p, b)])"
  unfolding says_def sendall_def by (rule steady_act) simp_all

section \<open>The loops\<close>

text \<open>A loop satisfies a contract if its body does whenever the recursive calls do: fixed point
  induction with \<open>fits\<close>, the contract of one outcome.\<close>

definition fits :: "('x result \<Rightarrow> call list \<Rightarrow> bool) \<Rightarrow> 'w vm_state \<Rightarrow> 'x result \<times> 'w vm_state \<Rightarrow> bool" where
  "fits P s y \<longleftrightarrow> vm_process (snd y) = vm_process s \<and> (\<exists>cs. vm_calls (snd y) = vm_calls s @ cs \<and> P (fst y) cs)"

lemma steady_fits: "steady m P \<longleftrightarrow> (\<forall>s y. m s = Some y \<longrightarrow> fits P s y)"
  by (simp add: steady_def fits_def)

lemma says_branch:
  "(b \<Longrightarrow> says f C) \<Longrightarrow> (\<not> b \<Longrightarrow> says g C) \<Longrightarrow> says (\<lambda>s. if b then f s else g s) C"
  "(b \<Longrightarrow> says f C) \<Longrightarrow> (\<not> b \<Longrightarrow> says g C) \<Longrightarrow> says (if b then f else g) C"
  by (cases b; simp)+

lemmas says_intros = says_branch says_atoms silent_bnd quiet_calls

lemma silent_read_response: "silent (read_response H response)"
  unfolding says_def steady_fits
proof (intro allI impI, erule read_response.raw_induct [rotated])
  fix loop H response s y
  assume IH: "\<And>H response s y. loop H response s = Some y \<Longrightarrow> fits (\<lambda>r cs. list_all talk cs \<and> sents cs = []) s y"
    and step: "bnd (recv H 4096) (\<lambda>chunk s.
       if chunk = [] then ret response s
       else if occurs (crlf @ crlf) (response @ chunk) \<and> occurs ''Content-Length: 0'' (response @ chunk)
       then ret (response @ chunk) s else loop H (response @ chunk) s) s = Some y" (is "?body s = _")
  have "silent (loop H resp)" for resp
    unfolding says_def steady_fits using IH by blast
  then have "silent ?body"
    by (intro says_intros) simp_all
  with step show "fits (\<lambda>r cs. list_all talk cs \<and> sents cs = []) s y"
    unfolding says_def steady_fits by blast
qed

lemma silent_wait_for_socket: "silent (wait_for_socket H socket_path pid deadline)"
  unfolding says_def steady_fits
proof (intro allI impI, erule wait_for_socket.raw_induct [rotated])
  fix loop H socket_path pid deadline s y
  assume IH: "\<And>H socket_path pid deadline s y. loop H socket_path pid deadline s = Some y \<Longrightarrow>
      fits (\<lambda>r cs. list_all talk cs \<and> sents cs = []) s y"
    and step: "bnd (now H) (\<lambda>t s.
       if t < deadline then
         bnd (path_exists H socket_path) (\<lambda>there s.
           if there then ret () s
           else bnd (poll H pid) (\<lambda>returncode s.
             if returncode \<noteq> None
             then boot_failure ''firecracker_exited_before_socket''
                    (DispatchError (''firecracker exited before opening API socket (exit code ''
                       @ string_of_int (the returncode) @ '')'')) s
             else bnd (sleep_for H (fl (5 / 100))) (\<lambda>_ s. loop H socket_path pid deadline s) s) s) s
       else boot_failure ''api_socket_timeout'' (DispatchError ''timed out waiting for firecracker API socket'') s) s
     = Some y" (is "?body s = _")
  have "silent (loop H socket_path pid deadline)"
    unfolding says_def steady_fits using IH by blast
  then have "silent ?body"
    by (intro says_intros) simp_all
  with step show "fits (\<lambda>r cs. list_all talk cs \<and> sents cs = []) s y"
    unfolding says_def steady_fits by blast
qed

section \<open>The API socket\<close>

definition api_message :: "string \<times> mapping_value \<Rightarrow> string" where
  "api_message step = (case json_dumps False (VDict (snd step)) of Inl e \<Rightarrow> [] | Inr payload \<Rightarrow> api_request (fst step) payload)"

lemma says_api_put:
  "says (api_put H p route body) (\<lambda>r bs. prefix bs [(p, api_message (route, body))]
     \<and> (r = Inr () \<longrightarrow> bs = [(p, api_message (route, body))]))"
proof (cases "json_dumps False (VDict body)")
  case (Inl e)
  then show ?thesis
    unfolding api_put_def by (auto simp: bnd_def of_result_def says_def steady_def)
next
  case (Inr payload)
  let ?one = "[(p, api_request route payload)]"
  have sent: "says (sendall H p (api_request route payload)) (\<lambda>r bs. bs = ?one)" by (rule says_sendall)
  have exchange: "says (bnd (sendall H p (api_request route payload)) (\<lambda>_. read_response H [])) (\<lambda>r bs. bs = ?one)"
    by (rule says_bnd [OF sent silent_read_response]) auto
  have "says (bnd (connect H p) (\<lambda>_. bnd (sendall H p (api_request route payload)) (\<lambda>_. read_response H [])))
      (\<lambda>r bs. prefix bs ?one \<and> ((\<exists>x. r = Inr x) \<longrightarrow> bs = ?one))"
    by (rule silent_bnd [OF quiet_calls(10)]) (auto intro: says_weaken [OF exchange])
  then have talked: "says (try_finally (bnd (connect H p) (\<lambda>_. bnd (sendall H p (api_request route payload)) (\<lambda>_. read_response H [])))
      (close_socket H)) (\<lambda>r bs. prefix bs ?one \<and> ((\<exists>x. r = Inr x) \<longrightarrow> bs = ?one))"
    by (rule says_finally [OF _ quiet_calls(13)]) auto
  have checked: "silent (if occurs '' 200 '' (first_line response) \<or> occurs '' 204 '' (first_line response) then ret ()
     else throw (DispatchError (''firecracker API '' @ route @ '' failed: '' @ first_line response)))" for response
    by (intro says_intros) simp_all
  have "bnd (of_result (Inr payload)) f = f payload" for f :: "string \<Rightarrow> ('a, unit) io"
    by (simp add: fun_eq_iff bnd_def of_result_def)
  then show ?thesis
    unfolding api_put_def Inr api_message_def fst_conv snd_conv sum.case
    by simp (rule silent_bnd [OF quiet_calls(9)], rule says_bnd [OF talked checked], auto)
qed


lemma says_api_puts:
  "says (api_puts H p steps) (\<lambda>r bs. prefix bs (map (\<lambda>st. (p, api_message st)) steps)
     \<and> (r = Inr () \<longrightarrow> bs = map (\<lambda>st. (p, api_message st)) steps))"
proof (induction steps)
  case Nil
  show ?case by (auto intro: says_atoms)
next
  case (Cons step steps)
  obtain route body where step: "step = (route, body)" by (cases step)
  show ?case unfolding step api_puts.simps
    by (rule says_bnd [OF says_api_put Cons.IH]) (auto simp: prefix_Cons)
qed

section \<open>The vsock\<close>

lemma steady_conj: "steady m P \<Longrightarrow> steady m Q \<Longrightarrow> steady m (\<lambda>r cs. P r cs \<and> Q r cs)"
  unfolding steady_def by fastforce

text \<open>The archive a job is sent as: perhaps the repository, perhaps the spec, and the job's description.\<close>

definition archive_of :: "'w host \<Rightarrow> JobRecord \<Rightarrow> string \<Rightarrow> bool" where
  "archive_of H job a \<longleftrightarrow> (\<exists>members meta. json_dumps False (VDict (job_meta job)) = Inr meta
     \<and> a = h_tar_close H (members @ h_tar_entry H ''job.json'' meta))"

lemma says_job_archive: "says (job_archive H job) (\<lambda>r bs. bs = [] \<and> (\<forall>a. r = Inr a \<longrightarrow> archive_of H job a))"
proof -
  have finish: "says (bnd (of_result (json_dumps False (VDict (job_meta job)))) (\<lambda>meta.
      ret (h_tar_close H (repo @ spec @ h_tar_entry H ''job.json'' meta))))
      (\<lambda>r bs. bs = [] \<and> (\<forall>a. r = Inr a \<longrightarrow> archive_of H job a))" for repo spec
    by (cases "json_dumps False (VDict (job_meta job))")
      (auto simp: says_def steady_def bnd_def of_result_def ret_def archive_of_def simp flip: append_assoc)
  have maybe: "silent (if b then tar_add H q name else ret [])" for b q name
    by (intro says_intros) simp_all
  show ?thesis unfolding job_archive_def
    by (intro silent_bnd quiet_calls maybe finish) simp_all
qed

abbreviation vsock_says :: "string \<Rightarrow> string \<Rightarrow> string \<times> string" where
  "vsock_says workdir b \<equiv> (vsock_uds workdir, b)"

definition job_messages :: "'w host \<Rightarrow> JobRecord \<Rightarrow> string \<Rightarrow> (string \<times> string) list \<Rightarrow> bool" where
  "job_messages H job workdir bs \<longleftrightarrow>
     (\<exists>a. archive_of H job a \<and> bs = [vsock_says workdir (connect_line PORT_INGEST), vsock_says workdir a])"

lemma says_send_job:
  "says (send_job H job workdir) (\<lambda>r bs. (bs = [] \<or> bs = [vsock_says workdir (connect_line PORT_INGEST)] \<or> job_messages H job workdir bs)
     \<and> (r = Inr () \<longrightarrow> job_messages H job workdir bs))"
proof -
  let ?B = "\<lambda>r bs. (bs = [] \<or> bs = [vsock_says workdir (connect_line PORT_INGEST)] \<or> job_messages H job workdir bs)
     \<and> (r = Inr () \<longrightarrow> job_messages H job workdir bs)"
  have send: "says (sendall H (vsock_uds workdir) b) (\<lambda>r bs. bs = [vsock_says workdir b])" for b
    by (rule says_sendall)
  have archive: "says (bnd (sendall H (vsock_uds workdir) a) (\<lambda>_. shut_down H)) (\<lambda>r bs. bs = [vsock_says workdir a])" for a
    by (rule says_bnd [OF send quiet_calls(12)]) auto
  have ack: "says (bnd (recv H 64) (\<lambda>ack.
        if \<not> starts_with ''OK'' ack then throw (DispatchError (''vsock ingest CONNECT failed: '' @ repr_bytes ack))
        else bnd (sendall H (vsock_uds workdir) a) (\<lambda>_. shut_down H)))
      (\<lambda>r bs. bs = [] \<and> (\<exists>e. r = Inl e) \<or> bs = [vsock_says workdir a])" for a
    by (intro silent_bnd quiet_calls says_branch says_atoms says_weaken [OF archive]) simp_all
  have talked: "archive_of H job a \<Longrightarrow> says (bnd (connect H (vsock_uds workdir)) (\<lambda>_.
        bnd (sendall H (vsock_uds workdir) (connect_line PORT_INGEST)) (\<lambda>_. bnd (recv H 64) (\<lambda>ack.
        if \<not> starts_with ''OK'' ack then throw (DispatchError (''vsock ingest CONNECT failed: '' @ repr_bytes ack))
        else bnd (sendall H (vsock_uds workdir) a) (\<lambda>_. shut_down H))))) ?B" for a
    by (intro silent_bnd quiet_calls says_bnd [OF send ack]) (auto simp: job_messages_def)
  have "archive_of H job a \<Longrightarrow> says (bnd (new_socket H) (\<lambda>_. try_finally (bnd (connect H (vsock_uds workdir)) (\<lambda>_.
        bnd (sendall H (vsock_uds workdir) (connect_line PORT_INGEST)) (\<lambda>_. bnd (recv H 64) (\<lambda>ack.
        if \<not> starts_with ''OK'' ack then throw (DispatchError (''vsock ingest CONNECT failed: '' @ repr_bytes ack))
        else bnd (sendall H (vsock_uds workdir) a) (\<lambda>_. shut_down H))))) (close_socket H))) ?B" for a
    by (intro silent_bnd quiet_calls says_finally [OF talked quiet_calls(13)]) auto
  then show ?thesis unfolding send_job_def
    by (intro says_bnd [OF says_job_archive]) auto
qed

section \<open>The result\<close>

lemma steady_branch:
  "(b \<Longrightarrow> steady f C) \<Longrightarrow> (\<not> b \<Longrightarrow> steady g C) \<Longrightarrow> steady (\<lambda>s. if b then f s else g s) C"
  "(b \<Longrightarrow> steady f C) \<Longrightarrow> (\<not> b \<Longrightarrow> steady g C) \<Longrightarrow> steady (if b then f else g) C"
  by (cases b; simp)+

definition streamed :: "string \<Rightarrow> call list \<Rightarrow> bool" where
  "streamed body cs \<longleftrightarrow> (\<exists>chunks. cs = map Received chunks @ [Received []] \<and> body = concat chunks)"

lemma streamed_Nil: "streamed [] [Received []]"
  by (auto simp: streamed_def intro: exI [of _ "[]"])

lemma streamed_Cons: "streamed body cs \<Longrightarrow> streamed (c @ body) (Received c # cs)"
  unfolding streamed_def by (metis append_Cons concat.simps(2) list.simps(9))

definition reads :: "string \<Rightarrow> string result \<Rightarrow> call list \<Rightarrow> bool" where
  "reads acc r cs \<longleftrightarrow> list_all talk cs \<and> sents cs = [] \<and> (\<forall>t. r = Inr t \<longrightarrow> (\<exists>body. t = acc @ body \<and> streamed body cs))"

lemma reads_step:
  "reads acc (Inr acc) [Received []]"
  "reads (acc @ c) r cs \<Longrightarrow> reads acc r (Received c # cs)"
  by (auto simp: reads_def intro: streamed_Nil streamed_Cons)

lemma steady_read_all: "steady (read_all H acc) (reads acc)"
  unfolding steady_fits
proof (intro allI impI, erule read_all.raw_induct [rotated])
  fix loop H acc s y
  assume IH: "\<And>H acc s y. loop H acc s = Some y \<Longrightarrow> fits (reads acc) s y"
    and step: "bnd (recv H 65536) (\<lambda>chunk s. if chunk = [] then ret acc s else loop H (acc @ chunk) s) s = Some y" (is "?body s = _")
  have "steady (loop H acc') (reads acc')" for acc'
    unfolding steady_fits using IH by blast
  then have rest: "steady (\<lambda>s. if chunk = [] then ret acc s else loop H (acc @ chunk) s)
      (\<lambda>r cs. if chunk = [] then r = Inr acc \<and> cs = [] else reads (acc @ chunk) r cs)" for chunk
    by (cases "chunk = []") (auto intro: steady_ret)
  have "steady ?body (reads acc)"
  proof (rule steady_bnd [OF _ rest])
    show "steady (recv H 65536) (\<lambda>r cs. case r of Inl e \<Rightarrow> cs = [] | Inr c \<Rightarrow> cs = [Received c])"
      by (rule recv_contract) simp_all
  next
    fix x r c1 c2
    assume "case Inr x of Inl e \<Rightarrow> c1 = [] | Inr c \<Rightarrow> c1 = [Received c]"
      and "if x = [] then r = Inr acc \<and> c2 = [] else reads (acc @ x) r c2"
    then show "reads acc r (c1 @ c2)"
      by (cases "x = []") (auto intro: reads_step)
  qed (simp add: reads_def)
  with step show "fits (reads acc) s y"
    unfolding steady_fits by blast
qed

text \<open>What polling says and how its result relates to what was received.\<close>

definition delivered :: "'w host \<Rightarrow> pyval \<Rightarrow> call list \<Rightarrow> bool" where
  "delivered H v cs \<longleftrightarrow> (\<exists>pre body rest. cs = pre @ rest \<and> streamed body rest \<and> body \<noteq> [] \<and> json_loads (h_libs H) body = Some v)"

lemma delivered_prepend: "delivered H v ds \<Longrightarrow> delivered H v (cs @ ds)"
  unfolding delivered_def by (metis append_assoc)

lemma deliveredI: "streamed body cs \<Longrightarrow> body \<noteq> [] \<Longrightarrow> json_loads (h_libs H) body = Some v \<Longrightarrow> delivered H v cs"
  unfolding delivered_def by (metis append_Nil)

definition asks :: "'w host \<Rightarrow> string \<Rightarrow> call list \<Rightarrow> (string + pyval) result \<Rightarrow> call list \<Rightarrow> bool" where
  "asks H workdir after r cs \<longleftrightarrow> list_all talk cs
     \<and> prefix (sents cs) [vsock_says workdir (connect_line PORT_RESULT)]
     \<and> (\<forall>v. r = Inr (Inr v) \<longrightarrow> (\<exists>ds. cs = ds @ after \<and> delivered H v ds))"

lemma steady_silent: "silent m \<Longrightarrow> steady m (\<lambda>r cs. list_all talk cs \<and> sents cs = [])"
  by (simp add: says_def)

lemma asks_prepend: "list_all talk cs \<Longrightarrow> sents cs = [] \<Longrightarrow> asks H workdir after r ds \<Longrightarrow> asks H workdir after r (cs @ ds)"
  unfolding asks_def using delivered_prepend by fastforce

lemma steady_silent_bnd:
  assumes "silent m" "\<And>x. steady (f x) (asks H workdir after)"
  shows "steady (bnd m f) (asks H workdir after)"
proof (rule steady_bnd [OF steady_silent [OF assms(1)] assms(2)])
  show "list_all talk cs \<and> sents cs = [] \<Longrightarrow> asks H workdir after (Inl e) cs" for e cs
    by (simp add: asks_def)
qed (blast intro: asks_prepend)

text \<open>What is said after \<open>CONNECT\<close> was sent: nothing.\<close>

definition answers :: "'w host \<Rightarrow> (string + pyval) result \<Rightarrow> call list \<Rightarrow> bool" where
  "answers H r cs \<longleftrightarrow> list_all talk cs \<and> sents cs = [] \<and> (\<forall>v. r = Inr (Inr v) \<longrightarrow> delivered H v cs)"

lemma steady_answer: "steady
    (bnd (recv H 64) (\<lambda>ack.
     if \<not> starts_with ''OK'' ack then
       bnd (close_socket H) (\<lambda>_. bnd (sleep_for H RESULT_POLL_INTERVAL) (\<lambda>_.
       ret (Inl (''vsock result CONNECT not OK: '' @ repr_bytes ack))))
     else bnd (read_all H []) (\<lambda>body.
       if body = [] then bnd (sleep_for H RESULT_POLL_INTERVAL) (\<lambda>_. ret (Inl ''guest returned empty result''))
       else case json_loads (h_libs H) body of None \<Rightarrow> throw JSONDecodeError | Some v \<Rightarrow> ret (Inr v)))) (answers H)"
proof -
  have not_yet: "says m (\<lambda>r bs. bs = [] \<and> (\<forall>v. r \<noteq> Inr (Inr v))) \<Longrightarrow> steady m (answers H)" for m :: "('a, string + pyval) io"
    unfolding says_def by (erule steady_weaken) (auto simp: answers_def)
  have decoded: "steady (if body = [] then bnd (sleep_for H RESULT_POLL_INTERVAL) (\<lambda>_. ret (Inl ''guest returned empty result''))
       else case json_loads (h_libs H) body of None \<Rightarrow> throw JSONDecodeError | Some v \<Rightarrow> ret (Inr v))
      (\<lambda>r cs. list_all talk cs \<and> sents cs = []
         \<and> (\<forall>v. r = Inr (Inr v) \<longrightarrow> cs = [] \<and> body \<noteq> [] \<and> json_loads (h_libs H) body = Some v))" for body
  proof (cases "body = []")
    case True
    have "says (bnd (sleep_for H RESULT_POLL_INTERVAL) (\<lambda>_. ret (Inl ''guest returned empty result'')))
        (\<lambda>r bs. bs = [] \<and> (\<forall>v. r \<noteq> Inr (Inr v)))"
      by (intro says_intros) simp_all
    with True show ?thesis unfolding says_def by (auto elim: steady_weaken)
  next
    case False
    then show ?thesis by (cases "json_loads (h_libs H) body") (auto intro: steady_ret steady_throw)
  qed
  have body: "steady (bnd (read_all H []) (\<lambda>body.
       if body = [] then bnd (sleep_for H RESULT_POLL_INTERVAL) (\<lambda>_. ret (Inl ''guest returned empty result''))
       else case json_loads (h_libs H) body of None \<Rightarrow> throw JSONDecodeError | Some v \<Rightarrow> ret (Inr v))) (answers H)"
    by (rule steady_bnd [OF steady_read_all decoded]) (auto simp: reads_def answers_def intro: deliveredI)
  have refused: "steady (bnd (close_socket H) (\<lambda>_. bnd (sleep_for H RESULT_POLL_INTERVAL) (\<lambda>_.
       ret (Inl (''vsock result CONNECT not OK: '' @ repr_bytes ack))))) (answers H)" for ack
    by (rule not_yet) (intro says_intros; simp)
  show ?thesis
  proof (rule steady_bnd [OF steady_silent [OF quiet_calls(11)]])
    show "list_all talk cs \<and> sents cs = [] \<Longrightarrow> steady (if \<not> starts_with ''OK'' ack then
       bnd (close_socket H) (\<lambda>_. bnd (sleep_for H RESULT_POLL_INTERVAL) (\<lambda>_.
       ret (Inl (''vsock result CONNECT not OK: '' @ repr_bytes ack))))
     else bnd (read_all H []) (\<lambda>body.
       if body = [] then bnd (sleep_for H RESULT_POLL_INTERVAL) (\<lambda>_. ret (Inl ''guest returned empty result''))
       else case json_loads (h_libs H) body of None \<Rightarrow> throw JSONDecodeError | Some v \<Rightarrow> ret (Inr v))) (answers H)" for ack cs
      using body refused by (intro steady_branch)
  qed (auto simp: answers_def intro: delivered_prepend)
qed


lemma steady_ask_result: "steady (ask_result H workdir) (asks H workdir [])"
proof -
  have send: "steady (sendall H (vsock_uds workdir) b) (\<lambda>r cs. cs = [SendAll (vsock_uds workdir) b])" for b
    unfolding sendall_def by (rule steady_act) simp_all
  show ?thesis unfolding ask_result_def
    by (rule steady_silent_bnd [OF quiet_calls(10)], rule steady_bnd [OF send steady_answer])
      (auto simp: asks_def answers_def intro: delivered_prepend [of _ _ _ "[_]", simplified])
qed

lemma steady_poll_result: "steady (poll_result H workdir) (asks H workdir [Close])"
proof -
  have later: "steady (retry_later H e) (\<lambda>r cs. list_all talk cs \<and> sents cs = [] \<and> (\<forall>v. r \<noteq> Inr (Inr v)))" for e
  proof -
    have "says (retry_later H e) (\<lambda>r bs. bs = [] \<and> (\<forall>v. r \<noteq> Inr (Inr v)))"
      unfolding retry_later_def by (cases e) (auto intro!: says_intros)
    then show ?thesis unfolding says_def by (rule steady_weaken) simp
  qed
  have close: "steady (close_socket H) (\<lambda>r cs. cs = [Close] \<and> r = Inr ())"
    unfolding close_socket_def by (simp add: steady_def act_def)
  have caught: "steady (try_except (ask_result H workdir) (retry_later H)) (asks H workdir [])"
    by (rule steady_except [OF steady_ask_result later]) (auto simp: asks_def)
  show ?thesis unfolding poll_result_def
    by (intro steady_silent_bnd quiet_calls, rule steady_finally [OF caught close]) (auto simp: asks_def)
qed

definition waits :: "'w host \<Rightarrow> string \<Rightarrow> pyval result \<Rightarrow> call list \<Rightarrow> bool" where
  "waits H workdir r cs \<longleftrightarrow> list_all talk cs
     \<and> (\<exists>n. sents cs = replicate n (vsock_says workdir (connect_line PORT_RESULT)))
     \<and> (\<forall>v. r = Inr v \<longrightarrow> (\<exists>ds. cs = ds @ [Close] \<and> delivered H v ds))"

lemma waits_prepend:
  assumes "asks H workdir after r ds" "waits H workdir q cs"
  shows "waits H workdir q (ds @ cs)"
proof -
  let ?m = "vsock_says workdir (connect_line PORT_RESULT)"
  from assms(1) have "sents ds = [] \<or> sents ds = [?m]"
    by (auto simp: asks_def prefix_Cons)
  moreover from assms(2) obtain n where "sents cs = replicate n ?m" by (auto simp: waits_def)
  ultimately have "\<exists>n. sents (ds @ cs) = replicate n ?m"
    by (metis append_Cons append_Nil replicate_Suc sents_append)
  moreover have "\<exists>es. ds @ cs = es @ [Close] \<and> delivered H v es" if "q = Inr v" for v
    using assms(2) that unfolding waits_def by (metis append_assoc delivered_prepend)
  ultimately show ?thesis using assms unfolding waits_def asks_def by simp
qed

lemma waits_quiet: "list_all talk cs \<Longrightarrow> sents cs = [] \<Longrightarrow> waits H workdir q ds \<Longrightarrow> waits H workdir q (cs @ ds)"
  using waits_prepend [of H workdir "[]" "Inl JSONDecodeError" cs q ds] by (simp add: asks_def)

lemma steady_await_loop: "steady (await_loop H workdir deadline last_err) (waits H workdir)"
  unfolding steady_fits
proof (intro allI impI, erule await_loop.raw_induct [rotated])
  fix loop H workdir deadline last_err s y
  assume IH: "\<And>H workdir deadline last_err s y. loop H workdir deadline last_err s = Some y \<Longrightarrow> fits (waits H workdir) s y"
    and step: "bnd (now H) (\<lambda>t s.
       if t < deadline then
         bnd (poll_result H workdir) (\<lambda>r s.
           case r of Inl why \<Rightarrow> loop H workdir deadline (Some why) s | Inr v \<Rightarrow> ret v s) s
       else throw (DispatchError (''timed out waiting for guest result: ''
              @ (case last_err of None \<Rightarrow> ''None'' | Some e \<Rightarrow> e))) s) s = Some y" (is "?body s = _")
  have again: "steady (loop H workdir deadline e) (waits H workdir)" for e
    unfolding steady_fits using IH by blast
  have next_round: "steady (\<lambda>s. case r of Inl why \<Rightarrow> loop H workdir deadline (Some why) s | Inr v \<Rightarrow> ret v s)
      (\<lambda>q cs. case r of Inl why \<Rightarrow> waits H workdir q cs | Inr v \<Rightarrow> q = Inr v \<and> cs = [])" for r
    using again by (cases r) (auto intro: steady_ret)
  have round: "steady (bnd (poll_result H workdir) (\<lambda>r s.
           case r of Inl why \<Rightarrow> loop H workdir deadline (Some why) s | Inr v \<Rightarrow> ret v s)) (waits H workdir)"
  proof (rule steady_bnd [OF steady_poll_result next_round])
    show "asks H workdir [Close] (Inl e) cs \<Longrightarrow> waits H workdir (Inl e) cs" for e cs
      using waits_prepend [of H workdir "[Close]" "Inl e" cs "Inl e" "[]"] by (simp add: waits_def)
    show "waits H workdir q (c1 @ c2)"
      if "asks H workdir [Close] (Inr r) c1" "case r of Inl why \<Rightarrow> waits H workdir q c2 | Inr v \<Rightarrow> q = Inr v \<and> c2 = []" for r q c1 c2
    proof (cases r)
      case (Inl why)
      with that show ?thesis by (auto intro: waits_prepend)
    next
      case (Inr v)
      with that have "waits H workdir (Inl JSONDecodeError) c1"
        using waits_prepend [of H workdir "[Close]" "Inr r" c1 "Inl JSONDecodeError" "[]"] by (simp add: waits_def)
      with that Inr show ?thesis by (auto simp: waits_def asks_def)
    qed
  qed
  have "steady (\<lambda>s. if t < deadline then bnd (poll_result H workdir) (\<lambda>r s.
           case r of Inl why \<Rightarrow> loop H workdir deadline (Some why) s | Inr v \<Rightarrow> ret v s) s
       else throw e s) (waits H workdir)" for t e
    by (intro steady_branch round steady_throw) (simp add: waits_def)
  note body = this
  have "steady ?body (waits H workdir)"
  proof (rule steady_bnd [OF steady_silent [OF quiet_calls(1)] body])
    show "list_all talk cs \<and> sents cs = [] \<Longrightarrow> waits H workdir (Inl e) cs" for e cs
      by (simp add: waits_def)
  qed (blast intro: waits_quiet)
  with step show "fits (waits H workdir) s y"
    unfolding steady_fits by blast
qed

end
