(* ===== verification/VmRun.thy ===== *)
theory VmRun
  imports VmLaws
begin

text \<open>
  The specification of a dispatch to a microVM, \<open>vm_run\<close>: which calls it makes in which order,
  and how its result relates to them. \<open>vm_lifecycle\<close> shows that the dispatcher meets it.
\<close>

section \<open>Specification\<close>

definition artifacts_ok :: "firecracker \<Rightarrow> 'w host \<Rightarrow> bool" where
  "artifacts_ok F H \<longleftrightarrow> list_all (\<lambda>(name, p, digest). re_dollar sha256_text digest
     \<and> (case h_files H p of None \<Rightarrow> False | Some bytes \<Rightarrow> digest = ''sha256:'' @ sha256_hex (h_libs H) bytes))
     (pinned_artifacts (fc_config F))"

definition boot_messages :: "FirecrackerConfig \<Rightarrow> string \<Rightarrow> (string \<times> string) list" where
  "boot_messages c workdir = map (\<lambda>st. (vm_socket workdir, api_message st)) (boot_steps c workdir)"

definition stop_message :: "string \<Rightarrow> string \<times> string" where
  "stop_message workdir =
     (vm_socket workdir, api_message (''/actions'', [(VStr ''action_type'', VStr ''SendCtrlAltDel'')]))"

text \<open>What is said while the VM scores: the job, then requests for the result.\<close>

definition work_messages :: "'w host \<Rightarrow> JobRecord \<Rightarrow> string \<Rightarrow> (string \<times> string) list \<Rightarrow> bool" where
  "work_messages H job workdir bs \<longleftrightarrow>
     bs = [] \<or> bs = [vsock_says workdir (connect_line PORT_INGEST)]
     \<or> (\<exists>job_bs n. job_messages H job workdir job_bs
          \<and> bs = job_bs @ replicate n (vsock_says workdir (connect_line PORT_RESULT)))"

definition gone :: "nat \<Rightarrow> call list \<Rightarrow> bool" where
  "gone pid cs \<longleftrightarrow> cs = [Waited pid 5] \<or> cs = [Waited pid 5, Killed pid, Waited pid 2]"

definition os_error :: "'x result \<Rightarrow> bool" where
  "os_error r \<longleftrightarrow> (\<exists>m. r = Inl (OSError m))"

definition stopped :: "nat \<Rightarrow> string \<Rightarrow> call list \<Rightarrow> 'x result \<Rightarrow> bool" where
  "stopped pid workdir cs r \<longleftrightarrow>
     (\<exists>ps. gone pid ps \<and> cs = ps @ [Rmtree workdir]) \<or> cs = [Waited pid 5, Killed pid] \<and> os_error r"

definition returned_by_guest :: "'w host \<Rightarrow> call list \<Rightarrow> untyped_result result \<Rightarrow> bool" where
  "returned_by_guest H work r \<longleftrightarrow>
     (\<forall>result. r = Inr result \<longrightarrow> (\<exists>ds v. work = ds @ [Close] \<and> delivered H v ds \<and> result_of_payload v = Inr result))"

inductive vm_run :: "firecracker \<Rightarrow> 'w host \<Rightarrow> JobRecord \<Rightarrow> call list \<Rightarrow> untyped_result result \<Rightarrow> bool"
  for F :: firecracker and H :: "'w host" and job :: JobRecord where
  refused: "vm_run F H job [] (Inl e)"
| no_process: "fc_available F \<Longrightarrow> artifacts_ok F H \<Longrightarrow> vm_run F H job [Mkdtemp workdir] (Inl e)"
| boot_failed: "fc_available F \<Longrightarrow> artifacts_ok F H \<Longrightarrow> list_all talk boot
    \<Longrightarrow> prefix (sents boot) (boot_messages (fc_config F) workdir)
    \<Longrightarrow> vm_run F H job (Mkdtemp workdir # Popen (jailer_command (fc_config F) chroot workdir) pid # boot) (Inl e)"
| worked: "fc_available F \<Longrightarrow> artifacts_ok F H \<Longrightarrow> list_all talk boot \<Longrightarrow> sents boot = boot_messages (fc_config F) workdir
    \<Longrightarrow> list_all talk work \<Longrightarrow> work_messages H job workdir (sents work) \<Longrightarrow> returned_by_guest H work r
    \<Longrightarrow> list_all talk stop \<Longrightarrow> prefix (sents stop) [stop_message workdir] \<Longrightarrow> stopped pid workdir ends r
    \<Longrightarrow> vm_run F H job (Mkdtemp workdir # Popen (jailer_command (fc_config F) chroot workdir) pid
          # boot @ work @ stop @ ends) r"

section \<open>Shutting down\<close>

lemma bndE:
  assumes "bnd m f s = Some (r, s')"
  obtains e where "m s = Some (Inl e, s')" "r = Inl e"
    | x s1 where "m s = Some (Inr x, s1)" "f x s1 = Some (r, s')"
  using assms by (auto simp: bnd_def split: option.splits prod.splits sum.splits)

lemma steady_end_process:
  "steady (end_process H pid) (\<lambda>r cs. r = Inr () \<and> gone pid cs \<or> os_error r \<and> cs = [Waited pid 5, Killed pid])"
  by (auto simp: steady_def end_process_def try_except_def wait_process_def kill_process_def suppress_def bnd_def
      act_def sure_def ret_def throw_def gone_def os_error_def split: prod.splits sum.splits if_splits option.splits)

lemma steady_ctrl_alt_del:
  "steady (suppress (api_put H (vm_socket workdir) ''/actions'' [(VStr ''action_type'', VStr ''SendCtrlAltDel'')]))
     (\<lambda>r cs. r = Inr () \<and> list_all talk cs \<and> prefix (sents cs) [stop_message workdir])"
  unfolding suppress_def
  by (rule steady_except [OF says_api_put [unfolded says_def], where Q = "\<lambda>e r cs. r = Inr () \<and> cs = []"])
    (auto intro: steady_ret simp: stop_message_def)

lemma teardown_run:
  assumes "teardown H (vm_socket workdir) s = Some (r, s')" "vm_process s = Some pid"
  obtains stop ends where "vm_calls s' = vm_calls s @ stop @ ends" "list_all talk stop"
    "prefix (sents stop) [stop_message workdir]"
    "r = Inr () \<and> gone pid ends \<or> os_error r \<and> ends = [Waited pid 5, Killed pid]"
proof -
  let ?put = "suppress (api_put H (vm_socket workdir) ''/actions'' [(VStr ''action_type'', VStr ''SendCtrlAltDel'')])"
  from assms(1) obtain r1 s1 where put: "?put s = Some (r1, s1)"
    by (auto simp: teardown_def bnd_def split: option.splits)
  from steady_ctrl_alt_del put obtain stop where stop: "vm_process s1 = vm_process s" "vm_calls s1 = vm_calls s @ stop"
    "r1 = Inr ()" "list_all talk stop" "prefix (sents stop) [stop_message workdir]"
    by (rule steadyD) blast
  from assms put stop(1,3) have "end_process H pid (s1\<lparr>vm_process := None\<rparr>) = Some (r, s')"
    by (simp add: teardown_def bnd_def set_process_def ret_def)
  from steadyD [OF steady_end_process this] obtain ends where "vm_calls s' = vm_calls (s1\<lparr>vm_process := None\<rparr>) @ ends"
    "r = Inr () \<and> gone pid ends \<or> os_error r \<and> ends = [Waited pid 5, Killed pid]"
    by blast
  with stop that show thesis by simp
qed

section \<open>Scoring in the VM\<close>

lemma steady_work:
  "steady (try_except (bnd (send_job H job workdir) (\<lambda>_. await_result F H workdir)) wallclock_handler)
     (\<lambda>r cs. list_all talk cs \<and> work_messages H job workdir (sents cs)
        \<and> (\<forall>v. r = Inr v \<longrightarrow> (\<exists>ds. cs = ds @ [Close] \<and> delivered H v ds)))"
proof -
  have await: "steady (await_result F H workdir) (waits H workdir)"
    unfolding await_result_def
  proof (rule steady_bnd [OF steady_silent [OF quiet_calls(1)] steady_await_loop])
    show "list_all talk cs \<and> sents cs = [] \<Longrightarrow> waits H workdir (Inl e) cs" for e cs
      by (simp add: waits_def)
  qed (blast intro: waits_quiet)
  have handler: "steady (wallclock_handler e) (\<lambda>r cs. (\<exists>e. r = Inl e) \<and> cs = [])" for e
    unfolding wallclock_handler_def by (rule steady_throw) simp
  let ?Q = "\<lambda>r cs. list_all talk cs \<and> work_messages H job workdir (sents cs)
        \<and> (\<forall>v. r = Inr v \<longrightarrow> (\<exists>ds. cs = ds @ [Close] \<and> delivered H v ds))"
  have "steady (bnd (send_job H job workdir) (\<lambda>_. await_result F H workdir)) ?Q"
  proof (rule steady_bnd [OF says_send_job [unfolded says_def] await], goal_cases)
    case (1 e cs)
    then show ?case unfolding work_messages_def by (metis append_Nil2 replicate_0 Inl_Inr_False)
  next
    case (2 x r c1 c2)
    then obtain n where "sents c2 = replicate n (vsock_says workdir (connect_line PORT_RESULT))" "job_messages H job workdir (sents c1)"
      by (auto simp: waits_def)
    then have "work_messages H job workdir (sents (c1 @ c2))" by (auto simp: work_messages_def)
    moreover have "\<exists>ds. c1 @ c2 = ds @ [Close] \<and> delivered H v ds" if "r = Inr v" for v
      using 2(2) that unfolding waits_def by (metis append_assoc delivered_prepend)
    ultimately show ?case using 2 by (simp add: waits_def)
  qed
  then show ?thesis
    by (rule steady_except [OF _ handler]) auto
qed

lemma score_in_vm_run:
  assumes "score_in_vm F H job workdir s = Some (r, s')" "vm_process s = Some pid"
  obtains work stop ends where "vm_calls s' = vm_calls s @ work @ stop @ ends"
    "list_all talk work" "work_messages H job workdir (sents work)"
    "\<And>v. r = Inr v \<Longrightarrow> \<exists>ds. work = ds @ [Close] \<and> delivered H v ds"
    "list_all talk stop" "prefix (sents stop) [stop_message workdir]" "stopped pid workdir ends r"
proof -
  let ?fin = "bnd (teardown H (vm_socket workdir)) (\<lambda>_. rmtree H workdir)"
  from assms(1) obtain r1 s1 q where run: "try_except (bnd (send_job H job workdir) (\<lambda>_. await_result F H workdir)) wallclock_handler s = Some (r1, s1)"
    "?fin s1 = Some (q, s')" "r = (case q of Inl e \<Rightarrow> Inl e | Inr u \<Rightarrow> r1)"
    unfolding score_in_vm_def by (cases rule: finally_cases) auto
  from steady_work run(1) obtain work where run1: "vm_process s1 = vm_process s" "vm_calls s1 = vm_calls s @ work"
    "list_all talk work \<and> work_messages H job workdir (sents work)
       \<and> (\<forall>v. r1 = Inr v \<longrightarrow> (\<exists>ds. work = ds @ [Close] \<and> delivered H v ds))" by (rule steadyD)
  then have work: "vm_process s1 = vm_process s" "vm_calls s1 = vm_calls s @ work" "list_all talk work"
    "work_messages H job workdir (sents work)" "\<And>v. r1 = Inr v \<Longrightarrow> \<exists>ds. work = ds @ [Close] \<and> delivered H v ds"
    by simp_all
  from run(2) obtain r2 s2 where down: "teardown H (vm_socket workdir) s1 = Some (r2, s2)"
    by (rule bndE) blast+
  from teardown_run [OF down] work(1) assms(2) obtain stop ps where stop: "vm_calls s2 = vm_calls s1 @ stop @ ps"
    "list_all talk stop" "prefix (sents stop) [stop_message workdir]"
    "r2 = Inr () \<and> gone pid ps \<or> os_error r2 \<and> ps = [Waited pid 5, Killed pid]" by metis
  from stop(4) show thesis
  proof
    assume ok: "r2 = Inr () \<and> gone pid ps"
    with run(2) down have "q = Inr ()" "vm_calls s' = vm_calls s2 @ [Rmtree workdir]"
      by (auto simp: bnd_def rmtree_def act_def)
    with run(3) work(2) stop(1) have "r = r1" "vm_calls s' = vm_calls s @ work @ stop @ ps @ [Rmtree workdir]"
      by simp_all
    moreover have "stopped pid workdir (ps @ [Rmtree workdir]) r" using ok by (auto simp: stopped_def)
    ultimately show thesis using work(3-5) stop(2,3) by (intro that [of work stop "ps @ [Rmtree workdir]"]) simp_all
  next
    assume raised: "os_error r2 \<and> ps = [Waited pid 5, Killed pid]"
    with run(2) down have "s' = s2" "\<exists>m. q = Inl (OSError m)"
      by (auto simp: bnd_def os_error_def)
    with run(3) work(2) stop(1) have r: "os_error r" "vm_calls s' = vm_calls s @ work @ stop @ ps"
      by (auto simp: os_error_def)
    moreover have "stopped pid workdir ps r" using raised r(1) by (simp add: stopped_def)
    ultimately show thesis using work(3,4) stop(2,3) by (intro that [of work stop ps]) (auto simp: os_error_def)
  qed
qed

section \<open>Booting\<close>

lemma popen_run: "popen H cmd s = Some (r, s') \<Longrightarrow>
    vm_calls s' = vm_calls s @ (case r of Inl e \<Rightarrow> [] | Inr pid \<Rightarrow> [Popen cmd pid])"
  by (auto simp: popen_def act_def split: prod.splits sum.splits)

lemma mkdtemp_run: "mkdtemp H p s = Some (r, s') \<Longrightarrow>
    vm_calls s' = vm_calls s @ (case r of Inl e \<Rightarrow> [] | Inr workdir \<Rightarrow> [Mkdtemp workdir])"
  by (auto simp: mkdtemp_def act_def split: prod.splits sum.splits)

lemma spawn_vm_run:
  assumes "spawn_vm F H (vm_socket workdir) workdir s = Some (r, s')"
  obtains e where "r = Inl e" "vm_calls s' = vm_calls s"
    | chroot pid boot where "vm_process s' = Some pid"
        "vm_calls s' = vm_calls s @ Popen (jailer_command (fc_config F) chroot workdir) pid # boot" "list_all talk boot"
        "prefix (sents boot) (boot_messages (fc_config F) workdir)"
        "r = Inr () \<Longrightarrow> sents boot = boot_messages (fc_config F) workdir"
proof -
  let ?rest = "\<lambda>pid. bnd (now H) (\<lambda>start. bnd (wait_for_socket H (vm_socket workdir) pid (fl (start + BOOT_WAIT_SECONDS)))
     (\<lambda>_. api_puts H (vm_socket workdir) (boot_steps (fc_config F) workdir)))"
  have rest: "says (?rest pid) (\<lambda>r bs. prefix bs (boot_messages (fc_config F) workdir)
      \<and> (r = Inr () \<longrightarrow> bs = boot_messages (fc_config F) workdir))" for pid
    unfolding boot_messages_def
    by (intro silent_bnd quiet_calls silent_wait_for_socket says_api_puts) simp_all
  from assms obtain t sa where run: "bnd (popen H (jailer_command (fc_config F) (chroot_id (h_pid H) t) workdir))
      (\<lambda>pid. bnd (set_process (Some pid)) (\<lambda>_. ?rest pid)) sa = Some (r, s')" "vm_calls sa = vm_calls s"
    unfolding spawn_vm_def by (rule bndE) (auto simp: epoch_def act_def sure_def split: prod.splits)
  from run(1) consider (failed) e where "r = Inl e" "vm_calls s' = vm_calls s"
    | (up) chroot pid s1 where "?rest pid (s1\<lparr>vm_process := Some pid\<rparr>) = Some (r, s')"
        "vm_calls s1 = vm_calls s @ [Popen (jailer_command (fc_config F) chroot workdir) pid]"
  proof (cases rule: bndE)
    case (1 e)
    with popen_run [OF 1(1)] run(2) that(1) show thesis by auto
  next
    case (2 pid s1)
    with popen_run [OF 2(1)] run(2) that(2) [of pid s1] show thesis by (auto simp: bnd_def set_process_def ret_def)
  qed
  then show thesis
  proof cases
    case failed
    then show ?thesis by (rule that(1))
  next
    case up
    from rest [unfolded says_def] up(1) obtain boot where boot: "vm_process s' = vm_process (s1\<lparr>vm_process := Some pid\<rparr>)"
      "vm_calls s' = vm_calls (s1\<lparr>vm_process := Some pid\<rparr>) @ boot"
      "list_all talk boot \<and> prefix (sents boot) (boot_messages (fc_config F) workdir)
        \<and> (r = Inr () \<longrightarrow> sents boot = boot_messages (fc_config F) workdir)" by (rule steadyD)
    with up(2) show ?thesis by (intro that(2) [of pid chroot boot]) auto
  qed
qed

lemma config_digests_ok: "config_assert_digests (h_libs H) (h_files H) (fc_config F) = Inr () \<longleftrightarrow> artifacts_ok F H"
  by (auto simp: config_assert_digests_def artifacts_ok_def pinned_artifacts_def andthen_eq_Inr assert_tool_digest_ok
      split: option.splits)

lemma digest_gate_run:
  assumes "digest_gate F H s = Some (r, s')"
  shows "vm_calls s' = vm_calls s" "r = Inr () \<Longrightarrow> artifacts_ok F H"
  using assms config_digests_ok [of H F]
  by (auto simp: digest_gate_def boot_failure_def throw_def of_result_def split: sum.splits exn.splits)

section \<open>Dispatching\<close>

text \<open>C24: whatever the host and the guest answer, a dispatch that returns has made a run of calls that
  \<open>vm_run\<close> admits. The jailer is started only when the digests of all four pinned artefacts match, with a
  fixed command line; over the API socket it receives a beginning of the five boot requests, none of which
  attaches a network interface, and all of them before the job is sent; the job goes over vsock, then only
  requests for the result; the result returned is the parsed stream of the guest. Once the VM is up, every
  outcome ends with the process waited for or killed and the work directory removed, unless killing
  it raises.\<close>

theorem vm_lifecycle:
  assumes "dispatch_vm F H job s = Some (r, s')"
  shows "\<exists>cs. vm_calls s' = vm_calls s @ cs \<and> vm_run F H job cs r"
proof (cases "fc_available F")
  case False
  with assms have "r = Inl (DispatchError (''Firecracker dispatch is only supported on Linux/KVM hosts; current platform: '' @ h_platform H))"
    "s' = s" by (simp_all add: dispatch_vm_def throw_def)
  then show ?thesis by (auto intro: vm_run.refused)
next
  case True
  let ?boot = "\<lambda>workdir. spawn_vm F H (vm_socket workdir) workdir"
  let ?score = "\<lambda>workdir. bnd (score_in_vm F H job workdir) (\<lambda>payload. of_result (result_of_payload payload))"
  from True assms have run: "bnd (digest_gate F H) (\<lambda>_. bnd (mkdtemp H ''cce-fc-'') (\<lambda>workdir.
      bnd (?boot workdir) (\<lambda>_. ?score workdir))) s = Some (r, s')" by (simp add: dispatch_vm_def)
  then consider (refused) e where "r = Inl e" "vm_calls s' = vm_calls s"
    | (opened) workdir s1 where "artifacts_ok F H" "vm_calls s1 = vm_calls s @ [Mkdtemp workdir]"
        "bnd (?boot workdir) (\<lambda>_. ?score workdir) s1 = Some (r, s')"
  proof (cases rule: bndE)
    case (1 e)
    with digest_gate_run [OF 1(1)] that(1) show thesis by blast
  next
    case (2 x s0)
    from digest_gate_run [OF 2(1)] have s0: "vm_calls s0 = vm_calls s" "artifacts_ok F H" by simp_all
    from 2(2) show thesis
    proof (cases rule: bndE)
      case (1 e)
      with mkdtemp_run [OF 1(1)] s0(1) that(1) show thesis by auto
    next
      case (2 workdir s1)
      with mkdtemp_run [OF 2(1)] s0 that(2) show thesis by auto
    qed
  qed
  then show ?thesis
  proof cases
    case refused
    then show ?thesis by (auto intro: vm_run.refused)
  next
    case opened
    from opened(3) obtain q s2 where spawn: "?boot workdir s1 = Some (q, s2)" by (rule bndE) blast+
    from spawn show ?thesis
    proof (cases rule: spawn_vm_run)
      case (1 e)
      with opened spawn have "r = Inl e" "vm_calls s' = vm_calls s @ [Mkdtemp workdir]" by (auto simp: bnd_def)
      with vm_run.no_process [OF True opened(1)] show ?thesis by auto
    next
      case (2 chroot pid boot)
      show ?thesis
      proof (cases q)
        case (Inl e)
        with opened spawn 2(2) have "r = Inl e"
          "vm_calls s' = vm_calls s @ Mkdtemp workdir # Popen (jailer_command (fc_config F) chroot workdir) pid # boot"
          by (auto simp: bnd_def)
        with vm_run.boot_failed [OF True opened(1) 2(3,4)] show ?thesis by auto
      next
        case (Inr u)
        with opened(3) spawn have "?score workdir s2 = Some (r, s')" by (simp add: bnd_def)
        then obtain r3 s3 where score: "score_in_vm F H job workdir s2 = Some (r3, s3)" and r: "s' = s3"
          "r = andthen r3 result_of_payload"
          by (auto simp: bnd_def of_result_def split: option.splits prod.splits sum.splits)
        from score 2(1) obtain work stop ends where w: "vm_calls s3 = vm_calls s2 @ work @ stop @ ends"
          "list_all talk work" "work_messages H job workdir (sents work)"
          "\<And>v. r3 = Inr v \<Longrightarrow> \<exists>ds. work = ds @ [Close] \<and> delivered H v ds"
          "list_all talk stop" "prefix (sents stop) [stop_message workdir]" "stopped pid workdir ends r3"
          by (rule score_in_vm_run) blast
        have guest: "returned_by_guest H work r"
          unfolding returned_by_guest_def using w(4) r(2) andthen_eq_Inr by metis
        have ends: "stopped pid workdir ends r"
          using w(7) r(2) by (auto simp: stopped_def os_error_def)
        from Inr 2(5) have "sents boot = boot_messages (fc_config F) workdir" by simp
        from vm_run.worked [OF True opened(1) 2(3) this w(2,3) guest w(5,6) ends] r(1) w(1) 2(2) opened(2)
        show ?thesis by auto
      qed
    qed
  qed
qed


end
