(* ===== verification/VmTotal.thy ===== *)
theory VmTotal
  imports VmRun
begin

text \<open>
  When a dispatch to a microVM returns: \<open>host_lives\<close> collects what it needs of the host, that the
  monotonic clock never runs backwards, sleeping takes its time and every stream of a socket ends.
  \<open>lasts\<close> is a contract with a lower bound for the time a computation takes.
\<close>

section \<open>Hosts that live\<close>

text \<open>\<open>tm\<close> is the time the clock shows, \<open>left\<close> a bound on the chunks a peer still sends.\<close>

definition host_lives :: "'w host \<Rightarrow> ('w \<Rightarrow> real) \<Rightarrow> ('w \<Rightarrow> nat) \<Rightarrow> bool" where
  "host_lives H tm left \<longleftrightarrow>
     (\<forall>w. fst (monotonic (h_clock H) w) = tm w \<and> tm w \<le> tm (snd (monotonic (h_clock H) w)))
   \<and> (\<forall>d w. tm w + d \<le> tm (sleep (h_clock H) d w))
   \<and> (\<forall>w. tm w \<le> tm (snd (h_time H w)))
   \<and> (\<forall>p w. tm w \<le> tm (snd (h_mkdtemp H p w)) \<and> tm w \<le> tm (h_rmtree H p w) \<and> tm w \<le> tm (snd (h_exists H p w))
        \<and> tm w \<le> tm (snd (h_is_dir H p w)) \<and> tm w \<le> tm (snd (h_is_file H p w)) \<and> tm w \<le> tm (snd (h_connect H p w))
        \<and> tm w \<le> tm (snd (h_sendall H p w)) \<and> (\<forall>a. tm w \<le> tm (snd (h_tar_add H p a w))))
   \<and> (\<forall>c w. tm w \<le> tm (snd (h_popen H c w)))
   \<and> (\<forall>p t w. tm w \<le> tm (snd (h_poll H p w)) \<and> tm w \<le> tm (snd (h_wait H p t w)) \<and> tm w \<le> tm (snd (h_kill H p w)))
   \<and> (\<forall>w. tm w \<le> tm (snd (h_socket H w)) \<and> tm w \<le> tm (snd (h_shutdown H w)) \<and> tm w \<le> tm (h_close H w))
   \<and> (\<forall>n w. case h_recv H n w of
              None \<Rightarrow> False
            | Some (r, w') \<Rightarrow> tm w \<le> tm w' \<and> (case r of Inl m \<Rightarrow> True | Inr c \<Rightarrow> c = [] \<or> left w' < left w))"

section \<open>Time taken\<close>

definition lasts :: "('w \<Rightarrow> real) \<Rightarrow> ('x result \<Rightarrow> real) \<Rightarrow> ('w, 'x) io \<Rightarrow> bool" where
  "lasts tm D m \<longleftrightarrow> (\<forall>s. \<exists>r s'. m s = Some (r, s') \<and> tm (vm_world s) + D r \<le> tm (vm_world s'))"

abbreviation total :: "('w \<Rightarrow> real) \<Rightarrow> ('w, 'x) io \<Rightarrow> bool" where
  "total tm \<equiv> lasts tm (\<lambda>r. 0)"

lemma lastsE:
  assumes "lasts tm D m"
  obtains r s' where "m s = Some (r, s')" "tm (vm_world s) + D r \<le> tm (vm_world s')"
  using assms unfolding lasts_def by blast

lemma lasts_unit:
  "D (Inr x) \<le> 0 \<Longrightarrow> lasts tm D (ret x)"
  "D (Inl e) \<le> 0 \<Longrightarrow> lasts tm D (throw e)"
  "D r \<le> 0 \<Longrightarrow> lasts tm D (of_result r)"
  "D (Inl e) \<le> 0 \<Longrightarrow> lasts tm D (boot_failure reason e)"
  by (simp_all add: lasts_def ret_def throw_def of_result_def boot_failure_def)

lemma total_set_process: "total tm (set_process p)"
  by (simp add: lasts_def set_process_def ret_def)

lemma total_of_result [simp]: "total tm (of_result r)"
  by (rule lasts_unit) simp

lemma lasts_bnd:
  assumes "total tm m" "\<And>x. lasts tm D (f x)" "\<And>e. D (Inl e) \<le> 0"
  shows "lasts tm D (bnd m f)"
  unfolding lasts_def
proof
  fix s
  from assms(1) obtain r s1 where m: "m s = Some (r, s1)" "tm (vm_world s) + 0 \<le> tm (vm_world s1)" by (rule lastsE)
  show "\<exists>r s'. bnd m f s = Some (r, s') \<and> tm (vm_world s) + D r \<le> tm (vm_world s')"
  proof (cases r)
    case (Inl e)
    with m assms(3) [of e] show ?thesis by (auto simp: bnd_def)
  next
    case (Inr x)
    from assms(2) [of x] obtain q s2 where "f x s1 = Some (q, s2)" "tm (vm_world s1) + D q \<le> tm (vm_world s2)" by (rule lastsE)
    with m Inr show ?thesis by (auto simp: bnd_def)
  qed
qed

lemma lasts_except:
  assumes "lasts tm D m" "\<And>e. lasts tm D (h e)" "\<And>e. D (Inl e) = 0"
  shows "lasts tm D (try_except m h)"
  unfolding lasts_def
proof
  fix s
  from assms(1) obtain r s1 where m: "m s = Some (r, s1)" "tm (vm_world s) + D r \<le> tm (vm_world s1)" by (rule lastsE)
  show "\<exists>r s'. try_except m h s = Some (r, s') \<and> tm (vm_world s) + D r \<le> tm (vm_world s')"
  proof (cases r)
    case (Inl e)
    from assms(2) [of e] obtain q s2 where "h e s1 = Some (q, s2)" "tm (vm_world s1) + D q \<le> tm (vm_world s2)" by (rule lastsE)
    with m Inl assms(3) [of e] show ?thesis by (auto simp: try_except_def)
  next
    case (Inr x)
    with m show ?thesis by (auto simp: try_except_def)
  qed
qed

lemma lasts_finally:
  assumes "lasts tm D m" "total tm fin" "\<And>e. D (Inl e) = 0" "\<And>r. 0 \<le> D r"
  shows "lasts tm D (try_finally m fin)"
  unfolding lasts_def
proof
  fix s
  from assms(1) obtain r s1 where m: "m s = Some (r, s1)" "tm (vm_world s) + D r \<le> tm (vm_world s1)" by (rule lastsE)
  from assms(2) obtain q s2 where fin: "fin s1 = Some (q, s2)" "tm (vm_world s1) + 0 \<le> tm (vm_world s2)" by (rule lastsE)
  show "\<exists>r s'. try_finally m fin s = Some (r, s') \<and> tm (vm_world s) + D r \<le> tm (vm_world s')"
  proof (cases q)
    case (Inl e)
    with m fin assms(3) [of e] assms(4) [of r] show ?thesis by (auto simp: try_finally_def intro: order_trans)
  next
    case (Inr u)
    with m fin show ?thesis by (auto simp: try_finally_def)
  qed
qed

lemma lasts_if:
  "lasts tm D f \<Longrightarrow> lasts tm D g \<Longrightarrow> lasts tm D (\<lambda>s. if b then f s else g s)"
  "lasts tm D f \<Longrightarrow> lasts tm D g \<Longrightarrow> lasts tm D (if b then f else g)"
  by (cases b; simp)+

lemma lasts_act:
  assumes "\<And>w. tm w \<le> tm (snd (f w))"
  shows "total tm (act f note)"
proof -
  have "tm (vm_world s) \<le> tm w" if "f (vm_world s) = (r, w)" for s r w
    using assms [of "vm_world s"] that by simp
  then show ?thesis by (auto simp: lasts_def act_def split: prod.splits sum.splits)
qed

lemma lasts_calls:
  assumes "host_lives H tm left"
  shows "total tm (now H)" "total tm (epoch H)" "total tm (mkdtemp H p)" "total tm (rmtree H p)" "total tm (path_exists H p)"
    "total tm (is_dir H p)" "total tm (is_file H p)" "total tm (tar_add H p a)" "total tm (popen H c)" "total tm (poll H pid)"
    "total tm (wait_process H pid t)" "total tm (kill_process H pid)" "total tm (new_socket H)" "total tm (connect H p)"
    "total tm (sendall H p b)" "total tm (shut_down H)" "total tm (close_socket H)"
  unfolding now_def epoch_def mkdtemp_def rmtree_def path_exists_def is_dir_def is_file_def tar_add_def popen_def poll_def
    wait_process_def kill_process_def new_socket_def connect_def sendall_def shut_down_def close_socket_def
  using assms
  by (auto simp: host_lives_def sure_def case_prod_unfold intro!: lasts_act lasts_bnd lasts_if lasts_unit)

lemma lasts_sleep:
  fixes tm :: "'a \<Rightarrow> real"
  assumes "host_lives H tm left" "D (Inr x) \<le> d" "0 \<le> d"
  shows "lasts tm D (bnd (sleep_for H d) (\<lambda>_. ret x))"
proof -
  have "tm (vm_world s) + D (Inr x) \<le> tm (sleep (h_clock H) d (vm_world s))" for s :: "'a vm_state"
    using assms by (auto simp: host_lives_def intro: order_trans [OF add_left_mono [OF assms(2)]])
  then show ?thesis by (simp add: lasts_def sleep_for_def bnd_def act_def ret_def)
qed

lemma recv_step:
  assumes "host_lives H tm left"
  obtains r s' where "recv H n s = Some (r, s')" "tm (vm_world s) \<le> tm (vm_world s')"
    "\<And>c. r = Inr c \<Longrightarrow> c \<noteq> [] \<Longrightarrow> left (vm_world s') < left (vm_world s)"
proof -
  from assms obtain r w where "h_recv H n (vm_world s) = Some (r, w)" "tm (vm_world s) \<le> tm w"
    "case r of Inl m \<Rightarrow> True | Inr c \<Rightarrow> c = [] \<or> left w < left (vm_world s)"
    by (fastforce simp: host_lives_def split: option.splits)
  with that show thesis by (auto simp: recv_def act_def split: sum.splits)
qed

lemma lasts_recv: "host_lives H tm left \<Longrightarrow> total tm (recv H n)"
  unfolding lasts_def by (metis recv_step add_0_right)


lemma lasts_weaken: "lasts tm D m \<Longrightarrow> (\<And>r. D' r \<le> D r) \<Longrightarrow> lasts tm D' m"
  unfolding lasts_def by (meson add_left_mono order_trans)

section \<open>Streams end\<close>

lemma total_read_response:
  assumes H: "host_lives H tm left"
  shows "total tm (read_response H response)"
proof -
  have "\<exists>r s'. read_response H response s = Some (r, s') \<and> tm (vm_world s) \<le> tm (vm_world s')" for s
  proof (induction "left (vm_world s)" arbitrary: s response rule: less_induct)
    case less
    from H obtain r s1 where r: "recv H 4096 s = Some (r, s1)" "tm (vm_world s) \<le> tm (vm_world s1)"
      "\<And>c. r = Inr c \<Longrightarrow> c \<noteq> [] \<Longrightarrow> left (vm_world s1) < left (vm_world s)" by (rule recv_step [where n = 4096 and s = s]) blast
    show ?case
    proof (cases r)
      case (Inl e)
      with r show ?thesis by (subst read_response.simps) (simp add: bnd_def)
    next
      case (Inr c)
      show ?thesis
      proof (cases "c = []")
        case True
        with r Inr show ?thesis by (subst read_response.simps) (simp add: bnd_def ret_def)
      next
        case False
        from less [OF r(3) [OF Inr False], of "response @ c"] r(1,2) Inr False show ?thesis
          by (subst read_response.simps) (auto simp: bnd_def ret_def intro: order_trans)
      qed
    qed
  qed
  then show ?thesis by (simp add: lasts_def)
qed

lemma total_read_all:
  assumes H: "host_lives H tm left"
  shows "total tm (read_all H acc)"
proof -
  have "\<exists>r s'. read_all H acc s = Some (r, s') \<and> tm (vm_world s) \<le> tm (vm_world s')" for s
  proof (induction "left (vm_world s)" arbitrary: s acc rule: less_induct)
    case less
    from H obtain r s1 where r: "recv H 65536 s = Some (r, s1)" "tm (vm_world s) \<le> tm (vm_world s1)"
      "\<And>c. r = Inr c \<Longrightarrow> c \<noteq> [] \<Longrightarrow> left (vm_world s1) < left (vm_world s)" by (rule recv_step [where n = 65536 and s = s]) blast
    show ?case
    proof (cases r)
      case (Inl e)
      with r show ?thesis by (subst read_all.simps) (simp add: bnd_def)
    next
      case (Inr c)
      show ?thesis
      proof (cases "c = []")
        case True
        with r Inr show ?thesis by (subst read_all.simps) (simp add: bnd_def ret_def)
      next
        case False
        from less [OF r(3) [OF Inr False], of "acc @ c"] r(1,2) Inr False show ?thesis
          by (subst read_all.simps) (auto simp: bnd_def intro: order_trans)
      qed
    qed
  qed
  then show ?thesis by (simp add: lasts_def)
qed

lemma total_api_put: "host_lives H tm left \<Longrightarrow> total tm (api_put H p route body)"
  unfolding api_put_def
  by (intro lasts_bnd lasts_finally lasts_if lasts_unit total_read_response) (simp_all add: lasts_calls lasts_unit del: json_dumps.simps)

lemma total_api_puts: "host_lives H tm left \<Longrightarrow> total tm (api_puts H p steps)"
  by (induction steps rule: api_puts.induct) (simp_all add: lasts_unit lasts_bnd total_api_put)

section \<open>Polling ends\<close>

lemma fl_step: "1 / 32 \<le> fl (5 / 100)"
proof -
  have "fl (1 / 32) = 1 / 32"
    using dbl.rnd_exact [of 1 "-5"] by (simp add: fl_def fval_def power_int_minus)
  then show ?thesis using fl_mono [of "1 / 32" "5 / 100"] by simp
qed

text \<open>A loop with a deadline whose rounds take at least \<open>d\<close>.\<close>

lemma deadline_induct:
  fixes d :: real
  assumes "0 < d" and step: "\<And>x. (\<And>y. t x + d \<le> t y \<Longrightarrow> t x < deadline \<Longrightarrow> P y) \<Longrightarrow> P x"
  shows "P x"
proof (induction "nat \<lceil>(deadline - t x) / d\<rceil>" arbitrary: x rule: less_induct)
  case less
  show ?case
  proof (rule step)
    fix y
    assume y: "t x + d \<le> t y" "t x < deadline"
    then have "(deadline - t y + d) / d \<le> (deadline - t x) / d"
      using assms(1) by (intro divide_right_mono) simp_all
    then have "(deadline - t y) / d + 1 \<le> (deadline - t x) / d" "0 < (deadline - t x) / d"
      using assms(1) y(2) by (simp_all add: add_divide_distrib)
    then have "nat \<lceil>(deadline - t y) / d\<rceil> < nat \<lceil>(deadline - t x) / d\<rceil>" by linarith
    then show "P y" by (rule less)
  qed
qed


lemma now_reads:
  assumes "host_lives H tm left"
  obtains s1 where "now H s = Some (Inr (tm (vm_world s)), s1)" "tm (vm_world s) \<le> tm (vm_world s1)"
proof -
  obtain t w where m: "monotonic (h_clock H) (vm_world s) = (t, w)" by fastforce
  from assms have "fst (monotonic (h_clock H) (vm_world s)) = tm (vm_world s)"
    "tm (vm_world s) \<le> tm (snd (monotonic (h_clock H) (vm_world s)))" unfolding host_lives_def by blast+
  with m that show thesis by (simp add: now_def act_def sure_def)
qed

lemma total_wait_for_socket:
  assumes H: "host_lives H tm left"
  shows "total tm (wait_for_socket H p pid deadline)"
proof -
  have "\<exists>r s'. wait_for_socket H p pid deadline s = Some (r, s') \<and> tm (vm_world s) \<le> tm (vm_world s')" for s
  proof (induction s rule: deadline_induct [where d = "1 / 32" and t = "\<lambda>s. tm (vm_world s)" and deadline = deadline])
    case 1
    show ?case by simp
  next
    case (2 s)
    let ?P = "\<lambda>s x. \<exists>r s'. x = Some (r, s') \<and> tm (vm_world s) \<le> tm (vm_world s')"
    from H obtain s1 where now: "now H s = Some (Inr (tm (vm_world s)), s1)" "tm (vm_world s) \<le> tm (vm_world s1)"
      by (rule now_reads)
    have loop: "?P s (wait_for_socket H p pid deadline s')"
      if "tm (vm_world s) < deadline" "tm (vm_world s) + 1 / 32 \<le> tm (vm_world s')" for s'
      using 2 [OF that(2,1)] that(2) by (auto intro: order_trans)
    show ?case
    proof (cases "tm (vm_world s) < deadline")
      case False
      with now show ?thesis by (subst wait_for_socket.simps) (simp add: bnd_def boot_failure_def throw_def)
    next
      case True
      from lasts_calls(5) [OF H, of p] obtain r2 s2 where ex: "path_exists H p s1 = Some (r2, s2)"
        "tm (vm_world s1) + 0 \<le> tm (vm_world s2)" by (rule lastsE)
      from lasts_calls(10) [OF H, of pid] obtain r3 s3 where po: "poll H pid s2 = Some (r3, s3)"
        "tm (vm_world s2) + 0 \<le> tm (vm_world s3)" by (rule lastsE)
      obtain s4 where sl: "sleep_for H (fl (5 / 100)) s3 = Some (Inr (), s4)" "tm (vm_world s3) + 1 / 32 \<le> tm (vm_world s4)"
      proof -
        have "tm (vm_world s3) + fl (5 / 100) \<le> tm (sleep (h_clock H) (fl (5 / 100)) (vm_world s3))"
          using H unfolding host_lives_def by blast
        with fl_step that show thesis by (simp add: sleep_for_def act_def)
      qed
      from now ex po sl have "tm (vm_world s) + 1 / 32 \<le> tm (vm_world s4)" by linarith
      from loop [OF True this] now ex po sl True show ?thesis
        by (subst wait_for_socket.simps)
          (auto simp: bnd_def ret_def boot_failure_def throw_def split: sum.splits option.splits intro: order_trans)
    qed
  qed
  then show ?thesis by (simp add: lasts_def)
qed

text \<open>A round that asks for another one has slept.\<close>

definition pause :: "(string + pyval) result \<Rightarrow> real" where
  "pause r = (case r of Inr (Inl why) \<Rightarrow> 1 / 4 | _ \<Rightarrow> 0)"

lemma pause_simps [simp]: "pause (Inl e) = 0" "pause (Inr (Inl why)) = 1 / 4" "pause (Inr (Inr v)) = 0" "0 \<le> pause r"
  by (simp_all add: pause_def split: sum.split)

lemma lasts_poll_result:
  assumes H: "host_lives H tm left"
  shows "lasts tm pause (poll_result H workdir)"
proof -
  have nap: "lasts tm pause (bnd (sleep_for H RESULT_POLL_INTERVAL) (\<lambda>_. ret (Inl why)))" for why
    by (rule lasts_sleep [OF H]) (simp_all add: RESULT_POLL_INTERVAL_def)
  have parse: "lasts tm pause (case json_loads (h_libs H) body of None \<Rightarrow> throw JSONDecodeError | Some v \<Rightarrow> ret (Inr v))" for body
    by (cases "json_loads (h_libs H) body") (auto intro: lasts_unit)
  have ask: "lasts tm pause (ask_result H workdir)"
    unfolding ask_result_def
    by (intro lasts_bnd lasts_if nap parse lasts_calls [OF H] lasts_recv [OF H] total_read_all [OF H]) simp_all
  have later: "lasts tm pause (retry_later H e)" for e
    unfolding retry_later_def by (cases e) (auto intro: nap lasts_unit)
  show ?thesis unfolding poll_result_def
    by (intro lasts_bnd lasts_finally lasts_except ask later lasts_calls [OF H]) simp_all
qed

lemma total_await_loop:
  assumes H: "host_lives H tm left"
  shows "total tm (await_loop H workdir deadline last_err)"
proof -
  have "\<forall>last_err. \<exists>r s'. await_loop H workdir deadline last_err s = Some (r, s') \<and> tm (vm_world s) \<le> tm (vm_world s')" for s
  proof (induction s rule: deadline_induct [where d = "1 / 4" and t = "\<lambda>s. tm (vm_world s)" and deadline = deadline])
    case 1
    show ?case by simp
  next
    case (2 s)
    from H obtain s1 where now: "now H s = Some (Inr (tm (vm_world s)), s1)" "tm (vm_world s) \<le> tm (vm_world s1)"
      by (rule now_reads)
    from lasts_poll_result [OF H, of workdir] obtain r2 s2 where po: "poll_result H workdir s1 = Some (r2, s2)"
      "tm (vm_world s1) + pause r2 \<le> tm (vm_world s2)" by (rule lastsE)
    then have "tm (vm_world s1) \<le> tm (vm_world s2)" using pause_simps(4) [of r2] by linarith
    with now have le: "tm (vm_world s) \<le> tm (vm_world s2)" by simp
    show ?case
    proof
      fix last_err
      show "\<exists>r s'. await_loop H workdir deadline last_err s = Some (r, s') \<and> tm (vm_world s) \<le> tm (vm_world s')"
      proof (cases "tm (vm_world s) < deadline \<and> (\<exists>why. r2 = Inr (Inl why))")
        case False
        with now po le show ?thesis
          by (subst await_loop.simps) (auto simp: bnd_def throw_def ret_def split: sum.splits)
      next
        case True
        then obtain why where why: "tm (vm_world s) < deadline" "r2 = Inr (Inl why)" by blast
        with now po have "tm (vm_world s) + 1 / 4 \<le> tm (vm_world s2)" by simp
        from 2 [OF this why(1)] obtain r s' where "await_loop H workdir deadline (Some why) s2 = Some (r, s')"
          "tm (vm_world s2) \<le> tm (vm_world s')" by blast
        with now po le why show ?thesis by (subst await_loop.simps) (auto simp: bnd_def)
      qed
    qed
  qed
  then show ?thesis by (simp add: lasts_def)
qed

section \<open>Every dispatch returns\<close>

lemma total_spawn_vm: "host_lives H tm left \<Longrightarrow> total tm (spawn_vm F H p workdir)"
  unfolding spawn_vm_def
  by (intro lasts_bnd total_set_process total_wait_for_socket total_api_puts lasts_calls) simp_all

lemma total_send_job: "host_lives H tm left \<Longrightarrow> total tm (send_job H job workdir)"
  unfolding send_job_def job_archive_def
  by (intro lasts_bnd lasts_finally lasts_if lasts_unit total_of_result lasts_recv lasts_calls) simp_all

lemma total_suppress: "total tm m \<Longrightarrow> total tm (suppress m)"
  unfolding suppress_def by (intro lasts_except lasts_unit) simp_all

lemma total_end_process: "host_lives H tm left \<Longrightarrow> total tm (end_process H pid)"
  unfolding end_process_def
  by (intro lasts_except lasts_if lasts_bnd lasts_unit total_suppress lasts_calls) simp_all

lemma total_teardown:
  assumes "host_lives H tm left"
  shows "total tm (teardown H p)"
  unfolding teardown_def
proof (rule lasts_bnd)
  show "total tm (suppress (api_put H p ''/actions'' [(VStr ''action_type'', VStr ''SendCtrlAltDel'')]))"
    by (rule total_suppress [OF total_api_put [OF assms]])
  have "total tm (bnd (set_process None) (\<lambda>_. case q of None \<Rightarrow> ret () | Some pid \<Rightarrow> end_process H pid))" for q
    using total_end_process [OF assms] by (cases q) (auto intro!: lasts_bnd total_set_process lasts_unit)
  then show "total tm (\<lambda>s. bnd (set_process None) (\<lambda>_. case vm_process s of None \<Rightarrow> ret () | Some pid \<Rightarrow> end_process H pid) s)"
    by (simp add: lasts_def)
qed simp

lemma total_score_in_vm: "host_lives H tm left \<Longrightarrow> total tm (score_in_vm F H job workdir)"
  unfolding score_in_vm_def wallclock_handler_def await_result_def
  by (intro lasts_finally lasts_except lasts_bnd lasts_unit total_send_job total_await_loop total_teardown lasts_calls) simp_all

lemma total_digest_gate: "total tm (digest_gate F H)"
  unfolding digest_gate_def
  by (auto intro: lasts_unit total_of_result split: sum.split exn.split)

lemma total_dispatch: "host_lives H tm left \<Longrightarrow> total tm (dispatch_vm F H job)"
  unfolding dispatch_vm_def
  by (intro lasts_if lasts_bnd lasts_unit total_of_result total_digest_gate total_spawn_vm total_score_in_vm lasts_calls) simp_all


section \<open>Gaps\<close>

text \<open>Nothing bounds the time of a transfer: a guest that keeps sending is read for ever, past the
  wallclock cap.\<close>

lemma endless_guest_is_read_for_ever:
  assumes "\<And>w. \<exists>c w'. h_recv H 65536 w = Some (Inr c, w') \<and> c \<noteq> []"
  shows "read_all H acc s = None"
proof -
  have "read_all H acc s = Some y \<Longrightarrow> (\<forall>w. \<exists>c w'. h_recv H 65536 w = Some (Inr c, w') \<and> c \<noteq> []) \<longrightarrow> False" for y
  proof (erule read_all.raw_induct [rotated], intro impI)
    fix loop H acc s y
    assume IH: "\<And>H acc s y. loop H acc s = Some y \<Longrightarrow> (\<forall>w. \<exists>c w'. h_recv H 65536 w = Some (Inr c, w') \<and> c \<noteq> []) \<longrightarrow> False"
      and step: "bnd (recv H 65536) (\<lambda>chunk s. if chunk = [] then ret acc s else loop H (acc @ chunk) s) s = Some y"
      and endless: "\<forall>w. \<exists>c w'. h_recv H 65536 w = Some (Inr c, w') \<and> c \<noteq> []"
    from endless obtain c w where "h_recv H 65536 (vm_world s) = Some (Inr c, w)" "c \<noteq> []" by blast
    with step have "\<exists>t. loop H (acc @ c) t = Some y" by (auto simp: bnd_def recv_def act_def)
    with IH endless show False by blast
  qed
  with assms show ?thesis by (metis option.exhaust)
qed

text \<open>An error while booting leaves through neither \<open>_teardown\<close> nor \<open>rmtree\<close>: the process and the
  work directory stay.\<close>

lemma failed_boot_is_not_cleaned_up:
  assumes "fc_available F" "digest_gate F H s = Some (Inr (), s0)" "mkdtemp H ''cce-fc-'' s0 = Some (Inr workdir, s1)"
    and "spawn_vm F H (vm_socket workdir) workdir s1 = Some (Inl e, s2)"
  shows "dispatch_vm F H job s = Some (Inl e, s2)"
  using assms by (simp add: dispatch_vm_def bnd_def)

text \<open>The payload of the guest is not verified: any object with the five keys is a result.\<close>

lemma payload_is_not_verified:
  "result_of_payload (VDict [(VStr ''record_hash'', VNone), (VStr ''score'', VNone), (VStr ''metrics'', VNone),
      (VStr ''spec_hash'', VNone), (VStr ''tool_digests'', VNone)])
   = Inr \<lparr>dr_record_hash = VNone, dr_score = VNone, dr_metrics = VNone, dr_spec_hash = VNone, dr_tool_digests = VNone,
          dr_sidecars = VDict []\<rparr>"
  by (simp add: result_of_payload_def payload_item_def payload_get_def get_item_def lookup_def)

end
