(* ===== verification/VmSample.thy ===== *)
theory VmSample
  imports VmTotal
begin

text \<open>
  A VM at work: a host whose sockets answer from a script, on which a dispatch is evaluated, and the
  witnesses that the theorems on dispatches apply to.
\<close>

section \<open>A host with a script\<close>

text \<open>The world is the time and the chunks that will be received.\<close>

definition sample_guest_value :: pyval where
  "sample_guest_value = VDict
     [(VStr ''record_hash'', VStr ''h''), (VStr ''score'', VStr ''1''), (VStr ''metrics'', VDict []),
      (VStr ''spec_hash'', VStr ''s''), (VStr ''tool_digests'', VDict [])]"

definition sample_guest_result :: untyped_result where
  "sample_guest_result = \<lparr>dr_record_hash = VStr ''h'', dr_score = VStr ''1'', dr_metrics = VDict [], dr_spec_hash = VStr ''s'',
     dr_tool_digests = VDict [], dr_sidecars = VDict []\<rparr>"

definition sample_host :: "(real \<times> string list) host" where
  "sample_host =
     \<lparr>h_libs = sample_libs\<lparr>json_loads := (\<lambda>b. if b = ''body'' then Some sample_guest_value else None)\<rparr>,
      h_files = (\<lambda>p. Some []), h_platform = ''linux'', h_pid = 7,
      h_clock = \<lparr>monotonic = (\<lambda>w. (fst w, w)), sleep = (\<lambda>d w. (fst w + d, snd w))\<rparr>, h_time = (\<lambda>w. (fst w, w)),
      h_mkdtemp = (\<lambda>p w. (Inr ''/tmp/cce-fc-x'', w)), h_rmtree = (\<lambda>p w. w), h_exists = (\<lambda>p w. (Inr True, w)),
      h_is_dir = (\<lambda>p w. (Inr False, w)), h_is_file = (\<lambda>p w. (Inr False, w)), h_tar_add = (\<lambda>p a w. (Inr p, w)),
      h_tar_entry = (\<lambda>name bytes. name @ bytes), h_tar_close = (\<lambda>b. b),
      h_popen = (\<lambda>cmd w. (Inr 100, w)), h_poll = (\<lambda>pid w. (None, w)), h_wait = (\<lambda>pid t w. (True, w)),
      h_kill = (\<lambda>pid w. (Inr (), w)), h_socket = (\<lambda>w. (Inr (), w)), h_connect = (\<lambda>p w. (Inr (), w)),
      h_sendall = (\<lambda>b w. (Inr (), w)),
      h_recv = (\<lambda>n w. Some (case snd w of [] \<Rightarrow> (Inr [], w) | c # cs \<Rightarrow> (Inr c, (fst w, cs)))),
      h_shutdown = (\<lambda>w. (Inr (), w)), h_close = (\<lambda>w. w)\<rparr>"

lemma sample_host_lives: "host_lives sample_host fst (\<lambda>w. length (snd w))"
  by (auto simp: host_lives_def sample_host_def split: list.split)

definition sample_config :: FirecrackerConfig where
  "sample_config =
     (let d = ''sha256:'' @ replicate 64 (CHR ''0'') in
      \<lparr>firecracker_binary = ''/fc'', firecracker_digest = d, jailer_binary = ''/jailer'', jailer_digest = d,
       kernel_image = ''/vmlinux'', kernel_digest = d, rootfs_image = ''/rootfs'', rootfs_digest = d,
       vcpu_count = 2, mem_mib = 2048, wallclock_seconds = 120\<rparr>)"

definition sample_firecracker :: firecracker where
  "sample_firecracker = new_firecracker ''linux'' (Some ''/usr/bin/firecracker'') sample_config"

definition api_ok :: string where
  "api_ok = ''HTTP/1.1 204 No Content'' @ crlf @ ''Content-Length: 0'' @ crlf @ crlf"

definition sample_vm_state :: "(real \<times> string list) vm_state" where
  "sample_vm_state =
     \<lparr>vm_world = (0, [api_ok, api_ok, api_ok, api_ok, api_ok, ''OK 52'', ''OK 53'', ''body'', [], api_ok]),
      vm_process = None, vm_failures = [], vm_calls = []\<rparr>"

section \<open>Running it\<close>

text \<open>\<open>m\<close> returns \<open>x\<close> from \<open>s\<close>, the script is then \<open>cs\<close>, and the process handle is kept.\<close>

definition yields :: "(real \<times> string list, 'x) io \<Rightarrow> (real \<times> string list) vm_state \<Rightarrow> 'x \<Rightarrow> string list \<Rightarrow> bool" where
  "yields m s x cs \<longleftrightarrow> (\<exists>s'. m s = Some (Inr x, s') \<and> vm_world s' = (0, cs) \<and> vm_process s' = vm_process s)"

lemma yieldsE:
  assumes "yields m s x cs"
  obtains s' where "m s = Some (Inr x, s')" "vm_world s' = (0, cs)" "vm_process s' = vm_process s"
  using assms unfolding yields_def by blast

lemma yields_bnd:
  "yields m s x cs \<Longrightarrow> (\<And>s'. vm_world s' = (0, cs) \<Longrightarrow> vm_process s' = vm_process s \<Longrightarrow> yields (f x) s' y ds) \<Longrightarrow> yields (bnd m f) s y ds"
  by (fastforce simp: yields_def bnd_def)

lemma yields_finally:
  "yields m s x cs \<Longrightarrow> (\<And>s'. vm_world s' = (0, cs) \<Longrightarrow> yields fin s' () ds) \<Longrightarrow> yields (try_finally m fin) s x ds"
  by (fastforce simp: yields_def try_finally_def)

lemma yields_except: "yields m s x cs \<Longrightarrow> yields (try_except m h) s x cs"
  by (fastforce simp: yields_def try_except_def)

lemma yields_calls:
  assumes "vm_world s = (0, cs)"
  shows "yields (now sample_host) s 0 cs" "yields (epoch sample_host) s 0 cs" "yields (new_socket sample_host) s () cs"
    "yields (connect sample_host p) s () cs" "yields (sendall sample_host p b) s () cs" "yields (shut_down sample_host) s () cs"
    "yields (close_socket sample_host) s () cs" "yields (mkdtemp sample_host p) s ''/tmp/cce-fc-x'' cs"
    "yields (rmtree sample_host p) s () cs" "yields (path_exists sample_host p) s True cs" "yields (is_dir sample_host p) s False cs"
    "yields (is_file sample_host p) s False cs" "yields (popen sample_host c) s 100 cs" "yields (wait_process sample_host pid t) s () cs"
    "yields (ret x) s x cs" "yields (of_result (Inr x)) s x cs"
  using assms
  by (simp_all add: yields_def now_def epoch_def new_socket_def connect_def sendall_def shut_down_def close_socket_def
      mkdtemp_def rmtree_def path_exists_def is_dir_def is_file_def popen_def wait_process_def act_def sure_def ret_def
      of_result_def bnd_def sample_host_def)

lemma yields_recv: "vm_world s = (0, c # cs) \<Longrightarrow> yields (recv sample_host n) s c cs"
  by (simp add: yields_def recv_def act_def sample_host_def)

lemma api_ok_reply:
  "api_ok \<noteq> []" "occurs (crlf @ crlf) api_ok" "occurs ''Content-Length: 0'' api_ok" "occurs '' 204 '' (first_line api_ok)"
  by code_simp+

lemma yields_api_put:
  assumes "json_dumps False (VDict body) = Inr payload" "vm_world s = (0, api_ok # cs)"
  shows "yields (api_put sample_host p route body) s () cs"
proof -
  have reply: "yields (read_response sample_host []) s' api_ok cs" if "vm_world s' = (0, api_ok # cs)" for s'
    unfolding yields_def using that
    by (subst read_response.simps) (simp add: bnd_def recv_def act_def sample_host_def api_ok_reply ret_def)
  show ?thesis
    unfolding api_put_def assms(1)
    by (rule yields_bnd [OF yields_calls(16)], rule assms(2), rule yields_bnd [OF yields_calls(3)], assumption,
        rule yields_bnd [OF yields_finally], rule yields_bnd [OF yields_calls(4)], assumption,
        rule yields_bnd [OF yields_calls(5)], assumption, erule reply, rule yields_calls(7), assumption)
      (simp add: api_ok_reply yields_calls)
qed

lemma dumps_steps:
  assumes "step \<in> set (boot_steps c workdir)"
  shows "\<exists>payload. json_dumps False (VDict (snd step)) = Inr payload"
  using assms by (auto simp: boot_steps_def json_items_def)

lemma yields_api_puts:
  assumes "\<And>st. st \<in> set steps \<Longrightarrow> \<exists>payload. json_dumps False (VDict (snd st)) = Inr payload"
    and "vm_world s = (0, replicate (length steps) api_ok @ cs)"
  shows "yields (api_puts sample_host p steps) s () cs"
  using assms
proof (induction steps arbitrary: s)
  case Nil
  then show ?case by (simp add: yields_calls)
next
  case (Cons st steps)
  obtain route body where st: "st = (route, body)" by (cases st)
  with Cons.prems(1) [of st] obtain payload where "json_dumps False (VDict body) = Inr payload" by auto
  then have "yields (api_put sample_host p route body) s () (replicate (length steps) api_ok @ cs)"
    using Cons.prems(2) by (intro yields_api_put) simp_all
  then show ?case unfolding st api_puts.simps
    using Cons by (intro yields_bnd) auto
qed

lemma yields_spawn_vm:
  assumes "vm_world s = (0, replicate 5 api_ok @ cs)"
  shows "\<exists>s'. spawn_vm sample_firecracker sample_host p workdir s = Some (Inr (), s') \<and> vm_world s' = (0, cs) \<and> vm_process s' = Some 100"
proof -
  let ?ws = "replicate 5 api_ok @ cs"
  have up: "yields (wait_for_socket sample_host p pid (fl (0 + BOOT_WAIT_SECONDS))) s' () ?ws" if "vm_world s' = (0, ?ws)" for s' pid
    unfolding yields_def using that
    by (subst wait_for_socket.simps)
      (simp add: bnd_def now_def path_exists_def act_def sure_def sample_host_def ret_def BOOT_WAIT_SECONDS_def)
  have boot: "yields (api_puts sample_host p (boot_steps c workdir)) s' () cs" if "vm_world s' = (0, ?ws)" for s' c
    using that by (intro yields_api_puts dumps_steps) (simp_all add: boot_steps_def eval_nat_numeral)
  have rest: "yields (bnd (now sample_host) (\<lambda>start. bnd (wait_for_socket sample_host p pid (fl (start + BOOT_WAIT_SECONDS)))
      (\<lambda>_. api_puts sample_host p (boot_steps c workdir)))) s' () cs" if "vm_world s' = (0, ?ws)" for s' pid c
    by (rule yields_bnd [OF yields_calls(1) [OF that]], rule yields_bnd, erule up, erule boot)
  have "yields (epoch sample_host) s 0 ?ws" using assms by (rule yields_calls)
  then obtain s1 where s1: "epoch sample_host s = Some (Inr 0, s1)" "vm_world s1 = (0, ?ws)" by (rule yieldsE)
  from yields_calls(13) [OF s1(2)] obtain s2
    where s2: "popen sample_host (jailer_command (fc_config sample_firecracker) (chroot_id (h_pid sample_host) 0) workdir) s1 = Some (Inr 100, s2)"
      "vm_world s2 = (0, ?ws)" by (rule yieldsE)
  from rest [of "s2\<lparr>vm_process := Some 100\<rparr>" 100 "fc_config sample_firecracker"] s2(2) obtain s3
    where "bnd (now sample_host) (\<lambda>start. bnd (wait_for_socket sample_host p 100 (fl (start + BOOT_WAIT_SECONDS)))
      (\<lambda>_. api_puts sample_host p (boot_steps (fc_config sample_firecracker) workdir))) (s2\<lparr>vm_process := Some 100\<rparr>) = Some (Inr (), s3)"
      "vm_world s3 = (0, cs)" "vm_process s3 = Some 100" by (auto elim: yieldsE)
  with s1 s2 show ?thesis by (simp add: spawn_vm_def bnd_def [of "epoch _"] bnd_def [of "popen _ _"] bnd_def [of "set_process _"] set_process_def ret_def)
qed


lemma dumps_meta: "\<exists>meta. json_dumps False (VDict (job_meta job)) = Inr meta"
  by (simp add: job_meta_def json_items_def)

lemma yields_send_job:
  assumes "vm_world s = (0, ''OK 52'' # cs)"
  shows "yields (send_job sample_host job workdir) s () cs"
proof -
  let ?ws = "''OK 52'' # cs"
  from dumps_meta obtain meta where meta: "json_dumps False (VDict (job_meta job)) = Inr meta" by blast
  have archive: "yields (job_archive sample_host job) s (h_tar_close sample_host ([] @ [] @ h_tar_entry sample_host ''job.json'' meta)) ?ws"
    unfolding job_archive_def meta
    by (rule yields_bnd [OF yields_calls(11) [OF assms]], unfold if_False, rule yields_bnd [OF yields_calls(15)], assumption,
        rule yields_bnd [OF yields_calls(12)], assumption, unfold if_False, rule yields_bnd [OF yields_calls(15)], assumption,
        rule yields_bnd [OF yields_calls(16)], assumption, rule yields_calls(15))
  have ack: "starts_with ''OK'' ''OK 52''" by code_simp
  show ?thesis unfolding send_job_def
    by (rule yields_bnd [OF archive], rule yields_bnd [OF yields_calls(3)], assumption, rule yields_finally,
        rule yields_bnd [OF yields_calls(4)], assumption, rule yields_bnd [OF yields_calls(5)], assumption,
        rule yields_bnd [OF yields_recv], assumption, simp only: ack not_True_eq_False if_False,
        rule yields_bnd [OF yields_calls(5)], assumption, rule yields_calls(6), assumption, rule yields_calls(7))
qed

lemma yields_await_result:
  assumes "vm_world s = (0, ''OK 53'' # ''body'' # [] # cs)"
  shows "yields (await_result sample_firecracker sample_host workdir) s sample_guest_value cs"
proof -
  have ended: "read_all sample_host acc s' = Some (Inr acc, s'\<lparr>vm_world := (0, cs), vm_calls := vm_calls s' @ [Received []]\<rparr>)"
    if "vm_world s' = (0, [] # cs)" for s' acc
    using that by (subst read_all.simps) (simp add: bnd_def recv_def act_def sample_host_def ret_def)
  have first: "recv sample_host n s' = Some (Inr ''body'', s'\<lparr>vm_world := (0, [] # cs), vm_calls := vm_calls s' @ [Received ''body'']\<rparr>)"
    if "vm_world s' = (0, ''body'' # [] # cs)" for s' n
    using that by (simp add: recv_def act_def sample_host_def)
  have body: "yields (read_all sample_host []) s' ''body'' cs" if "vm_world s' = (0, ''body'' # [] # cs)" for s'
    unfolding yields_def by (subst read_all.simps) (simp add: bnd_def first [OF that] ended)
  have ack: "starts_with ''OK'' ''OK 53''" by code_simp
  have loads: "json_loads (h_libs sample_host) ''body'' = Some sample_guest_value" by (simp add: sample_host_def)
  have ask: "yields (ask_result sample_host workdir) s' (Inr sample_guest_value) cs" if "vm_world s' = (0, ''OK 53'' # ''body'' # [] # cs)" for s'
    unfolding ask_result_def
    by (rule yields_bnd [OF yields_calls(4)], rule that, rule yields_bnd [OF yields_calls(5)], assumption,
        rule yields_bnd [OF yields_recv], assumption, simp only: ack not_True_eq_False if_False,
        rule yields_bnd, erule body) (simp add: loads yields_calls)
  have poll: "yields (poll_result sample_host workdir) s' (Inr sample_guest_value) cs" if "vm_world s' = (0, ''OK 53'' # ''body'' # [] # cs)" for s'
    unfolding poll_result_def
    by (rule yields_bnd [OF yields_calls(3)], rule that, rule yields_finally, rule yields_except, erule ask, rule yields_calls(7))
  have deadline: "(0::real) < fl (0 + real_of_int (wallclock_seconds (fc_config sample_firecracker)))"
    by (simp add: sample_firecracker_def new_firecracker_def sample_config_def Let_def)
  have "yields (await_loop sample_host workdir d None) s' sample_guest_value cs"
    if "vm_world s' = (0, ''OK 53'' # ''body'' # [] # cs)" "0 < d" for s' d
  proof -
    have "yields (bnd (now sample_host) (\<lambda>t s. if t < d then bnd (poll_result sample_host workdir) (\<lambda>r s.
           case r of Inl why \<Rightarrow> await_loop sample_host workdir d (Some why) s | Inr v \<Rightarrow> ret v s) s
       else throw (DispatchError (''timed out waiting for guest result: ''
              @ (case None of None \<Rightarrow> ''None'' | Some e \<Rightarrow> e))) s)) s' sample_guest_value cs"
      by (rule yields_bnd [OF yields_calls(1)], rule that(1), simp only: that(2) if_True, rule yields_bnd, erule poll)
        (simp add: yields_calls)
    then show ?thesis unfolding yields_def by (subst await_loop.simps)
  qed
  with deadline assms show ?thesis unfolding await_result_def
    by (intro yields_bnd [OF yields_calls(1)]) auto
qed

lemma sample_vm_run:
  "\<exists>s'. dispatch_vm sample_firecracker sample_host small_job sample_vm_state = Some (Inr sample_guest_result, s')"
proof -
  let ?wd = "''/tmp/cce-fc-x''" and ?F = sample_firecracker and ?H = sample_host
  let ?work = "[''OK 52'', ''OK 53'', ''body'', [], api_ok]"
  have s: "vm_world sample_vm_state = (0, replicate 5 api_ok @ ?work)" by (simp add: sample_vm_state_def eval_nat_numeral)
  have avail: "fc_available ?F" by (simp add: sample_firecracker_def new_firecracker_def starts_with_def)
  have "config_assert_digests (h_libs ?H) (h_files ?H) (fc_config ?F) = Inr ()"
    unfolding config_digests_ok by code_simp
  then have gate: "digest_gate ?F ?H sample_vm_state = Some (Inr (), sample_vm_state)"
    by (simp add: digest_gate_def of_result_def)
  from yields_calls(8) [OF s] obtain s1 where s1: "mkdtemp ?H ''cce-fc-'' sample_vm_state = Some (Inr ?wd, s1)"
    "vm_world s1 = (0, replicate 5 api_ok @ ?work)" by (rule yieldsE)
  from yields_spawn_vm [OF s1(2)] obtain s2 where s2: "spawn_vm ?F ?H (vm_socket ?wd) ?wd s1 = Some (Inr (), s2)"
    "vm_world s2 = (0, ?work)" "vm_process s2 = Some 100" by blast
  have "yields (try_except (bnd (send_job ?H small_job ?wd) (\<lambda>_. await_result ?F ?H ?wd)) wallclock_handler) s2 sample_guest_value [api_ok]"
    by (rule yields_except, rule yields_bnd, rule yields_send_job, rule s2(2), rule yields_await_result)
  then obtain s3 where s3: "try_except (bnd (send_job ?H small_job ?wd) (\<lambda>_. await_result ?F ?H ?wd)) wallclock_handler s2 = Some (Inr sample_guest_value, s3)"
    "vm_world s3 = (0, [api_ok])" "vm_process s3 = vm_process s2" by (rule yieldsE)
  have "yields (suppress (api_put ?H (vm_socket ?wd) ''/actions'' [(VStr ''action_type'', VStr ''SendCtrlAltDel'')])) s3 () []"
    unfolding suppress_def by (rule yields_except, rule yields_api_put) (simp_all add: json_items_def s3(2))
  then obtain s4 where s4: "suppress (api_put ?H (vm_socket ?wd) ''/actions'' [(VStr ''action_type'', VStr ''SendCtrlAltDel'')]) s3 = Some (Inr (), s4)"
    "vm_world s4 = (0, [])" "vm_process s4 = vm_process s3" by (rule yieldsE)
  have "yields (end_process ?H 100) (s4\<lparr>vm_process := None\<rparr>) () []"
    unfolding end_process_def by (rule yields_except, rule yields_calls(14)) (simp add: s4(2))
  then obtain s5 where s5: "end_process ?H 100 (s4\<lparr>vm_process := None\<rparr>) = Some (Inr (), s5)" "vm_world s5 = (0, [])"
    by (rule yieldsE)
  from yields_calls(9) [OF s5(2)] obtain s6 where s6: "rmtree ?H ?wd s5 = Some (Inr (), s6)" by (rule yieldsE)
  have down: "teardown ?H (vm_socket ?wd) s3 = Some (Inr (), s5)"
    using s4 s5(1) s3(3) s2(3) by (simp add: teardown_def bnd_def set_process_def ret_def)
  have "score_in_vm ?F ?H small_job ?wd s2 = Some (Inr sample_guest_value, s6)"
    using s3(1) down s6 by (simp add: score_in_vm_def try_finally_def bnd_def [of "teardown _ _"])
  moreover have "result_of_payload sample_guest_value = Inr sample_guest_result"
    by (simp add: result_of_payload_def payload_item_def payload_get_def sample_guest_value_def sample_guest_result_def
        get_item_def lookup_def)
  ultimately show ?thesis using avail gate s1(1) s2(1)
    by (simp add: dispatch_vm_def bnd_def of_result_def)
qed

section \<open>Witnesses\<close>

lemma vm_lifecycle_witness:
  "\<exists>s' cs. dispatch_vm sample_firecracker sample_host small_job sample_vm_state = Some (Inr sample_guest_result, s')
    \<and> vm_calls s' = vm_calls sample_vm_state @ cs \<and> vm_run sample_firecracker sample_host small_job cs (Inr sample_guest_result)"
  using sample_vm_run vm_lifecycle [of sample_firecracker sample_host small_job sample_vm_state "Inr sample_guest_result"] by blast


end
