(* ===== verification/PinnedTools.thy ===== *)
theory PinnedTools
  imports PyJson CoreProps
begin

text \<open>
  \<open>src/scripts/sync_pinned_tools.py\<close>: it copies the digests of \<open>digests.json\<close> into the
  \<open>pinned_tools\<close> of the scoring spec and renews the declared \<open>spec_hash\<close>. \<open>yaml.safe_dump\<close> is the
  parameter \<open>dump\<close>; the result is the outcome and the content of the spec file afterwards.

  The property composes the script with the loader of \<open>Spec\<close>: what it writes loads, with the new digests.
\<close>

section \<open>The script\<close>

datatype script_error = SystemExit string | YAMLError | Raised exn

definition raising :: "'a result \<Rightarrow> script_error + 'a" where
  "raising r = (case r of Inl e \<Rightarrow> Inl (Raised e) | Inr x \<Rightarrow> Inr x)"

text \<open>\<open>digests_file\<close> is the text of \<open>digests.json\<close>, \<open>None\<close> if there is no such file.\<close>

definition load_digests :: "libs \<Rightarrow> string option \<Rightarrow> script_error + pyval" where
  "load_digests L digests_file =
     (case digests_file of
        None \<Rightarrow> Inl (SystemExit ''missing digests.json; run ops/firecracker/rootfs.build.sh first'')
      | Some t \<Rightarrow> (case json_loads L t of None \<Rightarrow> Inl (Raised JSONDecodeError) | Some v \<Rightarrow> Inr v))"

text \<open>\<open>set(digests)\<close> as the list of its elements.\<close>

definition elements_of :: "pyval \<Rightarrow> pyval list result" where
  "elements_of v =
     (case v of
        VDict d \<Rightarrow> Inr (map fst d)
      | VList vs \<Rightarrow> if list_ex (\<lambda>x. case x of VDict d \<Rightarrow> True | VList xs \<Rightarrow> True | _ \<Rightarrow> False) vs
                    then Inl (TypeError ''unhashable type'') else Inr vs
      | VStr s \<Rightarrow> Inr (map (\<lambda>c. VStr [c]) s)
      | _ \<Rightarrow> Inl (TypeError ''object is not iterable''))"

definition item_of :: "pyval \<Rightarrow> string \<Rightarrow> pyval result" where
  "item_of v key =
     (case v of
        VDict d \<Rightarrow> (case map_of d (VStr key) of None \<Rightarrow> Inl (KeyError key) | Some x \<Rightarrow> Inr x)
      | _ \<Rightarrow> Inl (TypeError ''indices must be integers''))"

definition digest_text :: "pyval \<Rightarrow> bool" where
  "digest_text v = (case v of VStr s \<Rightarrow> starts_with ''sha256:'' s | _ \<Rightarrow> False)"

definition required_keys :: "string list" where
  "required_keys = [''grammars'', ''lizard'', ''scc'', ''tree_sitter_core'']"

definition check_digest :: "pyval \<Rightarrow> string \<Rightarrow> script_error + unit" where
  "check_digest digests key =
     andthen (raising (item_of digests key)) (\<lambda>value.
     require (digest_text value) (SystemExit (''digests.json['' @ repr_string key @ ''] must be '' @ quoted ''sha256:<hex>'')))"

definition check_grammar :: "pyval \<times> pyval \<Rightarrow> script_error + unit" where
  "check_grammar kv =
     require (digest_text (snd kv))
       (SystemExit (''digests.json['' @ quoted ''grammars'' @ '']['' @ py_repr (fst kv) @ ''] must be '' @ quoted ''sha256:<hex>''))"

definition no_grammars :: script_error where
  "no_grammars = SystemExit (''digests.json['' @ quoted ''grammars'' @ ''] must be a non-empty object'')"

definition validate_digests :: "pyval \<Rightarrow> script_error + unit" where
  "validate_digests digests =
     andthen (raising (elements_of digests)) (\<lambda>present.
     let missing = filter (\<lambda>k. VStr k \<notin> set present) required_keys in
     if missing \<noteq> [] then Inl (SystemExit (''digests.json missing keys: '' @ py_repr (VList (map VStr missing))))
     else andthen (each (check_digest digests) [''lizard'', ''scc'', ''tree_sitter_core'']) (\<lambda>_.
       andthen (raising (item_of digests ''grammars'')) (\<lambda>grammars.
       case grammars of
         VDict (g # gs) \<Rightarrow> andthen (each check_grammar (g # gs)) (\<lambda>_. Inr ())
       | _ \<Rightarrow> Inl no_grammars)))"

definition grammar_items :: "pyval \<Rightarrow> mapping_value" where
  "grammar_items v = (case v of VDict gs \<Rightarrow> sort_key (\<lambda>(k, v). key_text k) gs | _ \<Rightarrow> [])"

definition pinned_tools :: "pyval \<Rightarrow> pyval result" where
  "pinned_tools digests =
     andthen (item_of digests ''tree_sitter_core'') (\<lambda>core.
     andthen (item_of digests ''grammars'') (\<lambda>grammars.
     andthen (item_of digests ''lizard'') (\<lambda>lizard.
     andthen (item_of digests ''scc'') (\<lambda>scc.
     Inr (VDict [(VStr ''tree_sitter_core'', core), (VStr ''grammars'', VDict (grammar_items grammars)),
       (VStr ''lizard'', lizard), (VStr ''scc'', scc)])))))"

definition load_yaml :: "libs \<Rightarrow> string \<Rightarrow> script_error + mapping_value" where
  "load_yaml L text =
     (case yaml_safe_load L text of
        None \<Rightarrow> Inl YAMLError
      | Some (VDict m) \<Rightarrow> Inr m
      | Some _ \<Rightarrow> Inl (Raised (TypeError ''object does not support item assignment'')))"

text \<open>The second half: read the file back, hash it and write it again.\<close>

definition renew_hash :: "libs \<Rightarrow> (pyval \<Rightarrow> string) \<Rightarrow> string \<Rightarrow> (script_error + unit) \<times> string" where
  "renew_hash L dump text =
     (case andthen (load_yaml L text) (\<lambda>m. andthen (raising (compute_spec_hash L m)) (\<lambda>h.
             Inr (VDict (dict_set (VStr ''spec_hash'') (VStr h) m)))) of
        Inl e \<Rightarrow> (Inl e, text)
      | Inr spec \<Rightarrow> (Inr (), dump spec))"

definition sync_pinned_tools ::
    "libs \<Rightarrow> (pyval \<Rightarrow> string) \<Rightarrow> string option \<Rightarrow> string \<Rightarrow> (script_error + unit) \<times> string" where
  "sync_pinned_tools L dump digests_file spec_text =
     (case andthen (load_digests L digests_file) (\<lambda>digests.
           andthen (validate_digests digests) (\<lambda>_.
           andthen (load_yaml L spec_text) (\<lambda>m.
           andthen (raising (pinned_tools digests)) (\<lambda>tools.
           Inr (VDict (dict_set (VStr ''pinned_tools'') tools m)))))) of
        Inl e \<Rightarrow> (Inl e, spec_text)
      | Inr spec \<Rightarrow> renew_hash L dump (dump spec))"

section \<open>What it writes is accepted\<close>

declare get_key_set [simp]

lemma list_ex_dict_set: "list_ex P (map snd (dict_set k v d)) \<Longrightarrow> P v \<or> list_ex P (map snd d)"
  by (induction d) (auto split: if_splits)

text \<open>Replacing \<open>pinned_tools\<close> by accepted digests keeps a spec acceptable.\<close>

lemma spec_with_tools:
  assumes s: "spec_from_mapping L m = Inr s" and tools: "flatten_tool_digests tools = Inr ds" "\<not> has_float tools"
    and hash: "compute_spec_hash L (dict_set (VStr ''pinned_tools'') tools m) = Inr h"
  shows "spec_from_mapping L (dict_set (VStr ''pinned_tools'') tools m)
    = Inr (s\<lparr>spec_hash := h, tool_digests := ds, raw := dict_set (VStr ''pinned_tools'') tools m\<rparr>)"
proof -
  from s have "\<not> has_float (VDict m)" by (auto simp: spec_from_mapping_def andthen_eq_Inr reject_floats_iff)
  with tools(2) list_ex_dict_set [of has_float "VStr ''pinned_tools''" tools m]
  have "reject_floats (VDict (dict_set (VStr ''pinned_tools'') tools m)) ''scoring-spec.yaml'' = Inr ()"
    unfolding reject_floats_iff(1) by auto
  with s tools(1) hash show ?thesis
    by (auto simp: spec_from_mapping_def result_simps split: if_splits)
qed

definition full_digest :: "mapping_value \<Rightarrow> string \<Rightarrow> bool" where
  "full_digest d key \<longleftrightarrow> (case get_key d key of VStr t \<Rightarrow> re_dollar sha256_text t | _ \<Rightarrow> False)"

definition digest_at :: "mapping_value \<Rightarrow> string \<Rightarrow> string" where
  "digest_at d key = (case get_key d key of VStr t \<Rightarrow> t | _ \<Rightarrow> [])"

lemma full_digest_get: "full_digest d key \<Longrightarrow> get_key d key = VStr (digest_at d key) \<and> re_dollar sha256_text (digest_at d key)"
  by (auto simp: full_digest_def digest_at_def split: pyval.splits)

lemma get_key_some: "get_key d key = VStr t \<Longrightarrow> map_of d (VStr key) = Some (VStr t)"
  by (auto simp: get_key_def split: option.splits)

lemma map_of_sort_key: "distinct (map fst xs) \<Longrightarrow> map_of (sort_key f xs) = map_of xs"
  by (rule map_of_inject_set [THEN iffD2]) (auto simp: distinct_map inj_on_def)

lemma validated_grammars:
  assumes "validate_digests (VDict d) = Inr ()"
  obtains gs where "get_key d ''grammars'' = VDict gs" "\<forall>kv\<in>set gs. digest_text (snd kv)"
proof -
  from assms obtain grammars where v: "item_of (VDict d) ''grammars'' = Inr grammars"
    "(case grammars of VDict (g # gs) \<Rightarrow> andthen (each check_grammar (g # gs)) (\<lambda>_. Inr ())
       | _ \<Rightarrow> Inl no_grammars) = Inr ()"
    unfolding validate_digests_def Let_def
    by (auto simp del: each.simps simp: andthen_eq_Inr raising_def split: if_splits sum.splits)
  then obtain g gs where g: "item_of (VDict d) ''grammars'' = Inr (VDict (g # gs))" "\<exists>us. each check_grammar (g # gs) = Inr us"
    by (cases grammars) (auto simp del: each.simps simp: andthen_eq_Inr split: list.splits)
  have "each check_grammar xs = Inr us \<Longrightarrow> \<forall>kv\<in>set xs. digest_text (snd kv)" for xs us
    by (induction xs arbitrary: us) (auto simp: result_simps check_grammar_def)
  with g(2) have "\<forall>kv\<in>set (g # gs). digest_text (snd kv)" by blast
  moreover from g(1) have "get_key d ''grammars'' = VDict (g # gs)"
    by (auto simp: item_of_def get_key_def split: option.splits)
  ultimately show thesis by (rule that [rotated])
qed

definition tools_of :: "mapping_value \<Rightarrow> mapping_value \<Rightarrow> pyval" where
  "tools_of d gs = VDict [(VStr ''tree_sitter_core'', VStr (digest_at d ''tree_sitter_core'')),
     (VStr ''grammars'', VDict (grammar_items (VDict gs))), (VStr ''lizard'', VStr (digest_at d ''lizard'')),
     (VStr ''scc'', VStr (digest_at d ''scc''))]"

definition five_digests :: "mapping_value \<Rightarrow> mapping_value \<Rightarrow> (string, string) dict" where
  "five_digests d gs =
     [(''tree_sitter_core'', digest_at d ''tree_sitter_core''), (''tree_sitter_python'', digest_at gs ''python''),
      (''tree_sitter_typescript'', digest_at gs ''typescript''), (''lizard'', digest_at d ''lizard''), (''scc'', digest_at d ''scc'')]"

definition full_digests :: "mapping_value \<Rightarrow> mapping_value \<Rightarrow> bool" where
  "full_digests d gs \<longleftrightarrow> list_all (full_digest d) [''tree_sitter_core'', ''lizard'', ''scc'']
     \<and> list_all (full_digest gs) [''python'', ''typescript'']"

lemma pinned_tools_ok:
  assumes "full_digests d gs" "get_key d ''grammars'' = VDict gs"
  shows "pinned_tools (VDict d) = Inr (tools_of d gs)"
proof -
  have some: "get_key d k = v \<Longrightarrow> v \<noteq> VNone \<Longrightarrow> map_of d (VStr k) = Some v" for k v
    by (auto simp: get_key_def split: option.splits)
  from assms(1) have "map_of d (VStr k) = Some (VStr (digest_at d k))" if "k \<in> {''tree_sitter_core'', ''lizard'', ''scc''}" for k
    using that full_digest_get [of d k] some [of k] by (auto simp: full_digests_def)
  moreover have "map_of d (VStr ''grammars'') = Some (VDict gs)" using some [OF assms(2)] by simp
  ultimately show ?thesis
    by (simp add: pinned_tools_def item_of_def tools_of_def)
qed

lemma grammar_items_get: "distinct (map fst gs) \<Longrightarrow> get_key (grammar_items (VDict gs)) k = get_key gs k"
  by (simp add: grammar_items_def get_key_def map_of_sort_key)

lemma tools_flatten:
  assumes "full_digests d gs" "distinct (map fst gs)"
  shows "flatten_tool_digests (tools_of d gs) = Inr (five_digests d gs)"
proof -
  have get: "get_key [(VStr ''tree_sitter_core'', a), (VStr ''grammars'', b), (VStr ''lizard'', c), (VStr ''scc'', e)] k
    = (if k = ''tree_sitter_core'' then a else if k = ''grammars'' then b else if k = ''lizard'' then c else if k = ''scc'' then e else VNone)"
    for a b c e k by (simp add: get_key_def)
  from assms(1) have ok: "get_key gs k = VStr (digest_at gs k) \<and> re_dollar sha256_text (digest_at gs k)"
    if "k \<in> {''python'', ''typescript''}" for k
    using that full_digest_get [of gs k] by (auto simp: full_digests_def)
  from assms(1) have ok': "re_dollar sha256_text (digest_at d k)" if "k \<in> {''tree_sitter_core'', ''lizard'', ''scc''}" for k
    using that full_digest_get [of d k] by (auto simp: full_digests_def)
  have "validate_digest_shapes (five_digests d gs) = Inr ()"
    unfolding validate_digest_shapes_iff five_digests_def using ok ok' by simp
  then show ?thesis
    using ok [of "''python''"] ok [of "''typescript''"]
    by (simp add: flatten_tool_digests_def tools_of_def get require_digest_def grammar_items_get [OF assms(2)]
        five_digests_def Let_def)
qed

lemma digest_text_iff: "digest_text v \<longleftrightarrow> (\<exists>t. v = VStr t \<and> starts_with ''sha256:'' t)"
  by (cases v) (simp_all add: digest_text_def)

lemma tools_plain:
  assumes "\<forall>kv\<in>set gs. digest_text (snd kv)" "json_plain (VDict gs)"
  shows "json_plain (tools_of d gs)" "\<not> has_float (tools_of d gs)"
  using assms by (fastforce simp: tools_of_def grammar_items_def list_all_iff list_ex_iff digest_text_iff)+

lemma json_plain_get: "json_plain (VDict d) \<Longrightarrow> get_key d k = v \<Longrightarrow> v \<noteq> VNone \<Longrightarrow> json_plain v"
  by (auto simp: get_key_def list_all_iff dest!: map_of_SomeD split: option.splits)

lemma json_plain_set: "json_plain (VDict m) \<Longrightarrow> json_plain v \<Longrightarrow> json_plain (VDict (dict_set (VStr k) v m))"
  by (induction m) auto

text \<open>The file after an accepted sync, and what reading, hashing and syncing it again give.\<close>

lemma sync_writes:
  assumes spec: "yaml_safe_load L text = Some (VDict m)" "spec_from_mapping L m = Inr s" "json_plain (VDict m)"
    and digests: "json_loads L t = Some (VDict d)" "json_plain (VDict d)" "validate_digests (VDict d) = Inr ()"
      "get_key d ''grammars'' = VDict gs" "distinct (map fst gs)" "full_digests d gs"
    and yaml: "\<And>v. json_plain v \<Longrightarrow> yaml_safe_load L (dump v) = Some v"
    and hash: "compute_spec_hash L (dict_set (VStr ''pinned_tools'') (tools_of d gs) m) = Inr h"
  defines "m2 \<equiv> dict_set (VStr ''spec_hash'') (VStr h) (dict_set (VStr ''pinned_tools'') (tools_of d gs) m)"
  shows "sync_pinned_tools L dump (Some t) text = (Inr (), dump (VDict m2))"
    and "yaml_safe_load L (dump (VDict m2)) = Some (VDict m2)"
    and "compute_spec_hash L m2 = Inr h"
    and "load_spec L (Inr (dump (VDict m2))) = Inr (s\<lparr>spec_hash := h, tool_digests := five_digests d gs, raw := m2\<rparr>)"
    and "sync_pinned_tools L dump (Some t) (dump (VDict m2)) = (Inr (), dump (VDict m2))"
proof -
  let ?tools = "tools_of d gs"
  let ?m1 = "dict_set (VStr ''pinned_tools'') ?tools m"
  let ?m2 = "dict_set (VStr ''spec_hash'') (VStr h) ?m1"
  have m2: "m2 = ?m2" by (simp add: m2_def)
  from digests(3) obtain gs' where "get_key d ''grammars'' = VDict gs'" "\<forall>kv\<in>set gs'. digest_text (snd kv)"
    by (rule validated_grammars)
  with digests(4) have gs: "\<forall>kv\<in>set gs. digest_text (snd kv)" by simp
  have "json_plain (VDict gs)" using json_plain_get [OF digests(2,4)] by simp
  with gs have tools: "json_plain ?tools" "\<not> has_float ?tools" by (simp_all add: tools_plain)
  have plain1: "json_plain (VDict ?m1)" by (rule json_plain_set [OF spec(3) tools(1)])
  have plain2: "json_plain (VDict ?m2)" by (rule json_plain_set [OF plain1]) simp
  have accepted: "spec_from_mapping L ?m1 = Inr (s\<lparr>spec_hash := h, tool_digests := five_digests d gs, raw := ?m1\<rparr>)"
    by (rule spec_with_tools [OF spec(2) tools_flatten [OF digests(6,5)] tools(2) hash])
  have same: "dict_set (VStr ''pinned_tools'') ?tools ?m2 = ?m2"
    by (rule update_triv) simp
  have again: "compute_spec_hash L ?m2 = Inr h"
    using hash by (simp add: compute_spec_hash_def delete_update_same)
  have hashed: "dict_set (VStr ''spec_hash'') (VStr h) ?m2 = ?m2"
    by (rule update_triv) simp
  have run: "sync_pinned_tools L dump (Some t) text0 = renew_hash L dump (dump (VDict (dict_set (VStr ''pinned_tools'') ?tools m0)))"
    if "yaml_safe_load L text0 = Some (VDict m0)" for text0 m0
    using that digests(1,3) pinned_tools_ok [OF digests(6,4)]
    by (simp add: sync_pinned_tools_def load_digests_def load_yaml_def raising_def)
  show "sync_pinned_tools L dump (Some t) text = (Inr (), dump (VDict m2))"
    by (simp add: m2 run [OF spec(1)] renew_hash_def load_yaml_def yaml [OF plain1] hash raising_def)
  show loads: "yaml_safe_load L (dump (VDict m2)) = Some (VDict m2)" unfolding m2 by (rule yaml [OF plain2])
  show "compute_spec_hash L m2 = Inr h" unfolding m2 by (rule again)
  show "sync_pinned_tools L dump (Some t) (dump (VDict m2)) = (Inr (), dump (VDict m2))"
    using yaml [OF plain2] by (simp add: m2 run same renew_hash_def load_yaml_def again raising_def hashed)
  from spec_hash_field_ignored [OF accepted, of h] loads
  show "load_spec L (Inr (dump (VDict m2))) = Inr (s\<lparr>spec_hash := h, tool_digests := five_digests d gs, raw := m2\<rparr>)"
    by (simp add: load_spec_def m2)
qed


section \<open>A sync that is carried out\<close>

definition sync_libs :: libs where
  "sync_libs = sample_libs\<lparr>json_loads := json_read, yaml_safe_load := json_read\<rparr>"

definition sample_dump :: "pyval \<Rightarrow> string" where
  "sample_dump v = (case json_dumps False v of Inl e \<Rightarrow> [] | Inr t \<Rightarrow> t)"

definition sample_grammars :: mapping_value where
  "sample_grammars = [(VStr ''typescript'', VStr (sample_digest (CHR ''4''))), (VStr ''python'', VStr (sample_digest (CHR ''8'')))]"

definition sample_digests :: mapping_value where
  "sample_digests =
     [(VStr ''lizard'', VStr (sample_digest (CHR ''b''))), (VStr ''scc'', VStr (sample_digest (CHR ''7''))),
      (VStr ''tree_sitter_core'', VStr (sample_digest (CHR ''d''))), (VStr ''grammars'', VDict sample_grammars)]"

lemma sample_dump_loads: "json_plain v \<Longrightarrow> json_read (sample_dump v) = Some v"
  using json_dumps_plain [of v False] json_read_dumps [of v False] by (auto simp: sample_dump_def)

lemma full_digest_sample: "get_key d k = VStr (sample_digest c) \<Longrightarrow> is_hex_lower c \<Longrightarrow> full_digest d k"
  by (simp add: full_digest_def sample_digest_shape)

lemma sync_libs_loads:
  assumes "json_plain v"
  shows "yaml_safe_load sync_libs (sample_dump v) = Some v" "json_loads sync_libs (sample_dump v) = Some v"
  using assms by (simp_all add: sync_libs_def sample_dump_loads)

lemma sync_libs_accepts: "\<exists>s. spec_from_mapping sync_libs (shipped_mapping ''0.30'') = Inr s"
proof -
  have "compute_spec_hash sync_libs = compute_spec_hash sample_libs"
    by (simp add: fun_eq_iff compute_spec_hash_def sync_libs_def)
  then have "spec_from_mapping sync_libs m = spec_from_mapping sample_libs m" for m
    by (simp only: spec_from_mapping_def)
  with shipped_accepted show ?thesis by auto
qed

lemma shipped_pinned_plain: "json_plain (VDict (shipped_mapping ''0.30''))"
  by (simp add: shipped_mapping_def shipped_rule_value_def str_dict_def)

lemma sync_libs_hash: "\<exists>h. compute_spec_hash sync_libs m = Inr h"
  by (simp add: compute_spec_hash_def sync_libs_def sample_libs_def)


text \<open>The script only asks for the prefix \<open>sha256:\<close>: it accepts digests that the loader refuses.\<close>

lemma script_accepts_short_digest:
  "validate_digests (VDict [(VStr ''lizard'', VStr ''sha256:''), (VStr ''scc'', VStr ''sha256:''),
     (VStr ''tree_sitter_core'', VStr ''sha256:''), (VStr ''grammars'', VDict [(VStr ''go'', VStr ''sha256:'')])]) = Inr ()"
  by code_simp

text \<open>When hashing fails, the file has the new digests already but the old declared hash.\<close>

lemma failed_hash_leaves_file_rewritten:
  assumes "yaml_safe_load L text = Some (VDict m)" "compute_spec_hash L m = Inl e"
  shows "renew_hash L dump text = (Inl (Raised e), text)"
  using assms by (simp add: renew_hash_def load_yaml_def raising_def)

end
