(* ===== verification/Migrations.thy ===== *)
theory Migrations
  imports Postgres Service
begin

text \<open>
  \<open>src/cce_service/migrations/versions/\<close> and the ORM classes of \<open>storage/postgres.py\<close>: the tables the
  migrations create, the tables the adapters map, and which rows fit into them.

  A migration is the list of calls it makes on Alembic's \<open>op\<close>. \<open>run_ddl\<close> says what such a list means on a
  \<open>schema\<close>, the tables with their columns and the indexes; a statement SQL rejects has no result. The database
  behind Alembic is outside the repository: \<open>sql_database\<close> states that it follows this meaning.
\<close>

section \<open>Columns and statements\<close>

datatype sql_type = SqlString nat | SqlText | SqlJSON | SqlDateTimeTz | SqlInteger

record Column =
  col_name :: string
  col_type :: sql_type
  primary_key :: bool
  nullable :: bool
  unique :: bool
  autoincrement :: bool
  server_default :: "string option"

definition column :: "string \<Rightarrow> sql_type \<Rightarrow> bool \<Rightarrow> Column" where
  "column name t null =
     \<lparr>col_name = name, col_type = t, primary_key = False, nullable = null, unique = False, autoincrement = False,
       server_default = None\<rparr>"

definition key_column :: "string \<Rightarrow> sql_type \<Rightarrow> Column" where
  "key_column name t = (column name t False)\<lparr>primary_key := True\<rparr>"

datatype ddl =
    CreateTable string "Column list"
  | CreateIndex string string "string list"
  | DropTable string
  | DropIndex string string
  | AddColumn string Column
  | DropColumn string string

record migration =
  revision :: string
  down_revision :: "string option"
  upgrade :: "ddl list"
  downgrade :: "ddl list"

section \<open>The migrations\<close>

definition jobs_columns :: "Column list" where
  "jobs_columns =
     [key_column ''job_id'' (SqlString 64),
      column ''tenant'' (SqlString 255) False,
      column ''repo_url'' SqlText False,
      column ''commit_sha'' (SqlString 64) False,
      column ''spec_ref'' (SqlString 255) False,
      column ''status'' (SqlString 16) False,
      column ''record_hash'' (SqlString 256) True,
      column ''score'' (SqlString 32) True,
      column ''error'' SqlText True,
      column ''sidecars'' SqlJSON True,
      column ''created_at'' SqlDateTimeTz False,
      column ''updated_at'' SqlDateTimeTz False]"

definition audit_columns :: "Column list" where
  "audit_columns =
     [(key_column ''id'' SqlInteger)\<lparr>autoincrement := True\<rparr>,
      column ''actor'' (SqlString 255) False,
      column ''action'' (SqlString 64) False,
      column ''target'' (SqlString 255) False,
      column ''ts'' SqlDateTimeTz False,
      column ''payload'' SqlJSON False]"

definition users_columns :: "Column list" where
  "users_columns =
     [key_column ''user_id'' (SqlString 64),
      (column ''email'' (SqlString 320) False)\<lparr>unique := True\<rparr>,
      column ''tenant'' (SqlString 255) False,
      column ''created_at'' SqlDateTimeTz False]"

definition initial_upgrade :: "ddl list" where
  "initial_upgrade =
     [CreateTable ''jobs'' jobs_columns,
      CreateIndex ''ix_jobs_tenant'' ''jobs'' [''tenant''],
      CreateIndex ''ix_jobs_status'' ''jobs'' [''status''],
      CreateTable ''audit_events'' audit_columns,
      CreateIndex ''ix_audit_events_ts'' ''audit_events'' [''ts''],
      CreateTable ''users'' users_columns]"

definition initial_downgrade :: "ddl list" where
  "initial_downgrade =
     [DropTable ''users'',
      DropIndex ''ix_audit_events_ts'' ''audit_events'',
      DropTable ''audit_events'',
      DropIndex ''ix_jobs_status'' ''jobs'',
      DropIndex ''ix_jobs_tenant'' ''jobs'',
      DropTable ''jobs'']"

definition initial :: migration where
  "initial =
     \<lparr>revision = ''0001_initial'', down_revision = None, upgrade = initial_upgrade, downgrade = initial_downgrade\<rparr>"

definition tenant_column :: Column where
  "tenant_column =
     (column ''tenant'' (SqlString 255) False)\<lparr>server_default := Some (CHR 0x27 # ''default'' @ [CHR 0x27])\<rparr>"

definition audit_events_tenant :: migration where
  "audit_events_tenant =
     \<lparr>revision = ''0002'', down_revision = Some ''0001'', upgrade = [AddColumn ''audit_events'' tenant_column],
       downgrade = [DropColumn ''audit_events'' ''tenant'']\<rparr>"

definition versions :: "migration list" where
  "versions = [initial, audit_events_tenant]"

section \<open>The mapped classes\<close>

text \<open>A column of the ORM, with the marks that matter only to the statements SQLAlchemy sends; \<open>index\<close> and
  Python-side defaults are left out.\<close>

definition JobRow_columns :: "Column list" where
  "JobRow_columns =
     [key_column ''job_id'' (SqlString 64),
      column ''tenant'' (SqlString 255) False,
      column ''repo_url'' SqlText False,
      column ''commit_sha'' (SqlString 64) False,
      column ''spec_ref'' (SqlString 255) False,
      column ''status'' (SqlString 16) False,
      column ''record_hash'' (SqlString 256) True,
      column ''score'' (SqlString 32) True,
      column ''error'' SqlText True,
      column ''sidecars'' SqlJSON True,
      column ''created_at'' SqlDateTimeTz False,
      column ''updated_at'' SqlDateTimeTz False]"

definition AuditRow_columns :: "Column list" where
  "AuditRow_columns =
     [(key_column ''id'' SqlInteger)\<lparr>autoincrement := True\<rparr>,
      column ''actor'' (SqlString 255) False,
      column ''action'' (SqlString 64) False,
      column ''target'' (SqlString 255) False,
      column ''tenant'' (SqlString 255) False,
      column ''ts'' SqlDateTimeTz False,
      column ''payload'' SqlJSON False]"

section \<open>What the statements mean\<close>

record schema =
  tables :: "string \<Rightarrow> Column list option"
  indexes :: "string \<Rightarrow> (string \<times> string list) option"

definition names :: "Column list \<Rightarrow> string list" where
  "names cs = map col_name cs"

definition on_table :: "string \<Rightarrow> (string \<Rightarrow> (string \<times> string list) option) \<Rightarrow> string \<Rightarrow> (string \<times> string list) option" where
  "on_table t ix = (\<lambda>i. case ix i of None \<Rightarrow> None | Some (t', ks) \<Rightarrow> if t' = t then None else Some (t', ks))"

definition on_column :: "string \<Rightarrow> string \<Rightarrow> (string \<Rightarrow> (string \<times> string list) option) \<Rightarrow> string \<Rightarrow> (string \<times> string list) option" where
  "on_column t c ix = (\<lambda>i. case ix i of None \<Rightarrow> None | Some (t', ks) \<Rightarrow> if t' = t \<and> c \<in> set ks then None else Some (t', ks))"

fun apply_ddl :: "ddl \<Rightarrow> schema \<Rightarrow> schema option" where
  "apply_ddl (CreateTable t cs) s =
     (if tables s t = None \<and> distinct (names cs) then Some (s\<lparr>tables := (tables s)(t \<mapsto> cs)\<rparr>) else None)"
| "apply_ddl (CreateIndex i t ks) s =
     (case tables s t of
        None \<Rightarrow> None
      | Some cs \<Rightarrow> if indexes s i = None \<and> set ks \<subseteq> set (names cs)
                   then Some (s\<lparr>indexes := (indexes s)(i \<mapsto> (t, ks))\<rparr>) else None)"
| "apply_ddl (DropTable t) s =
     (if tables s t = None then None
      else Some (s\<lparr>tables := (tables s)(t := None), indexes := on_table t (indexes s)\<rparr>))"
| "apply_ddl (DropIndex i t) s =
     (if indexes s i = None then None else Some (s\<lparr>indexes := (indexes s)(i := None)\<rparr>))"
| "apply_ddl (AddColumn t c) s =
     (case tables s t of
        None \<Rightarrow> None
      | Some cs \<Rightarrow> if col_name c \<notin> set (names cs) \<and> (nullable c \<or> server_default c \<noteq> None)
                   then Some (s\<lparr>tables := (tables s)(t \<mapsto> cs @ [c])\<rparr>) else None)"
| "apply_ddl (DropColumn t n) s =
     (case tables s t of
        None \<Rightarrow> None
      | Some cs \<Rightarrow> if n \<in> set (names cs)
                   then Some (s\<lparr>tables := (tables s)(t \<mapsto> filter (\<lambda>c. col_name c \<noteq> n) cs),
                     indexes := on_column t n (indexes s)\<rparr>) else None)"

fun run_ddl :: "(ddl \<Rightarrow> 's \<Rightarrow> 's option) \<Rightarrow> ddl list \<Rightarrow> 's \<Rightarrow> 's option" where
  "run_ddl exec [] s = Some s"
| "run_ddl exec (d # ds) s = (case exec d s of None \<Rightarrow> None | Some s' \<Rightarrow> run_ddl exec ds s')"

lemma run_ddl_append:
  "run_ddl exec (ds @ ds') s = (case run_ddl exec ds s of None \<Rightarrow> None | Some s' \<Rightarrow> run_ddl exec ds' s')"
  by (induction ds arbitrary: s) (auto split: option.splits)

text \<open>\<open>alembic upgrade head\<close> and \<open>alembic downgrade base\<close> over revisions in their order.\<close>

definition upgrades :: "migration list \<Rightarrow> ddl list" where
  "upgrades ms = concat (map upgrade ms)"

definition downgrades :: "migration list \<Rightarrow> ddl list" where
  "downgrades ms = concat (map downgrade (rev ms))"

locale sql_database =
  fixes exec :: "ddl \<Rightarrow> 's \<Rightarrow> 's option" and ok :: "'s \<Rightarrow> bool" and schema_of :: "'s \<Rightarrow> schema"
  assumes follows: "ok s \<Longrightarrow> apply_ddl d (schema_of s) = Some v \<Longrightarrow>
    \<exists>s'. exec d s = Some s' \<and> ok s' \<and> schema_of s' = v"
begin

lemma run_follows:
  "ok s \<Longrightarrow> run_ddl apply_ddl ds (schema_of s) = Some v \<Longrightarrow>
     \<exists>s'. run_ddl exec ds s = Some s' \<and> ok s' \<and> schema_of s' = v"
proof (induction ds arbitrary: s)
  case (Cons d ds)
  from Cons.prems(2) obtain u where u: "apply_ddl d (schema_of s) = Some u" "run_ddl apply_ddl ds u = Some v"
    by (auto split: option.splits)
  from follows [OF Cons.prems(1) u(1)] obtain s1 where "exec d s = Some s1" "ok s1" "schema_of s1 = u" by blast
  with Cons.IH [of s1] u(2) show ?case by auto
qed simp

end

interpretation schema_database: sql_database apply_ddl "\<lambda>s. True" "\<lambda>s. s"
  by unfold_locales simp

section \<open>Up and down\<close>

definition wf_schema :: "schema \<Rightarrow> bool" where
  "wf_schema s \<longleftrightarrow> (\<forall>i t ks. indexes s i = Some (t, ks) \<longrightarrow> tables s t \<noteq> None)"

definition unused :: "string list \<Rightarrow> string list \<Rightarrow> schema \<Rightarrow> bool" where
  "unused ts ixs s \<longleftrightarrow> (\<forall>t\<in>set ts. tables s t = None) \<and> (\<forall>i\<in>set ixs. indexes s i = None)"

abbreviation service_free :: "schema \<Rightarrow> bool" where
  "service_free s \<equiv> wf_schema s \<and> unused [''jobs'', ''audit_events'', ''users'']
     [''ix_jobs_tenant'', ''ix_jobs_status'', ''ix_audit_events_ts''] s"

definition migrated :: "schema \<Rightarrow> schema" where
  "migrated s =
     s\<lparr>tables := (tables s)(''jobs'' \<mapsto> jobs_columns, ''audit_events'' \<mapsto> audit_columns @ [tenant_column],
         ''users'' \<mapsto> users_columns),
       indexes := (indexes s)(''ix_jobs_tenant'' \<mapsto> (''jobs'', [''tenant'']), ''ix_jobs_status'' \<mapsto> (''jobs'', [''status'']),
         ''ix_audit_events_ts'' \<mapsto> (''audit_events'', [''ts'']))\<rparr>"

lemmas column_defs = column_def key_column_def jobs_columns_def audit_columns_def users_columns_def tenant_column_def

lemma on_table_upd [simp]:
  "on_table t (ix(i \<mapsto> (t', ks))) = (on_table t ix)(i := if t' = t then None else Some (t', ks))"
  "on_table t (ix(i := None)) = (on_table t ix)(i := None)"
  by (auto simp: on_table_def)

lemma on_column_upd [simp]:
  "on_column t c (ix(i \<mapsto> (t', ks))) = (on_column t c ix)(i := if t' = t \<and> c \<in> set ks then None else Some (t', ks))"
  by (auto simp: on_column_def)

text \<open>No index is on a table that does not exist.\<close>

lemma on_absent_table:
  assumes "wf_schema s" "tables s t = None"
  shows "on_table t (indexes s) = indexes s" "on_column t c (indexes s) = indexes s"
  using assms
  by (auto simp: on_table_def on_column_def wf_schema_def fun_eq_iff split: option.splits prod.splits)
     (metis option.distinct(1))+

lemma upgrade_result: "service_free s \<Longrightarrow> run_ddl apply_ddl (upgrades versions) s = Some (migrated s)"
  by (cases s) (simp add: unused_def upgrades_def versions_def initial_def audit_events_tenant_def initial_upgrade_def
      names_def column_defs migrated_def fun_eq_iff)

lemma downgrade_result:
  assumes "service_free s"
  shows "run_ddl apply_ddl (downgrades versions) (migrated s) = Some s"
proof -
  obtain ts ix where s: "s = \<lparr>tables = ts, indexes = ix\<rparr>" by (cases s)
  from assms have free: "ts ''jobs'' = None" "ts ''audit_events'' = None" "ts ''users'' = None"
    "ix ''ix_jobs_tenant'' = None" "ix ''ix_jobs_status'' = None" "ix ''ix_audit_events_ts'' = None"
    by (simp_all add: unused_def s)
  have "on_table ''jobs'' ix = ix" "on_table ''audit_events'' ix = ix" "on_table ''users'' ix = ix"
    "on_column ''audit_events'' ''tenant'' ix = ix"
    using assms on_absent_table [of s] free by (simp_all add: s)
  with free show ?thesis
    by (simp add: s downgrades_def versions_def initial_def audit_events_tenant_def initial_downgrade_def
        names_def column_defs migrated_def) (auto simp: fun_eq_iff)
qed

section \<open>The tables the adapters map\<close>

definition shape :: "Column \<Rightarrow> string \<times> sql_type \<times> bool \<times> bool" where
  "shape c = (col_name c, col_type c, primary_key c, nullable c)"

definition mapped :: "schema \<Rightarrow> string \<Rightarrow> Column list \<Rightarrow> bool" where
  "mapped s t cs \<longleftrightarrow> (\<exists>ds. tables s t = Some ds \<and> set (map shape ds) = set (map shape cs))"

lemma migrated_mapped: "mapped (migrated s) ''jobs'' JobRow_columns" "mapped (migrated s) ''audit_events'' AuditRow_columns"
  by (simp_all add: mapped_def migrated_def column_defs JobRow_columns_def AuditRow_columns_def shape_def insert_commute)

text \<open>The first migration alone lacks the tenant of an audit event.\<close>

lemma initial_lacks_tenant: "shape tenant_column \<in> set (map shape AuditRow_columns) - set (map shape audit_columns)"
  by (simp add: column_defs AuditRow_columns_def shape_def)

text \<open>Alembic finds the order of the revisions by following \<open>down_revision\<close>. The one of the second migration
  names no revision of the directory.\<close>

definition resolved :: "migration list \<Rightarrow> bool" where
  "resolved ms \<longleftrightarrow> (\<forall>m\<in>set ms. case down_revision m of None \<Rightarrow> True | Some d \<Rightarrow> d \<in> set (map revision ms))"

lemma versions_unresolved: "\<not> resolved versions" "resolved [initial, audit_events_tenant\<lparr>down_revision := Some (revision initial)\<rparr>]"
  by (simp_all add: resolved_def versions_def initial_def audit_events_tenant_def)

section \<open>Which rows fit\<close>

datatype sql_value = SqlNull | SqlChars string | SqlOther

fun type_fits :: "sql_type \<Rightarrow> sql_value \<Rightarrow> bool" where
  "type_fits (SqlString n) (SqlChars s) \<longleftrightarrow> length s \<le> n"
| "type_fits _ _ \<longleftrightarrow> True"

definition column_fits :: "Column \<Rightarrow> sql_value \<Rightarrow> bool" where
  "column_fits c v \<longleftrightarrow> (v = SqlNull \<longrightarrow> nullable c) \<and> type_fits (col_type c) v"

text \<open>An \<open>INSERT\<close> names every column it gives a value; a column it leaves out needs a default.\<close>

definition row_fits :: "Column list \<Rightarrow> (string \<times> sql_value) list \<Rightarrow> bool" where
  "row_fits cs vs \<longleftrightarrow> set (map fst vs) \<subseteq> set (names cs)
     \<and> (\<forall>c\<in>set cs. case map_of vs (col_name c) of
            None \<Rightarrow> nullable c \<or> autoincrement c \<or> server_default c \<noteq> None
          | Some v \<Rightarrow> column_fits c v)"

definition opt_chars :: "string option \<Rightarrow> sql_value" where
  "opt_chars v = (case v of None \<Rightarrow> SqlNull | Some t \<Rightarrow> SqlChars t)"

definition job_values :: "JobRow \<Rightarrow> (string \<times> sql_value) list" where
  "job_values r =
     [(''job_id'', SqlChars (row_job_id r)), (''tenant'', SqlChars (row_tenant r)), (''repo_url'', SqlChars (row_repo_url r)),
      (''commit_sha'', SqlChars (row_commit_sha r)), (''spec_ref'', SqlChars (row_spec_ref r)),
      (''status'', SqlChars (row_status r)), (''record_hash'', opt_chars (row_record_hash r)),
      (''score'', opt_chars (row_score r)), (''error'', opt_chars (row_error r)),
      (''sidecars'', case row_sidecars r of None \<Rightarrow> SqlNull | Some m \<Rightarrow> SqlOther),
      (''created_at'', SqlOther), (''updated_at'', SqlOther)]"

definition audit_values :: "AuditRow \<Rightarrow> (string \<times> sql_value) list" where
  "audit_values r =
     [(''actor'', SqlChars (arow_actor r)), (''action'', SqlChars (arow_action r)), (''target'', SqlChars (arow_target r)),
      (''tenant'', SqlChars (arow_tenant r)), (''ts'', SqlOther), (''payload'', SqlOther)]"

lemma length_uuid_str [simp]: "length (uuid_str u) = 36"
  by (simp add: uuid_str_def Let_def)

lemma length_status_value: "length (status_value st) \<le> 9"
  by (cases st) (simp_all add: status_value_def)

definition opt_within :: "nat \<Rightarrow> string option \<Rightarrow> bool" where
  "opt_within n v \<longleftrightarrow> (case v of None \<Rightarrow> True | Some t \<Rightarrow> length t \<le> n)"

lemma opt_chars_fits [simp]:
  "column_fits (column c (SqlString n) True) (opt_chars v) \<longleftrightarrow> opt_within n v"
  "column_fits (column c SqlText True) (opt_chars v)"
  by (cases v; simp add: column_fits_def opt_chars_def opt_within_def column_def)+

lemma job_row_fits_iff:
  "row_fits jobs_columns (job_values (job_to_row job)) \<longleftrightarrow>
     length (job_tenant job) \<le> 255 \<and> length (job_commit_sha job) \<le> 64 \<and> length (job_spec_ref job) \<le> 255
     \<and> opt_within 256 (job_record_hash job) \<and> opt_within 32 (job_score job)"
  using length_status_value [of "job_status job"]
  by (auto simp: row_fits_def jobs_columns_def names_def job_values_def job_to_row_def column_fits_def column_def
      key_column_def opt_chars_def opt_within_def split: option.splits)

lemma audit_row_fits_iff:
  "row_fits (audit_columns @ [tenant_column]) (audit_values (event_to_row e)) \<longleftrightarrow>
     length (ev_actor e) \<le> 255 \<and> length (ev_action e) \<le> 64 \<and> length (ev_target e) \<le> 255 \<and> length (ev_tenant e) \<le> 255"
  by (auto simp: row_fits_def column_defs names_def audit_values_def event_to_row_def column_fits_def)

text \<open>Without the second migration no audit event can be inserted.\<close>

lemma audit_row_needs_tenant: "\<not> row_fits audit_columns (audit_values r)"
  by (simp add: row_fits_def column_defs names_def audit_values_def)

section \<open>Properties\<close>


definition other_schema :: schema where
  "other_schema = \<lparr>tables = [''other'' \<mapsto> [column ''x'' SqlText True]], indexes = [''ix_other'' \<mapsto> (''other'', [''x''])]\<rparr>"


lemma hex_commit_length: "re_dollar (hex_run 40) sha \<Longrightarrow> length sha \<le> 41"
  by (auto simp: re_dollar_def hex_run_def)

text \<open>C30: A job and its audit event that \<open>POST /v1/scores\<close> accepts fit into the migrated tables exactly when the
  tenant, the reference of the spec and the subject of the token have at most 255 characters; nothing else the
  caller sends can be too long.\<close>

theorem accepted_job_fits_tables:
  assumes "validate_body allow_http body = Inr q" "fresh_job S p q s = (Inr job, s1)" "created_event p job e"
  shows "row_fits jobs_columns (job_values (job_to_row job))
      \<and> row_fits (audit_columns @ [tenant_column]) (audit_values (event_to_row e))
    \<longleftrightarrow> length (tenant p) \<le> 255 \<and> length (snd (snd q)) \<le> 255 \<and> length (subject p) \<le> 255"
proof -
  obtain url sha ref where q: "q = (url, sha, ref)" by (cases q)
  from assms(1) have "re_dollar (hex_run 40) sha" by (auto simp: q validate_body_def result_simps)
  then have "length sha \<le> 64" using hex_commit_length [of sha] by simp
  moreover from fresh_job_Inr [of S p q s] assms(2) have "job_for p q job" by auto
  moreover from assms(2) have "job_record_hash job = None \<and> job_score job = None"
    by (auto simp: fresh_job_def split: prod.splits)
  ultimately show ?thesis using assms(3)
    by (auto simp: job_row_fits_iff audit_row_fits_iff job_for_def created_event_def q opt_within_def)
qed

definition ref_body :: "string \<Rightarrow> pyval" where
  "ref_body ref =
     str_dict [(''repo_url'', VStr ''https://h/r''), (''commit_sha'', VStr (replicate 40 (CHR ''a''))), (''spec_ref'', VStr ref)]"

definition long_ref :: "nat \<Rightarrow> string" where
  "long_ref n = CHR ''s'' # replicate n (CHR ''s'')"

lemma long_ref_safe:
  "safe_ref_rest True (replicate n (CHR ''s''))" "\<not> contains ''..'' (replicate n (CHR ''s''))"
  by (induction n) (simp_all add: safe_ref_char_def starts_with_def)

lemma long_ref_accepted:
  "validate_body False (ref_body (long_ref n)) = Inr (''https://h/r'', replicate 40 (CHR ''a''), long_ref n)"
proof -
  have "re_dollar (hex_run 40) (replicate 40 (CHR ''a''))"
    by (rule re_dollar_self) (simp add: hex_run_def is_hex_lower_def list_all_iff)
  moreover have "SAFE_SPEC_REF (long_ref n)"
    unfolding SAFE_SPEC_REF_def by (rule re_dollar_self) (simp add: long_ref_def long_ref_safe safe_ref_char_def)
  moreover have "\<not> contains ''..'' (long_ref n)" "\<not> starts_with ''/'' (long_ref n)" "long_ref n \<noteq> []"
    by (simp_all add: long_ref_def long_ref_safe starts_with_def)
  ultimately show ?thesis
    by (simp add: validate_body_def ref_body_def str_dict_def as_object_def get_key_def str_value_def
        valid_repo_url_def starts_with_def [of "''https://''"])
qed

theorem accepted_job_fits_tables_witness:
  "\<exists>q job s1 e. validate_body False (ref_body (long_ref 255)) = Inr q
    \<and> fresh_job sample_service sample_principal q sample_state = (Inr job, s1) \<and> created_event sample_principal job e
    \<and> \<not> (row_fits jobs_columns (job_values (job_to_row job))
         \<and> row_fits (audit_columns @ [tenant_column]) (audit_values (event_to_row e)))"
proof -
  let ?q = "(''https://h/r'', replicate 40 (CHR ''a''), long_ref 255)"
  from fresh_job_Inr [of sample_service sample_principal ?q sample_state] obtain job w where
    job: "fresh_job sample_service sample_principal ?q sample_state = (Inr job, sample_state\<lparr>ss_world := w\<rparr>)" by (elim exE conjE)
  let ?e = "audit_event ''u'' ''score.create'' (uuid_str (job_id job)) ''t'' None (Datetime 2024 1 1 0 0 0 0)"
  have e: "created_event sample_principal job ?e" by (simp add: created_event_def audit_event_def sample_principal_def)
  have long: "length (long_ref 255) = 256" by (simp add: long_ref_def)
  from accepted_job_fits_tables [OF long_ref_accepted job e]
  have "\<not> (row_fits jobs_columns (job_values (job_to_row job))
         \<and> row_fits (audit_columns @ [tenant_column]) (audit_values (event_to_row ?e)))"
    unfolding snd_conv long by simp
  with long_ref_accepted job e show ?thesis by blast
qed

end
