(* ===== verification/AlembicEnv.thy ===== *)
theory AlembicEnv
  imports Migrations
begin

text \<open>
  \<open>src/cce_service/migrations/env.py\<close>: how a migration run gets its database. The options are those of a
  \<open>configparser.ConfigParser\<close> with its basic interpolation, which \<open>set_main_option\<close> checks and \<open>get_section\<close>
  expands; Alembic's context and SQLAlchemy's engine are parameters.
\<close>

section \<open>Interpolation\<close>

fun drop_escaped :: "string \<Rightarrow> string" where
  "drop_escaped (c # d # cs) = (if c = CHR ''%'' \<and> d = CHR ''%'' then drop_escaped cs else c # drop_escaped (d # cs))"
| "drop_escaped s = s"

text \<open>The name and the rest of a leading \<open>%(name)s\<close>.\<close>

definition reference :: "string \<Rightarrow> (string \<times> string) option" where
  "reference s =
     (if starts_with ''%('' s
      then let name = takeWhile (\<lambda>c. c \<noteq> CHR '')'') (drop 2 s); rest = drop (2 + length name) s
           in if name \<noteq> [] \<and> starts_with '')s'' rest then Some (name, drop 2 rest) else None
      else None)"

lemma reference_shorter: "reference s = Some (name, r) \<Longrightarrow> length r < length s"
  by (auto simp: reference_def Let_def starts_with_def split: if_splits)
     (metis One_nat_def Suc_less_eq2 diff_less_Suc length_drop less_trans_Suc list.size(3) length_Cons not_less take_eq_Nil
        zero_less_Suc diff_less length_greater_0_conv)

function drop_references :: "string \<Rightarrow> string" where
  "drop_references s =
     (case reference s of
        Some (name, rest) \<Rightarrow> drop_references rest
      | None \<Rightarrow> (case s of [] \<Rightarrow> [] | c # cs \<Rightarrow> c # drop_references cs))"
  by pat_completeness auto

termination
  by (relation "measure length") (auto dest: reference_shorter)

declare drop_references.simps [simp del]

text \<open>\<open>before_set\<close>.\<close>

definition before_set :: "string \<Rightarrow> string result" where
  "before_set value =
     andthen (require (CHR ''%'' \<notin> set (drop_references (drop_escaped value)))
       (ValueError (''invalid interpolation syntax in '' @ repr_string value @ '' at position ''
          @ string_of_nat (length (takeWhile (\<lambda>c. c \<noteq> CHR ''%'') (drop_references (drop_escaped value))))))) (\<lambda>_. Inr value)"

text \<open>\<open>before_get\<close>: a value with its references replaced by \<open>option_of\<close>, the other options.\<close>

function interpolate :: "(string \<Rightarrow> string option) \<Rightarrow> string \<Rightarrow> string result" where
  "interpolate option_of [] = Inr []"
| "interpolate option_of (c # cs) =
     (if c \<noteq> CHR ''%'' then andthen (interpolate option_of cs) (\<lambda>r. Inr (c # r))
      else if starts_with ''%'' cs then andthen (interpolate option_of (drop 1 cs)) (\<lambda>r. Inr (CHR ''%'' # r))
      else case reference (c # cs) of
             None \<Rightarrow> Inl (ValueError ''InterpolationSyntaxError'')
           | Some (name, rest) \<Rightarrow>
               (case option_of (map to_lower_char name) of
                  None \<Rightarrow> Inl (KeyError name)
                | Some v \<Rightarrow> andthen (interpolate option_of rest) (\<lambda>r. Inr (v @ r))))"
  by pat_completeness auto

termination
  by (relation "measure (\<lambda>(f, s). length s)") (auto dest: reference_shorter)

declare interpolate.simps(2) [simp del]

section \<open>The environment of a run\<close>

type_synonym options = "(string, string) dict"

definition set_main_option :: "string \<Rightarrow> string \<Rightarrow> options \<Rightarrow> options result" where
  "set_main_option name value opts = andthen (before_set value) (\<lambda>v. Inr (dict_set name v opts))"

definition get_main_option :: "options \<Rightarrow> string \<Rightarrow> string option result" where
  "get_main_option opts name =
     (case dict_get opts name of None \<Rightarrow> Inr None | Some v \<Rightarrow> andthen (interpolate (dict_get opts) v) (\<lambda>v. Inr (Some v)))"

primrec expand_all :: "(string \<Rightarrow> string option) \<Rightarrow> options \<Rightarrow> options result" where
  "expand_all option_of [] = Inr []"
| "expand_all option_of (kv # opts) =
     andthen (interpolate option_of (snd kv)) (\<lambda>v. andthen (expand_all option_of opts) (\<lambda>r. Inr ((fst kv, v) # r)))"

definition get_section :: "options \<Rightarrow> options result" where
  "get_section opts = expand_all (dict_get opts) opts"

text \<open>The first statements of the module: a DSN in the environment replaces the one of \<open>alembic.ini\<close>.\<close>

definition with_dsn :: "(string \<Rightarrow> string option) \<Rightarrow> options \<Rightarrow> options result" where
  "with_dsn environ opts =
     (case environ ''CCE_POSTGRES_DSN'' of
        None \<Rightarrow> Inr opts
      | Some dsn \<Rightarrow> if dsn = [] then Inr opts else set_main_option ''sqlalchemy.url'' dsn opts)"

text \<open>What \<open>context.configure\<close> is told: a URL for SQL text, or a connection.\<close>

datatype 'c configured = Offline "string option" | Online 'c

definition run_migrations_offline :: "('c configured \<Rightarrow> unit result) \<Rightarrow> options \<Rightarrow> unit result" where
  "run_migrations_offline migrate opts =
     andthen (get_main_option opts ''sqlalchemy.url'') (\<lambda>url. migrate (Offline url))"

text \<open>\<open>connect\<close> is \<open>engine_from_config\<close> without a pool, and a connection of it.\<close>

definition run_migrations_online :: "(options \<Rightarrow> 'c result) \<Rightarrow> ('c configured \<Rightarrow> unit result) \<Rightarrow> options \<Rightarrow> unit result" where
  "run_migrations_online connect migrate opts =
     andthen (get_section opts) (\<lambda>section.
     andthen (connect section) (\<lambda>connection. migrate (Online connection)))"

definition run_env ::
    "(string \<Rightarrow> string option) \<Rightarrow> bool \<Rightarrow> (options \<Rightarrow> 'c result) \<Rightarrow> ('c configured \<Rightarrow> unit result) \<Rightarrow> options \<Rightarrow> unit result" where
  "run_env environ offline connect migrate opts =
     andthen (with_dsn environ opts) (\<lambda>opts.
     if offline then run_migrations_offline migrate opts else run_migrations_online connect migrate opts)"

section \<open>Which DSN arrives\<close>

definition percent_free :: "string \<Rightarrow> bool" where
  "percent_free s \<longleftrightarrow> CHR ''%'' \<notin> set s"

lemma interpolate_plain: "percent_free s \<Longrightarrow> interpolate f s = Inr s"
  by (induction s) (auto simp: percent_free_def interpolate.simps(2))

lemma drop_escaped_plain: "percent_free s \<Longrightarrow> drop_escaped s = s"
  by (induction s rule: drop_escaped.induct) (auto simp: percent_free_def)

lemma drop_references_plain: "percent_free s \<Longrightarrow> drop_references s = s"
proof (induction s)
  case Nil
  then show ?case by (simp add: drop_references.simps [of "[]"] reference_def starts_with_def)
next
  case (Cons c cs)
  then have "reference (c # cs) = None" by (auto simp: reference_def starts_with_def percent_free_def)
  with Cons show ?case by (simp add: drop_references.simps [of "c # cs"] percent_free_def)
qed

lemma before_set_plain: "percent_free s \<Longrightarrow> before_set s = Inr s"
  by (simp add: before_set_def drop_escaped_plain drop_references_plain) (simp add: percent_free_def)

lemma expand_all_plain: "\<forall>kv\<in>set opts. percent_free (snd kv) \<Longrightarrow> expand_all f opts = Inr opts"
  by (induction opts) (simp_all add: interpolate_plain)

lemma dict_set_values: "\<forall>kv\<in>set d. P (snd kv) \<Longrightarrow> P v \<Longrightarrow> \<forall>kv\<in>set (dict_set k v d). P (snd kv)"
  by (induction d) auto

text \<open>A DSN without a percent sign reaches the engine as it is.\<close>

lemma plain_dsn_arrives:
  assumes "environ ''CCE_POSTGRES_DSN'' = Some dsn" "dsn \<noteq> []" "percent_free dsn" "\<forall>kv\<in>set opts. percent_free (snd kv)"
  shows "run_env environ False connect migrate opts
    = andthen (connect (dict_set ''sqlalchemy.url'' dsn opts)) (\<lambda>c. migrate (Online c))"
    and "run_env environ True connect migrate opts = migrate (Offline (Some dsn))"
  using assms dict_set_values [OF assms(4), where k = "''sqlalchemy.url''" and v = dsn]
  by (simp_all add: run_env_def with_dsn_def set_main_option_def before_set_plain run_migrations_online_def get_section_def
      expand_all_plain run_migrations_offline_def get_main_option_def interpolate_plain)

text \<open>One with the percent sign of an encoded password is refused before anything is configured, in both modes: the
  module does not double the sign, as \<open>set_main_option\<close> asks.\<close>

lemma refused_dsn_stops:
  assumes "environ ''CCE_POSTGRES_DSN'' = Some dsn" "dsn \<noteq> []" "before_set dsn = Inl e"
  shows "run_env environ offline connect migrate opts = Inl e"
  using assms by (simp add: run_env_def with_dsn_def set_main_option_def)

lemma encoded_password_refused:
  "before_set ''postgresql://u:p%40s@h/d''
    = Inl (ValueError (''invalid interpolation syntax in '' @ repr_string ''postgresql://u:p%40s@h/d'' @ '' at position 16''))"
  by code_simp

text \<open>Doubled signs arrive as they were.\<close>

definition escape_percent :: "string \<Rightarrow> string" where
  "escape_percent s = concat (map (\<lambda>c. if c = CHR ''%'' then ''%%'' else [c]) s)"

lemma escaped_arrives: "before_set (escape_percent s) = Inr (escape_percent s) \<and> interpolate f (escape_percent s) = Inr s"
proof
  have "drop_escaped (c # escape_percent s) = c # drop_escaped (escape_percent s)" if "c \<noteq> CHR ''%''" for c s
    using that by (cases "escape_percent s") simp_all
  then have "drop_escaped (escape_percent s) = filter (\<lambda>c. c \<noteq> CHR ''%'') s"
    by (induction s) (simp_all add: escape_percent_def)
  moreover have "percent_free (filter (\<lambda>c. c \<noteq> CHR ''%'') s)" by (simp add: percent_free_def)
  ultimately show "before_set (escape_percent s) = Inr (escape_percent s)"
    by (simp add: before_set_def drop_references_plain)
next
  show "interpolate f (escape_percent s) = Inr s"
    by (induction s) (simp_all add: escape_percent_def interpolate.simps(2) starts_with_def)
qed

end
