(* ===== verification/Entrypoint.thy ===== *)
theory Entrypoint
  imports Registry
begin

text \<open>
  \<open>ops/docker/cce-entrypoint.py\<close>, the entry point of the production image: it binds the pinned backends, fills
  the placeholders of \<open>jailer.json\<close> from the environment, and hands over to \<open>cce\<close>.

  \<open>string.Template\<close> belongs to Python; \<open>tokens\<close> is its pattern as a scanner. Reading the configuration and
  writing the temporary file are arguments.
\<close>

section \<open>\<open>string.Template\<close>\<close>

definition ident_start :: "char \<Rightarrow> bool" where
  "ident_start c \<longleftrightarrow> (let n = (of_char c :: nat) in (97 \<le> n \<and> n \<le> 122) \<or> (65 \<le> n \<and> n \<le> 90) \<or> n = 95)"

definition ident_char :: "char \<Rightarrow> bool" where
  "ident_char c \<longleftrightarrow> ident_start c \<or> is_digit c"

text \<open>The longest identifier at the front, and the rest.\<close>

definition ident :: "string \<Rightarrow> (string \<times> string) option" where
  "ident s =
     (case s of
        [] \<Rightarrow> None
      | c # cs \<Rightarrow> if ident_start c then Some (c # takeWhile ident_char cs, dropWhile ident_char cs) else None)"

definition braced :: "string \<Rightarrow> (string \<times> string) option" where
  "braced s =
     (case s of
        [] \<Rightarrow> None
      | c # cs \<Rightarrow>
          if c \<noteq> CHR ''{'' then None
          else (case ident cs of
                  None \<Rightarrow> None
                | Some (name, r) \<Rightarrow> (case r of [] \<Rightarrow> None | d # ds \<Rightarrow> if d = CHR ''}'' then Some (name, ds) else None)))"

text \<open>A variable keeps the text of its placeholder.\<close>

datatype token = Lit char | Escaped | Variable string string

lemma ident_shorter: "ident s = Some (n, r) \<Longrightarrow> length r < length s"
  by (auto simp: ident_def less_Suc_eq_le length_dropWhile_le split: list.splits if_splits)

lemma braced_shorter: "braced s = Some (n, r) \<Longrightarrow> length r < length s"
  by (auto simp: braced_def split: list.splits if_splits option.splits dest!: ident_shorter)

function tokens :: "string \<Rightarrow> token list" where
  "tokens [] = []"
| "tokens (c # cs) =
     (if c \<noteq> CHR ''$'' then Lit c # tokens cs
      else if starts_with ''$'' cs then Escaped # tokens (drop 1 cs)
      else (case ident cs of
              Some (name, r) \<Rightarrow> Variable (CHR ''$'' # name) name # tokens r
            | None \<Rightarrow>
                (case braced cs of
                   Some (name, r) \<Rightarrow> Variable (CHR ''$'' # CHR ''{'' # name @ ''}'') name # tokens r
                 | None \<Rightarrow> Lit (CHR ''$'') # tokens cs)))"
  by pat_completeness auto

termination
  by (relation "measure length") (auto dest: ident_shorter braced_shorter)

type_synonym environment = "(string, string) dict"

fun subst_token :: "environment \<Rightarrow> token \<Rightarrow> string" where
  "subst_token env (Lit c) = [c]"
| "subst_token env Escaped = ''$''"
| "subst_token env (Variable whole name) = (case dict_get env name of None \<Rightarrow> whole | Some v \<Rightarrow> v)"

definition safe_substitute :: "environment \<Rightarrow> string \<Rightarrow> string" where
  "safe_substitute env s = concat (map (subst_token env) (tokens s))"

section \<open>Placeholders left\<close>

text \<open>\<open>_PLACEHOLDER_RE\<close>: braces around anything but a closing one, or an identifier.\<close>

definition brace_group :: "string \<Rightarrow> (string \<times> string) option" where
  "brace_group s =
     (case s of
        [] \<Rightarrow> None
      | c # cs \<Rightarrow>
          if c \<noteq> CHR ''{'' then None
          else (let name = takeWhile (\<lambda>c. c \<noteq> CHR ''}'') cs; r = dropWhile (\<lambda>c. c \<noteq> CHR ''}'') cs
                in if name = [] \<or> r = [] then None else Some (name, tl r)))"

lemma brace_group_shorter: "brace_group s = Some (n, r) \<Longrightarrow> length r < length s"
proof -
  assume "brace_group s = Some (n, r)"
  then obtain cs where "s = CHR ''{'' # cs" "r = tl (dropWhile (\<lambda>c. c \<noteq> CHR ''}'') cs)"
    by (auto simp: brace_group_def Let_def split: list.splits if_splits)
  then show ?thesis using length_dropWhile_le [of "\<lambda>c. c \<noteq> CHR ''}''" cs] by simp
qed

function placeholders :: "string \<Rightarrow> string list" where
  "placeholders [] = []"
| "placeholders (c # cs) =
     (if c \<noteq> CHR ''$'' then placeholders cs
      else (case brace_group cs of
              Some (name, r) \<Rightarrow> name # placeholders r
            | None \<Rightarrow> (case ident cs of Some (name, r) \<Rightarrow> name # placeholders r | None \<Rightarrow> placeholders cs)))"
  by pat_completeness auto

termination
  by (relation "measure length") (auto dest: ident_shorter brace_group_shorter)

definition missing_names :: "environment \<Rightarrow> string \<Rightarrow> string list" where
  "missing_names env resolved = sort (remdups (filter (\<lambda>n. dict_get env n = None) (placeholders resolved)))"

section \<open>The jailer configuration\<close>

definition DEFAULT_JAILER_CONFIG :: string where
  "DEFAULT_JAILER_CONFIG = ''/opt/cce/ops/firecracker/jailer.json''"

definition unresolved :: "string list \<Rightarrow> exn" where
  "unresolved names =
     RuntimeError (''unresolved jailer.json placeholders after env substitution: '' @ py_repr (VList (map VStr names)))"

text \<open>\<open>read path\<close> is \<open>None\<close> when the path does not exist; \<open>write\<close> puts a text into a fresh temporary file and
  gives its name.\<close>

definition resolve_jailer_config ::
    "environment \<Rightarrow> (string \<Rightarrow> string result option) \<Rightarrow> (string \<Rightarrow> string result) \<Rightarrow> string option result" where
  "resolve_jailer_config env read write =
     (case read (case dict_get env ''CCE_JAILER_CONFIG'' of None \<Rightarrow> DEFAULT_JAILER_CONFIG | Some p \<Rightarrow> p) of
        None \<Rightarrow> Inr None
      | Some r \<Rightarrow>
          andthen r (\<lambda>template.
            let resolved = safe_substitute env template; missing = missing_names env resolved
            in if missing \<noteq> [] then Inl (unresolved missing)
               else andthen (write resolved) (\<lambda>name. Inr (Some name))))"

section \<open>Start of the image\<close>

definition production_registry :: "parsers \<Rightarrow> backend_fun \<Rightarrow> backend_fun \<Rightarrow> AnalyzerRegistry option \<Rightarrow> AnalyzerRegistry" where
  "production_registry P lizard scc glob =
     register_production_backends lizard scc (fst (get_registry P glob)) (Some ''/usr/local/bin/lizard'')
       (Some ''/usr/local/bin/scc'')"

text \<open>The process ends by an exception before \<open>cce\<close> runs, or with the exit of \<open>cce\<close>, which sees the registry
  and the extended environment.\<close>

definition image_main ::
    "parsers \<Rightarrow> backend_fun \<Rightarrow> backend_fun \<Rightarrow> AnalyzerRegistry option \<Rightarrow> environment \<Rightarrow> (string \<Rightarrow> string result option)
     \<Rightarrow> (string \<Rightarrow> string result) \<Rightarrow> (AnalyzerRegistry \<Rightarrow> environment \<Rightarrow> int result) \<Rightarrow> int result" where
  "image_main P lizard scc glob env read write cce =
     (let reg = production_registry P lizard scc glob
      in andthen (resolve_jailer_config env read write) (\<lambda>resolved.
           cce reg (case resolved of None \<Rightarrow> env | Some name \<Rightarrow> dict_set ''CCE_JAILER_CONFIG_RESOLVED'' name env)))"

section \<open>Templates of text and braced variables\<close>

datatype piece = Text string | Braced string

fun render_piece :: "piece \<Rightarrow> string" where
  "render_piece (Text t) = t"
| "render_piece (Braced n) = ''${'' @ n @ ''}''"

definition render :: "piece list \<Rightarrow> string" where
  "render ps = concat (map render_piece ps)"

definition is_ident :: "string \<Rightarrow> bool" where
  "is_ident n \<longleftrightarrow> n \<noteq> [] \<and> ident_start (hd n) \<and> list_all ident_char n"

fun piece_ok :: "piece \<Rightarrow> bool" where
  "piece_ok (Text t) \<longleftrightarrow> CHR ''$'' \<notin> set t"
| "piece_ok (Braced n) \<longleftrightarrow> is_ident n"

fun fill_piece :: "environment \<Rightarrow> piece \<Rightarrow> string" where
  "fill_piece env (Text t) = t"
| "fill_piece env (Braced n) = (case dict_get env n of None \<Rightarrow> render_piece (Braced n) | Some v \<Rightarrow> v)"

definition variables :: "piece list \<Rightarrow> string list" where
  "variables ps = concat (map (\<lambda>p. case p of Text t \<Rightarrow> [] | Braced n \<Rightarrow> [n]) ps)"

lemma ident_append:
  "is_ident n \<Longrightarrow> \<not> ident_char c \<Longrightarrow> ident (n @ c # r) = Some (n, c # r)"
  by (cases n) (auto simp: ident_def is_ident_def list_all_iff takeWhile_append2 dropWhile_append2)

lemma not_ident_brace: "\<not> ident_char (CHR ''}'')" "ident (CHR ''{'' # s) = None" "\<not> ident_start (CHR ''$'')"
  by (simp_all add: ident_char_def ident_start_def is_digit_def ident_def)

lemma tokens_text: "CHR ''$'' \<notin> set t \<Longrightarrow> tokens (t @ s) = map Lit t @ tokens s"
  by (induction t) auto

lemma tokens_braced:
  "is_ident n \<Longrightarrow> tokens (''${'' @ n @ ''}'' @ s) = Variable (''${'' @ n @ ''}'') n # tokens s"
  by (simp add: braced_def ident_append not_ident_brace starts_with_def)

lemma substitute_render:
  "list_all piece_ok ps \<Longrightarrow> safe_substitute env (render ps) = concat (map (fill_piece env) ps)"
proof (induction ps)
  case (Cons p ps)
  then show ?case
  proof (cases p)
    case (Text t)
    with Cons show ?thesis by (simp add: safe_substitute_def render_def tokens_text concat_map_singleton [of id, simplified] o_def)
  next
    case (Braced n)
    with Cons tokens_braced [of n "render ps"] show ?thesis
      by (simp add: safe_substitute_def render_def split: option.split)
  qed
qed (simp add: safe_substitute_def render_def)

lemma placeholders_text: "CHR ''$'' \<notin> set t \<Longrightarrow> placeholders (t @ s) = placeholders s"
  by (induction t) auto

lemma placeholders_braced:
  assumes "is_ident n"
  shows "placeholders (''${'' @ n @ ''}'' @ s) = n # placeholders s"
proof -
  have "CHR ''}'' \<notin> set n" using assms not_ident_brace(1) by (auto simp: is_ident_def list_all_iff)
  then have "takeWhile (\<lambda>c. c \<noteq> CHR ''}'') (n @ CHR ''}'' # s) = n" "dropWhile (\<lambda>c. c \<noteq> CHR ''}'') (n @ CHR ''}'' # s) = CHR ''}'' # s"
    by (auto simp: takeWhile_append dropWhile_append)
  with assms show ?thesis by (simp add: brace_group_def is_ident_def)
qed

definition plain_values :: "environment \<Rightarrow> bool" where
  "plain_values env \<longleftrightarrow> (\<forall>k v. dict_get env k = Some v \<longrightarrow> CHR ''$'' \<notin> set v)"

lemma placeholders_filled:
  "list_all piece_ok ps \<Longrightarrow> plain_values env \<Longrightarrow>
     placeholders (concat (map (fill_piece env) ps)) = filter (\<lambda>n. dict_get env n = None) (variables ps)"
proof (induction ps)
  case (Cons p ps)
  then show ?case
  proof (cases p)
    case (Text t)
    with Cons show ?thesis by (simp add: placeholders_text variables_def)
  next
    case (Braced n)
    with Cons placeholders_braced [of n "concat (map (fill_piece env) ps)"] show ?thesis
      by (auto simp: variables_def plain_values_def placeholders_text split: option.split)
  qed
qed (simp add: variables_def)

section \<open>The registry of the image\<close>

lemma production_pins:
  "pinned (production_registry P lizard scc None) = [(''lizard'', ''/usr/local/bin/lizard''), (''scc'', ''/usr/local/bin/scc'')]"
  by (simp add: production_registry_def get_registry_def default_registry_def register_production_backends_def
      register_def empty_registry_def pinned_def pinned_of_def Let_def)

text \<open>The binaries are checked on every run, but the built-in analyzers stay the ones a run uses.\<close>

lemma production_defaults:
  "resolve (production_registry P lizard scc None) ''python'' None = resolve (default_registry P) ''python'' None"
  "resolve (production_registry P lizard scc None) ''typescript'' None = resolve (default_registry P) ''typescript'' None"
  by (simp_all add: production_registry_def get_registry_def default_registry_def register_production_backends_def
      register_def empty_registry_def resolve_def Let_def)

section \<open>Properties\<close>

definition config_path :: "environment \<Rightarrow> string" where
  "config_path env = (case dict_get env ''CCE_JAILER_CONFIG'' of None \<Rightarrow> DEFAULT_JAILER_CONFIG | Some p \<Rightarrow> p)"


definition sample_template :: "piece list" where
  "sample_template = [Text ''sha256:'', Braced ''FC_KERNEL_DIGEST'', Text '' at '', Braced ''FC_HOME'']"


text \<open>The configuration in the repository has the key \<open>$comment\<close>, which the scanner takes for a variable: unless
  the environment happens to set \<open>comment\<close>, the image refuses to start.\<close>

lemma substitute_Lit: "safe_substitute env (c # s) = c # safe_substitute env s" if "c \<noteq> CHR ''$''"
  using that by (simp add: safe_substitute_def)

lemma substitute_text: "CHR ''$'' \<notin> set t \<Longrightarrow> safe_substitute env (t @ s) = t @ safe_substitute env s"
  by (induction t) (auto simp: substitute_Lit)

lemma comment_stays:
  assumes "dict_get env ''comment'' = None"
  shows "safe_substitute env (''$comment'' @ CHR 0x22 # post) = ''$comment'' @ CHR 0x22 # safe_substitute env post"
  using assms by (simp add: safe_substitute_def ident_def ident_char_def ident_start_def is_digit_def starts_with_def)

theorem comment_key_refused:
  assumes "read (config_path env) = Some (Inr (pre @ ''$comment'' @ CHR 0x22 # post))" "CHR ''$'' \<notin> set pre"
    and "dict_get env ''comment'' = None"
  shows "\<exists>names. image_main P lizard scc glob env read write cce = Inl (unresolved names) \<and> ''comment'' \<in> set names"
proof -
  let ?t = "pre @ ''$comment'' @ CHR 0x22 # safe_substitute env post"
  have "safe_substitute env (pre @ ''$comment'' @ CHR 0x22 # post) = ?t"
    by (simp only: substitute_text [OF assms(2)] comment_stays [OF assms(3)])
  moreover have "placeholders ?t = ''comment'' # placeholders (CHR 0x22 # safe_substitute env post)"
    unfolding placeholders_text [OF assms(2)]
    by (simp add: brace_group_def ident_def ident_char_def ident_start_def is_digit_def)
  then have c: "''comment'' \<in> set (missing_names env ?t)" using assms(3) by (simp add: missing_names_def)
  then have "missing_names env ?t \<noteq> []" by (metis empty_iff empty_set)
  ultimately have "image_main P lizard scc glob env read write cce = Inl (unresolved (missing_names env ?t))"
    using assms(1) by (simp add: image_main_def resolve_jailer_config_def config_path_def Let_def)
  with c show ?thesis by blast
qed

theorem comment_key_refused_witness:
  "\<forall>P lizard scc cce. \<exists>names. image_main P lizard scc None []
       (\<lambda>p. Some (Inr ([CHR ''{'', CHR 0x22] @ ''$comment'' @ CHR 0x22 # '': []}''))) (\<lambda>t. Inr t) cce = Inl (unresolved names)
     \<and> ''comment'' \<in> set names"
  using comment_key_refused [of "\<lambda>p. Some (Inr ([CHR ''{'', CHR 0x22] @ ''$comment'' @ CHR 0x22 # '': []}''))" "[]"
      "[CHR ''{'', CHR 0x22]" "'': []}''"] by simp

text \<open>A value that holds a placeholder of a set variable goes through: only unset names are looked for.\<close>

lemma nested_placeholder_accepted:
  "resolve_jailer_config [(''A'', ''${B}''), (''B'', ''b'')] (\<lambda>p. Some (Inr ''${A}'')) (\<lambda>t. Inr t) = Inr (Some ''${B}'')"
  by (simp add: resolve_jailer_config_def safe_substitute_def missing_names_def starts_with_def ident_def braced_def
      ident_char_def ident_start_def is_digit_def brace_group_def Let_def)

text \<open>An escaped dollar sign is taken for a placeholder once it has lost its escape.\<close>

lemma escaped_dollar_refused:
  "resolve_jailer_config [] (\<lambda>p. Some (Inr ''$$A'')) write = Inl (unresolved [''A''])"
  by (simp add: resolve_jailer_config_def safe_substitute_def missing_names_def starts_with_def ident_def
      ident_char_def ident_start_def is_digit_def brace_group_def Let_def)

end
