(* ===== verification/OpsChecks.thy ===== *)
theory OpsChecks
  imports PinnedTools
begin

text \<open>
  The checks of a release under \<open>ops/firecracker/\<close>: \<open>validate_digests.py\<close> looks at the shape of the digests,
  \<open>verify_spec_hash.py\<close> at the declared hash of the spec, \<open>verify_dockerfile_scc.py\<close> at the digest that the
  Dockerfile downloads \<open>scc\<close> with. A check gives its exit code, the first one also its lines on standard error.
  The property composes them with \<open>sync_pinned_tools\<close>, which runs in between.
\<close>

section \<open>\<open>validate_digests.py\<close>\<close>

text \<open>Both patterns are used with \<open>fullmatch\<close>.\<close>

definition placeholder_digest :: "string \<Rightarrow> bool" where
  "placeholder_digest s \<longleftrightarrow> sha256_text s \<and> list_all (\<lambda>c. c = s ! 7) (drop 7 s)"

definition digest_fault :: "string \<Rightarrow> pyval \<Rightarrow> string list" where
  "digest_fault label value =
     (case value of
        VStr s \<Rightarrow>
          if \<not> sha256_text s then [label @ '': bad shape '' @ py_repr value]
          else if placeholder_digest s then [label @ '': placeholder '' @ py_repr value] else []
      | _ \<Rightarrow> [label @ '': bad shape '' @ py_repr value])"

definition digest_keys :: "string list" where
  "digest_keys = [''rootfs'', ''lizard'', ''scc'', ''tree_sitter_core'']"

definition grammar_langs :: "string list" where
  "grammar_langs = [''python'', ''typescript'']"

definition digest_faults :: "pyval \<Rightarrow> string list result" where
  "digest_faults data =
     andthen (as_object data) (\<lambda>d.
     andthen (as_object (get_default d ''grammars'' (VDict []))) (\<lambda>grammars.
     Inr (concat (map (\<lambda>key. digest_fault key (get_key d key)) digest_keys)
        @ concat (map (\<lambda>lang. digest_fault (''grammars.'' @ lang) (get_key grammars lang)) grammar_langs))))"

definition check_digests_file :: "libs \<Rightarrow> string \<Rightarrow> (int \<times> string list) result" where
  "check_digests_file L text =
     (case json_loads L text of
        None \<Rightarrow> Inl JSONDecodeError
      | Some data \<Rightarrow>
          andthen (digest_faults data) (\<lambda>errors.
            Inr (if errors \<noteq> [] then (1, map (\<lambda>line. ''FAIL: '' @ line) errors) else (0, []))))"

section \<open>\<open>verify_spec_hash.py\<close>\<close>

definition verify_spec_hash :: "libs \<Rightarrow> string \<Rightarrow> script_error + int" where
  "verify_spec_hash L text =
     (case yaml_safe_load L text of
        None \<Rightarrow> Inl YAMLError
      | Some raw_value \<Rightarrow>
          andthen (raising (item_of raw_value ''spec_hash'')) (\<lambda>yaml_value.
          andthen (raising (as_object raw_value)) (\<lambda>mapping.
          andthen (raising (compute_spec_hash L mapping)) (\<lambda>recomputed.
          andthen (raising (load_spec L (Inr text))) (\<lambda>loaded.
            Inr (if yaml_value \<noteq> VStr recomputed \<or> recomputed \<noteq> spec_hash loaded then 1 else 0))))))"

section \<open>\<open>verify_dockerfile_scc.py\<close>\<close>

text \<open>\<open>ARG_RE\<close> at a position: whitespace may hold line breaks, the digits are taken greedily, and the line has to
  end after them and blanks.\<close>

definition match_arg :: "string \<Rightarrow> string option" where
  "match_arg s =
     (if \<not> starts_with ''ARG'' s then None
      else (let r = drop 3 s; s' = dropWhile py_space r
            in if \<not> py_space (hd (r @ ''x'')) \<or> \<not> starts_with ''SCC_SHA256='' s' then None
               else (let t = drop 11 s'; digits = takeWhile is_hex_lower t;
                         after = dropWhile (\<lambda>c. py_space c \<and> c \<noteq> newline) (dropWhile is_hex_lower t)
                     in if digits = [] \<or> \<not> (after = [] \<or> hd after = newline) then None else Some digits)))"

text \<open>\<open>ARG_RE.search\<close>, from a position that is or is not the start of a line.\<close>

fun search_arg :: "bool \<Rightarrow> string \<Rightarrow> string option" where
  "search_arg line_start [] = None"
| "search_arg line_start (c # cs) =
     (case (if line_start then match_arg (c # cs) else None) of
        Some h \<Rightarrow> Some h
      | None \<Rightarrow> search_arg (c = newline) cs)"

definition removeprefix :: "string \<Rightarrow> string \<Rightarrow> string" where
  "removeprefix p s = (if starts_with p s then drop (length p) s else s)"

definition str_method :: "pyval \<Rightarrow> string \<Rightarrow> string result" where
  "str_method v name = (case v of VStr s \<Rightarrow> Inr s | _ \<Rightarrow> Inl (AttributeError name))"

definition verify_dockerfile_scc :: "libs \<Rightarrow> string \<Rightarrow> string \<Rightarrow> script_error + int" where
  "verify_dockerfile_scc L dockerfile spec_text =
     (case search_arg True dockerfile of
        None \<Rightarrow> Inr 1
      | Some arg_value \<Rightarrow>
          if arg_value = replicate 64 (CHR ''0'') then Inr 1
          else if \<not> hex_run 64 arg_value then Inr 1
          else (case yaml_safe_load L spec_text of
                  None \<Rightarrow> Inl YAMLError
                | Some spec \<Rightarrow>
                    andthen (raising (item_of spec ''pinned_tools'')) (\<lambda>tools.
                    andthen (raising (item_of tools ''scc'')) (\<lambda>scc.
                    andthen (raising (str_method scc ''removeprefix'')) (\<lambda>scc_digest.
                      Inr (if arg_value \<noteq> removeprefix ''sha256:'' scc_digest then 1 else 0))))))"

section \<open>What the checks accept\<close>

definition genuine :: "pyval \<Rightarrow> bool" where
  "genuine v \<longleftrightarrow> (case v of VStr s \<Rightarrow> sha256_text s \<and> \<not> placeholder_digest s | _ \<Rightarrow> False)"

lemma digest_fault_Nil: "digest_fault label v = [] \<longleftrightarrow> genuine v"
  by (cases v) (simp_all add: digest_fault_def genuine_def)

lemma check_digests_0:
  "check_digests_file L t = Inr (0, errs) \<longleftrightarrow> errs = [] \<and> (\<exists>d gs. json_loads L t = Some (VDict d)
     \<and> get_default d ''grammars'' (VDict []) = VDict gs \<and> (\<forall>key\<in>set digest_keys. genuine (get_key d key))
     \<and> (\<forall>lang\<in>set grammar_langs. genuine (get_key gs lang)))"
  by (auto simp: check_digests_file_def digest_faults_def as_object_def result_simps digest_fault_Nil
      split: option.splits if_splits pyval.splits)

lemma genuine_full: "genuine (get_key d k) \<Longrightarrow> full_digest d k"
  by (auto simp: genuine_def full_digest_def re_dollar_self split: pyval.splits)

lemma genuine_text: "genuine v \<Longrightarrow> digest_text v"
  by (cases v) (auto simp: genuine_def digest_text_def sha256_text_def)

lemma checked_validates:
  assumes "\<forall>key\<in>set digest_keys. genuine (get_key d key)" "get_key d ''grammars'' = VDict gs"
    and "\<forall>lang\<in>set grammar_langs. genuine (get_key gs lang)" "\<forall>kv\<in>set gs. digest_text (snd kv)"
  shows "validate_digests (VDict d) = Inr ()" "full_digests d gs"
proof -
  show "full_digests d gs"
    using assms(1,3) by (auto simp: full_digests_def digest_keys_def grammar_langs_def intro: genuine_full)
  have some: "map_of d (VStr k) = Some (get_key d k)" if "get_key d k \<noteq> VNone" for k
    using that by (auto simp: get_key_def split: option.splits)
  have present: "map_of d (VStr k) = Some (get_key d k)" if "k \<in> set required_keys" for k
    using that assms(1,2) by (intro some) (auto simp: required_keys_def digest_keys_def genuine_def)
  then have "VStr k \<in> fst ` set d" if "k \<in> set required_keys" for k
    using that by (force dest: map_of_SomeD)
  then have none: "filter (\<lambda>k. VStr k \<notin> fst ` set d) required_keys = []" by (simp add: filter_empty_conv)
  have each: "each (check_digest (VDict d)) [''lizard'', ''scc'', ''tree_sitter_core''] = Inr [(), (), ()]"
    using assms(1) present
    by (simp add: check_digest_def item_of_def raising_def required_keys_def digest_keys_def genuine_text)
  have "gs \<noteq> []" using assms(3) by (auto simp: grammar_langs_def genuine_def get_key_def)
  then obtain g gs' where gs: "gs = g # gs'" by (cases gs) auto
  have grammars: "map_of d (VStr ''grammars'') = Some (VDict (g # gs'))"
    using present [of "''grammars''"] assms(2) by (simp add: required_keys_def gs)
  obtain us where us: "each check_grammar (g # gs') = Inr us"
    using each_total [of gs check_grammar "\<lambda>_. ()"] assms(4) by (auto simp: check_grammar_def gs)
  show "validate_digests (VDict d) = Inr ()"
    by (simp add: validate_digests_def elements_of_def raising_def item_of_def none each grammars us del: each.simps)
qed

text \<open>The digits of an accepted digest are what \<open>removeprefix\<close> leaves, and are not a placeholder.\<close>

lemma genuine_digits:
  assumes "genuine (VStr s)"
  shows "hex_run 64 (removeprefix ''sha256:'' s)" "removeprefix ''sha256:'' s \<noteq> replicate 64 (CHR ''0'')"
    "s = ''sha256:'' @ removeprefix ''sha256:'' s"
proof -
  from assms have s: "sha256_text s" "\<not> placeholder_digest s" by (simp_all add: genuine_def)
  then obtain h where h: "s = ''sha256:'' @ h" "hex_run 64 h" by (auto simp: sha256_text_def starts_with_iff)
  then have r: "removeprefix ''sha256:'' s = h" by (simp add: removeprefix_def starts_with_def)
  from h r show "hex_run 64 (removeprefix ''sha256:'' s)" "s = ''sha256:'' @ removeprefix ''sha256:'' s" by simp_all
  from s h have "h \<noteq> replicate 64 (CHR ''0'')"
    by (auto simp: placeholder_digest_def list_all_iff nth_append)
  with r show "removeprefix ''sha256:'' s \<noteq> replicate 64 (CHR ''0'')" by simp
qed

section \<open>A release\<close>


section \<open>A release that passes\<close>

definition release_digits :: "char \<Rightarrow> string" where
  "release_digits c = c # replicate 63 (CHR ''1'')"

definition release_digest :: "char \<Rightarrow> pyval" where
  "release_digest c = VStr (''sha256:'' @ release_digits c)"

lemma release_digest_genuine: "is_hex_lower c \<Longrightarrow> c \<noteq> CHR ''1'' \<Longrightarrow> genuine (release_digest c)"
  by (simp add: genuine_def release_digest_def release_digits_def sha256_text_def placeholder_digest_def starts_with_def
      hex_run_def is_hex_lower_def list_all_iff)

definition release_grammars :: mapping_value where
  "release_grammars = [(VStr ''python'', release_digest (CHR ''a'')), (VStr ''typescript'', release_digest (CHR ''b''))]"

definition release_digests :: mapping_value where
  "release_digests =
     [(VStr ''rootfs'', release_digest (CHR ''c'')), (VStr ''lizard'', release_digest (CHR ''d'')),
      (VStr ''scc'', release_digest (CHR ''e'')), (VStr ''tree_sitter_core'', release_digest (CHR ''f'')),
      (VStr ''grammars'', VDict release_grammars)]"

definition release_dockerfile :: string where
  "release_dockerfile = ''FROM x'' @ [newline] @ ''ARG SCC_SHA256='' @ release_digits (CHR ''e'') @ [newline] @ ''RUN y''"

lemma release_arg: "search_arg True release_dockerfile = Some (release_digits (CHR ''e''))"
  by code_simp


text \<open>The Dockerfile check looks at the digits only: a spec whose digest lacks its prefix passes it, though
  no such spec loads.\<close>

lemma bare_digest_passes:
  assumes "search_arg True docker = Some digits" "hex_run 64 digits" "digits \<noteq> replicate 64 (CHR ''0'')"
    and "yaml_safe_load L text = Some (VDict [(VStr ''pinned_tools'', VDict [(VStr ''scc'', VStr digits)])])"
  shows "verify_dockerfile_scc L docker text = Inr 0"
proof -
  from assms(2) have "\<not> starts_with ''sha256:'' digits"
    by (cases digits) (auto simp: hex_run_def starts_with_def is_hex_lower_def)
  with assms show ?thesis
    by (simp add: verify_dockerfile_scc_def raising_def item_of_def str_method_def removeprefix_def)
qed

end
