(* ===== verification/Wiring.thy ===== *)
theory Wiring
  imports Postgres ClickHouse Jwt Telemetry
begin

text \<open>
  How the service's outer parts are put together: the engine of the Postgres adapters, the client of the ClickHouse
  adapter, the ORM classes built once per process, and the Prometheus instruments of \<open>otel.py\<close>. The packages
  themselves are parameters: whether they can be imported, and their constructors.
\<close>

section \<open>Optional packages\<close>

definition require_package :: "string \<Rightarrow> bool \<Rightarrow> unit result" where
  "require_package owner importable =
     require importable (ImportError (owner @ '' requires the '' @ quoted ''cce-service'' @ '' extras. Install with: pip install ''
       @ quoted ''.[cce-service]''))"

definition require_sqlalchemy :: "bool \<Rightarrow> unit result" where
  "require_sqlalchemy = require_package ''cce_service.storage.postgres''"

definition require_clickhouse :: "bool \<Rightarrow> unit result" where
  "require_clickhouse = require_package ''cce_service.storage.clickhouse''"

section \<open>The engine\<close>

text \<open>\<open>_orm\<close>: \<open>built\<close> is what \<open>_build_orm\<close> makes; the cache is the global of the module.\<close>

definition get_orm :: "bool \<Rightarrow> 'o \<Rightarrow> 'o option \<Rightarrow> 'o result \<times> 'o option" where
  "get_orm importable built cache =
     (case cache of
        Some orm \<Rightarrow> (Inr orm, cache)
      | None \<Rightarrow> (case require_sqlalchemy importable of Inl e \<Rightarrow> (Inl e, None) | Inr _ \<Rightarrow> (Inr built, Some built)))"

record engine_options =
  pool_size :: "int option"
  max_overflow :: "int option"
  pool_recycle :: "int option"
  connect_timeout :: int

definition optional_arg :: "string \<Rightarrow> int option \<Rightarrow> (string \<times> pyval) list" where
  "optional_arg name v = (case v of None \<Rightarrow> [] | Some i \<Rightarrow> [(name, VInt i)])"

definition engine_kwargs :: "engine_options \<Rightarrow> (string \<times> pyval) list" where
  "engine_kwargs o' =
     [(''future'', VBool True), (''pool_pre_ping'', VBool True)] @ optional_arg ''pool_size'' (pool_size o')
     @ optional_arg ''max_overflow'' (max_overflow o') @ optional_arg ''pool_recycle'' (pool_recycle o')"

text \<open>Both adapters open their engine alike; \<open>create_engine\<close> gets the DSN and the keyword arguments.\<close>

definition open_engine ::
    "bool \<Rightarrow> 'o \<Rightarrow> (string \<Rightarrow> (string \<times> pyval) list \<Rightarrow> 'e result) \<Rightarrow> string \<Rightarrow> engine_options \<Rightarrow> 'o option
     \<Rightarrow> 'e result \<times> 'o option" where
  "open_engine importable built create_engine dsn o' cache =
     (case get_orm importable built cache of
        (Inl e, cache') \<Rightarrow> (Inl e, cache')
      | (Inr orm, cache') \<Rightarrow>
          (create_engine dsn ((''connect_args'', str_dict [(''connect_timeout'', VInt (connect_timeout o'))])
             # engine_kwargs o'), cache'))"

lemma open_engine_args:
  assumes "fst (open_engine importable built (\<lambda>dsn kwargs. Inr (dsn, kwargs)) dsn o' cache) = Inr (dsn', kwargs)"
  shows "dsn' = dsn \<and> get_default (map (\<lambda>(k, v). (VStr k, v)) kwargs) ''pool_pre_ping'' VNone = VBool True
    \<and> get_default (map (\<lambda>(k, v). (VStr k, v)) kwargs) ''pool_size'' VNone = (case pool_size o' of None \<Rightarrow> VNone | Some i \<Rightarrow> VInt i)"
  using assms
  by (auto simp: open_engine_def engine_kwargs_def optional_arg_def get_default_def split: prod.splits sum.splits option.splits)

text \<open>Once built, the classes are shared, whatever is importable later.\<close>

lemma orm_cached:
  assumes "get_orm importable built cache = (Inr orm, cache')"
  shows "get_orm importable' built' cache' = (Inr orm, cache')"
  using assms by (auto simp: get_orm_def split: option.splits sum.splits)

section \<open>The ClickHouse client\<close>

record client_options =
  ch_host :: string
  ch_port :: int
  ch_username :: string
  ch_password :: string
  ch_database :: string
  ch_connect_timeout :: "int option"
  ch_send_receive_timeout :: "int option"

definition env_int :: "environ \<Rightarrow> string \<Rightarrow> string \<Rightarrow> int result" where
  "env_int env name dflt = int_of_text (case env name of None \<Rightarrow> dflt | Some t \<Rightarrow> t)"

definition client_kwargs :: "environ \<Rightarrow> client_options \<Rightarrow> (string \<times> pyval) list result" where
  "client_kwargs env o' =
     andthen (case ch_connect_timeout o' of Some i \<Rightarrow> Inr i | None \<Rightarrow> env_int env ''CCE_CH_CONNECT_TIMEOUT'' ''10'') (\<lambda>ct.
     andthen (case ch_send_receive_timeout o' of Some i \<Rightarrow> Inr i
              | None \<Rightarrow> env_int env ''CCE_CH_SEND_RECEIVE_TIMEOUT'' ''30'') (\<lambda>srt.
     Inr [(''connect_timeout'', VInt ct), (''send_receive_timeout'', VInt srt)]))"

definition open_client ::
    "bool \<Rightarrow> ((string \<times> pyval) list \<Rightarrow> 'c result) \<Rightarrow> environ \<Rightarrow> client_options \<Rightarrow> 'c result" where
  "open_client importable get_client env o' =
     andthen (require_clickhouse importable) (\<lambda>_.
     andthen (client_kwargs env o') (\<lambda>kwargs.
     get_client ([(''host'', VStr (ch_host o')), (''port'', VInt (ch_port o')), (''username'', VStr (ch_username o')),
       (''password'', VStr (ch_password o')), (''database'', VStr (ch_database o'))] @ kwargs)))"

lemma client_defaults:
  assumes "ch_connect_timeout o' = None" "ch_send_receive_timeout o' = None"
    "env ''CCE_CH_CONNECT_TIMEOUT'' = None" "env ''CCE_CH_SEND_RECEIVE_TIMEOUT'' = None"
  shows "client_kwargs env o' = Inr [(''connect_timeout'', VInt 10), (''send_receive_timeout'', VInt 30)]"
proof -
  have "int_of_text ''10'' = Inr 10" "int_of_text ''30'' = Inr 30" by code_simp+
  with assms show ?thesis by (simp add: client_kwargs_def env_int_def)
qed

text \<open>A timeout in the environment that is no integer stops the service with a \<open>ValueError\<close>, but only if it is
  used.\<close>

lemma bad_timeout_raises:
  assumes "int_of_text t = Inl e" "env ''CCE_CH_CONNECT_TIMEOUT'' = Some t"
  shows "ch_connect_timeout o' = None \<Longrightarrow> client_kwargs env o' = Inl e"
    and "ch_connect_timeout o' = Some c \<Longrightarrow> ch_send_receive_timeout o' = Some d \<Longrightarrow> \<exists>kw. client_kwargs env o' = Inr kw"
  using assms by (simp_all add: client_kwargs_def env_int_def)

section \<open>Instruments\<close>

datatype instrument_kind = Histogram "rat list" | Counter | Gauge

record instrument =
  inst_kind :: instrument_kind
  inst_name :: string
  inst_help :: string
  inst_labels :: "string list"

datatype metric = NoopMetric | Registered instrument

definition instruments :: "instrument list" where
  "instruments =
     [\<lparr>inst_kind = Histogram [1 / 2, 1, 2, 5, 10, 20, 45, 90, 180], inst_name = ''cce_score_duration_seconds'',
        inst_help = ''Wall-clock duration of `cce score` end-to-end, in seconds.'', inst_labels = [''stage'']\<rparr>,
      \<lparr>inst_kind = Counter, inst_name = ''cce_records_total'', inst_help = ''Number of successfully scored records.'',
        inst_labels = []\<rparr>,
      \<lparr>inst_kind = Counter, inst_name = ''cce_job_failures_total'',
        inst_help = ''Number of scoring jobs that failed, by reason.'', inst_labels = [''reason'']\<rparr>,
      \<lparr>inst_kind = Counter, inst_name = ''cce_record_hash_mismatch_total'',
        inst_help = ''Number of record_hash mismatches detected.'', inst_labels = [''spec_hash'', ''commit_sha'']\<rparr>,
      \<lparr>inst_kind = Counter, inst_name = ''cce_firecracker_boot_failures_total'',
        inst_help = ''Number of Firecracker microVM boot failures, by reason.'', inst_labels = [''reason'']\<rparr>,
      \<lparr>inst_kind = Gauge, inst_name = ''cce_queue_depth'', inst_help = ''Current number of jobs in the scoring queue.'',
        inst_labels = []\<rparr>,
      \<lparr>inst_kind = Gauge, inst_name = ''cce_circuit_breaker_state'',
        inst_help = ''Circuit breaker state (0=closed, 1=half_open, 2=open).'', inst_labels = [''name'']\<rparr>]"

definition build_metrics :: "bool \<Rightarrow> metric list" where
  "build_metrics importable = (if importable then map Registered instruments else replicate 7 NoopMetric)"

text \<open>The names of the module, in the order of the tuple they are unpacked from.\<close>

definition metric_names :: "string list" where
  "metric_names =
     [''SCORE_DURATION_SECONDS'', ''RECORDS_TOTAL'', ''JOB_FAILURES_TOTAL'', ''RECORD_HASH_MISMATCH_TOTAL'',
      ''FIRECRACKER_BOOT_FAILURES_TOTAL'', ''QUEUE_DEPTH'', ''CIRCUIT_BREAKER_STATE'']"

definition bound_metrics :: "bool \<Rightarrow> (string \<times> metric) list" where
  "bound_metrics importable = zip metric_names (build_metrics importable)"

lemma metrics_bound: "map fst (bound_metrics importable) = metric_names" "distinct (map inst_name instruments)"
  by (simp_all add: bound_metrics_def metric_names_def build_metrics_def instruments_def)

text \<open>What the code asks of an instrument. Without the package every call is swallowed, and \<open>labels\<close> gives the
  instrument back; with it, \<open>labels\<close> wants exactly the declared names.\<close>

datatype metric_call = Labels "string list" | Inc | Dec | SetTo real | Observe real

definition noop_metric_call :: "metric_call \<Rightarrow> metric option" where
  "noop_metric_call c = (case c of Labels names \<Rightarrow> Some NoopMetric | _ \<Rightarrow> None)"

definition labels_ok :: "metric \<Rightarrow> string list \<Rightarrow> bool" where
  "labels_ok m names = (case m of NoopMetric \<Rightarrow> True | Registered i \<Rightarrow> set names = set (inst_labels i) \<and> length names = length (inst_labels i))"

text \<open>The labels each instrument is used with in \<open>cli.py\<close>, \<open>scoring.py\<close>, \<open>consumer.py\<close> and \<open>firecracker.py\<close>.\<close>

definition label_uses :: "(string \<times> string list) list" where
  "label_uses =
     [(''SCORE_DURATION_SECONDS'', [''stage'']), (''RECORDS_TOTAL'', []), (''JOB_FAILURES_TOTAL'', [''reason'']),
      (''RECORD_HASH_MISMATCH_TOTAL'', [''spec_hash'', ''commit_sha'']), (''FIRECRACKER_BOOT_FAILURES_TOTAL'', [''reason'']),
      (''QUEUE_DEPTH'', []), (''CIRCUIT_BREAKER_STATE'', [''name''])]"

lemma uses_match_declarations:
  "\<forall>(name, labels)\<in>set label_uses. \<exists>m. dict_get (bound_metrics importable) name = Some m \<and> labels_ok m labels"
  by (cases importable)
     (simp_all add: label_uses_def bound_metrics_def metric_names_def build_metrics_def instruments_def labels_ok_def numeral_eq_Suc)

lemma job_failures_instrument:
  "dict_get (bound_metrics True) ''JOB_FAILURES_TOTAL'' = Some (Registered (instruments ! 2))"
  "inst_labels (instruments ! 2) = [''reason'']"
  by (simp_all add: bound_metrics_def metric_names_def build_metrics_def instruments_def)

end
