(* ===== verification/CliArgs.thy ===== *)
theory CliArgs
  imports CliLaws
begin

text \<open>
  The command line of \<open>src/cce/cli.py\<close>: \<open>_build_parser\<close> as the table of its options, and \<open>main\<close> from the argument
  vector on. \<open>argparse\<close> is Python's: \<open>classify\<close> and \<open>parse_options\<close> follow its treatment of long options, of their
  abbreviations, of \<open>=\<close>, of \<open>--\<close> and of \<open>-h\<close>, for parsers that like these have no positional arguments of their
  own (Python 3.12 as in the image). A parser ends with a namespace or with exit status 2 for an error, 0 for help;
  the texts it prints are left out.
\<close>

section \<open>The options\<close>

datatype arg_action = Store "string list option" | StoreTrue | Help

record option_spec =
  opt_string :: string
  opt_dest :: string
  opt_action :: arg_action
  opt_required :: bool
  opt_default :: "string option"

definition help_options :: "option_spec list" where
  "help_options =
     [\<lparr>opt_string = ''-h'', opt_dest = ''help'', opt_action = Help, opt_required = False, opt_default = None\<rparr>,
      \<lparr>opt_string = ''--help'', opt_dest = ''help'', opt_action = Help, opt_required = False, opt_default = None\<rparr>]"

definition stored :: "string \<Rightarrow> string \<Rightarrow> option_spec" where
  "stored flag dest =
     \<lparr>opt_string = flag, opt_dest = dest, opt_action = Store None, opt_required = False, opt_default = None\<rparr>"

definition score_options :: "option_spec list" where
  "score_options = help_options @
     [(stored ''--spec'' ''spec'')\<lparr>opt_required := True\<rparr>,
      (stored ''--repo'' ''repo'')\<lparr>opt_required := True\<rparr>,
      (stored ''--mode'' ''mode'')\<lparr>opt_action := Store (Some [''repo'', ''commit'']), opt_default := Some ''repo''\<rparr>,
      stored ''--commit'' ''commit'',
      (stored ''--out'' ''out'')\<lparr>opt_default := Some ''./cce-out''\<rparr>,
      (stored ''--verify-digests'' ''verify_digests'')\<lparr>opt_action := Store (Some [''true'', ''false'']), opt_default := Some ''true''\<rparr>,
      (stored ''--assert-network-isolated'' ''assert_network_isolated'')\<lparr>opt_action := StoreTrue\<rparr>]"

definition verify_options :: "option_spec list" where
  "verify_options = help_options @ [stored ''--record'' ''record'', stored ''--sidecar'' ''sidecar'']"

section \<open>How \<open>argparse\<close> reads an argument\<close>

text \<open>\<open>s.partition("=")\<close>; no second part without the sign.\<close>

definition partition_eq :: "string \<Rightarrow> string \<times> string option" where
  "partition_eq s =
     (let p = takeWhile (\<lambda>c. c \<noteq> CHR ''='') s; r = dropWhile (\<lambda>c. c \<noteq> CHR ''='') s
      in (p, if r = [] then None else Some (tl r)))"

definition find_option :: "option_spec list \<Rightarrow> string \<Rightarrow> option_spec option" where
  "find_option T s = find (\<lambda>opt. opt_string opt = s) T"

definition negative_number :: "string \<Rightarrow> bool" where
  "negative_number = re_dollar (\<lambda>s. starts_with ''-'' s \<and>
     (let ip = takeWhile is_digit (drop 1 s); r = dropWhile is_digit (drop 1 s)
      in (ip \<noteq> [] \<and> r = []) \<or> (starts_with ''.'' r \<and> drop 1 r \<noteq> [] \<and> list_all is_digit (drop 1 r))))"

text \<open>A reading of an argument as an option: the option, if any, and the value given with it. \<open>Glued\<close> is what
  follows the letter of \<open>-h\<close> without a sign.\<close>

datatype given = Nothing | Explicit string | Glued string

definition given_of :: "string option \<Rightarrow> given" where
  "given_of v = (case v of None \<Rightarrow> Nothing | Some t \<Rightarrow> Explicit t)"

type_synonym reading = "option_spec option \<times> given"

text \<open>\<open>_get_option_tuples\<close>.\<close>

definition option_tuples :: "option_spec list \<Rightarrow> string \<Rightarrow> reading list" where
  "option_tuples T s =
     (let (prefix, explicit) = partition_eq s
      in if starts_with ''--'' s
         then map (\<lambda>opt. (Some opt, given_of explicit)) (filter (\<lambda>opt. starts_with prefix (opt_string opt)) T)
         else concat (map (\<lambda>opt. if opt_string opt = take 2 s then [(Some opt, Glued (drop 2 s))]
                else if starts_with prefix (opt_string opt) then [(Some opt, given_of explicit)] else []) T))"

text \<open>\<open>_parse_optional\<close>: \<open>None\<close> for a plain argument.\<close>

definition classify :: "option_spec list \<Rightarrow> string \<Rightarrow> reading list option" where
  "classify T s =
     (if \<not> starts_with ''-'' s then None
      else case find_option T s of
             Some opt \<Rightarrow> Some [(Some opt, Nothing)]
           | None \<Rightarrow>
               if length s = 1 then None
               else (case (find_option T (fst (partition_eq s)), snd (partition_eq s)) of
                       (Some opt, Some v) \<Rightarrow> Some [(Some opt, Explicit v)]
                     | _ \<Rightarrow>
                         if option_tuples T s \<noteq> [] then Some (option_tuples T s)
                         else if negative_number s then None
                         else if CHR '' '' \<in> set s then None
                         else Some [(None, Nothing)]))"

datatype parse_exit = Usage | ShowHelp

definition exit_status :: "parse_exit \<Rightarrow> int" where
  "exit_status e = (case e of Usage \<Rightarrow> 2 | ShowHelp \<Rightarrow> 0)"

text \<open>Letters after \<open>-h\<close>: more \<open>h\<close>s ask again, a sign or a dash is an error, anything else is set aside.\<close>

fun help_cluster :: "string \<Rightarrow> parse_exit" where
  "help_cluster [] = ShowHelp"
| "help_cluster (c # cs) =
     (if c = CHR ''-'' then Usage
      else if c = CHR ''h'' then (if starts_with ''='' cs then Usage else help_cluster cs)
      else ShowHelp)"

type_synonym namespace = "(string, string) dict"

definition store_value :: "option_spec \<Rightarrow> string \<Rightarrow> namespace \<Rightarrow> parse_exit + namespace" where
  "store_value opt v ns =
     (case opt_action opt of
        Store (Some choices) \<Rightarrow> if v \<in> set choices then Inr (dict_set (opt_dest opt) v ns) else Inl Usage
      | _ \<Rightarrow> Inr (dict_set (opt_dest opt) v ns))"

text \<open>\<open>consume_optional\<close> on one reading; a missing value is taken from the arguments that follow.\<close>

definition consume_optional ::
    "option_spec list \<Rightarrow> reading \<Rightarrow> string list \<Rightarrow> namespace \<times> bool \<Rightarrow> parse_exit + (namespace \<times> bool) \<times> string list" where
  "consume_optional T rd rest st =
     (case rd of
        (None, _) \<Rightarrow> Inr ((fst st, True), rest)
      | (Some opt, g) \<Rightarrow>
          (case opt_action opt of
             Store choices \<Rightarrow>
               (case g of
                  Explicit v \<Rightarrow> andthen (store_value opt v (fst st)) (\<lambda>ns. Inr ((ns, snd st), rest))
                | Glued v \<Rightarrow> andthen (store_value opt v (fst st)) (\<lambda>ns. Inr ((ns, snd st), rest))
                | Nothing \<Rightarrow>
                    (case rest of
                       [] \<Rightarrow> Inl Usage
                     | v # rest' \<Rightarrow>
                         if v = ''--'' \<or> classify T v \<noteq> None then Inl Usage
                         else andthen (store_value opt v (fst st)) (\<lambda>ns. Inr ((ns, snd st), rest'))))
           | StoreTrue \<Rightarrow>
               (case g of Nothing \<Rightarrow> Inr ((dict_set (opt_dest opt) ''True'' (fst st), snd st), rest) | _ \<Rightarrow> Inl Usage)
           | Help \<Rightarrow> (case g of Nothing \<Rightarrow> Inl ShowHelp | Explicit v \<Rightarrow> Inl Usage | Glued v \<Rightarrow> Inl (help_cluster v))))"

lemma consume_shorter: "consume_optional T rd rest st = Inr (st', rest') \<Longrightarrow> length rest' \<le> length rest"
  by (auto simp: consume_optional_def result_simps split: prod.splits option.splits arg_action.splits given.splits list.splits if_splits)

text \<open>The arguments of a parser without positional arguments; the flag tells that some were not recognised.\<close>

function parse_options ::
    "option_spec list \<Rightarrow> string list \<Rightarrow> namespace \<times> bool \<Rightarrow> parse_exit + namespace \<times> bool" where
  "parse_options T [] st = Inr st"
| "parse_options T (a # as) st =
     (if a = ''--'' then Inr (fst st, True)
      else case classify T a of
             None \<Rightarrow> parse_options T as (fst st, True)
           | Some rds \<Rightarrow>
               if length rds \<noteq> 1 then Inl Usage
               else (case consume_optional T (hd rds) as st of
                       Inl e \<Rightarrow> Inl e
                     | Inr (st', rest) \<Rightarrow> parse_options T rest st'))"
  by pat_completeness auto

termination
  by (relation "measure (\<lambda>(T, as, st). length as)") (auto dest: consume_shorter)

declare parse_options.simps(2) [simp del]

definition defaults_of :: "option_spec list \<Rightarrow> namespace" where
  "defaults_of T = concat (map (\<lambda>opt. case opt_default opt of None \<Rightarrow> [] | Some v \<Rightarrow> [(opt_dest opt, v)]) T)"

definition run_parser :: "option_spec list \<Rightarrow> string list \<Rightarrow> parse_exit + namespace \<times> bool" where
  "run_parser T as =
     andthen (parse_options T as (defaults_of T, False)) (\<lambda>(ns, extras).
     andthen (require (\<forall>opt\<in>set T. opt_required opt \<longrightarrow> dict_get ns (opt_dest opt) \<noteq> None) Usage) (\<lambda>_.
     Inr (ns, extras)))"

section \<open>Sub-commands\<close>

datatype cli_command =
    ScoreCommand string score_args
  | VerifyCommand "string option" "string option"

definition value_of :: "namespace \<Rightarrow> string \<Rightarrow> string" where
  "value_of ns dest = (case dict_get ns dest of None \<Rightarrow> [] | Some v \<Rightarrow> v)"

definition score_args_of :: "namespace \<Rightarrow> score_args" where
  "score_args_of ns =
     \<lparr>arg_repo = value_of ns ''repo'', arg_mode = value_of ns ''mode'', arg_commit = dict_get ns ''commit'',
       arg_out = value_of ns ''out'', arg_verify_digests = value_of ns ''verify_digests'',
       arg_assert_network_isolated = (dict_get ns ''assert_network_isolated'' \<noteq> None)\<rparr>"

definition sub_command :: "string \<Rightarrow> string list \<Rightarrow> parse_exit + cli_command \<times> bool" where
  "sub_command name as =
     (if name = ''score''
      then andthen (run_parser score_options as) (\<lambda>(ns, extras).
             Inr (ScoreCommand (value_of ns ''spec'') (score_args_of ns), extras))
      else if name = ''verify''
      then andthen (run_parser verify_options as) (\<lambda>(ns, extras).
             Inr (VerifyCommand (dict_get ns ''record'') (dict_get ns ''sidecar''), extras))
      else Inl Usage)"

text \<open>The main parser: options before the sub-command, then everything else belongs to the sub-command; a
  leading \<open>--\<close> is dropped.\<close>

fun main_parser :: "bool \<Rightarrow> string list \<Rightarrow> parse_exit + cli_command \<times> bool" where
  "main_parser extras [] = Inl Usage"
| "main_parser extras (a # as) =
     (if a = ''--''
      then (case as of [] \<Rightarrow> Inl Usage
            | name # rest \<Rightarrow> andthen (sub_command name rest) (\<lambda>(cmd, extras'). Inr (cmd, extras \<or> extras')))
      else case classify help_options a of
             None \<Rightarrow> andthen (sub_command a as) (\<lambda>(cmd, extras'). Inr (cmd, extras \<or> extras'))
           | Some rds \<Rightarrow>
               if length rds \<noteq> 1 then Inl Usage
               else (case consume_optional help_options (hd rds) as ([], extras) of
                       Inl e \<Rightarrow> Inl e
                     | Inr (st, rest) \<Rightarrow> main_parser True as))"

definition parse_args :: "string list \<Rightarrow> parse_exit + cli_command" where
  "parse_args argv =
     andthen (main_parser False argv) (\<lambda>(cmd, extras). andthen (require (\<not> extras) Usage) (\<lambda>_. Inr cmd))"

section \<open>\<open>main\<close>\<close>

text \<open>\<open>W\<close> is the world of a run as far as it depends on \<open>--spec\<close>, \<open>split_path\<close> the parent and the name of a path.
  The exit status of a parser is a \<open>SystemExit\<close>, here an exit code like the others.\<close>

definition main_argv ::
    "(string \<Rightarrow> world) \<Rightarrow> (string \<Rightarrow> string \<times> string) \<Rightarrow> string list \<Rightarrow> store \<Rightarrow> int result \<times> store" where
  "main_argv W split_path argv st =
     (case parse_args argv of
        Inl e \<Rightarrow> (Inr (exit_status e), st)
      | Inr (ScoreCommand spec opts) \<Rightarrow> main (W spec) (Score opts) st
      | Inr (VerifyCommand record_arg sidecar) \<Rightarrow>
          main (W []) (Verify (map_option split_path (truthy sidecar)) record_arg) st)"

section \<open>Values stay within their choices\<close>

definition dests_agree :: "option_spec list \<Rightarrow> bool" where
  "dests_agree T \<longleftrightarrow> (\<forall>opt\<in>set T. \<forall>opt'\<in>set T. opt_dest opt = opt_dest opt' \<longrightarrow> opt_action opt = opt_action opt')"

definition in_choices :: "option_spec list \<Rightarrow> namespace \<Rightarrow> bool" where
  "in_choices T ns \<longleftrightarrow> (\<forall>opt\<in>set T. \<forall>cs. opt_action opt = Store (Some cs) \<longrightarrow>
     (\<exists>v. dict_get ns (opt_dest opt) = Some v \<and> v \<in> set cs))"

lemma find_option_in: "find_option T s = Some opt \<Longrightarrow> opt \<in> set T \<and> opt_string opt = s"
  by (auto simp: find_option_def find_Some_iff)

lemma option_tuples_in: "(Some opt, g) \<in> set (option_tuples T s) \<Longrightarrow> opt \<in> set T"
  by (auto simp: option_tuples_def Let_def split: prod.splits if_splits)

lemma classify_in:
  assumes "classify T s = Some rds" "(Some opt, g) \<in> set rds"
  shows "opt \<in> set T"
  using assms option_tuples_in [of opt g T s]
  by (auto simp: classify_def dest: find_option_in split: if_splits option.splits)

lemma in_choices_set:
  assumes "dests_agree T" "opt \<in> set T" "in_choices T ns" "\<And>cs. opt_action opt = Store (Some cs) \<Longrightarrow> v \<in> set cs"
  shows "in_choices T (dict_set (opt_dest opt) v ns)"
  unfolding in_choices_def
proof (intro ballI allI impI)
  fix opt' cs assume o': "opt' \<in> set T" "opt_action opt' = Store (Some cs)"
  show "\<exists>w. dict_get (dict_set (opt_dest opt) v ns) (opt_dest opt') = Some w \<and> w \<in> set cs"
  proof (cases "opt_dest opt' = opt_dest opt")
    case True
    with assms(1,2) o' have "opt_action opt = Store (Some cs)" unfolding dests_agree_def by metis
    with True assms(4) show ?thesis by simp
  next
    case False
    with assms(3) o' show ?thesis unfolding in_choices_def by (simp add: eq_commute)
  qed
qed

lemma store_value_choices:
  assumes "dests_agree T" "opt \<in> set T" "in_choices T ns" "store_value opt v ns = Inr ns'"
  shows "in_choices T ns'"
proof -
  from assms(4) have "ns' = dict_set (opt_dest opt) v ns" "\<And>cs. opt_action opt = Store (Some cs) \<Longrightarrow> v \<in> set cs"
    by (auto simp: store_value_def split: arg_action.splits option.splits if_splits)
  with in_choices_set [OF assms(1-3)] show ?thesis by simp
qed

lemma consume_choices:
  assumes "dests_agree T" "\<And>opt. fst rd = Some opt \<Longrightarrow> opt \<in> set T" "in_choices T (fst st)"
    and "consume_optional T rd rest st = Inr (st', rest')"
  shows "in_choices T (fst st')"
proof (cases "fst rd")
  case None
  with assms(3,4) show ?thesis by (cases rd) (auto simp: consume_optional_def)
next
  case (Some opt)
  then obtain g where rd: "rd = (Some opt, g)" by (cases rd) auto
  from Some assms(2) have opt: "opt \<in> set T" by simp
  show ?thesis
  proof (cases "opt_action opt")
    case (Store cs)
    with assms(4) obtain v where "store_value opt v (fst st) = Inr (fst st')" unfolding rd
      by (cases g; cases rest) (auto simp: consume_optional_def andthen_eq_Inr split: if_splits)
    with store_value_choices [OF assms(1) opt assms(3)] show ?thesis .
  next
    case StoreTrue
    with assms(4) have "fst st' = dict_set (opt_dest opt) ''True'' (fst st)" unfolding rd
      by (cases g) (auto simp: consume_optional_def)
    with in_choices_set [OF assms(1) opt assms(3)] StoreTrue show ?thesis by simp
  next
    case Help
    with assms(4) show ?thesis unfolding rd by (cases g) (simp_all add: consume_optional_def)
  qed
qed

lemma parse_choices:
  "dests_agree T \<Longrightarrow> in_choices T (fst st) \<Longrightarrow> parse_options T as st = Inr (ns, extras) \<Longrightarrow> in_choices T ns"
proof (induction T as st rule: parse_options.induct)
  case (1 T st)
  then show ?case by simp
next
  case (2 T a as st)
  show ?case
  proof (cases "a = ''--''")
    case False
    show ?thesis
    proof (cases "classify T a")
      case None
      with 2 False show ?thesis by (simp add: parse_options.simps(2))
    next
      case (Some rds)
      with 2(5) False obtain rd st' rest where rd: "rds = [rd]" "consume_optional T rd as st = Inr (st', rest)"
        "parse_options T rest st' = Inr (ns, extras)"
        by (cases rds) (auto simp: parse_options.simps(2) split: sum.splits if_splits)
      have "opt \<in> set T" if "fst rd = Some opt" for opt
        using classify_in [OF Some, of opt "snd rd"] that rd(1) by (cases rd) simp
      from consume_choices [OF 2(3) this 2(4) rd(2)] have "in_choices T (fst st')" .
      with 2(2) [OF False Some] rd 2(3) show ?thesis by simp
    qed
  qed (use 2 in \<open>simp add: parse_options.simps(2)\<close>)
qed

lemma score_parser_choices:
  assumes "run_parser score_options as = Inr (ns, extras)"
  shows "value_of ns ''mode'' \<in> {''repo'', ''commit''}" "value_of ns ''verify_digests'' \<in> {''true'', ''false''}"
    "dict_get ns ''repo'' \<noteq> None" "dict_get ns ''spec'' \<noteq> None"
proof -
  have agree: "dests_agree score_options" by code_simp
  have init: "in_choices score_options (defaults_of score_options)"
    by (simp add: in_choices_def score_options_def help_options_def stored_def defaults_of_def)
  from assms have parsed: "parse_options score_options as (defaults_of score_options, False) = Inr (ns, extras)"
    and required: "\<forall>opt\<in>set score_options. opt_required opt \<longrightarrow> dict_get ns (opt_dest opt) \<noteq> None"
    by (auto simp: run_parser_def result_simps)
  from parse_choices [OF agree _ parsed] init have "in_choices score_options ns" by simp
  then show "value_of ns ''mode'' \<in> {''repo'', ''commit''}" "value_of ns ''verify_digests'' \<in> {''true'', ''false''}"
    by (auto simp: in_choices_def score_options_def help_options_def stored_def value_of_def)
  from required show "dict_get ns ''repo'' \<noteq> None" "dict_get ns ''spec'' \<noteq> None"
    by (simp_all add: score_options_def help_options_def stored_def)
qed

definition typed_command :: "cli_command \<Rightarrow> bool" where
  "typed_command cmd \<longleftrightarrow>
     (case cmd of
        ScoreCommand spec opts \<Rightarrow> arg_mode opts \<in> {''repo'', ''commit''} \<and> arg_verify_digests opts \<in> {''true'', ''false''}
      | VerifyCommand r c \<Rightarrow> True)"

lemma sub_command_typed:
  assumes "sub_command name as = Inr (cmd, extras)"
  shows "typed_command cmd"
proof (cases "name = ''score''")
  case True
  with assms obtain ns where ns: "run_parser score_options as = Inr (ns, extras)"
    "cmd = ScoreCommand (value_of ns ''spec'') (score_args_of ns)"
    by (auto simp: sub_command_def result_simps)
  from score_parser_choices(1,2) [OF ns(1)] ns(2) show ?thesis by (simp add: score_args_of_def typed_command_def)
next
  case False
  with assms show ?thesis
    by (auto simp: sub_command_def result_simps typed_command_def split: if_splits)
qed

lemma main_parser_typed: "main_parser extras as = Inr (cmd, extras') \<Longrightarrow> typed_command cmd"
proof (induction extras as rule: main_parser.induct)
  case (2 extras a as)
  show ?case
  proof (cases "a = ''--''")
    case True
    with 2(2) show ?thesis by (cases as) (auto simp: result_simps intro: sub_command_typed)
  next
    case False
    show ?thesis
    proof (cases "classify help_options a")
      case None
      with 2(2) False show ?thesis by (auto simp: result_simps intro: sub_command_typed)
    next
      case (Some rds)
      with 2(2) False obtain x where "length rds = 1" "consume_optional help_options (hd rds) as ([], extras) = Inr x"
        "main_parser True as = Inr (cmd, extras')"
        by (auto split: if_splits sum.splits)
      with 2(1) [OF False Some] show ?thesis by (cases x) auto
    qed
  qed
qed simp

lemma parse_args_typed: "parse_args argv = Inr cmd \<Longrightarrow> typed_command cmd"
  using main_parser_typed [of False argv] by (auto simp: parse_args_def result_simps)

section \<open>Exits\<close>

lemma verify_document_exits: "verify_document L v = Inr c \<Longrightarrow> c \<in> {0, EXIT_SCORING}"
  by (auto simp: verify_document_def result_simps split: pyval.splits if_splits)

lemma verify_sidecar_exits: "verify_sidecar L st dir name = Inr c \<Longrightarrow> c \<in> {0, EXIT_SCORING}"
  using verify_document_exits by (auto simp: verify_sidecar_def Let_def split: option.splits if_splits prod.splits)

lemma verify_command_exits: "verify_command L st sc r = Inr c \<Longrightarrow> c \<in> {0, EXIT_SCORING}"
  using verify_document_exits verify_sidecar_exits
  by (auto simp: verify_command_def split: option.splits if_splits prod.splits)

lemma score_command_exits:
  assumes "exit_code (score_command W opts st) = Inr c"
  shows "c = 0 \<and> printed (score_command W opts st) \<noteq> None
    \<or> c \<in> {10..15} \<and> (c = EXIT_WRITE \<or> final_store (score_command W opts st) = st)"
  using reported_score [of st W opts] assms
  by (auto simp: reported_def exit_reasons_def exit_codes split: if_splits)

section \<open>Writing a command line\<close>

definition given_as :: "string \<Rightarrow> string \<Rightarrow> string" where
  "given_as flag v = flag @ ''='' @ v"

definition render_score :: "string \<Rightarrow> score_args \<Rightarrow> string list" where
  "render_score spec a =
     [''score'', given_as ''--spec'' spec, given_as ''--repo'' (arg_repo a), given_as ''--mode'' (arg_mode a),
      given_as ''--out'' (arg_out a), given_as ''--verify-digests'' (arg_verify_digests a)]
     @ (case arg_commit a of None \<Rightarrow> [] | Some c \<Rightarrow> [given_as ''--commit'' c])
     @ (if arg_assert_network_isolated a then [''--assert-network-isolated''] else [])"

lemma partition_given: "CHR ''='' \<notin> set f \<Longrightarrow> partition_eq (given_as f v) = (f, Some v)"
  by (auto simp: partition_eq_def given_as_def takeWhile_append dropWhile_append Let_def)

lemma classify_given:
  assumes "find_option T f = Some opt" "CHR ''='' \<notin> set f" "starts_with ''-'' f" "length f \<noteq> 0"
    and "\<forall>opt\<in>set T. CHR ''='' \<notin> set (opt_string opt)"
  shows "classify T (given_as f v) = Some [(Some opt, Explicit v)]"
proof -
  have "find_option T (given_as f v) = None"
    using assms(5) by (auto simp: find_option_def find_None_iff given_as_def)
  moreover have "starts_with ''-'' (given_as f v)" "length (given_as f v) \<noteq> 1"
    using assms(3,4) by (cases f; simp add: starts_with_def given_as_def)+
  ultimately show ?thesis using assms(1) by (simp add: classify_def partition_given [OF assms(2)])
qed

lemma parse_given:
  assumes "find_option T f = Some opt" "opt_action opt = Store cs" "CHR ''='' \<notin> set f" "starts_with ''-'' f" "length f \<noteq> 0"
    and "\<forall>opt\<in>set T. CHR ''='' \<notin> set (opt_string opt)" "\<And>choices. cs = Some choices \<Longrightarrow> v \<in> set choices"
  shows "parse_options T (given_as f v # as) (ns, ex) = parse_options T as (dict_set (opt_dest opt) v ns, ex)"
proof -
  have "given_as f v \<noteq> ''--''" using assms(3) by (auto simp: given_as_def append_eq_Cons_conv)
  moreover have "store_value opt v ns = Inr (dict_set (opt_dest opt) v ns)"
    using assms(2,7) by (auto simp: store_value_def split: option.splits)
  ultimately show ?thesis
    using classify_given [OF assms(1,3-6), of v] assms(2) by (simp add: parse_options.simps(2) consume_optional_def)
qed

lemma score_flags:
  "find_option score_options ''--spec'' = Some ((stored ''--spec'' ''spec'')\<lparr>opt_required := True\<rparr>)"
  "find_option score_options ''--repo'' = Some ((stored ''--repo'' ''repo'')\<lparr>opt_required := True\<rparr>)"
  "find_option score_options ''--mode'' = Some ((stored ''--mode'' ''mode'')\<lparr>opt_action := Store (Some [''repo'', ''commit'']),
     opt_default := Some ''repo''\<rparr>)"
  "find_option score_options ''--commit'' = Some (stored ''--commit'' ''commit'')"
  "find_option score_options ''--out'' = Some ((stored ''--out'' ''out'')\<lparr>opt_default := Some ''./cce-out''\<rparr>)"
  "find_option score_options ''--verify-digests'' = Some ((stored ''--verify-digests'' ''verify_digests'')
     \<lparr>opt_action := Store (Some [''true'', ''false'']), opt_default := Some ''true''\<rparr>)"
  "find_option score_options ''--assert-network-isolated'' = Some ((stored ''--assert-network-isolated'' ''assert_network_isolated'')
     \<lparr>opt_action := StoreTrue\<rparr>)"
  by (simp_all add: find_option_def score_options_def help_options_def stored_def)

lemma score_plain_flags: "\<forall>opt\<in>set score_options. CHR ''='' \<notin> set (opt_string opt)"
  by (simp add: score_options_def help_options_def stored_def)

lemma score_given:
  "parse_options score_options (given_as ''--spec'' v # as) (ns, ex) = parse_options score_options as (dict_set ''spec'' v ns, ex)"
  "parse_options score_options (given_as ''--repo'' v # as) (ns, ex) = parse_options score_options as (dict_set ''repo'' v ns, ex)"
  "v \<in> {''repo'', ''commit''} \<Longrightarrow> parse_options score_options (given_as ''--mode'' v # as) (ns, ex) = parse_options score_options as (dict_set ''mode'' v ns, ex)"
  "parse_options score_options (given_as ''--commit'' v # as) (ns, ex) = parse_options score_options as (dict_set ''commit'' v ns, ex)"
  "parse_options score_options (given_as ''--out'' v # as) (ns, ex) = parse_options score_options as (dict_set ''out'' v ns, ex)"
  "v \<in> {''true'', ''false''} \<Longrightarrow> parse_options score_options (given_as ''--verify-digests'' v # as) (ns, ex) = parse_options score_options as (dict_set ''verify_digests'' v ns, ex)"
  subgoal by (subst parse_given [OF score_flags(1) _ _ _ _ score_plain_flags, where cs = "None"]) (auto simp: stored_def starts_with_def)
  subgoal by (subst parse_given [OF score_flags(2) _ _ _ _ score_plain_flags, where cs = "None"]) (auto simp: stored_def starts_with_def)
  subgoal by (subst parse_given [OF score_flags(3) _ _ _ _ score_plain_flags, where cs = "Some [''repo'', ''commit'']"]) (auto simp: stored_def starts_with_def)
  subgoal by (subst parse_given [OF score_flags(4) _ _ _ _ score_plain_flags, where cs = "None"]) (auto simp: stored_def starts_with_def)
  subgoal by (subst parse_given [OF score_flags(5) _ _ _ _ score_plain_flags, where cs = "None"]) (auto simp: stored_def starts_with_def)
  subgoal by (subst parse_given [OF score_flags(6) _ _ _ _ score_plain_flags, where cs = "Some [''true'', ''false'']"]) (auto simp: stored_def starts_with_def)
  done

lemma parse_isolated:
  "parse_options score_options [''--assert-network-isolated''] (ns, ex) = Inr (dict_set ''assert_network_isolated'' ''True'' ns, ex)"
  by (simp add: parse_options.simps(2) classify_def score_flags(7) consume_optional_def stored_def starts_with_def)

lemma parse_tail:
  "parse_options score_options ((case c of None \<Rightarrow> [] | Some t \<Rightarrow> [given_as ''--commit'' t])
      @ (if isolated then [''--assert-network-isolated''] else [])) (ns, ex)
    = Inr ((if isolated then dict_set ''assert_network_isolated'' ''True'' else id)
             ((case c of None \<Rightarrow> id | Some t \<Rightarrow> dict_set ''commit'' t) ns), ex)"
  by (cases c) (simp_all add: score_given stored_def starts_with_def parse_isolated)

lemma rendered_namespace:
  assumes "arg_mode a \<in> {''repo'', ''commit''}" "arg_verify_digests a \<in> {''true'', ''false''}"
  shows "\<exists>ns. run_parser score_options (tl (render_score spec a)) = Inr (ns, False)
    \<and> value_of ns ''spec'' = spec \<and> score_args_of ns = a"
proof -
  let ?ns = "dict_set ''verify_digests'' (arg_verify_digests a) (dict_set ''out'' (arg_out a) (dict_set ''mode'' (arg_mode a)
      (dict_set ''repo'' (arg_repo a) (dict_set ''spec'' spec (defaults_of score_options)))))"
  let ?final = "(if arg_assert_network_isolated a then dict_set ''assert_network_isolated'' ''True'' else id)
      ((case arg_commit a of None \<Rightarrow> id | Some t \<Rightarrow> dict_set ''commit'' t) ?ns)"
  have "parse_options score_options (tl (render_score spec a)) (defaults_of score_options, False)
      = parse_options score_options ((case arg_commit a of None \<Rightarrow> [] | Some t \<Rightarrow> [given_as ''--commit'' t])
          @ (if arg_assert_network_isolated a then [''--assert-network-isolated''] else [])) (?ns, False)"
    using assms by (simp add: render_score_def score_given stored_def starts_with_def)
  then have parsed: "parse_options score_options (tl (render_score spec a)) (defaults_of score_options, False) = Inr (?final, False)"
    unfolding parse_tail .
  have dflt: "dict_get (defaults_of score_options) ''commit'' = None"
    "dict_get (defaults_of score_options) ''assert_network_isolated'' = None"
    by (simp_all add: defaults_of_def score_options_def help_options_def stored_def)
  have "run_parser score_options (tl (render_score spec a)) = Inr (?final, False)"
    by (cases "arg_commit a")
       (simp_all add: run_parser_def parsed, simp_all add: score_options_def help_options_def stored_def)
  moreover have "value_of ?final ''spec'' = spec" "score_args_of ?final = a"
    by (cases "arg_commit a"; simp add: value_of_def score_args_of_def dflt)+
  ultimately show ?thesis by blast
qed

section \<open>Properties\<close>

text \<open>A command line written with \<open>=\<close> parses back to its arguments, whatever the values are, also those that start
  with a dash or hold spaces; only the two options with choices restrict theirs.\<close>

theorem rendered_arguments_parse:
  assumes "arg_mode a \<in> {''repo'', ''commit''}" "arg_verify_digests a \<in> {''true'', ''false''}"
  shows "parse_args (render_score spec a) = Inr (ScoreCommand spec a)"
proof -
  from rendered_namespace [OF assms, of spec] obtain ns where
    ns: "run_parser score_options (tl (render_score spec a)) = Inr (ns, False)" "value_of ns ''spec'' = spec" "score_args_of ns = a"
    by blast
  then have "sub_command ''score'' (tl (render_score spec a)) = Inr (ScoreCommand spec a, False)"
    by (simp add: sub_command_def)
  then have "main_parser False (''score'' # tl (render_score spec a)) = Inr (ScoreCommand spec a, False)"
    by (simp add: classify_def starts_with_def)
  then have "main_parser False (render_score spec a) = Inr (ScoreCommand spec a, False)"
    by (simp add: render_score_def del: main_parser.simps)
  then show ?thesis by (simp add: parse_args_def)
qed


lemma rendered_arguments_parse_witness:
  "let a = \<lparr>arg_repo = ''-dash'', arg_mode = ''commit'', arg_commit = Some ''a b'', arg_out = [],
       arg_verify_digests = ''false'', arg_assert_network_isolated = True\<rparr>
   in parse_args (render_score ''spec.json'' a) = Inr (ScoreCommand ''spec.json'' a)"
  unfolding Let_def by (rule rendered_arguments_parse) simp_all

lemma parsed_samples:
  "parse_args [''verify'', ''--rec'', ''r.json''] = Inr (VerifyCommand (Some ''r.json'') None)"
  "parse_args [] = Inl Usage"
  "parse_args [''score'', ''-hx''] = Inl ShowHelp"
  "parse_args [''score'', ''--spec=s'', ''--re'', ''r'', ''--mode'', ''both''] = Inl Usage"
  by code_simp+


end
