(* ===== verification/CliTimings.thy ===== *)
theory CliTimings
  imports CliLaws Models
begin

text \<open>
  The small helpers of \<open>cli.py\<close> around a run: \<open>_timed\<close> and \<open>_timed_context\<close>, the lines for stderr and the time stamp of
  a record. A computation runs in the state of the timings and of the outside world; \<open>clk\<close> is
  \<open>time.perf_counter_ns\<close>.
\<close>

section \<open>Timing\<close>

type_synonym timings = "(string \<times> int) list"
type_synonym ('w, 'x) timed_run = "timings \<times> 'w \<Rightarrow> 'x result \<times> timings \<times> 'w"

definition timed :: "('w \<Rightarrow> int \<times> 'w) \<Rightarrow> string \<Rightarrow> ('w, 'x) timed_run \<Rightarrow> ('w, 'x) timed_run" where
  "timed clk name operation s =
     (let (start, w) = clk (snd s);
          (r, s') = operation (fst s, w);
          (stop, w') = clk (snd s')
      in (r, fst s' @ [(name, stop - start)], w'))"

text \<open>\<open>with _timed_context(\<dots>)\<close> around a body: \<open>on_enter\<close> is the factory with the \<open>__enter__\<close> of what it makes, \<open>on_exit\<close> its
  \<open>__exit__\<close>, told the exception of the body, and \<open>True\<close> if it swallows it. When entering fails nothing is recorded.\<close>

definition timed_context ::
    "('w \<Rightarrow> int \<times> 'w) \<Rightarrow> string \<Rightarrow> ('w, 'c) timed_run \<Rightarrow> ('c \<Rightarrow> exn option \<Rightarrow> ('w, bool) timed_run) \<Rightarrow> ('c \<Rightarrow> ('w, unit) timed_run)
     \<Rightarrow> ('w, unit) timed_run" where
  "timed_context clk name on_enter on_exit body s =
     (let (started, w) = clk (snd s)
      in case on_enter (fst s, w) of
           (Inl e, s1) \<Rightarrow> (Inl e, s1)
         | (Inr context, s1) \<Rightarrow>
             (let (r, s2) = body context s1;
                  (swallow, s3) = on_exit context (case r of Inl e \<Rightarrow> Some e | Inr _ \<Rightarrow> None) s2;
                  (stop, w') = clk (snd s3)
              in (case swallow of Inl e \<Rightarrow> Inl e | Inr True \<Rightarrow> Inr () | Inr False \<Rightarrow> r,
                  fst s3 @ [(name, stop - started)], w')))"

definition print_timings :: "timings \<Rightarrow> string list" where
  "print_timings ts = map (\<lambda>(name, elapsed). name @ '': '' @ string_of_int (elapsed div 1000000) @ '' ms'') ts"

definition print_error :: "string \<Rightarrow> string" where
  "print_error msg = ''cce: '' @ msg"

text \<open>An entry is added whatever the operation does, after the entries it added itself.\<close>

lemma timed_appends:
  assumes "timed clk name operation s = (r, s')"
  shows "\<exists>w ts w1 d. operation (fst s, w) = (r, ts, w1) \<and> fst s' = ts @ [(name, d)]"
  using assms by (auto simp: timed_def Let_def split: prod.splits) blast

lemma timed_elapsed:
  assumes "timed clk name operation s = (r, s')" "\<And>w. now_ns w \<le> now_ns (snd (clk w))" "\<And>w. fst (clk w) = now_ns w"
    and "\<And>t. now_ns (snd t) \<le> now_ns (snd (snd (operation t)))"
  shows "0 \<le> snd (last (fst s'))"
proof -
  obtain start w where c: "clk (snd s) = (start, w)" by fastforce
  obtain x ts w1 where o: "operation (fst s, w) = (x, ts, w1)" by (metis surj_pair)
  have "start = now_ns (snd s)" "now_ns (snd s) \<le> now_ns w" using assms(2,3) c by (metis fst_conv, metis snd_conv)
  moreover have "now_ns w \<le> now_ns w1" using assms(4) [of "(fst s, w)"] o by simp
  moreover have "fst s' = ts @ [(name, fst (clk w1) - start)]" using assms(1) c o by (auto simp: timed_def Let_def split: prod.splits)
  ultimately show ?thesis using assms(3) by simp
qed

text \<open>Why \<open>_score\<close> does not time the clone with \<open>_timed_context\<close> around the later stages: the outer entry comes last.\<close>

lemma outer_stage_comes_last:
  assumes "timed_context clk outer on_enter on_exit (\<lambda>c. timed clk inner (operation c)) s = (r, s')" "\<And>t. fst (snd (on_enter t)) = fst t"
    and "\<And>c e t. fst (snd (on_exit c e t)) = fst t" "\<And>c t. fst (snd (operation c t)) = fst t" "\<And>t. \<exists>c. fst (on_enter t) = Inr c"
  shows "map fst (fst s') = map fst (fst s) @ [inner, outer]"
proof -
  obtain started w where c: "clk (snd s) = (started, w)" by fastforce
  obtain ctx s1 where en: "on_enter (fst s, w) = (Inr ctx, s1)" using assms(5) [of "(fst s, w)"] by (metis fst_conv surj_pair)
  obtain x s2 where b: "timed clk inner (operation ctx) s1 = (x, s2)" by (metis surj_pair)
  obtain y s3 where l: "on_exit ctx (case x of Inl e \<Rightarrow> Some e | Inr _ \<Rightarrow> None) s2 = (y, s3)" by (metis surj_pair)
  have "fst s1 = fst s" using assms(2) [of "(fst s, w)"] en by simp
  moreover from timed_appends [OF b] obtain v ts w1 d where "operation ctx (fst s1, v) = (x, ts, w1)" "fst s2 = ts @ [(inner, d)]" by blast
  moreover from this(1) assms(4) [of ctx "(fst s1, v)"] have "ts = fst s1" by simp
  moreover have "fst s3 = fst s2" using assms(3) [of ctx _ s2] l by (metis snd_conv)
  ultimately show ?thesis using assms(1) by (auto simp: timed_context_def c en b l Let_def split: prod.splits)
qed

section \<open>The stages of a run\<close>

text \<open>The successful path of \<open>_score\<close>: each stage timed on its own, the total last.\<close>

primrec timed_stages :: "('w \<Rightarrow> int \<times> 'w) \<Rightarrow> string list \<Rightarrow> (string \<Rightarrow> ('w, unit) timed_run) \<Rightarrow> timings \<times> 'w \<Rightarrow> timings \<times> 'w" where
  "timed_stages clk [] operation s = s"
| "timed_stages clk (name # names) operation s = timed_stages clk names operation (snd (timed clk name (operation name) s))"

lemma timed_stages_order:
  assumes "\<And>name t. fst (snd (operation name t)) = fst t"
  shows "map fst (fst (timed_stages clk names operation s)) = map fst (fst s) @ names"
proof (induction names arbitrary: s)
  case (Cons name names)
  obtain r s' where t: "timed clk name (operation name) s = (r, s')" by (metis surj_pair)
  from timed_appends [OF t] obtain w ts w1 d where "operation name (fst s, w) = (r, ts, w1)" "fst s' = ts @ [(name, d)]" by blast
  with assms [of name "(fst s, w)"] have "fst s' = fst s @ [(name, d)]" by simp
  with Cons.IH [of s'] t show ?case by simp
qed simp

section \<open>The time stamp\<close>

text \<open>\<open>s.replace(old, new)\<close> for a nonempty \<open>old\<close>.\<close>

function replace_sub :: "string \<Rightarrow> string \<Rightarrow> string \<Rightarrow> string" where
  "replace_sub old new s =
     (if old = [] \<or> s = [] then s
      else if starts_with old s then new @ replace_sub old new (drop (length old) s)
      else hd s # replace_sub old new (tl s))"
  by pat_completeness auto

termination
  by (relation "measure (\<lambda>(old, new, s). length s)") (auto simp: diff_less)

declare replace_sub.simps [simp del]

definition utc_now :: "datetime \<Rightarrow> string" where
  "utc_now now =
     replace_sub ''+00:00'' ''Z'' (isoformat (Datetime (dt_year now) (dt_month now) (dt_day now) (dt_hour now) (dt_minute now) (dt_second now) 0))"

lemma replace_sub_absent: "CHR ''+'' \<notin> set s \<Longrightarrow> replace_sub ''+00:00'' new (s @ ''+00:00'') = s @ new"
proof (induction s)
  case Nil
  then show ?case by (simp add: replace_sub.simps [of _ _ "''+00:00''"] replace_sub.simps [of _ _ "[]"] starts_with_def)
next
  case (Cons c s)
  then have "\<not> starts_with ''+00:00'' (c # s @ ''+00:00'')" by (auto simp: starts_with_def)
  with Cons show ?case by (subst replace_sub.simps) simp
qed

lemma digit_not_plus: "digit_char d \<noteq> CHR ''+''"
  using digit_char_cases [of d] by auto

lemma utc_now_zulu:
  "utc_now t = dec_field 4 (dt_year t) @ ''-'' @ dec_field 2 (dt_month t) @ ''-'' @ dec_field 2 (dt_day t) @ ''T'' @
     dec_field 2 (dt_hour t) @ '':'' @ dec_field 2 (dt_minute t) @ '':'' @ dec_field 2 (dt_second t) @ ''Z''"
proof -
  let ?s = "dec_field 4 (dt_year t) @ ''-'' @ dec_field 2 (dt_month t) @ ''-'' @ dec_field 2 (dt_day t) @ ''T'' @
     dec_field 2 (dt_hour t) @ '':'' @ dec_field 2 (dt_minute t) @ '':'' @ dec_field 2 (dt_second t)"
  have "CHR ''+'' \<notin> set (dec_field k n)" for k n
    by (auto simp: dec_field_def digit_not_plus [symmetric])
  then have "CHR ''+'' \<notin> set ?s" by simp
  from replace_sub_absent [OF this, of "''Z''"] show ?thesis by (simp add: utc_now_def isoformat_def iso_tail_def)
qed

end
