(* ===== verification/Golden.thy ===== *)
theory Golden
  imports CliArgs Dispatch
begin

text \<open>
  The fixture scripts. \<open>scripts/regenerate_expected_record_hashes.py\<close> copies each fixture to a fresh directory, makes a git repository
  of it, runs \<open>cce score\<close> on it and keeps the last line of the output as the expected hash. The host runs processes
  and file operations; every effect is logged, in order. The lines the script prints are left out.

  The property composes the script with the command line of \<open>CliArgs\<close>: the files hold what the scorer printed.
\<close>

section \<open>The host\<close>

datatype effect =
    Mkdir string
  | CopyTree string string
  | Copy2 string string
  | RemoveTree string
  | WriteFile string string
  | RunProcess "string list" string "(string, string) dict"

record completed =
  returncode :: int
  stdout :: string
  stderr :: string

record 'w script_host =
  sh_root :: string
  sh_executable :: string
  sh_file :: "effect \<Rightarrow> 'w \<Rightarrow> (string + unit) \<times> 'w"
  sh_process :: "string list \<Rightarrow> string \<Rightarrow> (string, string) dict \<Rightarrow> 'w \<Rightarrow> completed \<times> 'w"
  sh_listing :: "string \<Rightarrow> 'w \<Rightarrow> (string \<times> bool) list"
  sh_tmpdir :: "string \<Rightarrow> 'w \<Rightarrow> string \<times> 'w"

datatype golden_error = Stopped string | CalledProcessError "string list" int | FileError string | Escaped exn

type_synonym ('w, 'x) script = "effect list \<times> 'w \<Rightarrow> (golden_error + 'x) \<times> effect list \<times> 'w"

definition done_with :: "'x \<Rightarrow> ('w, 'x) script" where
  "done_with x s = (Inr x, s)"

definition next_do :: "('w, 'x) script \<Rightarrow> ('x \<Rightarrow> ('w, 'y) script) \<Rightarrow> ('w, 'y) script" where
  "next_do m f s = (case m s of (Inl e, s') \<Rightarrow> (Inl e, s') | (Inr x, s') \<Rightarrow> f x s')"

fun for_each :: "('x \<Rightarrow> ('w, unit) script) \<Rightarrow> 'x list \<Rightarrow> ('w, unit) script" where
  "for_each f [] = done_with ()"
| "for_each f (x # xs) = next_do (f x) (\<lambda>_. for_each f xs)"

definition file_op :: "'w script_host \<Rightarrow> effect \<Rightarrow> ('w, unit) script" where
  "file_op H e s =
     (let (r, w) = sh_file H e (snd s) in ((case r of Inl m \<Rightarrow> Inl (FileError m) | Inr _ \<Rightarrow> Inr ()), fst s @ [e], w))"

text \<open>\<open>subprocess.run(\<dots>, check=True)\<close>; \<open>env\<close> is added to the environment of the script.\<close>

definition run_checked :: "'w script_host \<Rightarrow> string list \<Rightarrow> string \<Rightarrow> (string, string) dict \<Rightarrow> ('w, completed) script" where
  "run_checked H cmd wd env s =
     (let (r, w) = sh_process H cmd wd env (snd s)
      in (if returncode r \<noteq> 0 then Inl (CalledProcessError cmd (returncode r)) else Inr r, fst s @ [RunProcess cmd wd env], w))"

definition slash :: "string \<Rightarrow> string \<Rightarrow> string" where
  "slash dir name = dir @ ''/'' @ name"

section \<open>The script\<close>

definition FIXTURES :: "string list" where
  "FIXTURES = [''simple_python'', ''simple_typescript'', ''perf_100k'']"

definition DETERMINISTIC_GIT_ENV :: "(string, string) dict" where
  "DETERMINISTIC_GIT_ENV =
     [(''GIT_AUTHOR_DATE'', ''2026-01-01T00:00:00+0000''), (''GIT_COMMITTER_DATE'', ''2026-01-01T00:00:00+0000''),
      (''GIT_AUTHOR_NAME'', ''CCE Test''), (''GIT_AUTHOR_EMAIL'', ''cce@example.test''),
      (''GIT_COMMITTER_NAME'', ''CCE Test''), (''GIT_COMMITTER_EMAIL'', ''cce@example.test'')]"

definition git_commands :: "string list list" where
  "git_commands =
     [[''git'', ''init'', ''-q'', ''--initial-branch=main''],
      [''git'', ''config'', ''user.email'', ''cce@example.test''],
      [''git'', ''config'', ''user.name'', ''CCE Test''],
      [''git'', ''add'', ''.''],
      [''git'', ''commit'', ''-q'', ''-m'', ''fixture'']]"

definition git_init_fixture :: "'w script_host \<Rightarrow> string \<Rightarrow> ('w, unit) script" where
  "git_init_fixture H fixture_root =
     for_each (\<lambda>cmd. next_do (run_checked H cmd fixture_root DETERMINISTIC_GIT_ENV) (\<lambda>_. done_with ())) git_commands"

text \<open>An entry of the source directory with whether it is a directory.\<close>

definition copy_entry :: "'w script_host \<Rightarrow> string \<Rightarrow> string \<Rightarrow> string \<times> bool \<Rightarrow> ('w, unit) script" where
  "copy_entry H src_root dest entry =
     (if fst entry \<in> {''expected_record_hash.txt'', ''.git''} then done_with ()
      else if snd entry then file_op H (CopyTree (slash src_root (fst entry)) (slash dest (fst entry)))
      else file_op H (Copy2 (slash src_root (fst entry)) (slash dest (fst entry))))"

definition copy_sources :: "'w script_host \<Rightarrow> string \<Rightarrow> string \<Rightarrow> ('w, unit) script" where
  "copy_sources H src_root dest s = for_each (copy_entry H src_root dest) (sh_listing H src_root (snd s)) s"

definition materialise_fixture :: "'w script_host \<Rightarrow> string \<Rightarrow> string \<Rightarrow> ('w, string) script" where
  "materialise_fixture H name dest_root =
     (let src_root = slash (slash (slash (sh_root H) ''tests'') ''fixtures'') name; dest = slash dest_root name
      in next_do (file_op H (Mkdir dest)) (\<lambda>_.
         if name = ''perf_100k''
         then let repo_dir = slash dest ''repo''
              in next_do (file_op H (Mkdir repo_dir)) (\<lambda>_.
                 next_do (run_checked H [sh_executable H, ''-m'', ''tests.fixtures.perf_100k.generate'', ''--out'', repo_dir]
                            (sh_root H) []) (\<lambda>_.
                 done_with repo_dir))
         else next_do (copy_sources H src_root dest) (\<lambda>_. done_with dest)))"

definition score_output_error :: "string \<Rightarrow> string \<Rightarrow> completed \<Rightarrow> golden_error" where
  "score_output_error what fixture_dir r =
     Stopped (what @ '' cce score output for '' @ fixture_dir @ '':'' @ [newline]
       @ ''  stdout: '' @ repr_string (stdout r) @ [newline] @ ''  stderr: '' @ repr_string (stderr r))"

definition hash_line :: "string \<Rightarrow> completed \<Rightarrow> golden_error + string" where
  "hash_line fixture_dir r =
     (let lines = filter (\<lambda>line. py_strip line \<noteq> []) (splitlines (py_strip (stdout r)))
      in if lines = [] then Inl (score_output_error ''empty'' fixture_dir r)
         else if \<not> starts_with ''sha256:'' (py_strip (last lines)) then Inl (score_output_error ''unexpected'' fixture_dir r)
         else Inr (py_strip (last lines)))"

definition score_argv :: "'w script_host \<Rightarrow> string \<Rightarrow> string \<Rightarrow> string list" where
  "score_argv H fixture_dir out_dir =
     [''score'', ''--spec'', slash (sh_root H) ''scoring-spec.yaml'', ''--repo'', fixture_dir, ''--mode'', ''repo'', ''--out'', out_dir]"

definition cce_binary :: "'w script_host \<Rightarrow> string" where
  "cce_binary H = slash (slash (slash (sh_root H) ''.venv'') ''bin'') ''cce''"

definition run_cce_score :: "'w script_host \<Rightarrow> string \<Rightarrow> string \<Rightarrow> ('w, string) script" where
  "run_cce_score H fixture_dir out_dir =
     next_do (run_checked H (cce_binary H # score_argv H fixture_dir out_dir) (sh_root H) []) (\<lambda>r s.
       (hash_line fixture_dir r, s))"

text \<open>\<open>with TemporaryDirectory(\<dots>)\<close>: the directory is removed on every way out.\<close>

definition with_tmpdir :: "'w script_host \<Rightarrow> string \<Rightarrow> (string \<Rightarrow> ('w, 'x) script) \<Rightarrow> ('w, 'x) script" where
  "with_tmpdir H prefix body s =
     (let (tmp, w) = sh_tmpdir H prefix (snd s);
          (r, s1) = body tmp (fst s, w);
          (c, s2) = file_op H (RemoveTree tmp) s1
      in (case c of Inl e \<Rightarrow> Inl e | Inr _ \<Rightarrow> r, s2))"

definition hash_file :: "'w script_host \<Rightarrow> string \<Rightarrow> string" where
  "hash_file H name = slash (slash (slash (slash (sh_root H) ''tests'') ''fixtures'') name) ''expected_record_hash.txt''"

definition score_fixture :: "'w script_host \<Rightarrow> string \<Rightarrow> string \<Rightarrow> ('w, string) script" where
  "score_fixture H name tmp =
     next_do (materialise_fixture H name (slash tmp ''src'')) (\<lambda>fixture_dir.
     next_do (git_init_fixture H fixture_dir) (\<lambda>_.
     next_do (file_op H (Mkdir (slash tmp ''cce-out''))) (\<lambda>_.
     run_cce_score H fixture_dir (slash tmp ''cce-out''))))"

definition regenerate_one :: "'w script_host \<Rightarrow> string \<Rightarrow> ('w, unit) script" where
  "regenerate_one H name =
     next_do (with_tmpdir H (''cce-'' @ name @ ''-'') (score_fixture H name)) (\<lambda>record_hash.
     file_op H (WriteFile (hash_file H name) (record_hash @ [newline])))"

definition regenerate_hashes :: "'w script_host \<Rightarrow> ('w, unit) script" where
  "regenerate_hashes H = for_each (regenerate_one H) FIXTURES"

section \<open>The grammar spans\<close>

text \<open>\<open>scripts/regenerate_grammar_spans.py\<close>; \<open>collect_spans\<close> is a helper of the tests. A target is its name, its
  language and its source file.\<close>

definition TARGETS :: "(string \<times> string \<times> string) list" where
  "TARGETS =
     [(''simple_python'', ''python'', ''tests/fixtures/simple_python/pkg/example.py''),
      (''simple_typescript'', ''typescript'', ''tests/fixtures/simple_typescript/src/example.ts'')]"

definition golden_dir :: "'w script_host \<Rightarrow> string" where
  "golden_dir H = slash (slash (slash (sh_root H) ''tests'') ''fixtures'') ''grammar_spans''"

definition spans_payload :: "string \<Rightarrow> string \<Rightarrow> pyval \<Rightarrow> pyval" where
  "spans_payload src lang spans =
     str_dict [(''source'', VStr src), (''language'', VStr lang), (''spans'', spans)]"

definition write_spans ::
    "'w script_host \<Rightarrow> libs \<Rightarrow> (string \<Rightarrow> string \<Rightarrow> golden_error + pyval) \<Rightarrow> string \<times> string \<times> string \<Rightarrow> ('w, unit) script" where
  "write_spans H L collect_spans tgt s =
     (let (name, lang, src) = tgt
      in case andthen (collect_spans (slash (sh_root H) src) lang) (\<lambda>spans.
               case canonical_json_bytes L (spans_payload src lang spans) of
                 Inl e \<Rightarrow> Inl (Escaped e) | Inr bytes \<Rightarrow> Inr bytes) of
           Inl e \<Rightarrow> (Inl e, s)
         | Inr bytes \<Rightarrow> file_op H (WriteFile (slash (golden_dir H) (name @ ''.json'')) bytes) s)"

definition regenerate_spans ::
    "'w script_host \<Rightarrow> libs \<Rightarrow> (string \<Rightarrow> string \<Rightarrow> golden_error + pyval) \<Rightarrow> ('w, unit) script" where
  "regenerate_spans H L collect_spans =
     next_do (file_op H (Mkdir (golden_dir H))) (\<lambda>_. for_each (write_spans H L collect_spans) TARGETS)"

section \<open>What is written\<close>

fun writes_of :: "effect list \<Rightarrow> (string \<times> string) list" where
  "writes_of [] = []"
| "writes_of (WriteFile p t # es) = (p, t) # writes_of es"
| "writes_of (e # es) = writes_of es"

lemma writes_of_append [simp]: "writes_of (xs @ ys) = writes_of xs @ writes_of ys"
  by (induction xs rule: writes_of.induct) auto

text \<open>A script that writes no text file.\<close>

definition quiet :: "('w, 'x) script \<Rightarrow> bool" where
  "quiet m \<longleftrightarrow> (\<forall>s. writes_of (fst (snd (m s))) = writes_of (fst s))"

lemma quietD: "quiet m \<Longrightarrow> m s = (r, s') \<Longrightarrow> writes_of (fst s') = writes_of (fst s)"
  unfolding quiet_def by (metis snd_conv)

lemma quiet_done [intro]: "quiet (done_with x)"
  by (simp add: quiet_def done_with_def)

lemma quiet_next [intro]:
  assumes "quiet m" "\<And>x. quiet (f x)"
  shows "quiet (next_do m f)"
  unfolding quiet_def
proof
  fix s
  obtain r s' where "m s = (r, s')" by (rule prod.exhaust)
  moreover have "writes_of (fst (snd (f x t))) = writes_of (fst t)" for x t
    using assms(2) unfolding quiet_def by blast
  ultimately show "writes_of (fst (snd (next_do m f s))) = writes_of (fst s)"
    using quietD [OF assms(1)] by (cases r) (simp_all add: next_do_def)
qed

lemma quiet_each [intro]: "(\<And>x. quiet (f x)) \<Longrightarrow> quiet (for_each f xs)"
  by (induction xs) auto

lemma quiet_file: "(\<And>p t. e \<noteq> WriteFile p t) \<Longrightarrow> quiet (file_op H e)"
  by (cases e) (auto simp: quiet_def file_op_def split_beta Let_def)

lemma quiet_run [intro]: "quiet (run_checked H cmd wd env)"
  by (simp add: quiet_def run_checked_def split_beta Let_def)

lemmas quiet_file_op [intro] = quiet_file [where e = "Mkdir p" for p, simplified] quiet_file [where e = "CopyTree p q" for p q, simplified]
  quiet_file [where e = "Copy2 p q" for p q, simplified] quiet_file [where e = "RemoveTree p" for p, simplified]

lemma quiet_copy [intro]: "quiet (copy_entry H src dest e)"
  unfolding copy_entry_def by (auto split: if_splits)

lemma quiet_sources [intro]: "quiet (copy_sources H src dest)"
  using quiet_each [of "copy_entry H src dest", OF quiet_copy] by (simp add: quiet_def copy_sources_def)

lemma quiet_materialise [intro]: "quiet (materialise_fixture H name dest_root)"
  by (cases "name = ''perf_100k''")
     (simp_all add: materialise_fixture_def Let_def quiet_next quiet_file_op quiet_run quiet_done quiet_sources)

lemma quiet_git [intro]: "quiet (git_init_fixture H d)"
  unfolding git_init_fixture_def by blast

lemma quiet_score [intro]: "quiet (run_cce_score H d dest_dir)"
  unfolding run_cce_score_def by (rule quiet_next) (rule quiet_run, simp add: quiet_def)

lemma quiet_fixture [intro]: "quiet (score_fixture H name tmp)"
  unfolding score_fixture_def by blast

lemma quiet_tmpdir [intro]:
  assumes "\<And>tmp. quiet (body tmp)"
  shows "quiet (with_tmpdir H prefix body)"
  unfolding quiet_def
proof
  fix s :: "effect list \<times> 'a"
  obtain tmp w where t: "sh_tmpdir H prefix (snd s) = (tmp, w)" by (rule prod.exhaust)
  obtain r s1 where b: "body tmp (fst s, w) = (r, s1)" by (rule prod.exhaust)
  obtain c s2 where f: "file_op H (RemoveTree tmp) s1 = (c, s2)" by (rule prod.exhaust)
  from quietD [OF assms b] quietD [OF quiet_file_op(4) f] show "writes_of (fst (snd (with_tmpdir H prefix body s))) = writes_of (fst s)"
    by (simp add: with_tmpdir_def t b f)
qed

section \<open>The line the scorer prints\<close>

lemma splitlines_acc_single: "list_all (\<lambda>c. \<not> line_break c) s \<Longrightarrow> splitlines_acc acc s = (if acc = [] \<and> s = [] then [] else [rev acc @ s])"
proof (induction s arbitrary: acc)
  case (Cons c s)
  then have "c \<noteq> CHR 0x0D" by (auto simp: line_break_def)
  with Cons show ?case by simp
qed simp

lemma hash_line_printed:
  assumes "sha256_text h" "stdout r = h @ [newline]"
  shows "hash_line d r = Inr h"
proof -
  define x where "x = drop 7 h"
  from assms(1) have t: "take (length ''sha256:'') h = ''sha256:''" "hex_run 64 x"
    by (simp_all only: sha256_text_def starts_with_def x_def)
  moreover have "length ''sha256:'' = 7" by simp
  ultimately have h: "h = ''sha256:'' @ x" "length x = 64" "list_all is_hex_lower x"
    unfolding x_def hex_run_def by (metis append_take_drop_id, blast+)
  have plain: "\<not> line_break c" "\<not> py_space c" if "is_hex_lower c" for c
    using that by (auto simp: is_hex_lower_def line_break_def py_space_def)
  have "x \<noteq> []" using h(2) by auto
  moreover from this have "is_hex_lower (last x)" using h(3) by (simp add: list_all_iff)
  ultimately have ends: "h \<noteq> []" "\<not> py_space (hd h)" "\<not> py_space (last h)" using plain by (simp_all add: h(1) py_space_def)
  have "py_strip h = h" by (rule py_strip_id [OF ends])
  moreover have "py_strip (stdout r) = h" unfolding assms(2) by (rule py_strip_snoc_space [OF ends]) (simp add: py_space_def)
  moreover have "splitlines h = [h]"
    unfolding splitlines_def using h plain by (subst splitlines_acc_single) (auto simp: list_all_iff line_break_def)
  ultimately show ?thesis using ends(1) by (simp add: hash_line_def h(1) starts_with_def)
qed

section \<open>The command the script gives\<close>

lemma parse_separate:
  assumes "find_option T f = Some opt" "opt_action opt = Store cs" "f \<noteq> ''--''" "starts_with ''-'' f" "\<not> starts_with ''-'' v"
    and "\<And>choices. cs = Some choices \<Longrightarrow> v \<in> set choices"
  shows "parse_options T (f # v # as) (ns, ex) = parse_options T as (dict_set (opt_dest opt) v ns, ex)"
proof -
  have "classify T f = Some [(Some opt, Nothing)]" using assms(1,4) by (simp add: classify_def)
  moreover have "v \<noteq> ''--''" "classify T v = None" using assms(5) by (auto simp: classify_def starts_with_def)
  moreover have "store_value opt v ns = Inr (dict_set (opt_dest opt) v ns)"
    using assms(2,6) by (auto simp: store_value_def split: option.splits)
  ultimately show ?thesis using assms(2,3) by (simp add: parse_options.simps(2) consume_optional_def)
qed

definition script_args :: "string \<Rightarrow> string \<Rightarrow> score_args" where
  "script_args fixture_dir out_dir =
     \<lparr>arg_repo = fixture_dir, arg_mode = ''repo'', arg_commit = None, arg_out = out_dir, arg_verify_digests = ''true'',
       arg_assert_network_isolated = False\<rparr>"

lemma script_flags:
  "\<not> starts_with ''-'' v \<Longrightarrow> parse_options score_options (''--spec'' # v # as) (ns, ex) = parse_options score_options as (dict_set ''spec'' v ns, ex)"
  "\<not> starts_with ''-'' v \<Longrightarrow> parse_options score_options (''--repo'' # v # as) (ns, ex) = parse_options score_options as (dict_set ''repo'' v ns, ex)"
  "parse_options score_options (''--mode'' # ''repo'' # as) (ns, ex) = parse_options score_options as (dict_set ''mode'' ''repo'' ns, ex)"
  "\<not> starts_with ''-'' v \<Longrightarrow> parse_options score_options (''--out'' # v # as) (ns, ex) = parse_options score_options as (dict_set ''out'' v ns, ex)"
  subgoal by (subst parse_separate [OF score_flags(1), where cs = None]) (auto simp: stored_def starts_with_def)
  subgoal by (subst parse_separate [OF score_flags(2), where cs = None]) (auto simp: stored_def starts_with_def)
  subgoal by (subst parse_separate [OF score_flags(3), where cs = "Some [''repo'', ''commit'']"]) (auto simp: stored_def starts_with_def)
  subgoal by (subst parse_separate [OF score_flags(5), where cs = None]) (auto simp: stored_def starts_with_def)
  done

lemma script_argv_parses:
  assumes "\<not> starts_with ''-'' spec" "\<not> starts_with ''-'' d" "\<not> starts_with ''-'' dest_dir"
  shows "parse_args [''score'', ''--spec'', spec, ''--repo'', d, ''--mode'', ''repo'', ''--out'', dest_dir] = Inr (ScoreCommand spec (script_args d dest_dir))"
proof -
  let ?ns = "dict_set ''out'' dest_dir (dict_set ''mode'' ''repo'' (dict_set ''repo'' d (dict_set ''spec'' spec (defaults_of score_options))))"
  note step = script_flags(1) [OF assms(1)] script_flags(2) [OF assms(2)] script_flags(3) script_flags(4) [OF assms(3)]
  have p: "parse_options score_options [''--spec'', spec, ''--repo'', d, ''--mode'', ''repo'', ''--out'', dest_dir] (defaults_of score_options, False)
      = Inr (?ns, False)"
    by (simp add: step)
  have "run_parser score_options [''--spec'', spec, ''--repo'', d, ''--mode'', ''repo'', ''--out'', dest_dir] = Inr (?ns, False)"
    by (simp add: run_parser_def p, simp add: score_options_def help_options_def stored_def)
  moreover have "value_of ?ns ''spec'' = spec" "score_args_of ?ns = script_args d dest_dir"
    by (simp_all add: value_of_def score_args_of_def script_args_def, simp_all add: defaults_of_def score_options_def help_options_def stored_def)
  ultimately show ?thesis
    by (simp add: parse_args_def sub_command_def classify_def starts_with_def)
qed

section \<open>From the scorer to the files\<close>

text \<open>The process \<open>cce\<close> is the command line of \<open>CliArgs\<close>: \<open>W\<close> is the world it runs in, by the path of the spec, and
  \<open>st\<close> the files it finds.\<close>

definition runs_scorer :: "'w script_host \<Rightarrow> ('w \<Rightarrow> string \<Rightarrow> world) \<Rightarrow> ('w \<Rightarrow> store) \<Rightarrow> bool" where
  "runs_scorer H W st \<longleftrightarrow> (\<forall>argv spec opts wd env w. parse_args argv = Inr (ScoreCommand spec opts) \<longrightarrow>
     (let r = fst (sh_process H (cce_binary H # argv) wd env w); run = score_command (W w spec) opts (st w)
      in case exit_code run of
           Inl e \<Rightarrow> returncode r = 1
         | Inr c \<Rightarrow> returncode r = c \<and> (\<forall>h. printed run = Some h \<longrightarrow> stdout r = h @ [newline])))"

text \<open>The hash that a run of \<open>cce score\<close> on the fixture printed.\<close>

definition scored_as :: "'w script_host \<Rightarrow> ('w \<Rightarrow> string \<Rightarrow> world) \<Rightarrow> ('w \<Rightarrow> store) \<Rightarrow> string \<Rightarrow> string \<Rightarrow> bool" where
  "scored_as H W st name h \<longleftrightarrow> (\<exists>w tmp dir run.
     dir \<in> {slash (slash tmp ''src'') name, slash (slash (slash tmp ''src'') name) ''repo''}
   \<and> run = score_command (W w (slash (sh_root H) ''scoring-spec.yaml'')) (script_args dir (slash tmp ''cce-out'')) (st w)
   \<and> exit_code run = Inr 0 \<and> printed run = Some h)"

lemma next_do_Inr: "next_do m f s = (Inr y, s') \<longleftrightarrow> (\<exists>x s1. m s = (Inr x, s1) \<and> f x s1 = (Inr y, s'))"
  by (auto simp: next_do_def split: prod.splits sum.splits)

lemma printed_shape:
  assumes "exit_code (score_command W opts st) = Inr 0" "\<forall>b. hex_run 64 (sha256_hex (w_libs W) b)"
  shows "\<exists>h. printed (score_command W opts st) = Some h \<and> sha256_text h"
proof -
  from score_success [OF assms(1)] obtain spec sha raws r where
    built: "build_score_record (w_libs W) spec (as_raw raws) (arg_repo opts) (arg_mode opts) sha (w_now W) = Inr r" and
    p: "printed (score_command W opts st) = Some (py_str (get_key r ''record_hash''))" by blast
  from build_items [OF built] obtain h where h: "get_item r ''record_hash'' = Inr (VStr h)" "hashed (w_libs W) h" by blast
  from h(1) have "get_key r ''record_hash'' = VStr h"
    by (auto simp: get_item_def get_key_def lookup_def split: option.splits)
  moreover have "sha256_text h" using h(2) assms(2) by (auto simp: hashed_def sha256_text_def starts_with_def)
  ultimately show ?thesis using p by simp
qed

lemma run_cce_scored:
  assumes "runs_scorer H W st" "\<forall>w spec b. hex_run 64 (sha256_hex (w_libs (W w spec)) b)"
    and "\<not> starts_with ''-'' (slash (sh_root H) ''scoring-spec.yaml'')" "\<not> starts_with ''-'' d" "\<not> starts_with ''-'' dest_dir"
    and run: "run_cce_score H d dest_dir s = (Inr h, s')"
  shows "\<exists>w. exit_code (score_command (W w (slash (sh_root H) ''scoring-spec.yaml'')) (script_args d dest_dir) (st w)) = Inr 0
    \<and> printed (score_command (W w (slash (sh_root H) ''scoring-spec.yaml'')) (script_args d dest_dir) (st w)) = Some h"
proof -
  let ?w = "snd s" and ?spec = "slash (sh_root H) ''scoring-spec.yaml''"
  let ?run = "score_command (W ?w ?spec) (script_args d dest_dir) (st ?w)"
  obtain r w' where p: "sh_process H (cce_binary H # score_argv H d dest_dir) (sh_root H) [] ?w = (r, w')" by (rule prod.exhaust)
  with run have r: "returncode r = 0" "hash_line d r = Inr h"
    by (auto simp: run_cce_score_def next_do_Inr run_checked_def split: if_splits)
  have "parse_args (score_argv H d dest_dir) = Inr (ScoreCommand ?spec (script_args d dest_dir))"
    unfolding score_argv_def by (rule script_argv_parses [OF assms(3-5)])
  with assms(1) have "case exit_code ?run of Inl e \<Rightarrow> returncode (fst (sh_process H (cce_binary H # score_argv H d dest_dir) wd env ?w)) = 1
      | Inr c \<Rightarrow> returncode (fst (sh_process H (cce_binary H # score_argv H d dest_dir) wd env ?w)) = c
        \<and> (\<forall>h. printed ?run = Some h \<longrightarrow> stdout (fst (sh_process H (cce_binary H # score_argv H d dest_dir) wd env ?w)) = h @ [newline])"
    for wd env unfolding runs_scorer_def Let_def by blast
  from this [of "sh_root H" "[]"] have o: "case exit_code ?run of Inl e \<Rightarrow> returncode r = 1
      | Inr c \<Rightarrow> returncode r = c \<and> (\<forall>h. printed ?run = Some h \<longrightarrow> stdout r = h @ [newline])"
    unfolding p fst_conv .
  with r(1) have z: "exit_code ?run = Inr 0" by (auto split: sum.splits)
  with printed_shape [OF z] assms(2) obtain h' where h': "printed ?run = Some h'" "sha256_text h'" by blast
  with o z have "stdout r = h' @ [newline]" by simp
  from hash_line_printed [OF h'(2) this] r(2) have "h' = h" by simp
  with z h'(1) show ?thesis by blast
qed

lemma slash_absolute: "starts_with ''/'' p \<Longrightarrow> starts_with ''/'' (slash p x)" "starts_with ''/'' p \<Longrightarrow> \<not> starts_with ''-'' p"
  by (cases p; auto simp: slash_def starts_with_def)+

lemma materialised:
  "materialise_fixture H name dest_root s = (Inr d, s') \<Longrightarrow> d \<in> {slash dest_root name, slash (slash dest_root name) ''repo''}"
  by (auto simp: materialise_fixture_def next_do_Inr done_with_def Let_def split: if_splits)

definition scored_by_model :: "'w script_host \<Rightarrow> ('w \<Rightarrow> string \<Rightarrow> world) \<Rightarrow> ('w \<Rightarrow> store) \<Rightarrow> bool" where
  "scored_by_model H W st \<longleftrightarrow> runs_scorer H W st \<and> (\<forall>w spec b. hex_run 64 (sha256_hex (w_libs (W w spec)) b))
     \<and> starts_with ''/'' (sh_root H) \<and> (\<forall>p w. starts_with ''/'' (fst (sh_tmpdir H p w)))"

lemma each_writes:
  assumes "\<And>x s u s'. f x s = (Inr u, s') \<Longrightarrow> \<exists>y. P x y \<and> writes_of (fst s') = writes_of (fst s) @ [g x y]"
    and "for_each f xs s = (Inr u, s')"
  shows "\<exists>ys. list_all2 P xs ys \<and> writes_of (fst s') = writes_of (fst s) @ map (\<lambda>(x, y). g x y) (zip xs ys)"
  using assms(2)
proof (induction xs arbitrary: s)
  case Nil
  then show ?case by (simp add: done_with_def)
next
  case (Cons x xs)
  then obtain v s1 where s1: "f x s = (Inr v, s1)" "for_each f xs s1 = (Inr u, s')" by (auto simp: next_do_Inr)
  from assms(1) [OF s1(1)] obtain y where y: "writes_of (fst s1) = writes_of (fst s) @ [g x y]" "P x y" by blast
  from Cons.IH [OF s1(2)] obtain ys where "list_all2 P xs ys"
    "writes_of (fst s') = writes_of (fst s1) @ map (\<lambda>(x, y). g x y) (zip xs ys)" by blast
  with y show ?case by (intro exI [of _ "y # ys"]) simp
qed

lemma regenerated_one:
  assumes "scored_by_model H W st" "regenerate_one H name s = (Inr u, s')"
  shows "\<exists>h. scored_as H W st name h \<and> writes_of (fst s') = writes_of (fst s) @ [(hash_file H name, h @ [newline])]"
proof -
  from assms(2) obtain h s1 where
    h: "with_tmpdir H (''cce-'' @ name @ ''-'') (score_fixture H name) s = (Inr h, s1)"
      "file_op H (WriteFile (hash_file H name) (h @ [newline])) s1 = (Inr u, s')"
    by (auto simp: regenerate_one_def next_do_Inr)
  obtain tmp w where t: "sh_tmpdir H (''cce-'' @ name @ ''-'') (snd s) = (tmp, w)" by (rule prod.exhaust)
  with h(1) obtain s2 where "score_fixture H name tmp (fst s, w) = (Inr h, s2)"
    by (auto simp: with_tmpdir_def split: prod.splits sum.splits)
  then obtain d s3 s4 where d: "materialise_fixture H name (slash tmp ''src'') (fst s, w) = (Inr d, s3)"
    "run_cce_score H d (slash tmp ''cce-out'') s4 = (Inr h, s2)"
    by (auto simp: score_fixture_def next_do_Inr)
  have abs: "starts_with ''/'' tmp" using assms(1) t unfolding scored_by_model_def by (metis fst_conv)
  with materialised [OF d(1)] have "\<not> starts_with ''-'' d" by (auto intro!: slash_absolute)
  moreover have "\<not> starts_with ''-'' (slash tmp ''cce-out'')" "\<not> starts_with ''-'' (slash (sh_root H) ''scoring-spec.yaml'')"
    using abs assms(1) slash_absolute unfolding scored_by_model_def by blast+
  ultimately obtain v where "exit_code (score_command (W v (slash (sh_root H) ''scoring-spec.yaml'')) (script_args d (slash tmp ''cce-out'')) (st v)) = Inr 0"
    "printed (score_command (W v (slash (sh_root H) ''scoring-spec.yaml'')) (script_args d (slash tmp ''cce-out'')) (st v)) = Some h"
    using run_cce_scored [OF _ _ _ _ _ d(2), of W st] assms(1) unfolding scored_by_model_def by blast
  with materialised [OF d(1)] have "scored_as H W st name h"
    unfolding scored_as_def by (intro exI [of _ v] exI [of _ tmp] exI [of _ d] exI) (rule conjI, assumption, rule conjI, rule refl, simp)
  moreover have "writes_of (fst s') = writes_of (fst s1) @ [(hash_file H name, h @ [newline])]"
    using h(2) by (auto simp: file_op_def Let_def split: prod.splits)
  ultimately show ?thesis using quietD [OF quiet_tmpdir [OF quiet_fixture] h(1)] by auto
qed

text \<open>Regenerated hashes are scores: on a host where \<open>cce\<close> is the modelled command line, a run of the script that
  does not stop early has written exactly one file per fixture, in order, each with the hash that \<open>cce score\<close> printed for
  a repository of that fixture, scored with the shipped spec in \<open>repo\<close> mode with its digests checked.\<close>

lemma golden_hashes_are_scores:
  assumes "scored_by_model H W st" "regenerate_hashes H s = (Inr u, s')"
  shows "\<exists>hs. list_all2 (scored_as H W st) FIXTURES hs
    \<and> writes_of (fst s') = writes_of (fst s) @ map (\<lambda>(name, h). (hash_file H name, h @ [newline])) (zip FIXTURES hs)"
  by (rule each_writes [OF regenerated_one [OF assms(1)] assms(2) [unfolded regenerate_hashes_def]])

text \<open>The spans are a function of the sources: a second run on an unchanged tree writes the same files.\<close>

definition bytes_for :: "'w script_host \<Rightarrow> libs \<Rightarrow> (string \<Rightarrow> string \<Rightarrow> golden_error + pyval) \<Rightarrow> string \<times> string \<times> string \<Rightarrow> string \<Rightarrow> bool" where
  "bytes_for H L collect_spans tgt b \<longleftrightarrow> (\<exists>spans. collect_spans (slash (sh_root H) (snd (snd tgt))) (fst (snd tgt)) = Inr spans
     \<and> canonical_json_bytes L (spans_payload (snd (snd tgt)) (fst (snd tgt)) spans) = Inr b)"

lemma spans_written:
  assumes "regenerate_spans H L collect_spans s = (Inr u, s')"
  shows "\<exists>bs. list_all2 (bytes_for H L collect_spans) TARGETS bs
    \<and> writes_of (fst s') = writes_of (fst s) @ map (\<lambda>(tgt, b). (slash (golden_dir H) (fst tgt @ ''.json''), b)) (zip TARGETS bs)"
proof -
  have one: "\<exists>b. bytes_for H L collect_spans tgt b
      \<and> writes_of (fst t') = writes_of (fst t) @ [(\<lambda>tgt b. (slash (golden_dir H) (fst tgt @ ''.json''), b)) tgt b]"
    if "write_spans H L collect_spans tgt t = (Inr w, t')" for tgt t t' w
    using that
    by (cases tgt) (auto simp: write_spans_def file_op_def bytes_for_def result_simps Let_def split: prod.splits sum.splits)
  from assms obtain w s1 where s1: "file_op H (Mkdir (golden_dir H)) s = (Inr w, s1)"
    "for_each (write_spans H L collect_spans) TARGETS s1 = (Inr u, s')"
    by (auto simp: regenerate_spans_def next_do_Inr)
  from each_writes [where f = "write_spans H L collect_spans" and P = "bytes_for H L collect_spans", OF one s1(2)]
    quietD [OF quiet_file_op(1) s1(1)] show ?thesis by simp
qed

lemma spans_are_deterministic:
  assumes "regenerate_spans H L collect_spans s = (Inr u, s')" "regenerate_spans H L collect_spans t = (Inr v, t')"
    and "writes_of (fst s) = []" "writes_of (fst t) = []"
  shows "writes_of (fst s') = writes_of (fst t')"
proof -
  have "bs = cs" if "list_all2 (bytes_for H L collect_spans) xs bs" "list_all2 (bytes_for H L collect_spans) xs cs" for xs bs cs
    using that by (induction xs arbitrary: bs cs) (auto simp: list_all2_Cons1 bytes_for_def)
  with spans_written [OF assms(1)] spans_written [OF assms(2)] assms(3,4) show ?thesis by fastforce
qed

end
